(* ===== verification/Relay_Prelude.thy ===== *)
theory Relay_Prelude
  imports Main "HOL-Library.AList" "HOL-Library.Char_ord" "HOL-Library.List_Lexorder"
begin

text \<open>
  Shared vocabulary of the development: the collections of rules the component theories
  feed and use, Go maps as association lists, and the Go string functions the relay's code
  calls (package \<^verbatim>\<open>strings\<close>), defined on byte strings.

  A Go string is a sequence of bytes; \<^typ>\<open>string\<close> is a list of 8-bit characters, so the
  two agree byte for byte.
\<close>

section \<open>Rule collections\<close>

named_theorems go_string_simps \<open>evaluation rules of the Go string functions\<close>
named_theorems relay_defs \<open>defining equations of small accessors that proofs unfold freely\<close>
named_theorems world_frame \<open>what an operation leaves unchanged\<close>

section \<open>Go maps\<close>

text \<open>
  A Go map is modelled by an association list: lookups read the first binding, an assignment
  \<^verbatim>\<open>m[k] = v\<close> replaces the binding in place or adds one, \<^verbatim>\<open>delete(m, k)\<close> drops it.
  Reading an absent key of a \<^verbatim>\<open>map[string]string\<close> gives the empty string.
\<close>

type_synonym ('k, 'v) gomap = "('k \<times> 'v) list"

abbreviation gomap_get :: "('k, 'v) gomap \<Rightarrow> 'k \<Rightarrow> 'v option" where
  "gomap_get m k \<equiv> map_of m k"

abbreviation gomap_set :: "'k \<Rightarrow> 'v \<Rightarrow> ('k, 'v) gomap \<Rightarrow> ('k, 'v) gomap" where
  "gomap_set \<equiv> AList.update"

abbreviation gomap_del :: "'k \<Rightarrow> ('k, 'v) gomap \<Rightarrow> ('k, 'v) gomap" where
  "gomap_del \<equiv> AList.delete"

definition gomap_str :: "(string, string) gomap \<Rightarrow> string \<Rightarrow> string" where
  "gomap_str m k = (case map_of m k of None \<Rightarrow> '''' | Some v \<Rightarrow> v)"

lemma gomap_get_set [simp]:
  "map_of (AList.update k v m) k' = (if k' = k then Some v else map_of m k')"
  by (simp add: update_conv')

lemma gomap_get_del [simp]:
  "map_of (AList.delete k m) k' = (if k' = k then None else map_of m k')"
  by (simp add: delete_conv')

lemma gomap_distinct_set [simp]:
  "distinct (map fst m) \<Longrightarrow> distinct (map fst (AList.update k v m))"
  by (rule distinct_update)

lemma gomap_distinct_del [simp]:
  "distinct (map fst m) \<Longrightarrow> distinct (map fst (AList.delete k m))"
  by (rule distinct_delete)

lemma gomap_keys_set: "fst ` set (AList.update k v m) = insert k (fst ` set m)"
  using dom_update [of k v m] by simp

lemma gomap_length_set_present: "k \<in> fst ` set m \<Longrightarrow> length (AList.update k v m) = length m"
  by (induction m) auto

lemma gomap_length_set_absent: "k \<notin> fst ` set m \<Longrightarrow> length (AList.update k v m) = Suc (length m)"
  by (induction m) auto

lemma gomap_length_del_le: "length (AList.delete k m) \<le> length m"
  by (simp add: AList.delete_eq)

text \<open>A Go set \<^verbatim>\<open>map[K]struct{}\<close>.\<close>

lemma gomap_unit: "map_of (m :: ('k, unit) gomap) k = (if k \<in> fst ` set m then Some () else None)"
  by (induction m) auto

section \<open>Package strings\<close>

text \<open>\<^verbatim>\<open>strings.HasPrefix(s, p)\<close> and \<^verbatim>\<open>strings.HasSuffix(s, p)\<close>.\<close>

fun HasPrefix :: "string \<Rightarrow> string \<Rightarrow> bool" where
  "HasPrefix s [] = True"
| "HasPrefix [] (p # ps) = False"
| "HasPrefix (c # s) (p # ps) = (c = p \<and> HasPrefix s ps)"

definition HasSuffix :: "string \<Rightarrow> string \<Rightarrow> bool" where
  "HasSuffix s p = HasPrefix (rev s) (rev p)"

lemma HasPrefix_iff: "HasPrefix s p \<longleftrightarrow> (\<exists>t. s = p @ t)"
  by (induction s p rule: HasPrefix.induct) auto

lemma HasPrefix_append [simp]: "HasPrefix (p @ t) p"
  by (auto simp: HasPrefix_iff)

lemma HasPrefix_refl [simp]: "HasPrefix s s"
  by (induction s) auto

lemma HasSuffix_iff: "HasSuffix s p \<longleftrightarrow> (\<exists>t. s = t @ p)"
proof
  assume "HasSuffix s p"
  then obtain t where "rev s = rev p @ t"
    by (auto simp: HasSuffix_def HasPrefix_iff)
  then have "s = rev t @ p"
    by (metis rev_append rev_rev_ident)
  then show "\<exists>t. s = t @ p" ..
next
  assume "\<exists>t. s = t @ p"
  then show "HasSuffix s p"
    by (auto simp: HasSuffix_def HasPrefix_iff)
qed

lemma HasSuffix_append [simp]: "HasSuffix (t @ p) p"
  by (auto simp: HasSuffix_iff)

text \<open>Two suffixes of one string: one is a suffix of the other.\<close>

lemma HasSuffix_comparable:
  assumes "HasSuffix s p" and "HasSuffix s q"
  shows "HasSuffix p q \<or> HasSuffix q p"
proof -
  obtain t where "s = t @ p" using assms(1) by (auto simp: HasSuffix_iff)
  moreover obtain u where "s = u @ q" using assms(2) by (auto simp: HasSuffix_iff)
  ultimately have "t @ p = u @ q" by simp
  then show ?thesis
    by (auto simp: HasSuffix_iff append_eq_append_conv2)
qed

lemma HasPrefix_comparable:
  assumes "HasPrefix s p" and "HasPrefix s q"
  shows "HasPrefix p q \<or> HasPrefix q p"
  using assms by (auto simp: HasPrefix_iff append_eq_append_conv2)

text \<open>\<^verbatim>\<open>strings.Index(s, sub)\<close>: the first position where \<open>sub\<close> occurs.\<close>

fun Index :: "string \<Rightarrow> string \<Rightarrow> nat option" where
  "Index [] sub = (if sub = [] then Some 0 else None)"
| "Index (c # t) sub =
     (if HasPrefix (c # t) sub then Some 0 else map_option Suc (Index t sub))"

definition Contains :: "string \<Rightarrow> string \<Rightarrow> bool" where
  "Contains s sub = (Index s sub \<noteq> None)"

lemma Index_Some: "Index s sub = Some i \<Longrightarrow> \<exists>t. s = take i s @ sub @ t"
proof (induction s arbitrary: i)
  case Nil
  then show ?case by (simp split: if_splits)
next
  case (Cons c s)
  show ?case
  proof (cases "HasPrefix (c # s) sub")
    case True
    with Cons.prems show ?thesis by (auto simp: HasPrefix_iff)
  next
    case False
    with Cons.prems obtain j where "Index s sub = Some j" "i = Suc j" by auto
    with Cons.IH show ?thesis by auto
  qed
qed

lemma Index_None: "Index s sub = None \<Longrightarrow> s \<noteq> a @ sub @ b"
proof (induction s arbitrary: a)
  case Nil
  then show ?case by (auto split: if_splits)
next
  case (Cons c s)
  then have np: "\<not> HasPrefix (c # s) sub" and rec: "Index s sub = None"
    by (auto split: if_splits)
  show ?case
  proof (cases a)
    case Nil
    with np show ?thesis by (auto simp: HasPrefix_iff)
  next
    case (Cons d a')
    with Cons.IH [OF rec, of a'] show ?thesis by auto
  qed
qed

lemma Contains_iff: "Contains s sub \<longleftrightarrow> (\<exists>a b. s = a @ sub @ b)"
proof
  assume "Contains s sub"
  then obtain i where "Index s sub = Some i" by (auto simp: Contains_def)
  from Index_Some [OF this] show "\<exists>a b. s = a @ sub @ b" by blast
next
  assume "\<exists>a b. s = a @ sub @ b"
  then show "Contains s sub" using Index_None [of s sub] by (fastforce simp: Contains_def)
qed

text \<open>\<^verbatim>\<open>strings.TrimRight(s, "c")\<close> for a one-byte cutset, and \<^verbatim>\<open>strings.ToLower\<close> on ASCII.\<close>

definition TrimRightByte :: "string \<Rightarrow> char \<Rightarrow> string" where
  "TrimRightByte s c = rev (dropWhile (\<lambda>x. x = c) (rev s))"

lemma TrimRightByte_no_suffix: "\<not> HasSuffix (TrimRightByte s c) [c]"
proof
  assume "HasSuffix (TrimRightByte s c) [c]"
  then obtain t where "rev (dropWhile (\<lambda>x. x = c) (rev s)) = t @ [c]"
    by (auto simp: HasSuffix_iff TrimRightByte_def)
  then have "dropWhile (\<lambda>x. x = c) (rev s) = c # rev t"
    by (metis rev_rev_ident rev_eq_Cons_iff)
  then show False by (metis (mono_tags, lifting) dropWhile_eq_Cons_conv)
qed

text \<open>\<^verbatim>\<open>strings.Split(s, sep)\<close> for a one-byte separator.\<close>

fun SplitByte :: "char \<Rightarrow> string \<Rightarrow> string list" where
  "SplitByte c [] = [[]]"
| "SplitByte c (x # xs) =
     (if x = c then [] # SplitByte c xs
      else (case SplitByte c xs of [] \<Rightarrow> [[x]] | p # ps \<Rightarrow> (x # p) # ps))"

lemma SplitByte_nonempty [simp]: "SplitByte c s \<noteq> []"
  by (induction s) (auto split: list.splits)

lemma SplitByte_no_sep: "p \<in> set (SplitByte c s) \<Longrightarrow> c \<notin> set p"
  by (induction s arbitrary: p) (auto split: list.splits if_splits)

end
