(* ===== verification/Go_Std.thy ===== *)
theory Go_Std
  imports Relay_Prelude
begin

text \<open>
  The parts of Go's standard library that decide what the relay does: UTF-8 decoding
  (package \<^verbatim>\<open>unicode/utf8\<close> and the conversions between \<^verbatim>\<open>string\<close> and \<^verbatim>\<open>[]rune\<close>),
  decimal integers (\<^verbatim>\<open>strconv\<close>), the shell-style patterns of \<^verbatim>\<open>path.Match\<close>, percent
  escaping (\<^verbatim>\<open>url.PathEscape\<close>) and the saturating arithmetic of \<^verbatim>\<open>time.Duration\<close>.
\<close>

section \<open>Runes\<close>

abbreviation byte :: "char \<Rightarrow> nat" where
  "byte c \<equiv> of_char c"

abbreviation RuneError :: nat where
  "RuneError \<equiv> 65533"

definition is_cont :: "char \<Rightarrow> bool" where
  "is_cont c = (128 \<le> byte c \<and> byte c \<le> 191)"

text \<open>\<^verbatim>\<open>utf8.DecodeRuneInString\<close>: the first rune and its width; an invalid sequence is
  \<^const>\<open>RuneError\<close> of width 1, the empty string has width 0.\<close>

definition decode_rune :: "string \<Rightarrow> nat \<times> nat" where
  "decode_rune s =
    (case s of [] \<Rightarrow> (RuneError, 0)
     | c0 # r \<Rightarrow>
       (let b0 = byte c0 in
        if b0 < 128 then (b0, 1)
        else if 194 \<le> b0 \<and> b0 \<le> 223 then
          (case r of c1 # _ \<Rightarrow>
             if is_cont c1 then (b0 mod 32 * 64 + byte c1 mod 64, 2) else (RuneError, 1)
           | [] \<Rightarrow> (RuneError, 1))
        else if 224 \<le> b0 \<and> b0 \<le> 239 then
          (case r of c1 # c2 # _ \<Rightarrow>
             if (if b0 = 224 then 160 else 128) \<le> byte c1 \<and> byte c1 \<le> (if b0 = 237 then 159 else 191)
                \<and> is_cont c2
             then (b0 mod 16 * 4096 + byte c1 mod 64 * 64 + byte c2 mod 64, 3) else (RuneError, 1)
           | _ \<Rightarrow> (RuneError, 1))
        else if 240 \<le> b0 \<and> b0 \<le> 244 then
          (case r of c1 # c2 # c3 # _ \<Rightarrow>
             if (if b0 = 240 then 144 else 128) \<le> byte c1 \<and> byte c1 \<le> (if b0 = 244 then 143 else 191)
                \<and> is_cont c2 \<and> is_cont c3
             then (b0 mod 8 * 262144 + byte c1 mod 64 * 4096 + byte c2 mod 64 * 64 + byte c3 mod 64, 4)
             else (RuneError, 1)
           | _ \<Rightarrow> (RuneError, 1))
        else (RuneError, 1)))"

lemma decode_rune_width:
  "s \<noteq> [] \<Longrightarrow> 1 \<le> snd (decode_rune s) \<and> snd (decode_rune s) \<le> length s"
  by (auto simp: decode_rune_def Let_def split: list.splits)

lemma decode_rune_width_pos [simp]: "0 < snd (decode_rune (c # s))"
  using decode_rune_width [of "c # s"] by simp

text \<open>The conversion \<^verbatim>\<open>[]rune(s)\<close>; its length is \<^verbatim>\<open>utf8.RuneCountInString(s)\<close>.\<close>

function runes :: "string \<Rightarrow> nat list" where
  "runes [] = []"
| "runes (c # s) =
     fst (decode_rune (c # s)) # runes (drop (snd (decode_rune (c # s))) (c # s))"
  by pat_completeness auto
termination
proof (relation "measure length", goal_cases)
  case (2 c s)
  then show ?case using decode_rune_width [of "c # s"] by (simp add: drop_Cons')
qed simp

declare runes.simps(2) [simp del]

abbreviation RuneCount :: "string \<Rightarrow> nat" where
  "RuneCount s \<equiv> length (runes s)"

lemma RuneCount_le_length: "RuneCount s \<le> length s"
proof (induction s rule: runes.induct)
  case 1
  then show ?case by simp
next
  case (2 c s)
  have w: "1 \<le> snd (decode_rune (c # s))" "snd (decode_rune (c # s)) \<le> Suc (length s)"
    using decode_rune_width [of "c # s"] by auto
  have "RuneCount (c # s) = Suc (RuneCount (drop (snd (decode_rune (c # s))) (c # s)))"
    by (simp add: runes.simps(2))
  also have "\<dots> \<le> Suc (length (drop (snd (decode_rune (c # s))) (c # s)))"
    using "2.IH" by simp
  also have "\<dots> \<le> length (c # s)" using w by simp
  finally show ?case .
qed

text \<open>The conversion \<^verbatim>\<open>string(runes)\<close>: surrogates and values above the last code point
  are encoded as \<^const>\<open>RuneError\<close>.\<close>

definition valid_rune :: "nat \<Rightarrow> bool" where
  "valid_rune r = (r < 55296 \<or> (57344 \<le> r \<and> r < 1114112))"

definition encode_rune :: "nat \<Rightarrow> string" where
  "encode_rune r0 =
    (let r = (if valid_rune r0 then r0 else RuneError) in
     if r < 128 then [char_of r]
     else if r < 2048 then [char_of (192 + r div 64), char_of (128 + r mod 64)]
     else if r < 65536 then
       [char_of (224 + r div 4096), char_of (128 + r div 64 mod 64), char_of (128 + r mod 64)]
     else
       [char_of (240 + r div 262144), char_of (128 + r div 4096 mod 64),
        char_of (128 + r div 64 mod 64), char_of (128 + r mod 64)])"

definition string_of_runes :: "nat list \<Rightarrow> string" where
  "string_of_runes rs = concat (map encode_rune rs)"

lemma byte_char_of: "n < 256 \<Longrightarrow> byte (char_of n) = n"
  by simp

lemma byte_less: "byte c < 256"
  using of_char_mod_256 [of c] by (metis mod_less_divisor zero_less_numeral)

lemma byte_div_16: "byte c div 16 < 16"
  using byte_less [of c] by (intro less_mult_imp_div_less) simp

lemma lead_mod:
  "x < 16 \<Longrightarrow> (224 + x) mod 16 = x" "x < 8 \<Longrightarrow> (240 + x) mod 8 = x"
  "x < 32 \<Longrightarrow> (192 + x) mod 32 = x" "x < 64 \<Longrightarrow> (128 + x) mod 64 = x" for x :: nat
  using mod_mult_self3 [of 14 16 x] mod_mult_self3 [of 30 8 x] mod_mult_self3 [of 6 32 x]
    mod_mult_self3 [of 2 64 x] by simp_all

lemma valid_rune_if:
  "(C \<Longrightarrow> valid_rune a) \<Longrightarrow> valid_rune b \<Longrightarrow> valid_rune (fst (if C then (a, n) else (b, m)))"
  by simp

lemma three_byte_valid:
  assumes "224 \<le> b0" "b0 \<le> 239" "128 \<le> b1" "b1 \<le> (if b0 = 237 then 159 else 191)"
  shows "valid_rune (b0 mod 16 * 4096 + b1 mod 64 * 64 + b2 mod 64)"
proof -
  define x where "x = b0 - 224"
  define y where "y = b1 - 128"
  have x: "b0 = 224 + x" "x < 16" using assms(1,2) by (auto simp: x_def)
  have y: "b1 = 128 + y" "y \<le> (if x = 13 then 31 else 63)"
    using assms(3,4) x by (auto simp: y_def split: if_splits)
  have yy: "y < 64" using y(2) by (auto split: if_splits)
  have m: "b0 mod 16 = x" "b1 mod 64 = y"
    unfolding x(1) y(1) by (rule lead_mod(1) [OF x(2)], rule lead_mod(4) [OF yy])
  have z: "b2 mod 64 < 64" by simp
  show ?thesis unfolding m valid_rune_def using x y(2) z by (auto split: if_splits)
qed

lemma four_byte_valid:
  assumes "240 \<le> b0" "b0 \<le> 244" "(if b0 = 240 then 144 else 128) \<le> b1"
    "b1 \<le> (if b0 = 244 then 143 else 191)"
  shows "valid_rune (b0 mod 8 * 262144 + b1 mod 64 * 4096 + b2 mod 64 * 64 + b3 mod 64)"
proof -
  define x where "x = b0 - 240"
  define y where "y = b1 - 128"
  have x: "b0 = 240 + x" "x < 8" "x \<le> 4" using assms(1,2) by (auto simp: x_def)
  have y: "b1 = 128 + y" "(if x = 0 then 16 else 0) \<le> y" "y \<le> (if x = 4 then 15 else 63)"
    using assms(3,4) x by (auto simp: y_def split: if_splits)
  have yy: "y < 64" using y(3) by (auto split: if_splits)
  have m: "b0 mod 8 = x" "b1 mod 64 = y"
    unfolding x(1) y(1) by (rule lead_mod(2) [OF x(2)], rule lead_mod(4) [OF yy])
  have z: "b2 mod 64 < 64" "b3 mod 64 < 64" by simp_all
  show ?thesis unfolding m valid_rune_def using x(3) y(2,3) z by (auto split: if_splits)
qed

lemma two_byte_valid: "valid_rune (b0 mod 32 * 64 + b1 mod 64)"
proof -
  have "b0 mod 32 < 32" "b1 mod 64 < 64" by simp_all
  then show ?thesis unfolding valid_rune_def by linarith
qed

lemma decode_rune_valid: "valid_rune (fst (decode_rune s))"
proof (cases s)
  case Nil
  then show ?thesis by (simp add: decode_rune_def valid_rune_def)
next
  case (Cons c0 r)
  have e: "valid_rune RuneError" by (simp add: valid_rune_def)
  show ?thesis
  proof (cases "byte c0 < 128")
    case True
    then show ?thesis by (simp add: Cons decode_rune_def Let_def valid_rune_def)
  next
    case ge: False
    let ?b = "byte c0 :: nat"
    consider "194 \<le> ?b \<and> ?b \<le> 223" | "224 \<le> ?b \<and> ?b \<le> 239" | "240 \<le> ?b \<and> ?b \<le> 244"
      | "\<not> (194 \<le> ?b \<and> ?b \<le> 223) \<and> \<not> (224 \<le> ?b \<and> ?b \<le> 239) \<and> \<not> (240 \<le> ?b \<and> ?b \<le> 244)"
      by blast
    then show ?thesis
    proof cases
      case 1
      with ge e two_byte_valid show ?thesis
        by (simp add: Cons decode_rune_def Let_def split: list.split)
    next
      case 2
      have "valid_rune (?b mod 16 * 4096 + byte c1 mod 64 * 64 + byte c2 mod 64)"
        if "(if ?b = 224 then 160 else 128) \<le> (byte c1 :: nat) \<and> byte c1 \<le> (if ?b = 237 then 159 else 191 :: nat)
          \<and> is_cont c2" for c1 c2
        using that 2 by (intro three_byte_valid) (auto split: if_splits)
      with 2 ge e show ?thesis
        by (auto simp: Cons decode_rune_def Let_def simp del: if_split split: list.split intro!: valid_rune_if)
    next
      case 3
      have "valid_rune (?b mod 8 * 262144 + byte c1 mod 64 * 4096 + byte c2 mod 64 * 64 + byte c3 mod 64)"
        if "(if ?b = 240 then 144 else 128) \<le> (byte c1 :: nat) \<and> byte c1 \<le> (if ?b = 244 then 143 else 191 :: nat)
          \<and> is_cont c2 \<and> is_cont c3" for c1 c2 c3
        using that 3 by (intro four_byte_valid) auto
      with 3 ge e show ?thesis
        by (auto simp: Cons decode_rune_def Let_def simp del: if_split split: list.split intro!: valid_rune_if)
    next
      case 4
      with ge e show ?thesis by (simp only: Cons decode_rune_def Let_def list.case if_False) simp
    qed
  qed
qed

lemma runes_valid: "r \<in> set (runes s) \<Longrightarrow> valid_rune r"
  by (induction s rule: runes.induct)
    (auto simp: runes.simps(2) decode_rune_valid)

text \<open>Decoding what was encoded gives the rune back, whatever bytes follow.\<close>

lemma decode_encode_rune:
  assumes "valid_rune r"
  shows "decode_rune (encode_rune r @ s) = (r, length (encode_rune r))"
proof -
  consider "r < 128" | "128 \<le> r" "r < 2048" | "2048 \<le> r" "r < 65536" | "65536 \<le> r" "r < 1114112"
    using assms by (auto simp: valid_rune_def) linarith+
  then show ?thesis
  proof cases
    case 1
    with assms show ?thesis by (simp add: encode_rune_def decode_rune_def Let_def)
  next
    case 2
    define x y where "x = r div 64" and "y = r mod 64"
    have r: "r = x * 64 + y" by (simp add: x_def y_def)
    have b: "x < 32" "y < 64" using 2 by (auto simp: x_def y_def)
    have lo: "2 \<le> x" using 2 r b by linarith
    show ?thesis
      using 2 assms b lo lead_mod(3) [OF b(1)] lead_mod(4) [OF b(2)]
      by (simp add: encode_rune_def decode_rune_def Let_def is_cont_def flip: x_def y_def) (simp add: r)
  next
    case 3
    define x y z where "x = r div 4096" and "y = r div 64 mod 64" and "z = r mod 64"
    have "r div 64 * 64 + z = r" unfolding z_def by (rule div_mult_mod_eq)
    moreover have "x * 64 + y = r div 64"
      using div_mult_mod_eq [of "r div 64" 64] by (simp add: x_def y_def flip: div_mult2_eq)
    ultimately have r: "r = x * 4096 + y * 64 + z" by linarith
    have b: "x < 16" "y < 64" "z < 64" using 3 by (auto simp: x_def y_def z_def)
    have lo: "x = 0 \<Longrightarrow> 32 \<le> y" using 3 r b by linarith
    have hi: "x = 13 \<longrightarrow> y \<le> 31" using r b assms by (auto simp: valid_rune_def)
    show ?thesis
      using 3 assms b lo hi lead_mod(1) [OF b(1)] lead_mod(4) [OF b(2)] lead_mod(4) [OF b(3)]
      by (simp add: encode_rune_def decode_rune_def Let_def is_cont_def flip: x_def y_def z_def) (auto simp: r)
  next
    case 4
    define x y z w where "x = r div 262144" and "y = r div 4096 mod 64" and "z = r div 64 mod 64"
      and "w = r mod 64"
    have "r div 64 * 64 + w = r" unfolding w_def by (rule div_mult_mod_eq)
    moreover have "r div 4096 * 64 + z = r div 64"
      using div_mult_mod_eq [of "r div 64" 64] by (simp add: z_def flip: div_mult2_eq)
    moreover have "x * 64 + y = r div 4096"
      using div_mult_mod_eq [of "r div 4096" 64] by (simp add: x_def y_def flip: div_mult2_eq)
    ultimately have r: "r = x * 262144 + y * 4096 + z * 64 + w" by linarith
    have b: "x < 8" "y < 64" "z < 64" "w < 64" using 4 by (auto simp: x_def y_def z_def w_def)
    have lo: "x = 0 \<Longrightarrow> 16 \<le> y" using 4 r b by linarith
    have hi: "x \<le> 4" "x = 4 \<Longrightarrow> y < 16" using 4 r b by linarith+
    show ?thesis
      using 4 assms b lo hi lead_mod(2) [OF b(1)] lead_mod(4) [OF b(2)] lead_mod(4) [OF b(3)]
        lead_mod(4) [OF b(4)]
      by (simp add: encode_rune_def decode_rune_def Let_def is_cont_def flip: x_def y_def z_def w_def)
        (auto simp: r)
  qed
qed

lemma encode_rune_nonempty [simp]: "encode_rune r \<noteq> []"
  by (simp add: encode_rune_def Let_def)

lemma runes_encode_append:
  assumes "valid_rune r"
  shows "runes (encode_rune r @ s) = r # runes s"
proof -
  obtain c t where ct: "encode_rune r @ s = c # t" by (cases "encode_rune r @ s") auto
  have "runes (c # t) = fst (decode_rune (c # t)) # runes (drop (snd (decode_rune (c # t))) (c # t))"
    by (rule runes.simps(2))
  also have "\<dots> = r # runes s"
    by (simp add: ct [symmetric] decode_encode_rune [OF assms])
  finally show ?thesis using ct by simp
qed

lemma runes_string_of_runes:
  "\<forall>r \<in> set rs. valid_rune r \<Longrightarrow> runes (string_of_runes rs @ s) = rs @ runes s"
  by (induction rs) (auto simp: string_of_runes_def runes_encode_append)

section \<open>path.Match\<close>

text \<open>
  \<^verbatim>\<open>path.Match\<close> splits the pattern into chunks between stars. The results below follow Go's
  three outcomes: \<^term>\<open>None\<close> is \<^verbatim>\<open>ErrBadPattern\<close>, \<^term>\<open>Some\<close> a verdict. \<open>get_esc\<close> reads
  one possibly escaped rune of a character class.
\<close>

definition get_esc :: "string \<Rightarrow> (nat \<times> string) option" where
  "get_esc chunk =
    (if chunk = [] \<or> hd chunk = CHR ''-'' \<or> hd chunk = CHR '']'' then None
     else (let body = (if hd chunk = CHR 0x5C then tl chunk else chunk) in
       if body = [] then None
       else (let (r, n) = decode_rune body in
         if (r = RuneError \<and> n = 1) \<or> drop n body = [] then None
         else Some (r, drop n body))))"

lemma get_esc_shorter: "get_esc chunk = Some (r, rest) \<Longrightarrow> rest \<noteq> [] \<and> length rest < length chunk"
  using decode_rune_width [of chunk] decode_rune_width [of "tl chunk"]
  by (auto simp: get_esc_def Let_def split: if_splits prod.splits)

function class_ranges :: "nat \<Rightarrow> string \<Rightarrow> nat \<Rightarrow> bool \<Rightarrow> (bool \<times> string) option" where
  "class_ranges r chunk nrange matched =
    (if chunk \<noteq> [] \<and> hd chunk = CHR '']'' \<and> 0 < nrange then Some (matched, tl chunk)
     else (case get_esc chunk of None \<Rightarrow> None
       | Some (lo, rest) \<Rightarrow>
         if hd rest = CHR ''-'' then
           (case get_esc (tl rest) of None \<Rightarrow> None
            | Some (hi, rest') \<Rightarrow> class_ranges r rest' (Suc nrange) (matched \<or> (lo \<le> r \<and> r \<le> hi)))
         else class_ranges r rest (Suc nrange) (matched \<or> r = lo)))"
  by pat_completeness auto
termination
proof (relation "measure (\<lambda>(r, chunk, n, m). length chunk)", goal_cases)
  case (2 r chunk n m p lo rest q hi rest')
  then have "length rest < length chunk" "length rest' < length (tl rest)"
    using get_esc_shorter by force+
  then show ?case by simp
next
  case (3 r chunk n m p lo rest)
  then show ?case using get_esc_shorter by force
qed simp

declare class_ranges.simps [simp del]

lemma class_ranges_shorter:
  "class_ranges r chunk n m = Some (v, rest) \<Longrightarrow> length rest \<le> length chunk"
proof (induction r chunk n m rule: class_ranges.induct)
  case (1 r chunk n m)
  show ?case
  proof (cases "chunk \<noteq> [] \<and> hd chunk = CHR '']'' \<and> 0 < n")
    case True
    with "1.prems" show ?thesis by (auto simp: class_ranges.simps [of r chunk])
  next
    case False
    then obtain lo r1 where g: "get_esc chunk = Some (lo, r1)"
      using "1.prems" by (auto simp: class_ranges.simps [of r chunk] split: option.splits)
    have l1: "length r1 < length chunk" using get_esc_shorter [OF g] by simp
    show ?thesis
    proof (cases "hd r1 = CHR ''-''")
      case True
      then obtain hi r2 where h: "get_esc (tl r1) = Some (hi, r2)"
        using "1.prems" False g by (auto simp: class_ranges.simps [of r chunk] split: option.splits)
      have "class_ranges r r2 (Suc n) (m \<or> lo \<le> r \<and> r \<le> hi) = Some (v, rest)"
        using "1.prems" False g h True by (simp add: class_ranges.simps [of r chunk])
      with "1.IH"(1) [OF False g refl True h refl] have "length rest \<le> length r2" by simp
      with get_esc_shorter [OF h] l1 show ?thesis by (auto simp: less_diff_conv)
    next
      case False2: False
      have "class_ranges r r1 (Suc n) (m \<or> r = lo) = Some (v, rest)"
        using "1.prems" False g False2 by (simp add: class_ranges.simps [of r chunk])
      with "1.IH"(2) [OF False g refl False2] l1 show ?thesis by simp
    qed
  qed
qed

text \<open>
  \<open>match_chunk failed chunk s\<close>: once \<open>failed\<close>, the rest of the chunk is only checked for
  well-formedness and \<open>s\<close> is no longer read. \<^term>\<open>Some (Some rest)\<close> is a match that leaves
  \<open>rest\<close> of the name.
\<close>

function match_chunk :: "bool \<Rightarrow> string \<Rightarrow> string \<Rightarrow> string option option" where
  "match_chunk failed [] s = (if failed then Some None else Some (Some s))"
| "match_chunk failed0 (c # chunk) s =
    (let failed = (failed0 \<or> s = []) in
     if c = CHR ''['' then
       (let (r, s') = (if failed then (0, s) else (fst (decode_rune s), drop (snd (decode_rune s)) s));
            negated = (chunk \<noteq> [] \<and> hd chunk = CHR ''^'');
            body = (if negated then tl chunk else chunk) in
        case class_ranges r body 0 False of None \<Rightarrow> None
        | Some (m, rest) \<Rightarrow> match_chunk (failed \<or> m = negated) rest s')
     else if c = CHR ''?'' then
       (if failed then match_chunk True chunk s
        else match_chunk (hd s = CHR ''/'') chunk (drop (snd (decode_rune s)) s))
     else if c = CHR 0x5C then
       (case chunk of [] \<Rightarrow> None
        | d # rest \<Rightarrow> if failed then match_chunk True rest s
                     else match_chunk (d \<noteq> hd s) rest (tl s))
     else (if failed then match_chunk True chunk s
           else match_chunk (c \<noteq> hd s) chunk (tl s)))"
  by pat_completeness auto
termination
proof (relation "measure (\<lambda>(f, chunk, s). length chunk)", goal_cases)
  case (2 f0 c chunk s failed rs r s' negated body p m rest)
  then have "length rest \<le> length body" using class_ranges_shorter by force
  also have "length body \<le> length chunk" using 2 by auto
  finally show ?case by simp
qed auto

declare match_chunk.simps(2) [simp del]

definition scan_inrange :: "char \<Rightarrow> bool \<Rightarrow> bool" where
  "scan_inrange c inrange = (if c = CHR ''['' then True else if c = CHR '']'' then False else inrange)"

fun scan_rest :: "bool \<Rightarrow> string \<Rightarrow> string \<times> string" where
  "scan_rest inrange [] = ([], [])"
| "scan_rest inrange [c] = (if c = CHR ''*'' \<and> \<not> inrange then ([], [c]) else ([c], []))"
| "scan_rest inrange (c # d # q) =
    (if c = CHR 0x5C then map_prod (\<lambda>a. c # d # a) id (scan_rest inrange q)
     else if c = CHR ''*'' \<and> \<not> inrange then ([], c # d # q)
     else map_prod (\<lambda>a. c # a) id (scan_rest (scan_inrange c inrange) (d # q)))"

definition scan_chunk :: "string \<Rightarrow> bool \<times> string \<times> string" where
  "scan_chunk p =
    (let q = dropWhile (\<lambda>c. c = CHR ''*'') p; (chunk, rest) = scan_rest False q
     in (p \<noteq> [] \<and> hd p = CHR ''*'', chunk, rest))"

lemma scan_rest_append: "fst (scan_rest i p) @ snd (scan_rest i p) = p"
  by (induction i p rule: scan_rest.induct) simp_all

lemma scan_rest_first: "p \<noteq> [] \<Longrightarrow> hd p \<noteq> CHR ''*'' \<Longrightarrow> fst (scan_rest i p) \<noteq> []"
  by (induction i p rule: scan_rest.induct) simp_all

lemma scan_chunk_rest: "snd (snd (scan_chunk p)) = snd (scan_rest False (dropWhile (\<lambda>c. c = CHR ''*'') p))"
  by (simp add: scan_chunk_def Let_def split: prod.split)

lemma scan_chunk_shorter:
  assumes "p \<noteq> []"
  shows "length (snd (snd (scan_chunk p))) < length p"
proof -
  let ?q = "dropWhile (\<lambda>c. c = CHR ''*'') p"
  have l: "length (fst (scan_rest False ?q)) + length (snd (scan_rest False ?q)) = length ?q"
    by (metis length_append scan_rest_append)
  show ?thesis
  proof (cases "hd p = CHR ''*''")
    case True
    then obtain t where "p = CHR ''*'' # t" using assms by (cases p) auto
    then have "length ?q < length p"
      using length_dropWhile_le [of "\<lambda>c. c = CHR ''*''" t] by simp
    with l show ?thesis unfolding scan_chunk_rest by linarith
  next
    case False
    then have "?q = p" using assms by (cases p) auto
    moreover have "fst (scan_rest False p) \<noteq> []" using scan_rest_first assms False by blast
    ultimately show ?thesis using l unfolding scan_chunk_rest by (cases "fst (scan_rest False p)") auto
  qed
qed

lemma scan_chunk_decreases:
  "(star, y) = scan_chunk p \<Longrightarrow> (chunk, rest) = y \<Longrightarrow> p \<noteq> [] \<Longrightarrow> length rest < length p"
  using scan_chunk_shorter [of p] by (metis snd_conv)

text \<open>The loop that lets a star swallow bytes, never a slash; \<open>final\<close> says that no pattern is left.\<close>

fun star_skip :: "string \<Rightarrow> bool \<Rightarrow> string \<Rightarrow> string option option" where
  "star_skip chunk final [] = Some None"
| "star_skip chunk final (c # t) =
    (if c = CHR ''/'' then Some None
     else (case match_chunk False chunk t of None \<Rightarrow> None
       | Some None \<Rightarrow> star_skip chunk final t
       | Some (Some rest) \<Rightarrow> if final \<and> rest \<noteq> [] then star_skip chunk final t else Some (Some rest)))"

function pattern_ok :: "string \<Rightarrow> bool" where
  "pattern_ok p =
    (if p = [] then True
     else (let (star, chunk, rest) = scan_chunk p in
       match_chunk False chunk [] \<noteq> None \<and> pattern_ok rest))"
  by pat_completeness auto
termination
proof (relation "measure length", goal_cases)
  case (2 p x star y chunk rest)
  then show ?case by (auto intro: scan_chunk_decreases)
qed simp

declare pattern_ok.simps [simp del]

text \<open>\<^verbatim>\<open>path.Match(pattern, name)\<close>.\<close>

function path_match :: "string \<Rightarrow> string \<Rightarrow> bool option" where
  "path_match p name =
    (if p = [] then Some (name = [])
     else (let (star, chunk, rest) = scan_chunk p in
       if star \<and> chunk = [] then Some (CHR ''/'' \<notin> set name)
       else (case match_chunk False chunk name of
           None \<Rightarrow> None
         | Some m \<Rightarrow>
           (case (case m of Some t \<Rightarrow> if t = [] \<or> rest \<noteq> [] then Some t else None | None \<Rightarrow> None) of
              Some t \<Rightarrow> path_match rest t
            | None \<Rightarrow>
              (case (if star then star_skip chunk (rest = []) name else Some None) of
                 None \<Rightarrow> None
               | Some (Some t) \<Rightarrow> path_match rest t
               | Some None \<Rightarrow> if pattern_ok rest then Some False else None)))))"
  by pat_completeness auto
termination
  by (relation "measure (\<lambda>(p, n). length p)") (auto intro: scan_chunk_decreases)

declare path_match.simps [simp del]

text \<open>
  What a pattern without special bytes means: it matches the name that equals it; a trailing
  star matches every extension that has no slash.
\<close>

definition literal_pattern :: "string \<Rightarrow> bool" where
  "literal_pattern p = (\<forall>c \<in> set p. c \<notin> {CHR ''*'', CHR ''?'', CHR ''['', CHR '']'', CHR 0x5C})"

lemma match_chunk_literal:
  assumes "literal_pattern p"
  shows "match_chunk failed p s =
    (if failed \<or> \<not> HasPrefix s p then Some None else Some (Some (drop (length p) s)))"
  using assms
proof (induction p arbitrary: failed s)
  case Nil
  then show ?case by simp
next
  case (Cons c p)
  then have lit: "literal_pattern p" "c \<noteq> CHR ''[''" "c \<noteq> CHR ''?''" "c \<noteq> CHR 0x5C"
    by (auto simp: literal_pattern_def)
  show ?case
  proof (cases "failed \<or> s = []")
    case True
    then have "failed \<or> \<not> HasPrefix s (c # p)" by (cases s) auto
    with True lit Cons.IH [OF lit(1)] show ?thesis by (simp add: match_chunk.simps(2))
  next
    case False
    then obtain d t where s: "s = d # t" by (cases s) auto
    with False lit Cons.IH [OF lit(1)] show ?thesis by (auto simp: match_chunk.simps(2))
  qed
qed

lemma scan_rest_literal:
  assumes "literal_pattern p" and "q = [] \<or> hd q = CHR ''*''"
  shows "scan_rest False (p @ q) = (p, q)"
  using assms(1)
proof (induction p)
  case Nil
  show ?case
  proof (cases q)
    case (Cons c r)
    with assms(2) show ?thesis by (cases r) simp_all
  qed simp
next
  case (Cons c p)
  then have lit: "literal_pattern p" and c: "c \<notin> {CHR ''*'', CHR ''['', CHR '']'', CHR 0x5C}"
    by (auto simp: literal_pattern_def)
  show ?case
  proof (cases "p @ q")
    case Nil
    with c show ?thesis by simp
  next
    case (Cons d r)
    have "scan_rest False (c # d # r) = map_prod (\<lambda>a. c # a) id (scan_rest False (d # r))"
      using c by (simp add: scan_inrange_def)
    with \<open>literal_pattern p \<Longrightarrow> scan_rest False (p @ q) = (p, q)\<close> [OF lit] Cons show ?thesis by simp
  qed
qed

lemma scan_chunk_literal:
  assumes "literal_pattern p"
  shows "scan_chunk p = (False, p, [])" and "p \<noteq> [] \<Longrightarrow> scan_chunk (p @ ''*'') = (False, p, ''*'')"
proof -
  have hd: "p \<noteq> [] \<Longrightarrow> hd p \<noteq> CHR ''*''"
    using assms by (cases p) (auto simp: literal_pattern_def)
  then have dw: "dropWhile (\<lambda>c. c = CHR ''*'') p = p" by (cases p) auto
  have dw2: "p \<noteq> [] \<Longrightarrow> dropWhile (\<lambda>c. c = CHR ''*'') (p @ q) = p @ q" for q
    using hd by (cases p) auto
  show "scan_chunk p = (False, p, [])"
    using scan_rest_literal [OF assms, of "[]"] hd dw by (auto simp: scan_chunk_def)
  show "p \<noteq> [] \<Longrightarrow> scan_chunk (p @ ''*'') = (False, p, ''*'')"
    using scan_rest_literal [OF assms, of "''*''"] hd dw2 by (auto simp: scan_chunk_def)
qed

lemma path_match_literal:
  assumes "literal_pattern p"
  shows "path_match p name = Some (name = p)"
proof (cases "p = []")
  case True
  then show ?thesis by (simp add: path_match.simps)
next
  case False
  have e: "name = p" if "HasPrefix name p" "drop (length p) name = []"
    using that by (auto simp: HasPrefix_iff)
  have "pattern_ok []" by (simp add: pattern_ok.simps)
  with False e show ?thesis
    by (subst path_match.simps)
      (auto simp: scan_chunk_literal(1) [OF assms] match_chunk_literal [OF assms] path_match.simps [of "[]"])
qed

lemma path_match_star: "path_match ''*'' name = Some (CHR ''/'' \<notin> set name)"
  by (subst path_match.simps) (simp add: scan_chunk_def)

lemma path_match_prefix_star:
  assumes "literal_pattern p"
  shows "path_match (p @ ''*'') name =
    Some (HasPrefix name p \<and> CHR ''/'' \<notin> set (drop (length p) name))"
proof (cases "p = []")
  case True
  then show ?thesis by (simp add: path_match_star)
next
  case False
  have ok: "pattern_ok ''*''"
    by (subst pattern_ok.simps) (simp add: scan_chunk_def pattern_ok.simps [of "[]"])
  from False ok show ?thesis
    by (subst path_match.simps)
      (auto simp: scan_chunk_literal(2) [OF assms False] match_chunk_literal [OF assms] path_match_star)
qed

section \<open>strconv\<close>

text \<open>
  \<^verbatim>\<open>strconv.Atoi\<close> on a 64-bit platform: an optional sign, at least one decimal digit, and a
  value in the range of \<^verbatim>\<open>int64\<close>; anything else is an error.
\<close>

definition is_digit :: "char \<Rightarrow> bool" where
  "is_digit c = (48 \<le> byte c \<and> byte c \<le> (57::nat))"

fun digits_val :: "nat \<Rightarrow> string \<Rightarrow> nat" where
  "digits_val acc [] = acc"
| "digits_val acc (c # s) = digits_val (acc * 10 + (byte c - 48)) s"

definition Atoi :: "string \<Rightarrow> int option" where
  "Atoi s =
    (let neg = HasPrefix s ''-'';
         ds = (if neg \<or> HasPrefix s ''+'' then tl s else s) in
     if ds = [] \<or> \<not> list_all is_digit ds then None
     else (let v = int (digits_val 0 ds); n = (if neg then - v else v) in
       if - (2 ^ 63) \<le> n \<and> n < 2 ^ 63 then Some n else None))"

text \<open>\<^verbatim>\<open>strconv.Itoa\<close> / \<^verbatim>\<open>%d\<close>.\<close>

fun nat_digits :: "nat \<Rightarrow> string" where
  "nat_digits n = (if n < 10 then [char_of (48 + n)] else nat_digits (n div 10) @ [char_of (48 + n mod 10)])"

declare nat_digits.simps [simp del]

definition Itoa :: "int \<Rightarrow> string" where
  "Itoa i = (if i < 0 then CHR ''-'' # nat_digits (nat (- i)) else nat_digits (nat i))"

lemma digits_val_append: "digits_val acc (s @ t) = digits_val (digits_val acc s) t"
  by (induction s arbitrary: acc) auto

lemma nat_digits_props: "nat_digits n \<noteq> [] \<and> list_all is_digit (nat_digits n) \<and> digits_val 0 (nat_digits n) = n"
proof (induction n rule: nat_digits.induct)
  case (1 n)
  have d: "m < 10 \<Longrightarrow> is_digit (char_of (48 + m))" for m :: nat by (simp add: is_digit_def)
  show ?case
  proof (cases "n < 10")
    case True
    then show ?thesis using d by (simp add: nat_digits.simps [of n])
  next
    case False
    with "1.IH" d show ?thesis by (simp add: nat_digits.simps [of n] digits_val_append)
  qed
qed

lemma nat_digits_hd: "hd (nat_digits n) \<noteq> CHR ''-'' \<and> hd (nat_digits n) \<noteq> CHR ''+''"
  using nat_digits_props [of n] by (cases "nat_digits n") (auto simp: is_digit_def)

lemma Atoi_Itoa:
  assumes "- (2 ^ 63) \<le> i" and "i < 2 ^ 63"
  shows "Atoi (Itoa i) = Some i"
proof (cases "i < 0")
  case True
  with assms nat_digits_props [of "nat (- i)"] show ?thesis by (simp add: Atoi_def Itoa_def Let_def)
next
  case False
  obtain c t where ct: "nat_digits (nat i) = c # t"
    using nat_digits_props [of "nat i"] by (cases "nat_digits (nat i)") auto
  with False assms nat_digits_props [of "nat i"] nat_digits_hd [of "nat i"] show ?thesis
    by (simp add: Atoi_def Itoa_def Let_def)
qed

lemma Atoi_range: "Atoi s = Some n \<Longrightarrow> - (2 ^ 63) \<le> n \<and> n < 2 ^ 63"
  by (auto simp: Atoi_def Let_def split: if_splits)

section \<open>net/url\<close>

text \<open>\<^verbatim>\<open>url.PathEscape\<close>: bytes that may stand in one path segment are kept, the others
  become \<^verbatim>\<open>%XX\<close> with upper-case hexadecimal digits.\<close>

definition path_segment_byte :: "char \<Rightarrow> bool" where
  "path_segment_byte c =
    ((CHR ''a'' \<le> c \<and> c \<le> CHR ''z'') \<or> (CHR ''A'' \<le> c \<and> c \<le> CHR ''Z'') \<or>
     (CHR ''0'' \<le> c \<and> c \<le> CHR ''9'') \<or> c \<in> set ''-_.~$&+:=@'')"

definition hex_digit :: "nat \<Rightarrow> char" where
  "hex_digit n = (if n < 10 then char_of (48 + n) else char_of (55 + n))"

definition PathEscape :: "string \<Rightarrow> string" where
  "PathEscape s = concat (map (\<lambda>c.
     if path_segment_byte c then [c]
     else [CHR ''%'', hex_digit (byte c div 16), hex_digit (byte c mod 16)]) s)"

definition hex_val :: "char \<Rightarrow> nat" where
  "hex_val c = (if byte c < (58::nat) then byte c - 48 else byte c - 55)"

text \<open>\<^verbatim>\<open>url.PathUnescape\<close> on well-formed input, the inverse a reader of the link applies.\<close>

fun PathUnescape :: "string \<Rightarrow> string" where
  "PathUnescape [] = []"
| "PathUnescape (c # s) =
    (if c = CHR ''%'' then
       (case s of h # l # t \<Rightarrow> char_of (hex_val h * 16 + hex_val l) # PathUnescape t | _ \<Rightarrow> c # s)
     else c # PathUnescape s)"

lemma hex_digit_val: "n < 16 \<Longrightarrow> hex_val (hex_digit n) = n"
  by (auto simp: hex_val_def hex_digit_def)

lemma hex_digit_segment: "n < 16 \<Longrightarrow> path_segment_byte (hex_digit n)"
proof -
  assume "n < 16"
  then have "n \<in> set [0..<16]" by simp
  moreover have "list_all (\<lambda>n. path_segment_byte (hex_digit n)) [0..<16]" by code_simp
  ultimately show ?thesis by (simp add: list_all_iff)
qed

lemma PathUnescape_PathEscape: "PathUnescape (PathEscape s) = s"
proof (induction s)
  case Nil
  then show ?case by (simp add: PathEscape_def)
next
  case (Cons c s)
  have np: "\<not> path_segment_byte (CHR ''%'')" by code_simp
  have b: "byte c div 16 < (16::nat)" by (rule byte_div_16)
  show ?case
  proof (cases "path_segment_byte c")
    case True
    with np have "c \<noteq> CHR ''%''" by auto
    with True Cons show ?thesis by (simp add: PathEscape_def)
  next
    case False
    with Cons b show ?thesis by (simp add: PathEscape_def hex_digit_val)
  qed
qed

lemma PathEscape_bytes: "c \<in> set (PathEscape s) \<Longrightarrow> path_segment_byte c \<or> c = CHR ''%''"
  by (auto simp: PathEscape_def hex_digit_segment byte_div_16 split: if_splits)

lemma PathEscape_no_slash: "CHR ''/'' \<notin> set (PathEscape s)"
proof -
  have "\<not> path_segment_byte (CHR ''/'')" by code_simp
  then show ?thesis using PathEscape_bytes [of "CHR ''/''" s] by auto
qed

section \<open>Lower case\<close>

text \<open>
  \<^verbatim>\<open>strings.ToLower\<close>: byte-wise on ASCII strings, rune-wise by the Unicode tables (the argument
  \<open>ulow\<close>) otherwise; an ill-formed byte becomes the replacement character.
\<close>

definition ascii_lower :: "char \<Rightarrow> char" where
  "ascii_lower c = (if 65 \<le> (of_char c :: nat) \<and> (of_char c :: nat) \<le> 90 then char_of ((of_char c :: nat) + 32) else c)"

definition ToLower :: "(nat \<Rightarrow> nat) \<Rightarrow> string \<Rightarrow> string" where
  "ToLower ulow s =
     (if list_all (\<lambda>c. (of_char c :: nat) < 128) s then map ascii_lower s
      else string_of_runes (map ulow (runes s)))"

section \<open>White space\<close>

text \<open>\<^verbatim>\<open>unicode.IsSpace\<close> and \<^verbatim>\<open>strings.TrimSpace\<close>.\<close>

definition is_space :: "nat \<Rightarrow> bool" where
  "is_space r = (9 \<le> r \<and> r \<le> 13 \<or> r = 32 \<or> r = 133 \<or> r = 160 \<or> r = 5760 \<or> 8192 \<le> r \<and> r \<le> 8202 \<or>
     r = 8232 \<or> r = 8233 \<or> r = 8239 \<or> r = 8287 \<or> r = 12288)"

function trim_left :: "string \<Rightarrow> string" where
  "trim_left s =
     (if s = [] then []
      else if is_space (fst (decode_rune s)) then trim_left (drop (max 1 (snd (decode_rune s))) s) else s)"
  by pat_completeness auto
termination
  by (relation "measure length") auto

declare trim_left.simps [simp del]

fun trim_right :: "string \<Rightarrow> string" where
  "trim_right [] = []"
| "trim_right (c # s) = (if list_all is_space (runes (c # s)) then [] else c # trim_right s)"

definition TrimSpace :: "string \<Rightarrow> string" where
  "TrimSpace s = trim_right (trim_left s)"

lemma TrimSpace_Nil [simp]: "TrimSpace [] = []"
  by (simp add: TrimSpace_def trim_left.simps)

section \<open>Package strconv: Quote\<close>

text \<open>
  \<^verbatim>\<open>%q\<close> and \<^verbatim>\<open>strconv.Quote\<close>: exact on ASCII and on ill-formed bytes. A rune beyond ASCII is taken to
  be printable and kept as it is.
\<close>

definition hex_lower :: "nat \<Rightarrow> char" where
  "hex_lower n = char_of (if n < 10 then 48 + n else 87 + n)"

definition quote_ascii :: "char \<Rightarrow> string" where
  "quote_ascii c =
     (if c = CHR 0x22 \<or> c = CHR 0x5C then [CHR 0x5C, c]
      else if c = CHR 0x07 then [CHR 0x5C, CHR ''a'']
      else if c = CHR 0x08 then [CHR 0x5C, CHR ''b'']
      else if c = CHR 0x0C then [CHR 0x5C, CHR ''f'']
      else if c = CHR 0x0A then [CHR 0x5C, CHR ''n'']
      else if c = CHR 0x0D then [CHR 0x5C, CHR ''r'']
      else if c = CHR 0x09 then [CHR 0x5C, CHR ''t'']
      else if c = CHR 0x0B then [CHR 0x5C, CHR ''v'']
      else if byte c < (32::nat) \<or> byte c = (127::nat)
        then [CHR 0x5C, CHR ''x'', hex_lower (byte c div 16), hex_lower (byte c mod 16)]
      else [c])"

function go_quote_body :: "string \<Rightarrow> string" where
  "go_quote_body [] = []"
| "go_quote_body (c # s) =
     (if byte c < (128::nat) then quote_ascii c @ go_quote_body s
      else
        (let (r, n) = decode_rune (c # s)
         in (if r = RuneError \<and> n = 1 then [CHR 0x5C, CHR ''x'', hex_lower (byte c div 16), hex_lower (byte c mod 16)]
             else take n (c # s)) @ go_quote_body (drop (max 1 n) (c # s))))"
  by pat_completeness auto
termination
  by (relation "measure length") (auto simp: max_def)

declare go_quote_body.simps(2) [simp del]

definition strconv_Quote :: "string \<Rightarrow> string" where
  "strconv_Quote s = [CHR 0x22] @ go_quote_body s @ [CHR 0x22]"

end
