(* ===== verification/Relay_Domain.thy ===== *)
theory Relay_Domain
  imports Go_Std
begin

text \<open>
  The neutral event model (\<^verbatim>\<open>internal/domain/status.go\<close>), the CloudEvent envelope
  (\<^verbatim>\<open>internal/event/event.go\<close>) and the error values the components exchange, with their
  classification (\<^verbatim>\<open>internal/errors/classification.go\<close>).

  \<^verbatim>\<open>State\<close> and \<^verbatim>\<open>Resource\<close> are open string types in the source and stay strings here. A
  \<^verbatim>\<open>*int\<close> is an \<^typ>\<open>int option\<close>. A \<^verbatim>\<open>time.Time\<close> is the number of nanoseconds since the
  zero time (1 January of year 1, UTC), so \<^verbatim>\<open>IsZero\<close> is equality with 0.
\<close>

section \<open>Events\<close>

type_synonym State = string
type_synonym Resource = string
type_synonym Time = int

abbreviation StatePending :: State where "StatePending \<equiv> ''pending''"
abbreviation StateRunning :: State where "StateRunning \<equiv> ''running''"
abbreviation StateSuccess :: State where "StateSuccess \<equiv> ''success''"
abbreviation StateFailure :: State where "StateFailure \<equiv> ''failure''"
abbreviation StateError :: State where "StateError \<equiv> ''error''"
abbreviation StateCanceled :: State where "StateCanceled \<equiv> ''canceled''"
abbreviation StateDone :: State where "StateDone \<equiv> ''done''"

abbreviation ResourceTaskRun :: Resource where "ResourceTaskRun \<equiv> ''taskrun''"
abbreviation ResourcePipelineRun :: Resource where "ResourcePipelineRun \<equiv> ''pipelinerun''"
abbreviation ResourceCustomRun :: Resource where "ResourceCustomRun \<equiv> ''customrun''"
abbreviation ResourceEventListener :: Resource where "ResourceEventListener \<equiv> ''eventlistener''"

record Repo =
  Owner :: string
  RepoName :: string
  RepoID :: string
  Workspace :: string
  Project :: string
  Org :: string

record Result =
  ResultName :: string
  ResultValue :: string

record Event =
  Provider :: string
  ResourceOf :: Resource
  APIBaseURL :: string
  RunName :: string
  RunID :: string
  Namespace :: string
  TaskName :: string
  PipelineName :: string
  PipelineTaskName :: string
  EventListenerName :: string
  TriggerName :: string
  TaskDisplayName :: string
  PipelineDisplayName :: string
  IsFinallyTask :: bool
  SCMEventType :: string
  TaskCount :: int
  StateOf :: State
  Context :: string
  Description :: string
  TargetURL :: string
  CommitSHA :: string
  RepoOf :: Repo
  IssueNumber :: "int option"
  PRNumber :: "int option"
  DiscussionNumber :: "int option"
  JiraIssueKey :: string
  AccumulatorGroupID :: string
  Results :: "Result list"
  StartedAt :: Time
  FinishedAt :: Time

definition zero_repo :: Repo where
  "zero_repo = \<lparr>Owner = '''', RepoName = '''', RepoID = '''', Workspace = '''', Project = '''', Org = ''''\<rparr>"

text \<open>The zero value \<^verbatim>\<open>domain.Event{}\<close>, from which the code builds every event.\<close>

definition zero_event :: Event where
  "zero_event = \<lparr>Provider = '''', ResourceOf = '''', APIBaseURL = '''', RunName = '''', RunID = '''',
    Namespace = '''', TaskName = '''', PipelineName = '''', PipelineTaskName = '''',
    EventListenerName = '''', TriggerName = '''', TaskDisplayName = '''', PipelineDisplayName = '''',
    IsFinallyTask = False, SCMEventType = '''', TaskCount = 0, StateOf = '''', Context = '''',
    Description = '''', TargetURL = '''', CommitSHA = '''', RepoOf = zero_repo, IssueNumber = None,
    PRNumber = None, DiscussionNumber = None, JiraIssueKey = '''', AccumulatorGroupID = '''',
    Results = [], StartedAt = 0, FinishedAt = 0\<rparr>"

section \<open>Raw events and envelopes\<close>

record RawEvent =
  RawID :: string
  RawType :: string
  RawSource :: string
  RawData :: string

record Envelope =
  CloudEventID :: string
  CloudEventType :: string
  Source :: string
  Report :: Event

section \<open>Errors\<close>

text \<open>
  An error value with the structure that \<^verbatim>\<open>errors.Is\<close>, \<^verbatim>\<open>errors.As\<close> and \<^verbatim>\<open>Error()\<close> see:
  leaves (\<^verbatim>\<open>errors.New\<close>), wrapping by \<^verbatim>\<open>fmt.Errorf("prefix%w")\<close>, the relay's
  \<^verbatim>\<open>RetryableError\<close>, joined errors (\<^verbatim>\<open>errors.Join\<close>) and the two context errors.
\<close>

datatype err =
    Err string
  | Wrap string err
  | RetryableError err string
  | Join "err list"
  | ContextCanceled
  | DeadlineExceeded

type_synonym 'a result = "err + 'a"

text \<open>\<^verbatim>\<open>errors.Join\<close> separates the texts of its members by newlines.\<close>

fun join_lines :: "string list \<Rightarrow> string" where
  "join_lines [] = ''''"
| "join_lines [x] = x"
| "join_lines (x # xs) = x @ [CHR 0x0A] @ join_lines xs"

text \<open>Steps that may fail, one after the other.\<close>

fun in_turn :: "('s \<Rightarrow> 's result) list \<Rightarrow> 's \<Rightarrow> 's result" where
  "in_turn [] s = Inr s"
| "in_turn (f # fs) s = (case f s of Inl e \<Rightarrow> Inl e | Inr s' \<Rightarrow> in_turn fs s')"

lemma in_turn_append: "in_turn (fs @ gs) s = (case in_turn fs s of Inl e \<Rightarrow> Inl e | Inr s' \<Rightarrow> in_turn gs s')"
  by (induction fs arbitrary: s) (auto split: sum.split)

lemma in_turn_flat: "in_turn [in_turn as, in_turn bs, in_turn cs] s = in_turn (as @ bs @ cs) s"
  by (auto simp: in_turn_append split: sum.split)

lemma in_turn_single: "in_turn [f] s = f s"
  by (auto split: sum.split)

fun error_text :: "err \<Rightarrow> string" where
  "error_text (Err s) = s"
| "error_text (Wrap p e) = p @ error_text e"
| "error_text (RetryableError c r) =
     (if r \<noteq> '''' then ''retryable error ('' @ r @ ''): '' @ error_text c
      else ''retryable error: '' @ error_text c)"
| "error_text (Join es) = join_lines (map error_text es)"
| "error_text ContextCanceled = ''context canceled''"
| "error_text DeadlineExceeded = ''context deadline exceeded''"

definition NewRetryable :: "err \<Rightarrow> string \<Rightarrow> err" where
  "NewRetryable cause reason = RetryableError cause reason"

text \<open>\<^verbatim>\<open>IsRetryable\<close>: \<^verbatim>\<open>errors.As\<close> walks the whole tree of wrapped and joined errors.\<close>

fun has_retryable :: "err \<Rightarrow> bool" where
  "has_retryable (Err s) = False"
| "has_retryable (Wrap p e) = has_retryable e"
| "has_retryable (RetryableError c r) = True"
| "has_retryable (Join es) = list_ex has_retryable es"
| "has_retryable ContextCanceled = False"
| "has_retryable DeadlineExceeded = False"

definition IsRetryable :: "err option \<Rightarrow> bool" where
  "IsRetryable e = (case e of None \<Rightarrow> False | Some x \<Rightarrow> has_retryable x)"

text \<open>\<^verbatim>\<open>errors.Is(err, context.DeadlineExceeded)\<close>.\<close>

fun is_deadline :: "err \<Rightarrow> bool" where
  "is_deadline (Err s) = False"
| "is_deadline (Wrap p e) = is_deadline e"
| "is_deadline (RetryableError c r) = is_deadline c"
| "is_deadline (Join es) = list_ex is_deadline es"
| "is_deadline ContextCanceled = False"
| "is_deadline DeadlineExceeded = True"

lemma IsRetryable_simps [simp]:
  "\<not> IsRetryable None" "IsRetryable (Some e) = has_retryable e"
  by (simp_all add: IsRetryable_def)

text \<open>
  The relay classifies a joined error as retryable as soon as one member is: this is the rule
  that decides between back-pressure and the dead letter queue.
\<close>

lemma has_retryable_Join_iff: "has_retryable (Join es) \<longleftrightarrow> (\<exists>e \<in> set es. has_retryable e)"
  by (simp add: list_ex_iff)

text \<open>A text is kept through every layer of wrapping.\<close>

fun wraps :: "err \<Rightarrow> err \<Rightarrow> bool" where
  "wraps (Wrap p e) x = (e = x \<or> wraps e x)"
| "wraps (RetryableError c r) x = (c = x \<or> wraps c x)"
| "wraps (Join es) x = list_ex (\<lambda>e. e = x \<or> wraps e x) es"
| "wraps _ x = False"

lemma wraps_retryable: "wraps e x \<Longrightarrow> has_retryable x \<Longrightarrow> has_retryable e"
proof (induction e x rule: wraps.induct)
  case (3 es x)
  then show ?case by (fastforce simp: list_ex_iff)
qed auto

section \<open>Decoder registry\<close>

text \<open>
  A decoder is what the \<^verbatim>\<open>Decoder\<close> interface exposes; the registry keeps them in registration
  order and \<^verbatim>\<open>Find\<close> takes the first that can handle the type.
\<close>

record Decoder =
  DecoderName :: string
  CanHandle :: "string \<Rightarrow> bool"
  Decode :: "RawEvent \<Rightarrow> Envelope result"

type_synonym DecoderRegistry = "Decoder list"

definition NewDecoderRegistry :: DecoderRegistry where
  "NewDecoderRegistry = []"

definition DecoderRegister :: "DecoderRegistry \<Rightarrow> Decoder \<Rightarrow> DecoderRegistry" where
  "DecoderRegister r d = r @ [d]"

fun DecoderFind :: "DecoderRegistry \<Rightarrow> string \<Rightarrow> Decoder result" where
  "DecoderFind [] t = Inl (Err (''no decoder registered for event type '' @ t))"
| "DecoderFind (d # ds) t = (if CanHandle d t then Inr d else DecoderFind ds t)"

definition DecoderNames :: "DecoderRegistry \<Rightarrow> string list" where
  "DecoderNames r = map DecoderName r"

lemma DecoderFind_Inr_iff:
  "DecoderFind ds t = Inr d \<longleftrightarrow>
    (\<exists>as bs. ds = as @ d # bs \<and> CanHandle d t \<and> (\<forall>a \<in> set as. \<not> CanHandle a t))"
proof (induction ds)
  case Nil
  then show ?case by simp
next
  case (Cons x ds)
  show ?case
  proof (cases "CanHandle x t")
    case True
    show ?thesis
    proof
      assume "DecoderFind (x # ds) t = Inr d"
      with True have "x = d" by simp
      with True show "\<exists>as bs. x # ds = as @ d # bs \<and> CanHandle d t \<and> (\<forall>a \<in> set as. \<not> CanHandle a t)"
        by (metis append_Nil empty_iff empty_set)
    next
      assume "\<exists>as bs. x # ds = as @ d # bs \<and> CanHandle d t \<and> (\<forall>a \<in> set as. \<not> CanHandle a t)"
      with True show "DecoderFind (x # ds) t = Inr d" by (auto simp: Cons_eq_append_conv)
    qed
  next
    case False
    then have "DecoderFind (x # ds) t = DecoderFind ds t" by simp
    with Cons.IH False show ?thesis by (auto simp: Cons_eq_append_conv) (metis set_ConsD)
  qed
qed

lemma DecoderFind_Inl_iff: "(\<exists>e. DecoderFind ds t = Inl e) \<longleftrightarrow> (\<forall>d \<in> set ds. \<not> CanHandle d t)"
  by (induction ds) auto

section \<open>Metrics\<close>

text \<open>
  Prometheus counters, indexed by the name of the collector (its field in
  \<^verbatim>\<open>metrics.Collectors\<close>) and its label values. The collectors may be absent (a nil pointer), in
  which case nothing is counted. A histogram is represented by the number of its observations.
\<close>

type_synonym Collectors = "(string list, nat) gomap"

definition counter :: "string list \<Rightarrow> Collectors \<Rightarrow> nat" where
  "counter l m = (case map_of m l of None \<Rightarrow> 0 | Some n \<Rightarrow> n)"

definition Inc :: "string list \<Rightarrow> Collectors \<Rightarrow> Collectors" where
  "Inc l m = AList.update l (Suc (counter l m)) m"

definition IncIf :: "string list \<Rightarrow> Collectors option \<Rightarrow> Collectors option" where
  "IncIf l m = map_option (Inc l) m"

definition SetGauge :: "string list \<Rightarrow> nat \<Rightarrow> Collectors \<Rightarrow> Collectors" where
  "SetGauge l n m = AList.update l n m"

lemma counter_Inc [simp]: "counter l' (Inc l m) = (if l' = l then Suc (counter l m) else counter l' m)"
  by (simp add: counter_def Inc_def)

lemma counter_SetGauge [simp]: "counter l' (SetGauge l n m) = (if l' = l then n else counter l' m)"
  by (simp add: counter_def SetGauge_def)

lemma IncIf_simps [simp]: "IncIf l None = None" "IncIf l (Some m) = Some (Inc l m)"
  by (simp_all add: IncIf_def)

end
