(* ===== verification/Relay_Cache.thy ===== *)
theory Relay_Cache
  imports Relay_Domain
begin

text \<open>
  The two caches of the package \<^verbatim>\<open>hashicorp/golang-lru\<close> that the relay keeps its state in. The
  package is not part of the repository, so its operations are fields of a record that the
  definitions of the stores take as an argument, and what the package documents of them is a
  locale: \<^verbatim>\<open>lru_cache\<close> for the fixed-size cache and \<^verbatim>\<open>expirable_cache\<close> for the cache with a
  time to live. A list instance of each interface shows that the laws can hold and runs the
  witnesses.
\<close>

section \<open>The fixed-size cache\<close>

record ('c, 'k, 'v) lru_ops =
  lru_new :: "nat \<Rightarrow> 'c"
  lru_get :: "'k \<Rightarrow> 'c \<Rightarrow> 'v option \<times> 'c"
  lru_add :: "'k \<Rightarrow> 'v \<Rightarrow> 'c \<Rightarrow> bool \<times> 'c"
  lru_len :: "'c \<Rightarrow> nat"

text \<open>
  The content of a cache is the list of its bindings, most recently used first: a hit and an
  insertion move the binding to the front, and an insertion beyond the capacity drops the last.
\<close>

definition lru_touch :: "'k \<Rightarrow> ('k, 'v) gomap \<Rightarrow> ('k, 'v) gomap" where
  "lru_touch k l = (case map_of l k of None \<Rightarrow> l | Some v \<Rightarrow> (k, v) # AList.delete k l)"

locale lru_cache =
  fixes ops :: "('c, 'k, 'v) lru_ops"
    and content :: "'c \<Rightarrow> ('k, 'v) gomap"
    and cap :: nat
  assumes cap_pos: "0 < cap"
    and new_content: "content (lru_new ops cap) = []"
    and get_result: "fst (lru_get ops k c) = map_of (content c) k"
    and get_content: "content (snd (lru_get ops k c)) = lru_touch k (content c)"
    and add_content: "content (snd (lru_add ops k v c)) = take cap ((k, v) # AList.delete k (content c))"
    and add_evicts: "fst (lru_add ops k v c) \<longleftrightarrow> cap \<le> length (AList.delete k (content c))"
    and len_content: "lru_len ops c = length (content c)"

section \<open>The cache with expiry\<close>

record ('c, 'k, 'v) xlru_ops =
  xlru_new :: "nat \<Rightarrow> int \<Rightarrow> 'c"
  xlru_get :: "Time \<Rightarrow> 'k \<Rightarrow> 'c \<Rightarrow> 'v option \<times> 'c"
  xlru_add :: "Time \<Rightarrow> 'k \<Rightarrow> 'v \<Rightarrow> 'c \<Rightarrow> 'c"
  xlru_remove :: "'k \<Rightarrow> 'c \<Rightarrow> 'c"
  xlru_purge :: "'c \<Rightarrow> 'c"
  xlru_len :: "'c \<Rightarrow> nat"

text \<open>
  \<open>live t c k\<close> is the value a lookup of \<open>k\<close> at time \<open>t\<close> finds in \<open>c\<close>. A binding lives for the
  time to live after the insertion that wrote it; inserting another key keeps it as long as the
  cache is not full.
\<close>

locale expirable_cache =
  fixes ops :: "('c, 'k, 'v) xlru_ops"
    and live :: "Time \<Rightarrow> 'c \<Rightarrow> 'k \<Rightarrow> 'v option"
    and cap :: nat
    and ttl :: int
  assumes new_live: "live t (xlru_new ops cap ttl) k = None"
    and get_result: "fst (xlru_get ops t k c) = live t c k"
    and get_live: "live u (snd (xlru_get ops t k c)) j = live u c j"
    and get_len: "xlru_len ops (snd (xlru_get ops t k c)) = xlru_len ops c"
    and add_same: "t \<le> u \<Longrightarrow> u \<le> t + ttl \<Longrightarrow> live u (xlru_add ops t k v c) k = Some v"
    and add_same_le: "live u (xlru_add ops t k v c) k = Some w \<Longrightarrow> w = v"
    and add_other_le: "j \<noteq> k \<Longrightarrow> live u (xlru_add ops t k v c) j = Some w \<Longrightarrow> live u c j = Some w"
    and add_other: "j \<noteq> k \<Longrightarrow> xlru_len ops c < cap \<Longrightarrow> live u (xlru_add ops t k v c) j = live u c j"
    and add_len: "xlru_len ops (xlru_add ops t k v c) \<le> Suc (xlru_len ops c)"
    and remove_live: "live u (xlru_remove ops k c) j = (if j = k then None else live u c j)"
    and purge_live: "live u (xlru_purge ops c) j = None"

section \<open>List instances\<close>

definition list_lru :: "nat \<Rightarrow> (('k, 'v) gomap, 'k, 'v) lru_ops" where
  "list_lru cap = \<lparr>lru_new = \<lambda>n. [],
     lru_get = \<lambda>k c. (map_of c k, lru_touch k c),
     lru_add = \<lambda>k v c. (cap \<le> length (AList.delete k c), take cap ((k, v) # AList.delete k c)),
     lru_len = length\<rparr>"

interpretation list_lru_10000: lru_cache "list_lru 10000" "\<lambda>c. c" 10000
  by unfold_locales (simp_all add: list_lru_def)

lemma list_lru_laws: "0 < cap \<Longrightarrow> lru_cache (list_lru cap) (\<lambda>c. c) cap"
  by unfold_locales (simp_all add: list_lru_def)

text \<open>A lookup that hits moves the binding to the front, as in the package.\<close>

definition front :: "'k \<Rightarrow> ('k, 'v) gomap \<Rightarrow> ('k, 'v) gomap" where
  "front k l = (case map_of l k of None \<Rightarrow> l | Some v \<Rightarrow> (k, v) # remove1 (k, v) l)"

lemma length_front [simp]: "length (front k l) = length l"
proof (cases "map_of l k")
  case (Some v)
  then have "(k, v) \<in> set l" by (rule map_of_SomeD)
  with Some show ?thesis
    by (simp add: front_def length_remove1) (metis Suc_pred length_pos_if_in_set)
qed (simp add: front_def)

lemma map_of_remove1_other: "j \<noteq> k \<Longrightarrow> map_of (remove1 (k, v) l) j = map_of l j"
  by (induction l) auto

lemma map_of_front [simp]: "map_of (front k l) j = map_of l j"
  by (cases "j = k") (auto simp: front_def map_of_remove1_other split: option.splits)

lemma map_of_take_le: "map_of (take n l) k = Some v \<Longrightarrow> map_of l k = Some v"
proof (induction l arbitrary: n)
  case (Cons a l)
  then show ?case by (cases n) (auto split: if_splits)
qed simp

definition list_xlru :: "nat \<Rightarrow> int \<Rightarrow> (('k, 'v \<times> Time) gomap, 'k, 'v) xlru_ops" where
  "list_xlru cap ttl = \<lparr>xlru_new = \<lambda>n d. [],
     xlru_get = \<lambda>t k c. ((case map_of c k of None \<Rightarrow> None
                          | Some (v, e) \<Rightarrow> if t \<le> e then Some v else None), front k c),
     xlru_add = \<lambda>t k v c. take cap ((k, (v, t + ttl)) # AList.delete k c),
     xlru_remove = AList.delete,
     xlru_purge = \<lambda>c. [],
     xlru_len = length\<rparr>"

definition list_live :: "Time \<Rightarrow> ('k, 'v \<times> Time) gomap \<Rightarrow> 'k \<Rightarrow> 'v option" where
  "list_live t c k = (case map_of c k of None \<Rightarrow> None | Some (v, e) \<Rightarrow> if t \<le> e then Some v else None)"

lemma list_live_take:
  assumes "j \<noteq> k" "0 < cap" "list_live u (take cap ((k, x) # AList.delete k c)) j = Some w"
  shows "list_live u c j = Some w"
proof -
  obtain e where "map_of (take cap ((k, x) # AList.delete k c)) j = Some (w, e)" and e: "u \<le> e"
    using assms(3) by (auto simp: list_live_def split: option.splits if_splits)
  from map_of_take_le [OF this(1)] assms(1) have "map_of c j = Some (w, e)"
    by simp
  with e show ?thesis by (simp add: list_live_def)
qed

lemma list_xlru_laws:
  assumes "0 < cap"
  shows "expirable_cache (list_xlru cap ttl) list_live cap ttl"
proof
  fix u t :: Time and k j and v w and c :: "('a, 'b \<times> Time) gomap"
  show "j \<noteq> k \<Longrightarrow> xlru_len (list_xlru cap ttl) c < cap \<Longrightarrow>
      list_live u (xlru_add (list_xlru cap ttl) t k v c) j = list_live u c j"
    using gomap_length_del_le [of k c] by (simp add: list_xlru_def list_live_def)
  show "j \<noteq> k \<Longrightarrow> list_live u (xlru_add (list_xlru cap ttl) t k v c) j = Some w \<Longrightarrow>
      list_live u c j = Some w"
    using assms by (simp add: list_xlru_def) (erule (1) list_live_take [OF _ assms])
  show "xlru_len (list_xlru cap ttl) (xlru_add (list_xlru cap ttl) t k v c)
      \<le> Suc (xlru_len (list_xlru cap ttl) c)"
    using gomap_length_del_le [of k c] by (simp add: list_xlru_def)
  show "list_live u (xlru_add (list_xlru cap ttl) t k v c) k = Some w \<Longrightarrow> w = v"
    using assms by (cases cap) (auto simp: list_xlru_def list_live_def split: if_splits)
  show "t \<le> u \<Longrightarrow> u \<le> t + ttl \<Longrightarrow> list_live u (xlru_add (list_xlru cap ttl) t k v c) k = Some v"
    using assms by (cases cap) (simp_all add: list_xlru_def list_live_def)
qed (auto simp: list_xlru_def list_live_def)

interpretation list_xlru_1000: expirable_cache "list_xlru 1000 30000000000" list_live 1000 30000000000
  by (rule list_xlru_laws) simp

end
