(* ===== verification/Relay_Store.thy ===== *)
theory Relay_Store
  imports Relay_Cache
begin

text \<open>
  Package \<^verbatim>\<open>internal/store\<close>: the deduplication stores (memory, Valkey, Olric), the run buffer of
  the memory backend, the choice of a backend and the instrumented wrapper.

  The contract of \<^verbatim>\<open>DedupeStore\<close> is the locale \<^verbatim>\<open>dedupe_store\<close>; every backend is shown to keep
  it. The memory backend rests on the cache interface of \<^verbatim>\<open>Relay_Cache\<close>, the remote ones on the
  documented behaviour of SET NX (locale \<^verbatim>\<open>redis_server\<close>) and PUT NX (locale \<^verbatim>\<open>olric_dmap\<close>).
\<close>

section \<open>The contract of a deduplication store\<close>

text \<open>
  \<open>seen s\<close> are the identifiers the store remembers. An answer tells whether the identifier was
  new, the call records it, and it records nothing else; entries may be forgotten (by capacity
  or by expiry) and a call may fail.
\<close>

locale dedupe_store =
  fixes first_seen :: "string \<Rightarrow> 's \<Rightarrow> bool result \<times> 's"
    and seen :: "'s \<Rightarrow> string set"
  assumes answer: "first_seen i s = (Inr b, s') \<Longrightarrow> b \<longleftrightarrow> i \<notin> seen s"
    and records: "first_seen i s = (Inr b, s') \<Longrightarrow> i \<in> seen s'"
    and adds_only: "first_seen i s = (r, s') \<Longrightarrow> seen s' \<subseteq> insert i (seen s)"
begin

lemma repeat_rejected:
  assumes "first_seen i s = (Inr b, s1)" and "first_seen i s1 = (Inr b', s2)"
  shows "\<not> b'"
  using answer [OF assms(2)] records [OF assms(1)] by simp

lemma fresh_accepted:
  assumes "first_seen i s = (Inr b, s')" and "i \<notin> seen s"
  shows "b"
  using answer [OF assms(1)] assms(2) by simp

end

text \<open>A store that forgets nothing between calls.\<close>

locale lossless_dedupe_store = dedupe_store +
  assumes keeps: "first_seen i s = (r, s') \<Longrightarrow> seen s \<subseteq> seen s'"

text \<open>A sequence of calls with their answers.\<close>

fun run_first_seen :: "(string \<Rightarrow> 's \<Rightarrow> bool result \<times> 's) \<Rightarrow> string list \<Rightarrow> 's \<Rightarrow> bool result list \<times> 's" where
  "run_first_seen f [] s = ([], s)"
| "run_first_seen f (i # is) s =
     (let (r, s1) = f i s; (rs, s2) = run_first_seen f is s1 in (r # rs, s2))"

lemma length_run_first_seen: "length (fst (run_first_seen f is s)) = length is"
  by (induction "is" arbitrary: s) (auto simp: split_def Let_def)

text \<open>How often an identifier was accepted as new in a sequence of calls.\<close>

definition accepted :: "string \<Rightarrow> (string \<times> bool result) list \<Rightarrow> nat" where
  "accepted i rs = length (filter (\<lambda>r. r = (i, Inr True)) rs)"

lemma accepted_simps [simp]:
  "accepted i [] = 0"
  "accepted i (r # rs) = (if r = (i, Inr True) then Suc (accepted i rs) else accepted i rs)"
  by (simp_all add: accepted_def)

context lossless_dedupe_store
begin

lemma seen_never_accepted:
  "i \<in> seen s \<Longrightarrow> accepted i (zip is (fst (run_first_seen first_seen is s))) = 0"
proof (induction "is" arbitrary: s)
  case (Cons j "is")
  obtain r s1 where step: "first_seen j s = (r, s1)" by fastforce
  have "i \<in> seen s1" using keeps [OF step] Cons.prems by blast
  with Cons.IH [of s1] step answer [of j s] Cons.prems show ?case
    by (auto simp: split_def Let_def)
qed simp

lemma accepted_at_most_once:
  "accepted i (zip is (fst (run_first_seen first_seen is s))) \<le> 1"
proof (induction "is" arbitrary: s)
  case (Cons j "is")
  obtain r s1 where step: "first_seen j s = (r, s1)" by fastforce
  show ?case
  proof (cases "(j, r) = (i, Inr True)")
    case True
    then have "i \<in> seen s1" using records step by auto
    from seen_never_accepted [OF this] True step show ?thesis
      by (auto simp: split_def Let_def)
  next
    case False
    with Cons.IH [of s1] step show ?thesis
      by (auto simp: split_def Let_def)
  qed
qed simp

end

section \<open>Memory backend\<close>

definition defaultDedupeCapacity :: nat where "defaultDedupeCapacity = 10000"
definition defaultBufferCapacity :: nat where "defaultBufferCapacity = 1000"
definition defaultBufferTTL :: int where "defaultBufferTTL = 30 * 10 ^ 9"

text \<open>The cache of identifiers and the counter its eviction callback increments.\<close>

record 'c memoryDedupe =
  dedupeCache :: 'c
  DeduperEvictions :: nat

definition memoryDedupe_FirstSeen ::
  "('c, string, unit) lru_ops \<Rightarrow> string \<Rightarrow> 'c memoryDedupe \<Rightarrow> bool result \<times> 'c memoryDedupe" where
  "memoryDedupe_FirstSeen ops i d =
     (case lru_get ops i (dedupeCache d) of
        (Some _, c) \<Rightarrow> (Inr False, d\<lparr>dedupeCache := c\<rparr>)
      | (None, c) \<Rightarrow>
          (case lru_add ops i () c of
             (evicted, c') \<Rightarrow>
               (Inr True, d\<lparr>dedupeCache := c',
                  DeduperEvictions := DeduperEvictions d + (if evicted then 1 else 0)\<rparr>)))"

definition memoryDedupe_Len :: "('c, string, unit) lru_ops \<Rightarrow> 'c memoryDedupe \<Rightarrow> nat" where
  "memoryDedupe_Len ops d = lru_len ops (dedupeCache d)"

text \<open>The identifiers in the cache, most recently used first.\<close>

definition memoryDedupe_ids :: "('c \<Rightarrow> (string, unit) gomap) \<Rightarrow> 'c memoryDedupe \<Rightarrow> string list" where
  "memoryDedupe_ids content d = map fst (content (dedupeCache d))"

locale dedupe_cache = lru_cache ops content cap
  for ops :: "('c, string, unit) lru_ops" and content and cap
begin

lemma FirstSeen_ids:
  assumes "memoryDedupe_FirstSeen ops i d = (r, d')"
  shows "r = Inr (i \<notin> set (memoryDedupe_ids content d))"
    and "memoryDedupe_ids content d' =
      (let l = filter (\<lambda>j. j \<noteq> i) (memoryDedupe_ids content d)
       in if i \<in> set (memoryDedupe_ids content d) then i # l else take cap (i # l))"
proof -
  have del: "map fst (AList.delete i l) = filter (\<lambda>j. j \<noteq> i) (map fst l)" for l :: "(string, unit) gomap"
    by (induction l) auto
  have g1: "fst (lru_get ops i (dedupeCache d)) = map_of (content (dedupeCache d)) i"
    by (rule get_result)
  have g2: "content (snd (lru_get ops i (dedupeCache d))) = lru_touch i (content (dedupeCache d))"
    by (rule get_content)
  show "r = Inr (i \<notin> set (memoryDedupe_ids content d))"
    using assms g1
    by (auto simp: memoryDedupe_FirstSeen_def memoryDedupe_ids_def gomap_unit
        split: prod.splits option.splits if_splits)
  show "memoryDedupe_ids content d' =
      (let l = filter (\<lambda>j. j \<noteq> i) (memoryDedupe_ids content d)
       in if i \<in> set (memoryDedupe_ids content d) then i # l else take cap (i # l))"
  proof (cases "map_of (content (dedupeCache d)) i")
    case None
    obtain c where g: "lru_get ops i (dedupeCache d) = (None, c)"
      using g1 None by (metis prod.collapse)
    obtain ev c' where a: "lru_add ops i () c = (ev, c')" by fastforce
    have "content c = content (dedupeCache d)"
      using g2 g None by (simp add: lru_touch_def)
    then have "content c' = take cap ((i, ()) # AList.delete i (content (dedupeCache d)))"
      using add_content [of i "()" c] a by simp
    moreover have "dedupeCache d' = c'"
      using assms g a by (auto simp: memoryDedupe_FirstSeen_def)
    moreover have "i \<notin> set (memoryDedupe_ids content d)"
      using None by (simp add: memoryDedupe_ids_def map_of_eq_None_iff)
    moreover from this have "filter (\<lambda>j. j \<noteq> i) (memoryDedupe_ids content d) = memoryDedupe_ids content d"
      by (auto simp: filter_id_conv)
    ultimately show ?thesis
      using del [of "content (dedupeCache d)"]
      by (simp add: memoryDedupe_ids_def Let_def take_map [symmetric])
  next
    case (Some u)
    obtain c where g: "lru_get ops i (dedupeCache d) = (Some u, c)"
      using g1 Some by (metis prod.collapse)
    have "content c = (i, u) # AList.delete i (content (dedupeCache d))"
      using g2 g Some by (simp add: lru_touch_def)
    moreover have "dedupeCache d' = c"
      using assms g by (auto simp: memoryDedupe_FirstSeen_def)
    moreover have "i \<in> set (memoryDedupe_ids content d)"
      using Some by (force simp: memoryDedupe_ids_def dest: map_of_SomeD)
    ultimately show ?thesis
      by (simp add: memoryDedupe_ids_def Let_def del)
  qed
qed

end

sublocale dedupe_cache \<subseteq> dedupe_store "memoryDedupe_FirstSeen ops" "\<lambda>d. set (memoryDedupe_ids content d)"
proof
  fix i s b s'
  assume "memoryDedupe_FirstSeen ops i s = (Inr b, s')"
  note F = FirstSeen_ids [OF this]
  show "b = (i \<notin> set (memoryDedupe_ids content s))" using F(1) by simp
  show "i \<in> set (memoryDedupe_ids content s')"
    using F(2) cap_pos by (cases cap) (auto simp: Let_def)
next
  fix i s r s'
  assume "memoryDedupe_FirstSeen ops i s = (r, s')"
  from FirstSeen_ids(2) [OF this]
  show "set (memoryDedupe_ids content s') \<subseteq> insert i (set (memoryDedupe_ids content s))"
    by (auto simp: Let_def dest: in_set_takeD split: if_splits)
qed

text \<open>
  How long the memory store remembers: an identifier stays until \<open>cap\<close> other identifiers were
  looked up. \<open>recent i Y l\<close>: the identifiers used after \<open>i\<close> all lie in \<open>Y\<close>.
\<close>

definition recent :: "string \<Rightarrow> string set \<Rightarrow> string list \<Rightarrow> bool" where
  "recent i Y l \<longleftrightarrow> (\<exists>xs ys. l = xs @ i # ys \<and> i \<notin> set xs \<and> distinct xs \<and> set xs \<subseteq> Y)"

lemma recent_hit: "recent i Y (i # l)"
  unfolding recent_def by (rule exI [of _ "[]"]) auto

lemma recent_mem: "recent i Y l \<Longrightarrow> i \<in> set l"
  by (auto simp: recent_def)

lemma recent_move:
  assumes "recent i Y l" "j \<in> Y" "j \<noteq> i"
  shows "recent i Y (j # filter (\<lambda>x. x \<noteq> j) l)"
proof -
  obtain xs ys where l: "l = xs @ i # ys" "i \<notin> set xs" "distinct xs" "set xs \<subseteq> Y"
    using assms(1) by (auto simp: recent_def)
  have "j # filter (\<lambda>x. x \<noteq> j) l = (j # filter (\<lambda>x. x \<noteq> j) xs) @ i # filter (\<lambda>x. x \<noteq> j) ys"
    using l assms(3) by simp
  moreover have "distinct (j # filter (\<lambda>x. x \<noteq> j) xs)" "set (j # filter (\<lambda>x. x \<noteq> j) xs) \<subseteq> Y"
      "i \<notin> set (j # filter (\<lambda>x. x \<noteq> j) xs)"
    using l assms by auto
  ultimately show ?thesis unfolding recent_def by blast
qed

lemma recent_take:
  assumes "recent i Y l" "finite Y" "card Y < cap"
  shows "recent i Y (take cap l)"
proof -
  obtain xs ys where l: "l = xs @ i # ys" "i \<notin> set xs" "distinct xs" "set xs \<subseteq> Y"
    using assms(1) by (auto simp: recent_def)
  have "length xs < cap"
    using l assms(2,3) by (metis card_mono distinct_card le_less_trans)
  then obtain k where "cap - length xs = Suc k"
    by (metis Suc_diff_Suc)
  then have "take cap l = xs @ i # take k ys"
    using l(1) \<open>length xs < cap\<close> by simp
  with l show ?thesis unfolding recent_def by blast
qed

context dedupe_cache
begin

lemma FirstSeen_recent:
  assumes "memoryDedupe_FirstSeen ops j d = (r, d')" and "j \<in> insert i Y"
    and "recent i Y (memoryDedupe_ids content d)" and "finite Y" and "card Y < cap"
  shows "recent i Y (memoryDedupe_ids content d')"
proof (cases "j = i")
  case True
  then show ?thesis
    using FirstSeen_ids(2) [OF assms(1)] recent_mem [OF assms(3)] by (simp add: Let_def recent_hit)
next
  case False
  with assms(2) have "j \<in> Y" by simp
  from recent_move [OF assms(3) this False] recent_take [OF _ assms(4,5)]
  show ?thesis
    using FirstSeen_ids(2) [OF assms(1)] by (auto simp: Let_def)
qed

lemma run_recent:
  assumes "run_first_seen (memoryDedupe_FirstSeen ops) js d = (rs, d')" and "set js \<subseteq> insert i Y"
    and "recent i Y (memoryDedupe_ids content d)" and "finite Y" and "card Y < cap"
  shows "recent i Y (memoryDedupe_ids content d')"
  using assms(1-3)
proof (induction js arbitrary: d rs)
  case (Cons j js)
  obtain r d1 where step: "memoryDedupe_FirstSeen ops j d = (r, d1)" by fastforce
  with Cons.prems(1) obtain rs' where "run_first_seen (memoryDedupe_FirstSeen ops) js d1 = (rs', d')"
    by (auto split: prod.splits)
  moreover have "recent i Y (memoryDedupe_ids content d1)"
    using FirstSeen_recent [OF step _ Cons.prems(3) assms(4,5)] Cons.prems(2) by simp
  ultimately show ?case using Cons.IH Cons.prems(2) by auto
qed simp

lemma FirstSeen_window:
  assumes "memoryDedupe_FirstSeen ops i d = (r, d1)"
    and "run_first_seen (memoryDedupe_FirstSeen ops) js d1 = (rs, d2)"
    and "card (set js - {i}) < cap"
  shows "fst (memoryDedupe_FirstSeen ops i d2) = Inr False"
proof -
  have "recent i (set js - {i}) (memoryDedupe_ids content d1)"
  proof -
    obtain k where "cap = Suc k" using cap_pos by (metis Suc_pred)
    then show ?thesis
      using FirstSeen_ids(2) [OF assms(1)] by (auto simp: Let_def recent_hit)
  qed
  from run_recent [OF assms(2) _ this _ assms(3)]
  have "recent i (set js - {i}) (memoryDedupe_ids content d2)" by auto
  from recent_mem [OF this] show ?thesis
    using FirstSeen_ids(1) [of i d2] by (metis prod.collapse)
qed

end

interpretation memory_store: dedupe_cache "list_lru 10000" "\<lambda>c. c" 10000
  by unfold_locales

text \<open>
  The two cache calls of \<^verbatim>\<open>FirstSeen\<close> as separate steps: nothing in the source makes them atomic.
\<close>

definition memoryDedupe_check ::
  "('c, string, unit) lru_ops \<Rightarrow> string \<Rightarrow> 'c memoryDedupe \<Rightarrow> bool \<times> 'c memoryDedupe" where
  "memoryDedupe_check ops i d =
     (case lru_get ops i (dedupeCache d) of (v, c) \<Rightarrow> (v \<noteq> None, d\<lparr>dedupeCache := c\<rparr>))"

definition memoryDedupe_commit ::
  "('c, string, unit) lru_ops \<Rightarrow> string \<Rightarrow> 'c memoryDedupe \<Rightarrow> 'c memoryDedupe" where
  "memoryDedupe_commit ops i d =
     (case lru_add ops i () (dedupeCache d) of
        (evicted, c) \<Rightarrow> d\<lparr>dedupeCache := c,
           DeduperEvictions := DeduperEvictions d + (if evicted then 1 else 0)\<rparr>)"

lemma FirstSeen_steps:
  "memoryDedupe_FirstSeen ops i d =
     (case memoryDedupe_check ops i d of
        (True, d1) \<Rightarrow> (Inr False, d1) | (False, d1) \<Rightarrow> (Inr True, memoryDedupe_commit ops i d1))"
  by (auto simp: memoryDedupe_FirstSeen_def memoryDedupe_check_def memoryDedupe_commit_def
      split: prod.splits option.splits)

context dedupe_cache
begin

lemma check_answer: "fst (memoryDedupe_check ops i d) \<longleftrightarrow> i \<in> set (memoryDedupe_ids content d)"
  using get_result [of i "dedupeCache d"]
  by (auto simp: memoryDedupe_check_def memoryDedupe_ids_def gomap_unit split: prod.splits if_splits)

lemma check_keeps: "set (memoryDedupe_ids content (snd (memoryDedupe_check ops i d))) =
   set (memoryDedupe_ids content d)"
  using get_content [of i "dedupeCache d"]
  by (auto simp: memoryDedupe_check_def memoryDedupe_ids_def lru_touch_def gomap_unit AList.delete_eq
      image_iff split: prod.splits option.splits if_splits)

lemma two_checks_both_new:
  assumes "i \<notin> set (memoryDedupe_ids content d)"
  shows "\<not> fst (memoryDedupe_check ops i d)"
    and "\<not> fst (memoryDedupe_check ops i (snd (memoryDedupe_check ops i d)))"
  using assms by (simp_all add: check_answer check_keeps)

end

section \<open>The run buffer\<close>

type_synonym TaskMap = "(string, Event) gomap"

text \<open>
  The contract of \<^verbatim>\<open>RunBuffer\<close>: \<open>tasks_at t s u\<close> is what a flush of run \<open>u\<close> finds at time \<open>t\<close>.
  An addition replaces the event of its task and renews the life of the whole run for \<open>ttl\<close>;
  a flush returns everything that was collected and forgets it.
\<close>

locale run_buffer =
  fixes add :: "Time \<Rightarrow> string \<Rightarrow> string \<Rightarrow> Event \<Rightarrow> 's \<Rightarrow> err option \<times> 's"
    and flush :: "Time \<Rightarrow> string \<Rightarrow> 's \<Rightarrow> TaskMap option result \<times> 's"
    and tasks_at :: "Time \<Rightarrow> 's \<Rightarrow> string \<Rightarrow> TaskMap option"
    and ttl :: int
  assumes add_ok: "add t u k e s = (None, s') \<Longrightarrow> t \<le> t' \<Longrightarrow> t' \<le> t + ttl \<Longrightarrow>
      tasks_at t' s' u = Some (AList.update k e (case tasks_at t s u of None \<Rightarrow> [] | Some m \<Rightarrow> m))"
    and flush_result: "flush t u s = (Inr r, s') \<Longrightarrow> r = tasks_at t s u"
    and flush_forgets: "flush t u s = (Inr (Some m), s') \<Longrightarrow> tasks_at t' s' u = None"
    and flush_others: "flush t u s = (Inr r, s') \<Longrightarrow> w \<noteq> u \<Longrightarrow> tasks_at t' s' w = tasks_at t' s w"

text \<open>Adding the events of one run, each at its own time.\<close>

fun add_all :: "(Time \<Rightarrow> string \<Rightarrow> string \<Rightarrow> Event \<Rightarrow> 's \<Rightarrow> err option \<times> 's) \<Rightarrow> string \<Rightarrow>
    (Time \<times> string \<times> Event) list \<Rightarrow> 's \<Rightarrow> err option \<times> 's" where
  "add_all add u [] s = (None, s)"
| "add_all add u ((t, k, e) # xs) s =
     (case add t u k e s of (None, s') \<Rightarrow> add_all add u xs s' | (Some er, s') \<Rightarrow> (Some er, s'))"

text \<open>Consecutive times are at most \<open>ttl\<close> apart.\<close>

fun within_ttl :: "int \<Rightarrow> Time list \<Rightarrow> bool" where
  "within_ttl ttl (t # u # ts) = (t \<le> u \<and> u \<le> t + ttl \<and> within_ttl ttl (u # ts))"
| "within_ttl ttl _ = True"

definition collect :: "(Time \<times> string \<times> Event) list \<Rightarrow> TaskMap \<Rightarrow> TaskMap" where
  "collect xs m = fold (\<lambda>(t, k, e). AList.update k e) xs m"

lemma collect_simps [simp]:
  "collect [] m = m" "collect ((t, k, e) # xs) m = collect xs (AList.update k e m)"
  by (simp_all add: collect_def)

context run_buffer
begin

lemma add_all_collects:
  assumes "add_all add u xs s = (None, s')" and "xs \<noteq> []"
    and "within_ttl ttl (map fst xs @ [t'])"
  shows "tasks_at t' s' u = Some (collect xs (case tasks_at (fst (hd xs)) s u of None \<Rightarrow> [] | Some m \<Rightarrow> m))"
  using assms
proof (induction xs arbitrary: s)
  case (Cons x xs)
  obtain t k e where x: "x = (t, k, e)" by (cases x)
  with Cons.prems(1) obtain s1 where step: "add t u k e s = (None, s1)"
      and rest: "add_all add u xs s1 = (None, s')"
    by (auto split: prod.splits option.splits)
  show ?case
  proof (cases xs)
    case Nil
    with Cons.prems rest step x show ?thesis using add_ok by auto
  next
    case (Cons y ys)
    then have "t \<le> fst y" "fst y \<le> t + ttl" "within_ttl ttl (map fst xs @ [t'])"
      using Cons.prems(3) x by auto
    moreover from this have "tasks_at (fst y) s1 u =
        Some (AList.update k e (case tasks_at t s u of None \<Rightarrow> [] | Some m \<Rightarrow> m))"
      using add_ok [OF step] by blast
    ultimately show ?thesis
      using Cons.IH [OF rest] Cons x by simp
  qed
qed simp

lemma flush_collects:
  assumes "add_all add u xs s = (None, s1)" and "xs \<noteq> []" and "tasks_at (fst (hd xs)) s u = None"
    and "within_ttl ttl (map fst xs @ [t'])" and "flush t' u s1 = (Inr r, s2)"
  shows "r = Some (collect xs []) \<and> tasks_at t'' s2 u = None"
proof -
  have r: "r = Some (collect xs [])"
    using add_all_collects [OF assms(1,2,4)] assms(3) flush_result [OF assms(5)] by simp
  with flush_forgets [of t' u s1] assms(5) show ?thesis by blast
qed

end

definition memoryRunBuffer_Add ::
  "('c, string, TaskMap) xlru_ops \<Rightarrow> Time \<Rightarrow> string \<Rightarrow> string \<Rightarrow> Event \<Rightarrow> 'c \<Rightarrow> err option \<times> 'c" where
  "memoryRunBuffer_Add ops now uid task ev c =
     (let (r, c1) = xlru_get ops now uid c;
          tasks = (case r of None \<Rightarrow> [] | Some m \<Rightarrow> m)
      in (None, xlru_add ops now uid (AList.update task ev tasks) c1))"

definition memoryRunBuffer_Flush ::
  "('c, string, TaskMap) xlru_ops \<Rightarrow> Time \<Rightarrow> string \<Rightarrow> 'c \<Rightarrow> TaskMap option result \<times> 'c" where
  "memoryRunBuffer_Flush ops now uid c =
     (case xlru_get ops now uid c of
        (None, c1) \<Rightarrow> (Inr None, c1)
      | (Some tasks, c1) \<Rightarrow> (Inr (Some tasks), xlru_remove ops uid c1))"

locale run_cache = expirable_cache ops live cap ttl
  for ops :: "('c, string, TaskMap) xlru_ops" and live and cap and ttl

sublocale run_cache \<subseteq> run_buffer "memoryRunBuffer_Add ops" "memoryRunBuffer_Flush ops" live ttl
proof
  fix t t' :: Time and u k w e s s' r m
  show "memoryRunBuffer_Add ops t u k e s = (None, s') \<Longrightarrow> t \<le> t' \<Longrightarrow> t' \<le> t + ttl \<Longrightarrow>
      live t' s' u = Some (AList.update k e (case live t s u of None \<Rightarrow> [] | Some m \<Rightarrow> m))"
    using get_result [of t u s] add_same
    by (auto simp: memoryRunBuffer_Add_def split: prod.splits option.splits)
  show "memoryRunBuffer_Flush ops t u s = (Inr r, s') \<Longrightarrow> r = live t s u"
    using get_result [of t u s] by (auto simp: memoryRunBuffer_Flush_def split: prod.splits option.splits)
  show "memoryRunBuffer_Flush ops t u s = (Inr (Some m), s') \<Longrightarrow> live t' s' u = None"
    by (auto simp: memoryRunBuffer_Flush_def remove_live split: prod.splits option.splits)
  show "memoryRunBuffer_Flush ops t u s = (Inr r, s') \<Longrightarrow> w \<noteq> u \<Longrightarrow> live t' s' w = live t' s w"
    using get_live [of t' t u s w]
    by (auto simp: memoryRunBuffer_Flush_def remove_live split: prod.splits option.splits)
qed

context run_cache
begin

lemma Flush_collects:
  assumes "add_all (memoryRunBuffer_Add ops) u xs c = (None, c1)" and "xs \<noteq> []"
    and "live (fst (hd xs)) c u = None" and "within_ttl ttl (map fst xs @ [t])"
    and "memoryRunBuffer_Flush ops t u c1 = (Inr r, c2)"
  shows "r = Some (collect xs []) \<and> fst (memoryRunBuffer_Flush ops t' u c2) = Inr None"
proof -
  note f = flush_collects [OF assms]
  have "fst (memoryRunBuffer_Flush ops t' u c2) = Inr (live t' c2 u)"
    using get_result [of t' u c2] by (auto simp: memoryRunBuffer_Flush_def split: prod.splits option.splits)
  with f show ?thesis by simp
qed

end

interpretation memory_runs: run_cache "list_xlru 1000 30000000000" list_live 1000 30000000000
  by unfold_locales

text \<open>The capacities \<^verbatim>\<open>newMemoryStore\<close> falls back to when none is configured.\<close>

definition newMemoryStore ::
  "('c, string, unit) lru_ops \<Rightarrow> ('b, string, TaskMap) xlru_ops \<Rightarrow> int \<Rightarrow> int \<Rightarrow> int \<Rightarrow> 'c memoryDedupe \<times> 'b" where
  "newMemoryStore ops xops dedupeCapacity bufferCapacity ttl =
     (let dedupeCap = (if dedupeCapacity \<le> 0 then defaultDedupeCapacity else nat dedupeCapacity);
          bufferCap = (if bufferCapacity \<le> 0 then defaultBufferCapacity else nat bufferCapacity);
          bufferTTL = (if ttl \<le> 0 then defaultBufferTTL else ttl)
      in (\<lparr>dedupeCache = lru_new ops dedupeCap, DeduperEvictions = 0\<rparr>, xlru_new xops bufferCap bufferTTL))"

section \<open>Valkey backend\<close>

text \<open>
  The client of the server: \<^verbatim>\<open>SET key value NX EX ttl\<close> at a time. A time to live of zero sets no
  expiry.
\<close>

type_synonym 'r SetNX = "Time \<Rightarrow> string \<Rightarrow> string \<Rightarrow> int \<Rightarrow> 'r \<Rightarrow> bool result \<times> 'r"

record valkeyStore =
  vkPrefix :: string
  vkTTL :: int

text \<open>The state of the world at a call: the clock and the server.\<close>

definition valkey_FirstSeen ::
  "'r SetNX \<Rightarrow> valkeyStore \<Rightarrow> string \<Rightarrow> Time \<times> 'r \<Rightarrow> bool result \<times> (Time \<times> 'r)" where
  "valkey_FirstSeen setnx s i w =
     (let key = vkPrefix s @ '':dedupe:'' @ i
      in case setnx (fst w) key '''' (vkTTL s) (snd w) of
           (Inl e, r) \<Rightarrow> (Inl (Wrap ''valkey SETNX: '' e), (fst w, r))
         | (Inr ok, r) \<Rightarrow> (Inr ok, (fst w, r)))"

definition valkey_runKey :: "valkeyStore \<Rightarrow> string \<Rightarrow> string" where
  "valkey_runKey s uid = vkPrefix s @ '':run:'' @ uid"

definition newValkeyPrefix :: "string \<Rightarrow> string" where
  "newValkeyPrefix p = (if p = '''' then ''tekton-events-relay'' else p)"

locale redis_server =
  fixes setnx :: "'r SetNX" and alive :: "Time \<Rightarrow> 'r \<Rightarrow> string \<Rightarrow> bool"
  assumes setnx_reply: "setnx t k v ttl r = (Inr ok, r') \<Longrightarrow> ok \<longleftrightarrow> \<not> alive t r k"
    and setnx_sets: "setnx t k v ttl r = (Inr True, r') \<Longrightarrow> t \<le> u \<Longrightarrow> ttl = 0 \<or> u < t + ttl \<Longrightarrow> alive u r' k"
    and setnx_keeps: "setnx t k v ttl r = (x, r') \<Longrightarrow> t \<le> u \<Longrightarrow> alive u r j \<Longrightarrow> alive u r' j"
    and setnx_others: "setnx t k v ttl r = (x, r') \<Longrightarrow> j \<noteq> k \<Longrightarrow> alive u r' j = alive u r j"

text \<open>
  What both remote backends do: record a key with NX and pass on the reply. Distinct identifiers
  have distinct keys.
\<close>

definition nx_first_seen ::
  "'r SetNX \<Rightarrow> (string \<Rightarrow> string) \<Rightarrow> int \<Rightarrow> string \<Rightarrow> string \<Rightarrow> Time \<times> 'r \<Rightarrow> bool result \<times> (Time \<times> 'r)" where
  "nx_first_seen setnx key ttl msg i w =
     (case setnx (fst w) (key i) '''' ttl (snd w) of
        (Inl e, r) \<Rightarrow> (Inl (Wrap msg e), (fst w, r))
      | (Inr ok, r) \<Rightarrow> (Inr ok, (fst w, r)))"

definition nx_seen :: "(Time \<Rightarrow> 'r \<Rightarrow> string \<Rightarrow> bool) \<Rightarrow> (string \<Rightarrow> string) \<Rightarrow> Time \<times> 'r \<Rightarrow> string set" where
  "nx_seen alive key w = {i. alive (fst w) (snd w) (key i)}"

locale nx_backend = redis_server setnx alive
  for setnx :: "'r SetNX" and alive +
  fixes key :: "string \<Rightarrow> string" and ttl :: int and msg :: string
  assumes ttl_nonneg: "0 \<le> ttl" and key_inj: "key i = key j \<Longrightarrow> i = j"
begin

lemma recorded:
  assumes "setnx t (key i) v ttl q = (Inr ok, q')"
  shows "alive t q' (key i)"
proof (cases ok)
  case True
  with setnx_sets [of t "key i" v ttl q q' t] assms ttl_nonneg show ?thesis
    by (metis less_add_same_cancel1 order_le_less order_refl)
next
  case False
  with setnx_reply [OF assms] setnx_keeps [OF assms, of t] show ?thesis by auto
qed

lemma first_seen_unfold:
  assumes "setnx t (key i) '''' ttl q = (x, q')"
  shows "nx_first_seen setnx key ttl msg i (t, q) =
    (case x of Inl e \<Rightarrow> (Inl (Wrap msg e), (t, q')) | Inr ok \<Rightarrow> (Inr ok, (t, q')))"
  using assms by (simp add: nx_first_seen_def split: sum.split)

end

sublocale nx_backend \<subseteq> lossless_dedupe_store "nx_first_seen setnx key ttl msg" "nx_seen alive key"
proof
  fix i and w :: "Time \<times> 'r" and b w' r
  obtain t q where w: "w = (t, q)" by fastforce
  obtain x q' where x: "setnx t (key i) '''' ttl q = (x, q')" by fastforce
  note step = first_seen_unfold [OF x, folded w]
  show "nx_first_seen setnx key ttl msg i w = (Inr b, w') \<Longrightarrow> b = (i \<notin> nx_seen alive key w)"
    using step setnx_reply x w by (auto simp: nx_seen_def split: sum.splits)
  show "nx_first_seen setnx key ttl msg i w = (Inr b, w') \<Longrightarrow> i \<in> nx_seen alive key w'"
    using step recorded x by (auto simp: nx_seen_def split: sum.splits)
  show "nx_first_seen setnx key ttl msg i w = (r, w') \<Longrightarrow> nx_seen alive key w' \<subseteq> insert i (nx_seen alive key w)"
  proof
    fix j
    assume "nx_first_seen setnx key ttl msg i w = (r, w')" and j: "j \<in> nx_seen alive key w'"
    then have "w' = (t, q')" using step by (simp split: sum.splits)
    with j setnx_others [OF x, of "key j" t] key_inj [of j i] w show "j \<in> insert i (nx_seen alive key w)"
      by (auto simp: nx_seen_def)
  qed
  show "nx_first_seen setnx key ttl msg i w = (r, w') \<Longrightarrow> nx_seen alive key w \<subseteq> nx_seen alive key w'"
    using step setnx_keeps [OF x, of t] w by (auto simp: nx_seen_def split: sum.splits)
qed

text \<open>The time to live: a recorded identifier is refused at every later time before its expiry.\<close>

context nx_backend
begin

lemma refused_until_expiry:
  assumes "nx_first_seen setnx key ttl msg i (t, q) = (Inr True, (t, q'))"
    and "t \<le> u" and "ttl = 0 \<or> u < t + ttl"
    and "nx_first_seen setnx key ttl msg i (u, q') = (Inr b, w)"
  shows "\<not> b"
proof -
  have "setnx t (key i) '''' ttl q = (Inr True, q')"
    using assms(1) by (auto simp: nx_first_seen_def split: prod.splits sum.splits)
  from setnx_sets [OF this assms(2,3)] have "i \<in> nx_seen alive key (u, q')"
    by (simp add: nx_seen_def)
  with answer [OF assms(4)] show ?thesis by simp
qed

end

lemma valkey_FirstSeen_nx:
  "valkey_FirstSeen setnx s = nx_first_seen setnx (\<lambda>i. vkPrefix s @ '':dedupe:'' @ i) (vkTTL s) ''valkey SETNX: ''"
  by (simp add: valkey_FirstSeen_def nx_first_seen_def fun_eq_iff)

section \<open>Olric backend\<close>

datatype put_reply = PutOk | ErrKeyFound | PutError err

type_synonym 'r PutNX = "Time \<Rightarrow> string \<Rightarrow> string \<Rightarrow> int \<Rightarrow> 'r \<Rightarrow> put_reply \<times> 'r"

definition olric_FirstSeen ::
  "'r PutNX \<Rightarrow> int \<Rightarrow> string \<Rightarrow> Time \<times> 'r \<Rightarrow> bool result \<times> (Time \<times> 'r)" where
  "olric_FirstSeen put ttl i w =
     (case put (fst w) i '''' ttl (snd w) of
        (ErrKeyFound, r) \<Rightarrow> (Inr False, (fst w, r))
      | (PutError e, r) \<Rightarrow> (Inl (Wrap ''olric put: '' e), (fst w, r))
      | (PutOk, r) \<Rightarrow> (Inr True, (fst w, r)))"

text \<open>The put with NX as the reply of a SET NX.\<close>

definition olric_nx :: "'r PutNX \<Rightarrow> 'r SetNX" where
  "olric_nx put t k v ttl r =
     (case put t k v ttl r of
        (ErrKeyFound, r') \<Rightarrow> (Inr False, r') | (PutError e, r') \<Rightarrow> (Inl e, r') | (PutOk, r') \<Rightarrow> (Inr True, r'))"

lemma olric_FirstSeen_nx:
  "olric_FirstSeen put ttl = nx_first_seen (olric_nx put) (\<lambda>i. i) ttl ''olric put: ''"
  by (auto simp: olric_FirstSeen_def nx_first_seen_def olric_nx_def fun_eq_iff
      split: prod.splits put_reply.splits)

section \<open>An instance of the server interface\<close>

text \<open>A key space with expiry times, to run the remote stores on.\<close>

type_synonym keyspace = "(string, Time option) gomap"

definition ks_alive :: "Time \<Rightarrow> keyspace \<Rightarrow> string \<Rightarrow> bool" where
  "ks_alive t r k = (case map_of r k of None \<Rightarrow> False | Some None \<Rightarrow> True | Some (Some e) \<Rightarrow> t < e)"

definition ks_setnx :: "keyspace SetNX" where
  "ks_setnx t k v ttl r =
     (if ks_alive t r k then (Inr False, r)
      else (Inr True, AList.update k (if ttl = 0 then None else Some (t + ttl)) r))"

definition ks_put :: "keyspace PutNX" where
  "ks_put t k v ttl r =
     (if ks_alive t r k then (ErrKeyFound, r)
      else (PutOk, AList.update k (if ttl = 0 then None else Some (t + ttl)) r))"

lemma ks_alive_antimono: "t \<le> u \<Longrightarrow> ks_alive u r k \<Longrightarrow> ks_alive t r k"
  by (auto simp: ks_alive_def split: option.splits)

lemma ks_alive_update:
  "ks_alive u (AList.update k x r) j =
     (if j = k then (case x of None \<Rightarrow> True | Some e \<Rightarrow> u < e) else ks_alive u r j)"
  by (simp add: ks_alive_def)

interpretation keyspace: redis_server ks_setnx ks_alive
proof
  fix t u ttl k j v x ok and r r' :: keyspace
  show "ks_setnx t k v ttl r = (x, r') \<Longrightarrow> t \<le> u \<Longrightarrow> ks_alive u r j \<Longrightarrow> ks_alive u r' j"
    using ks_alive_antimono [of t u r k] by (auto simp: ks_setnx_def ks_alive_update split: if_splits)
qed (auto simp: ks_setnx_def ks_alive_update split: if_splits)

lemma olric_nx_ks: "olric_nx ks_put = ks_setnx"
  by (auto simp: olric_nx_def ks_put_def ks_setnx_def fun_eq_iff)

definition defaultTTL :: int where "defaultTTL = 3600 * 10 ^ 9"

interpretation valkey: nx_backend ks_setnx ks_alive "\<lambda>i. ''tekton-events-relay'' @ '':dedupe:'' @ i"
    defaultTTL "''valkey SETNX: ''"
  by unfold_locales (simp_all add: defaultTTL_def)

interpretation olric: nx_backend "olric_nx ks_put" ks_alive "\<lambda>i. i" defaultTTL "''olric put: ''"
  unfolding olric_nx_ks by unfold_locales (simp_all add: defaultTTL_def)

section \<open>Backend selection and instrumentation\<close>

datatype Backend = BackendMemory | BackendValkey | BackendOlric

definition store_New :: "string \<Rightarrow> Backend result" where
  "store_New backend =
     (if backend = '''' \<or> backend = ''memory'' then Inr BackendMemory
      else if backend = ''valkey'' then Inr BackendValkey
      else if backend = ''olric'' then Inr BackendOlric
      else Inl (Err (''store: unknown backend '' @ backend @ '' (must be memory, valkey or olric)'')))"

text \<open>
  The instrumented wrapper passes the answer on and counts the duration observation and, on
  failure, the error, under the labels of the backend and the operation.
\<close>

definition instrumented :: "string \<Rightarrow> string \<Rightarrow> ('s \<Rightarrow> 'a \<times> 's) \<Rightarrow> ('a \<Rightarrow> bool) \<Rightarrow> 's \<times> Collectors \<Rightarrow> 'a \<times> 's \<times> Collectors" where
  "instrumented backend operation call failed w =
     (case call (fst w) of
        (r, s) \<Rightarrow>
          (let m = Inc [''StoreDuration'', backend, operation] (snd w)
           in (r, s, if failed r then Inc [''StoreErrors'', backend, operation] m else m)))"

definition instrumented_FirstSeen ::
  "(string \<Rightarrow> 's \<Rightarrow> bool result \<times> 's) \<Rightarrow> string \<Rightarrow> string \<Rightarrow> 's \<times> Collectors \<Rightarrow> bool result \<times> 's \<times> Collectors" where
  "instrumented_FirstSeen inner backend i w =
     instrumented backend ''dedupe'' (inner i) (\<lambda>r. case r of Inl _ \<Rightarrow> True | Inr _ \<Rightarrow> False) w"

definition instrumented_Add ::
  "(Time \<Rightarrow> string \<Rightarrow> string \<Rightarrow> Event \<Rightarrow> 's \<Rightarrow> err option \<times> 's) \<Rightarrow> string \<Rightarrow>
   Time \<Rightarrow> string \<Rightarrow> string \<Rightarrow> Event \<Rightarrow> 's \<times> Collectors \<Rightarrow> err option \<times> 's \<times> Collectors" where
  "instrumented_Add inner backend now uid task ev w =
     instrumented backend ''buffer_add'' (inner now uid task ev) (\<lambda>r. r \<noteq> None) w"

definition instrumented_Flush ::
  "(Time \<Rightarrow> string \<Rightarrow> 's \<Rightarrow> TaskMap option result \<times> 's) \<Rightarrow> string \<Rightarrow>
   Time \<Rightarrow> string \<Rightarrow> 's \<times> Collectors \<Rightarrow> TaskMap option result \<times> 's \<times> Collectors" where
  "instrumented_Flush inner backend now uid w =
     instrumented backend ''buffer_flush'' (inner now uid) (\<lambda>r. case r of Inl _ \<Rightarrow> True | Inr _ \<Rightarrow> False) w"

lemma instrumented_transparent:
  "fst (instrumented b op call failed (s, m)) = fst (call s)"
  "fst (snd (instrumented b op call failed (s, m))) = snd (call s)"
  by (simp_all add: instrumented_def split_def Let_def)

text \<open>A contract kept by a store is kept by its instrumented form.\<close>

context dedupe_store
begin

lemma instrumented_keeps_contract:
  "dedupe_store (instrumented_FirstSeen first_seen backend) (\<lambda>w. seen (fst w))"
proof
  fix i w b w' r
  have eq: "fst (instrumented_FirstSeen first_seen backend i w) = fst (first_seen i (fst w))"
      "fst (snd (instrumented_FirstSeen first_seen backend i w)) = snd (first_seen i (fst w))"
    by (simp_all add: instrumented_FirstSeen_def instrumented_def split_def Let_def)
  note law = answer [of i "fst w"] records [of i "fst w"] adds_only [of i "fst w"]
  show "instrumented_FirstSeen first_seen backend i w = (Inr b, w') \<Longrightarrow> b = (i \<notin> seen (fst w))"
    using eq law(1) by (metis fst_conv prod.collapse)
  show "instrumented_FirstSeen first_seen backend i w = (Inr b, w') \<Longrightarrow> i \<in> seen (fst w')"
    using eq law(2) by (metis fst_conv snd_conv prod.collapse)
  show "instrumented_FirstSeen first_seen backend i w = (r, w') \<Longrightarrow> seen (fst w') \<subseteq> insert i (seen (fst w))"
    using eq law(3) by (metis fst_conv snd_conv prod.collapse)
qed

end

section \<open>Properties\<close>

text \<open>
  C27 The in-memory deduplication store, over any cache that evicts the least recently used entry:
  once an identifier was presented, it is refused again as long as fewer distinct other identifiers
  than the capacity were presented in between, in whatever order and however often.
\<close>

theorem memory_FirstSeen_window:
  assumes "lru_cache ops content cap"
    and "memoryDedupe_FirstSeen ops i d = (r, d1)"
    and "run_first_seen (memoryDedupe_FirstSeen ops) js d1 = (rs, d2)"
    and "card (set js - {i}) < cap"
  shows "fst (memoryDedupe_FirstSeen ops i d2) = Inr False"
  using dedupe_cache.FirstSeen_window [OF dedupe_cache.intro [OF assms(1)] assms(2-4)] .

theorem memory_FirstSeen_window_witness:
  "fst (memoryDedupe_FirstSeen (list_lru 2) ''a''
     \<lparr>dedupeCache = [(''b'', ()), (''a'', ())], DeduperEvictions = 0\<rparr>) = Inr False"
  by (rule memory_FirstSeen_window [OF list_lru_laws, of 2 "''a''"
        "\<lparr>dedupeCache = [], DeduperEvictions = 0\<rparr>" "Inr True"
        "\<lparr>dedupeCache = [(''a'', ())], DeduperEvictions = 0\<rparr>" "[''b'']" "[Inr True]"])
    (simp_all add: memoryDedupe_FirstSeen_def list_lru_def lru_touch_def)

text \<open>
  C39 The interface asks \<^verbatim>\<open>FirstSeen\<close> to be atomic, and the memory store looks the identifier up and
  inserts it in two calls of the cache: when a second caller looks up between the two calls of a
  first one, neither finds the identifier, so both are told that it is new.
\<close>

theorem memory_FirstSeen_race:
  assumes "lru_cache ops content cap" and "i \<notin> set (memoryDedupe_ids content d)"
    and "memoryDedupe_check ops i d = (found1, d1)"
    and "memoryDedupe_check ops i d1 = (found2, d2)"
  shows "\<not> found1 \<and> \<not> found2 \<and>
    (let (r1, e1) = memoryDedupe_FirstSeen ops i d; (r2, e2) = memoryDedupe_FirstSeen ops i e1
     in r1 = Inr True \<and> r2 = Inr False)"
proof -
  note C = dedupe_cache.intro [OF assms(1)]
  have "\<not> found1" "\<not> found2"
    using dedupe_cache.two_checks_both_new [OF C assms(2)] assms(3,4) by auto
  moreover obtain r1 e1 where s1: "memoryDedupe_FirstSeen ops i d = (r1, e1)" by fastforce
  moreover obtain r2 e2 where s2: "memoryDedupe_FirstSeen ops i e1 = (r2, e2)" by fastforce
  moreover have "r1 = Inr True"
    using dedupe_cache.FirstSeen_ids(1) [OF C s1] assms(2) by simp
  moreover have "fst (memoryDedupe_FirstSeen ops i e1) = Inr False"
    using dedupe_cache.FirstSeen_window [OF C s1, of "[]"] lru_cache.cap_pos [OF assms(1)] by simp
  ultimately show ?thesis by simp
qed

theorem memory_FirstSeen_race_witness:
  "\<not> False \<and> \<not> False \<and>
    (let (r1, e1) = memoryDedupe_FirstSeen (list_lru 3) ''a'' \<lparr>dedupeCache = [], DeduperEvictions = 0\<rparr>;
         (r2, e2) = memoryDedupe_FirstSeen (list_lru 3) ''a'' e1
     in r1 = Inr True \<and> r2 = Inr False)"
  by (rule memory_FirstSeen_race [of "list_lru 3" "\<lambda>c. c" 3 "''a''"
        "\<lparr>dedupeCache = [], DeduperEvictions = 0\<rparr>" False "\<lparr>dedupeCache = [], DeduperEvictions = 0\<rparr>" False
        "\<lparr>dedupeCache = [], DeduperEvictions = 0\<rparr>"])
    (rule list_lru_laws, simp_all add: memoryDedupe_check_def memoryDedupe_ids_def list_lru_def lru_touch_def)

text \<open>
  C20 The Valkey store, on any server that implements SET NX with expiry: once an identifier was
  accepted at time \<open>t\<close>, every call for it at a later time before the configured time to live has
  passed (at any later time when none is configured) either fails or answers that it is a duplicate.
\<close>

theorem valkey_FirstSeen_ttl:
  assumes "redis_server setnx alive" and "0 \<le> vkTTL s"
    and "valkey_FirstSeen setnx s i (t, q) = (Inr True, (t, q'))"
    and "t \<le> u" and "vkTTL s = 0 \<or> u < t + vkTTL s"
    and "valkey_FirstSeen setnx s i (u, q') = (r, w)"
  shows "r = Inr False \<or> (\<exists>e. r = Inl (Wrap ''valkey SETNX: '' e))"
proof (cases r)
  case (Inl e)
  with assms(6) show ?thesis
    by (auto simp: valkey_FirstSeen_def Let_def split: prod.splits sum.splits)
next
  case (Inr b)
  have "nx_backend setnx alive (\<lambda>i. vkPrefix s @ '':dedupe:'' @ i) (vkTTL s)"
    using assms(1,2) by (simp add: nx_backend_def nx_backend_axioms_def)
  from nx_backend.refused_until_expiry [OF this assms(3) [unfolded valkey_FirstSeen_nx] assms(4,5)]
  have "\<not> b" using assms(6) Inr by (simp add: valkey_FirstSeen_nx)
  with Inr show ?thesis by simp
qed

theorem valkey_FirstSeen_ttl_witness:
  "fst (valkey_FirstSeen ks_setnx \<lparr>vkPrefix = ''p'', vkTTL = 10\<rparr> ''x'' (14, [(''p:dedupe:x'', Some 15)])) = Inr False \<or>
   (\<exists>e. fst (valkey_FirstSeen ks_setnx \<lparr>vkPrefix = ''p'', vkTTL = 10\<rparr> ''x'' (14, [(''p:dedupe:x'', Some 15)]))
      = Inl (Wrap ''valkey SETNX: '' e))"
  by (rule valkey_FirstSeen_ttl [OF keyspace.redis_server_axioms,
        of "\<lparr>vkPrefix = ''p'', vkTTL = 10\<rparr>" "''x''" 5 "[]" "[(''p:dedupe:x'', Some 15)]" 14 _
           "(14, [(''p:dedupe:x'', Some 15)])"])
    (simp_all add: valkey_FirstSeen_def ks_setnx_def ks_alive_def)

text \<open>
  The run buffer of the memory store, over any cache with expiry: after the task events of a run
  were added, each within the time to live of the one before, a flush returns for every task its
  latest event and nothing else, and a second flush at any time finds nothing.
\<close>

theorem memoryRunBuffer_collects:
  assumes "expirable_cache ops live cap ttl"
    and "add_all (memoryRunBuffer_Add ops) u xs c = (None, c1)" and "xs \<noteq> []"
    and "live (fst (hd xs)) c u = None" and "within_ttl ttl (map fst xs @ [t])"
    and "memoryRunBuffer_Flush ops t u c1 = (Inr r, c2)"
  shows "r = Some (collect xs []) \<and> fst (memoryRunBuffer_Flush ops t' u c2) = Inr None"
  using run_cache.Flush_collects [OF run_cache.intro [OF assms(1)] assms(2-6)] .

theorem memoryRunBuffer_collects_witness:
  "Some [(''build'', zero_event\<lparr>StateOf := StateSuccess\<rparr>), (''test'', zero_event)] =
     Some (collect [(0, ''build'', zero_event), (5, ''test'', zero_event),
                    (9, ''build'', zero_event\<lparr>StateOf := StateSuccess\<rparr>)] []) \<and>
   fst (memoryRunBuffer_Flush (list_xlru 10 100) 20 ''run'' []) = Inr None"
  by (rule memoryRunBuffer_collects [OF list_xlru_laws, of 10 100 "''run''" _ "[]"
        "[(''run'', ([(''build'', zero_event\<lparr>StateOf := StateSuccess\<rparr>), (''test'', zero_event)], 109))]" 12])
    (simp_all add: memoryRunBuffer_Add_def memoryRunBuffer_Flush_def list_xlru_def front_def list_live_def)

end
