(* ===== verification/Relay_Notifier.thy ===== *)
theory Relay_Notifier
  imports Relay_Store
begin

text \<open>
  Package \<^verbatim>\<open>internal/notifier\<close>: action handlers, the registry that holds them, and the decorators
  the factory wraps around them (condition, filter, deduplication, context per task, rate limit).

  A handler acts on the state \<open>'w\<close> of the world outside the relay's pipeline: the remote services
  and the stores. A call sees the values its context carries.
\<close>

section \<open>Action handlers\<close>

text \<open>What a handler reads from its context: the CloudEvent ID and the per-handler timeout.\<close>

record Ctx =
  CloudEventIDKey :: "string option"
  CtxTimeout :: "int option"

abbreviation ActionCommitStatus :: string where "ActionCommitStatus \<equiv> ''commit_status''"
abbreviation ActionNotify :: string where "ActionNotify \<equiv> ''notify''"

record 'w ActionHandler =
  hName :: string
  hProvider :: string
  hType :: string
  hHandle :: "Ctx \<Rightarrow> Event \<Rightarrow> 'w \<Rightarrow> err option \<times> 'w"
  hClose :: "'w \<Rightarrow> err option \<times> 'w"

section \<open>The registry\<close>

record 'w Registry =
  handlers :: "'w ActionHandler list"
  byName :: "(string, 'w ActionHandler list) gomap"
  byType :: "(string, 'w ActionHandler list) gomap"
  names :: "string list option"

definition gomap_list :: "('k, 'v list) gomap \<Rightarrow> 'k \<Rightarrow> 'v list" where
  "gomap_list m k = (case map_of m k of None \<Rightarrow> [] | Some l \<Rightarrow> l)"

lemma gomap_list_update [simp]:
  "gomap_list (AList.update k l m) k' = (if k' = k then l else gomap_list m k')"
  by (simp add: gomap_list_def)

definition NewRegistry :: "'w Registry" where
  "NewRegistry = \<lparr>handlers = [], byName = [], byType = [], names = None\<rparr>"

definition Register :: "'w Registry \<Rightarrow> 'w ActionHandler \<Rightarrow> 'w Registry" where
  "Register r h = r\<lparr>handlers := handlers r @ [h],
     byName := AList.update (hName h) (gomap_list (byName r) (hName h) @ [h]) (byName r),
     byType := AList.update (hType h) (gomap_list (byType r) (hType h) @ [h]) (byType r),
     names := None\<rparr>"

definition FindByName :: "'w Registry \<Rightarrow> string \<Rightarrow> 'w ActionHandler list" where
  "FindByName r n = gomap_list (byName r) n"

definition FindByType :: "'w Registry \<Rightarrow> string \<Rightarrow> 'w ActionHandler list" where
  "FindByType r t = gomap_list (byType r) t"

definition All :: "'w Registry \<Rightarrow> 'w ActionHandler list" where
  "All r = handlers r"

definition Lookup :: "'w Registry \<Rightarrow> string \<Rightarrow> 'w ActionHandler option" where
  "Lookup r n = (case gomap_list (byName r) n of [] \<Rightarrow> None | h # _ \<Rightarrow> Some h)"

text \<open>The sorted names, computed on first use and kept until the next registration.\<close>

definition Names :: "'w Registry \<Rightarrow> string list \<times> 'w Registry" where
  "Names r = (case names r of
       Some ns \<Rightarrow> (ns, r)
     | None \<Rightarrow> (let ns = sort (map fst (byName r)) in (ns, r\<lparr>names := Some ns\<rparr>)))"

text \<open>One entry \<^verbatim>\<open>provider/name[types]\<close> per provider and instance name.\<close>

fun join_comma :: "string list \<Rightarrow> string" where
  "join_comma [] = ''''"
| "join_comma [x] = x"
| "join_comma (x # xs) = x @ '','' @ join_comma xs"

fun group_actions :: "'w ActionHandler list \<Rightarrow> (string \<times> string, string list) gomap \<Rightarrow>
    (string \<times> string, string list) gomap" where
  "group_actions [] m = m"
| "group_actions (h # hs) m =
     (let k = (hProvider h, hName h) in group_actions hs (AList.update k (gomap_list m k @ [hType h]) m))"

definition HandlerNames :: "'w Registry \<Rightarrow> string list" where
  "HandlerNames r =
     sort (map (\<lambda>((p, n), types). p @ ''/'' @ n @ ''['' @ join_comma types @ '']'')
            (group_actions (handlers r) []))"

text \<open>
  The representation invariant: the two indexes hold exactly the handlers of their key, in
  registration order, and the cached names are the sorted names of the index.
\<close>

definition registry_inv :: "'w Registry \<Rightarrow> bool" where
  "registry_inv r \<longleftrightarrow>
     (\<forall>n. gomap_list (byName r) n = filter (\<lambda>h. hName h = n) (handlers r)) \<and>
     (\<forall>t. gomap_list (byType r) t = filter (\<lambda>h. hType h = t) (handlers r)) \<and>
     distinct (map fst (byName r)) \<and> set (map fst (byName r)) = hName ` set (handlers r) \<and>
     (case names r of None \<Rightarrow> True | Some ns \<Rightarrow> ns = sort (map fst (byName r)))"

lemma registry_inv_New: "registry_inv NewRegistry"
  by (simp add: registry_inv_def NewRegistry_def gomap_list_def)

lemma registry_inv_Register: "registry_inv r \<Longrightarrow> registry_inv (Register r h)"
  by (simp add: registry_inv_def Register_def gomap_keys_set)

lemma registry_inv_Names: "registry_inv r \<Longrightarrow> registry_inv (snd (Names r))"
  by (simp add: registry_inv_def Names_def Let_def split: option.splits)

lemma Names_result:
  "registry_inv r \<Longrightarrow> fst (Names r) = sorted_list_of_set (hName ` set (handlers r))"
proof -
  assume r: "registry_inv r"
  then have "distinct (map fst (byName r))" by (simp add: registry_inv_def)
  from sorted_list_of_set_sort_remdups [of "map fst (byName r)"] distinct_remdups_id [OF this]
  have "sort (map fst (byName r)) = sorted_list_of_set (set (map fst (byName r)))" by simp
  with r show ?thesis
    by (auto simp: registry_inv_def Names_def Let_def split: option.splits)
qed

text \<open>Registering a list of handlers one by one, as \<^verbatim>\<open>BuildAndRegister\<close> does.\<close>

definition register_all :: "'w ActionHandler list \<Rightarrow> 'w Registry \<Rightarrow> 'w Registry" where
  "register_all hs r = foldl Register r hs"

lemma register_all_simps [simp]:
  "register_all [] r = r" "register_all (h # hs) r = register_all hs (Register r h)"
  by (simp_all add: register_all_def)

lemma registry_inv_register_all: "registry_inv r \<Longrightarrow> registry_inv (register_all hs r)"
  by (induction hs arbitrary: r) (simp_all add: registry_inv_Register)

lemma handlers_register_all: "handlers (register_all hs r) = handlers r @ hs"
  by (induction hs arbitrary: r) (simp_all add: Register_def)

lemma find_filter: "(case filter P xs of [] \<Rightarrow> None | h # _ \<Rightarrow> Some h) = List.find P xs"
  by (induction xs) auto

lemma Lookup_first: "registry_inv r \<Longrightarrow> Lookup r n = List.find (\<lambda>h. hName h = n) (handlers r)"
  by (simp add: Lookup_def registry_inv_def find_filter)

section \<open>Decorators\<close>

text \<open>
  Every decorator answers the identity questions for the handler it wraps, so wrapping changes
  neither the routing of an event nor the registry's indexes; most of them also close it.
\<close>

locale decorator =
  fixes wrap :: "'w ActionHandler \<Rightarrow> 'w ActionHandler"
  assumes wrap_name [simp]: "hName (wrap h) = hName h"
    and wrap_provider [simp]: "hProvider (wrap h) = hProvider h"
    and wrap_type [simp]: "hType (wrap h) = hType h"
begin

lemma FindByName_wrap:
  "registry_inv r \<Longrightarrow> FindByName (Register r (wrap h)) n =
     (if n = hName h then FindByName r n @ [wrap h] else FindByName r n)"
  by (simp add: FindByName_def Register_def)

lemma group_actions_wrap: "group_actions (map wrap hs) m = group_actions hs m"
  by (induction hs arbitrary: m) (simp_all add: Let_def)

lemma HandlerNames_wrap: "handlers r' = map wrap (handlers r) \<Longrightarrow> HandlerNames r' = HandlerNames r"
  by (simp add: HandlerNames_def group_actions_wrap)

end

locale closing_decorator = decorator wrap for wrap :: "'w ActionHandler \<Rightarrow> 'w ActionHandler" +
  assumes wrap_close: "hClose (wrap h) w = hClose h w"

subsection \<open>Condition\<close>

text \<open>
  A compiled CEL guard is a parameter: a function of the event that yields a boolean or fails.
\<close>

type_synonym cel_program = "Event \<Rightarrow> bool result"

definition ConditionalHandler :: "cel_program option \<Rightarrow> 'w ActionHandler \<Rightarrow> 'w ActionHandler" where
  "ConditionalHandler program h = h\<lparr>hHandle := \<lambda>ctx e w.
     (case program of
        None \<Rightarrow> hHandle h ctx e w
      | Some prog \<Rightarrow>
          (case prog e of
             Inl er \<Rightarrow> (Some er, w)
           | Inr b \<Rightarrow> if \<not> b then (None, w) else hHandle h ctx e w))\<rparr>"

definition WrapWithCEL ::
  "(string \<Rightarrow> cel_program result) \<Rightarrow> string \<Rightarrow> 'w ActionHandler \<Rightarrow> 'w ActionHandler result" where
  "WrapWithCEL compile whenExpr h =
     (if whenExpr = '''' then Inr h
      else case compile whenExpr of
        Inl er \<Rightarrow> Inl (Wrap (''invalid CEL expression '' @ strconv_Quote whenExpr @ '': '') er)
      | Inr prog \<Rightarrow> Inr (ConditionalHandler (Some prog) h))"

subsection \<open>Filter\<close>

record FilterList =
  Allow :: "string list"
  Deny :: "string list"

record FilterConfig =
  Tasks :: FilterList
  Pipelines :: FilterList
  CustomRuns :: FilterList
  EventListeners :: FilterList

text \<open>\<^verbatim>\<open>buildMap\<close>: nil for no items, otherwise the set of the lower-cased items.\<close>

definition buildMap :: "(nat \<Rightarrow> nat) \<Rightarrow> string list \<Rightarrow> (string, unit) gomap option" where
  "buildMap ulow items =
     (if items = [] then None
      else Some (fold (\<lambda>item m. AList.update (ToLower ulow item) () m) items []))"

definition FilteredHandler :: "(nat \<Rightarrow> nat) \<Rightarrow> FilterConfig option \<Rightarrow> 'w ActionHandler \<Rightarrow> 'w ActionHandler" where
  "FilteredHandler ulow cfg h = h\<lparr>hHandle := \<lambda>ctx e w.
     (case cfg of
        None \<Rightarrow> hHandle h ctx e w
      | Some f \<Rightarrow>
          (let sel = (if ResourceOf e = ResourceTaskRun then Some (Tasks f, TaskName e)
                      else if ResourceOf e = ResourcePipelineRun then Some (Pipelines f, PipelineName e)
                      else if ResourceOf e = ResourceCustomRun then Some (CustomRuns f, TaskName e)
                      else if ResourceOf e = ResourceEventListener then Some (EventListeners f, EventListenerName e)
                      else None)
           in case sel of
                None \<Rightarrow> hHandle h ctx e w
              | Some (fl, name) \<Rightarrow>
                  if name = '''' then hHandle h ctx e w
                  else
                    (let nameLower = ToLower ulow name;
                         allowMap = buildMap ulow (Allow fl);
                         denyMap = buildMap ulow (Deny fl);
                         denied = (case denyMap of None \<Rightarrow> False | Some m \<Rightarrow> map_of m nameLower \<noteq> None);
                         notAllowed = (case allowMap of None \<Rightarrow> False
                                       | Some m \<Rightarrow> 0 < length m \<and> map_of m nameLower = None)
                     in if denied then (None, w)
                        else if notAllowed then (None, w)
                        else hHandle h ctx e w)))\<rparr>"

definition WrapWithFilter :: "(nat \<Rightarrow> nat) \<Rightarrow> FilterConfig option \<Rightarrow> 'w ActionHandler \<Rightarrow> 'w ActionHandler" where
  "WrapWithFilter ulow cfg h = (case cfg of None \<Rightarrow> h | Some f \<Rightarrow> FilteredHandler ulow (Some f) h)"

lemma buildMap_keys: "fst ` set (fold (\<lambda>item m. AList.update (ToLower ulow item) () m) items m0) =
   ToLower ulow ` set items \<union> fst ` set m0"
  by (induction items arbitrary: m0) (auto simp: gomap_keys_set)

lemma buildMap_mem:
  "(case buildMap ulow items of None \<Rightarrow> False | Some m \<Rightarrow> map_of m k \<noteq> None) \<longleftrightarrow> k \<in> ToLower ulow ` set items"
  by (auto simp: buildMap_def gomap_unit buildMap_keys)

lemma buildMap_nonempty: "buildMap ulow items = Some m \<Longrightarrow> 0 < length m"
  using buildMap_keys [of ulow items "[]"] by (fastforce simp: buildMap_def split: if_splits)

text \<open>What the filter lets through, without the prebuilt maps.\<close>

definition filter_passes :: "(nat \<Rightarrow> nat) \<Rightarrow> FilterConfig \<Rightarrow> Event \<Rightarrow> bool" where
  "filter_passes ulow f e =
     (let sel = (if ResourceOf e = ResourceTaskRun then Some (Tasks f, TaskName e)
                 else if ResourceOf e = ResourcePipelineRun then Some (Pipelines f, PipelineName e)
                 else if ResourceOf e = ResourceCustomRun then Some (CustomRuns f, TaskName e)
                 else if ResourceOf e = ResourceEventListener then Some (EventListeners f, EventListenerName e)
                 else None)
      in case sel of None \<Rightarrow> True
         | Some (fl, name) \<Rightarrow> name = '''' \<or>
             (ToLower ulow name \<notin> ToLower ulow ` set (Deny fl) \<and>
              (Allow fl = [] \<or> ToLower ulow name \<in> ToLower ulow ` set (Allow fl))))"

lemma FilteredHandler_spec:
  "hHandle (FilteredHandler ulow (Some f) h) ctx e w =
     (if filter_passes ulow f e then hHandle h ctx e w else (None, w))"
proof -
  have al: "(case buildMap ulow items of None \<Rightarrow> False | Some m \<Rightarrow> 0 < length m \<and> map_of m k = None)
      \<longleftrightarrow> items \<noteq> [] \<and> k \<notin> ToLower ulow ` set items" for items k
    using buildMap_mem [where ulow = ulow and items = items and k = k] buildMap_nonempty [of ulow items]
    by (auto simp: buildMap_def split: option.splits)
  show ?thesis
    by (simp add: FilteredHandler_def filter_passes_def Let_def buildMap_mem al split: option.split)
qed

subsection \<open>Deduplication per handler\<close>

definition notifierDedupePrefix :: string where "notifierDedupePrefix = ''notif''"

definition notifier_compositeKey :: "string \<Rightarrow> string \<Rightarrow> string" where
  "notifier_compositeKey handlerName eventID =
     notifierDedupePrefix @ '':'' @ handlerName @ '':'' @ eventID"

text \<open>The shared store behind \<^verbatim>\<open>NotifierDedupeStore\<close>, on the state of the world.\<close>

type_synonym 'w DedupeStore = "string \<Rightarrow> 'w \<Rightarrow> bool result \<times> 'w"

definition notifier_FirstSeen :: "'w DedupeStore \<Rightarrow> string \<Rightarrow> string \<Rightarrow> 'w \<Rightarrow> bool result \<times> 'w" where
  "notifier_FirstSeen inner handlerName eventID w = inner (notifier_compositeKey handlerName eventID) w"

definition DedupeHandler :: "'w DedupeStore option \<Rightarrow> 'w ActionHandler \<Rightarrow> 'w ActionHandler" where
  "DedupeHandler store h = h\<lparr>hHandle := \<lambda>ctx e w.
     (case store of
        None \<Rightarrow> hHandle h ctx e w
      | Some st \<Rightarrow>
          (case CloudEventIDKey ctx of
             None \<Rightarrow> hHandle h ctx e w
           | Some ceID \<Rightarrow>
               if ceID = '''' then hHandle h ctx e w
               else
                 (case notifier_FirstSeen st (hName h) ceID w of
                    (Inl er, w') \<Rightarrow> hHandle h ctx e w'
                  | (Inr first, w') \<Rightarrow> if \<not> first then (None, w') else hHandle h ctx e w')))\<rparr>"

definition WrapWithDedupe :: "'w DedupeStore option \<Rightarrow> 'w ActionHandler \<Rightarrow> 'w ActionHandler" where
  "WrapWithDedupe store h = (case store of None \<Rightarrow> h | Some st \<Rightarrow> DedupeHandler (Some st) h)"

subsection \<open>Context per task and outbound rate limit\<close>

definition perTaskContext :: "Event \<Rightarrow> Event" where
  "perTaskContext e =
     (if ResourceOf e = ResourceTaskRun then
        (let t0 = PipelineTaskName e;
             t1 = (if t0 = '''' then TaskName e else t0);
             task = (if t1 = '''' then RunName e else t1)
         in e\<lparr>Context := if Context e \<noteq> '''' then Context e @ ''/'' @ task else task\<rparr>)
      else e)"

definition contextPerTaskHandler :: "'w ActionHandler \<Rightarrow> 'w ActionHandler" where
  "contextPerTaskHandler h =
     h\<lparr>hHandle := \<lambda>ctx e w. hHandle h ctx (perTaskContext e) w, hClose := \<lambda>w. (None, w)\<rparr>"

definition WrapWithContextPerTask :: "bool \<Rightarrow> 'w ActionHandler \<Rightarrow> 'w ActionHandler" where
  "WrapWithContextPerTask enabled h = (if \<not> enabled then h else contextPerTaskHandler h)"

text \<open>The limiter's \<^verbatim>\<open>Wait\<close> (package \<^verbatim>\<open>x/time/rate\<close>) is a parameter: it returns when a token is free
  or fails when the context ends first.\<close>

definition rateLimitedHandler :: "(Ctx \<Rightarrow> 'w \<Rightarrow> err option \<times> 'w) \<Rightarrow> 'w ActionHandler \<Rightarrow> 'w ActionHandler" where
  "rateLimitedHandler wait h = h\<lparr>hHandle := \<lambda>ctx e w.
     (case wait ctx w of (Some er, w') \<Rightarrow> (Some er, w') | (None, w') \<Rightarrow> hHandle h ctx e w')\<rparr>"

definition WrapWithRateLimit ::
  "(Ctx \<Rightarrow> 'w \<Rightarrow> err option \<times> 'w) option \<Rightarrow> 'w ActionHandler \<Rightarrow> 'w ActionHandler" where
  "WrapWithRateLimit limiter h = (case limiter of None \<Rightarrow> h | Some wait \<Rightarrow> rateLimitedHandler wait h)"

lemmas wrapper_defs = ConditionalHandler_def FilteredHandler_def WrapWithFilter_def DedupeHandler_def
  WrapWithDedupe_def contextPerTaskHandler_def WrapWithContextPerTask_def rateLimitedHandler_def
  WrapWithRateLimit_def

interpretation conditional: closing_decorator "ConditionalHandler program" for program
  by unfold_locales (simp_all add: wrapper_defs)

interpretation filtered: closing_decorator "WrapWithFilter ulow cfg" for ulow cfg
  by unfold_locales (simp_all add: wrapper_defs split: option.split)

interpretation deduped: closing_decorator "WrapWithDedupe store" for store
  by unfold_locales (simp_all add: wrapper_defs split: option.split)

interpretation rate_limited: closing_decorator "WrapWithRateLimit limiter" for limiter
  by unfold_locales (simp_all add: wrapper_defs split: option.split)

interpretation per_task: decorator "WrapWithContextPerTask enabled" for enabled
  by unfold_locales (simp_all add: wrapper_defs)

section \<open>Building the handlers of an instance\<close>

text \<open>One configured action (\<^verbatim>\<open>config.Action\<close>).\<close>

record LabelEntry =
  le_Name :: string
  le_Color :: string

record ActionLabels =
  al_Add :: "LabelEntry list"
  al_Remove :: "LabelEntry list"

record Action =
  ActionName :: string
  ActionTypeOf :: string
  Enabled :: bool
  When :: string
  Dedupe :: bool
  Mode :: string
  ActionTemplate :: string
  ContextPerTask :: bool
  LabelsOf :: "ActionLabels option"
  Filter :: "FilterConfig option"
  FallbackAction :: string
  FallbackOnly :: bool

text \<open>What a provider's build function answers for an action.\<close>

datatype 'w built = Unsupported | BuildError err | Built "'w ActionHandler option"

fun buildActionsWithMiddleware ::
  "(string \<Rightarrow> cel_program result) \<Rightarrow> (nat \<Rightarrow> nat) \<Rightarrow> 'w DedupeStore option \<Rightarrow> (Action \<Rightarrow> 'w built) \<Rightarrow>
   Action list \<Rightarrow> 'w ActionHandler list result" where
  "buildActionsWithMiddleware compile ulow store buildFn [] = Inr []"
| "buildActionsWithMiddleware compile ulow store buildFn (a # as) =
     (let rest = buildActionsWithMiddleware compile ulow store buildFn as in
      if \<not> Enabled a then rest
      else case buildFn a of
        Unsupported \<Rightarrow> rest
      | BuildError er \<Rightarrow> Inl er
      | Built None \<Rightarrow> rest
      | Built (Some h) \<Rightarrow>
          (case WrapWithCEL compile (When a) h of
             Inl er \<Rightarrow> Inl er
           | Inr w0 \<Rightarrow>
               (let w1 = WrapWithFilter ulow (Filter a) w0;
                    w2 = (if ActionTypeOf a = ActionCommitStatus
                          then WrapWithContextPerTask (ContextPerTask a) w1 else w1);
                    w3 = (if Dedupe a then WrapWithDedupe store w2 else w2)
                in case rest of Inl er \<Rightarrow> Inl er | Inr hs \<Rightarrow> Inr (w3 # hs))))"

lemma notifier_compositeKey_inj:
  assumes "CHR '':'' \<notin> set h" "CHR '':'' \<notin> set h'"
    and "notifier_compositeKey h i = notifier_compositeKey h' i'"
  shows "h = h' \<and> i = i'"
proof -
  have eq: "h @ CHR '':'' # i = h' @ CHR '':'' # i'"
    using assms(3) by (simp add: notifier_compositeKey_def)
  then have "takeWhile (\<lambda>c. c \<noteq> CHR '':'') (h @ CHR '':'' # i) = takeWhile (\<lambda>c. c \<noteq> CHR '':'') (h' @ CHR '':'' # i')"
    by simp
  then have "h = h'" using assms(1,2) by (simp add: takeWhile_append takeWhile_eq_all_conv [THEN iffD2] split: if_splits)
  with eq show ?thesis by simp
qed

text \<open>A handler call that leaves the store's memory alone.\<close>

definition keeps_seen :: "('w \<Rightarrow> string set) \<Rightarrow> 'w ActionHandler \<Rightarrow> bool" where
  "keeps_seen seen h \<longleftrightarrow> (\<forall>ctx e w. seen w \<subseteq> seen (snd (hHandle h ctx e w)))"

lemma DedupeHandler_records:
  assumes "dedupe_store st seen" and "keeps_seen seen h"
    and "CloudEventIDKey ctx = Some i" and "i \<noteq> ''''"
    and "st (notifier_compositeKey (hName h) i) w = (Inr b, w0)"
  shows "notifier_compositeKey (hName h) i \<in> seen (snd (hHandle (WrapWithDedupe (Some st) h) ctx e w))"
proof -
  have "notifier_compositeKey (hName h) i \<in> seen w0"
    using dedupe_store.records [OF assms(1,5)] .
  with assms show ?thesis
    by (auto simp: WrapWithDedupe_def DedupeHandler_def notifier_FirstSeen_def keeps_seen_def)
qed

section \<open>Properties\<close>

text \<open>
  The registry refines the list of registered handlers: after any sequence of registrations into
  an empty registry, with name queries in between or not, the fan-out list is the sequence itself,
  the two indexes return exactly the handlers of a name or type in registration order, a lookup
  returns the first of that name, and the reported names are the distinct names in order.
\<close>

theorem registry_refines_list:
  "let r = register_all hs NewRegistry in
    All r = hs \<and> (\<forall>n. FindByName r n = filter (\<lambda>h. hName h = n) hs) \<and>
    (\<forall>t. FindByType r t = filter (\<lambda>h. hType h = t) hs) \<and>
    (\<forall>n. Lookup r n = List.find (\<lambda>h. hName h = n) hs) \<and>
    fst (Names r) = sorted_list_of_set (hName ` set hs) \<and>
    fst (Names (snd (Names r))) = fst (Names r)"
proof -
  define r where "r = register_all hs NewRegistry"
  have inv: "registry_inv r"
    unfolding r_def by (rule registry_inv_register_all [OF registry_inv_New])
  have hs: "handlers r = hs"
    unfolding r_def by (simp add: handlers_register_all) (simp add: NewRegistry_def)
  have "All r = hs" using hs by (simp add: All_def)
  moreover have "\<forall>n. FindByName r n = filter (\<lambda>h. hName h = n) hs" "\<forall>t. FindByType r t = filter (\<lambda>h. hType h = t) hs"
    using inv hs by (simp_all add: registry_inv_def FindByName_def FindByType_def)
  moreover have "\<forall>n. Lookup r n = List.find (\<lambda>h. hName h = n) hs"
    using Lookup_first [OF inv] hs by simp
  moreover have "fst (Names r) = sorted_list_of_set (hName ` set hs)"
    using Names_result [OF inv] hs by simp
  moreover have "fst (Names (snd (Names r))) = fst (Names r)"
    by (simp add: Names_def Let_def split: option.split)
  ultimately show ?thesis by (simp add: r_def [symmetric] Let_def)
qed

text \<open>
  The filter decorator with its prebuilt lookup maps drops an event, without error and without
  calling the handler, exactly when the name that belongs to the event's resource is non-empty and,
  ignoring case, is listed under deny, or an allow list is given and does not list it: deny wins,
  and an event of an unknown resource or without a name always passes.
\<close>

theorem FilteredHandler_behaviour:
  "hHandle (FilteredHandler ulow (Some f) h) ctx e w =
     (if filter_passes ulow f e then hHandle h ctx e w else (None, w)) \<and>
   (\<forall>n. ResourceOf e = ResourceTaskRun \<longrightarrow> TaskName e = n \<longrightarrow> n \<noteq> '''' \<longrightarrow>
      ToLower ulow n \<in> ToLower ulow ` set (Deny (Tasks f)) \<longrightarrow> \<not> filter_passes ulow f e)"
  by (simp add: FilteredHandler_spec filter_passes_def)

theorem FilteredHandler_behaviour_witness:
  "hHandle (FilteredHandler (\<lambda>n. n) (Some \<lparr>Tasks = \<lparr>Allow = [''build''], Deny = [''Build'']\<rparr>,
        Pipelines = \<lparr>Allow = [], Deny = []\<rparr>, CustomRuns = \<lparr>Allow = [], Deny = []\<rparr>,
        EventListeners = \<lparr>Allow = [], Deny = []\<rparr>\<rparr>)
      \<lparr>hName = ''n'', hProvider = ''p'', hType = ''notify'', hHandle = \<lambda>c e w. (None, Suc w), hClose = \<lambda>w. (None, w)\<rparr>)
      \<lparr>CloudEventIDKey = None, CtxTimeout = None\<rparr>
      (zero_event\<lparr>ResourceOf := ResourceTaskRun, TaskName := ''BUILD''\<rparr>) 0 = (None, 0)"
  by (subst FilteredHandler_behaviour [THEN conjunct1])
    (simp add: filter_passes_def ToLower_def ascii_lower_def)

text \<open>
  The per-handler deduplication keys an event by the instance name of the handler alone. Over any
  store that forgets nothing in between, once a wrapped handler was called with an event's ID, every
  wrapped handler of the same instance name skips that ID: the same handler on a retransmission, and
  also a different action of the same instance, whose inner handler is then never called.
\<close>

theorem DedupeHandler_same_name_skips:
  assumes "dedupe_store st seen" and "keeps_seen seen h1" and "hName h2 = hName h1"
    and "CloudEventIDKey ctx = Some i" and "i \<noteq> ''''"
    and "st (notifier_compositeKey (hName h1) i) w = (Inr b, w0)"
    and "hHandle (WrapWithDedupe (Some st) h1) ctx e w = (r1, w1)"
    and "st (notifier_compositeKey (hName h1) i) w1 = (Inr b', w2)"
  shows "hHandle (WrapWithDedupe (Some st) h2) ctx e' w1 = (None, w2)"
proof -
  have "notifier_compositeKey (hName h1) i \<in> seen w1"
    using DedupeHandler_records [OF assms(1,2,4,5,6), of e] assms(7) by simp
  with dedupe_store.answer [OF assms(1,8)] have "\<not> b'" by simp
  with assms(3,4,5,8) show ?thesis
    by (simp add: WrapWithDedupe_def DedupeHandler_def notifier_FirstSeen_def)
qed

text \<open>Two actions of one instance, on a world that records which actions were performed.\<close>

definition demo_store :: "(string list \<times> string list) DedupeStore" where
  "demo_store i w = (Inr (i \<notin> set (fst w)), (i # fst w, snd w))"

definition demo_handler :: "string \<Rightarrow> (string list \<times> string list) ActionHandler" where
  "demo_handler t = \<lparr>hName = ''default'', hProvider = ''github'', hType = t,
     hHandle = \<lambda>c e w. (None, (fst w, t # snd w)), hClose = \<lambda>w. (None, w)\<rparr>"

interpretation demo: lossless_dedupe_store demo_store "\<lambda>w. set (fst w)"
  by unfold_locales (auto simp: demo_store_def)

theorem DedupeHandler_same_name_skips_witness:
  "hHandle (WrapWithDedupe (Some demo_store) (demo_handler ''pr_comment''))
     \<lparr>CloudEventIDKey = Some ''42'', CtxTimeout = None\<rparr> zero_event
     ([''notif:default:42''], [''commit_status'']) =
   (None, ([''notif:default:42'', ''notif:default:42''], [''commit_status'']))"
  by (rule DedupeHandler_same_name_skips [OF demo.dedupe_store_axioms, of "demo_handler ''commit_status''" _ _
        "''42''" "([], [])" True "([''notif:default:42''], [])" zero_event None _ False])
    (simp_all add: keeps_seen_def demo_handler_def demo_store_def notifier_compositeKey_def
      notifierDedupePrefix_def WrapWithDedupe_def DedupeHandler_def notifier_FirstSeen_def)

text \<open>
  The composite key of the per-handler deduplication separates handlers and events as long as
  instance names have no colon; with a colon in a name two different pairs share a key, and a
  CloudEvent ID of the right form is the key of another handler's entry in the pipeline's own store.
\<close>

theorem notifier_compositeKey_collisions:
  "(CHR '':'' \<notin> set h \<and> CHR '':'' \<notin> set h' \<longrightarrow>
      notifier_compositeKey h i = notifier_compositeKey h' i' \<longrightarrow> h = h' \<and> i = i') \<and>
   notifier_compositeKey ''a:b'' ''c'' = notifier_compositeKey ''a'' ''b:c'' \<and>
   notifier_compositeKey ''slack'' ''7'' = ''notif:slack:7''"
  using notifier_compositeKey_inj [of h h' i i']
  by (auto simp: notifier_compositeKey_def notifierDedupePrefix_def)

theorem notifier_compositeKey_collisions_witness:
  "\<not> (notifier_compositeKey ''slack'' ''7'' = notifier_compositeKey ''teams'' ''7'')"
  using notifier_compositeKey_collisions [of "''slack''" "''teams''" "''7''" "''7''", THEN conjunct1] by auto

end
