(* ===== verification/Relay_Status.thy ===== *)
theory Relay_Status
  imports Relay_Domain Complex_Main "HOL-Library.Word"
begin

text \<open>
  \<^verbatim>\<open>internal/pipeline/status.go\<close>: the tracker of handler outcomes behind the readiness endpoint.
  Every handler has a ring of its last 100 outcomes. The ring with its write index is shown to
  implement the abstract window of most recent outcomes, and the error rate to be the share of
  failures in that window.

  The rate is a \<^verbatim>\<open>float64\<close> quotient of two integers below 101; it is kept as the exact rational. The
  comparison with the threshold 0.10 is the same for both, since such quotients are either 1/10 or
  differ from it by at least 1/1000, and rounding is monotone.
\<close>

section \<open>The ring\<close>

definition ringBufferSize :: nat where "ringBufferSize = 100"

record handlerRing =
  entries :: "bool list"
  index :: nat
  ringCount :: nat

definition new_ring :: handlerRing where
  "new_ring = \<lparr>entries = replicate ringBufferSize False, index = 0, ringCount = 0\<rparr>"

definition ring_record :: "handlerRing \<Rightarrow> bool \<Rightarrow> handlerRing" where
  "ring_record r success = \<lparr>entries = (entries r)[index r := success],
     index = (index r + 1) mod ringBufferSize,
     ringCount = (if ringCount r < ringBufferSize then ringCount r + 1 else ringCount r)\<rparr>"

definition ring_failed :: "handlerRing \<Rightarrow> nat" where
  "ring_failed r = length (filter (\<lambda>i. \<not> entries r ! i) [0..<ringCount r])"

definition errorRate :: "handlerRing \<Rightarrow> rat" where
  "errorRate r = (if ringCount r = 0 then 0 else of_nat (ring_failed r) / of_nat (ringCount r))"

definition hasRecentSuccess :: "handlerRing \<Rightarrow> bool" where
  "hasRecentSuccess r = list_ex (\<lambda>i. entries r ! i) [0..<ringCount r]"

text \<open>The representation invariant, and the window of outcomes a ring stands for, oldest first.\<close>

definition ring_inv :: "handlerRing \<Rightarrow> bool" where
  "ring_inv r \<longleftrightarrow> length (entries r) = ringBufferSize \<and> index r < ringBufferSize \<and>
     ringCount r \<le> ringBufferSize \<and> (ringCount r < ringBufferSize \<longrightarrow> index r = ringCount r)"

definition window :: "handlerRing \<Rightarrow> bool list" where
  "window r = (if ringCount r < ringBufferSize then take (ringCount r) (entries r)
     else drop (index r) (entries r) @ take (index r) (entries r))"

definition last_n :: "nat \<Rightarrow> 'a list \<Rightarrow> 'a list" where
  "last_n n xs = drop (length xs - n) xs"

lemma last_n_snoc: "last_n (Suc n) (xs @ [x]) = last_n n xs @ [x]"
  by (simp add: last_n_def)

lemma last_n_tl: "length xs = n \<Longrightarrow> 0 < n \<Longrightarrow> last_n n (xs @ [x]) = tl xs @ [x]"
  by (cases xs) (simp_all add: last_n_def)

lemma last_n_rev: "last_n n xs = rev (take n (rev xs))"
  by (simp add: last_n_def take_rev)

lemma last_n_append: "last_n n (last_n n xs @ ys) = last_n n (xs @ ys)"
  by (simp add: last_n_rev min_def)

lemma ring_inv_new: "ring_inv new_ring"
  by (simp add: ring_inv_def new_ring_def ringBufferSize_def)

lemma ring_inv_record: "ring_inv r \<Longrightarrow> ring_inv (ring_record r b)"
  by (auto simp: ring_inv_def ring_record_def ringBufferSize_def)

lemma window_length: "ring_inv r \<Longrightarrow> length (window r) = ringCount r"
  by (auto simp: ring_inv_def window_def)

text \<open>Recording is appending to the window and dropping what exceeds the size.\<close>

lemma window_record:
  assumes "ring_inv r"
  shows "window (ring_record r b) = last_n ringBufferSize (window r @ [b])"
proof -
  let ?n = "ringBufferSize" and ?e = "entries r" and ?i = "index r"
  have len: "length ?e = ?n" and i: "?i < ?n" and n0: "?n = 100"
    using assms by (simp_all add: ring_inv_def ringBufferSize_def)
  show ?thesis
  proof (cases "ringCount r < ?n")
    case True
    then have ic: "?i = ringCount r" using assms by (simp add: ring_inv_def)
    have upd: "take (Suc ?i) (?e[?i := b]) = take ?i ?e @ [b]"
      using i len by (simp add: take_Suc_conv_app_nth)
    have w: "window r = take ?i ?e" using True ic by (simp add: window_def)
    have short: "last_n ?n (take ?i ?e @ [b]) = take ?i ?e @ [b]"
      using i len by (simp add: last_n_def)
    show ?thesis
    proof (cases "Suc (ringCount r) < ?n")
      case True
      then show ?thesis
        using \<open>ringCount r < ?n\<close> ic upd w short by (simp add: window_def ring_record_def)
    next
      case False
      then have full: "Suc ?i = ?n" using True ic by simp
      then have "take ?n (?e[?i := b]) = ?e[?i := b]" using len by simp
      with full upd w short True ic show ?thesis
        by (simp add: window_def ring_record_def)
    qed
  next
    case False
    then have cn: "ringCount r = ?n" using assms by (simp add: ring_inv_def)
    have w: "window r = drop ?i ?e @ take ?i ?e" using False by (simp add: window_def)
    have tl: "tl (drop ?i ?e @ take ?i ?e) = drop (Suc ?i) ?e @ take ?i ?e"
      using i len by (simp add: tl_append2 drop_Suc tl_drop)
    have rhs: "last_n ?n (window r @ [b]) = drop (Suc ?i) ?e @ take ?i ?e @ [b]"
      using last_n_tl [of "window r" ?n b] w tl i len by simp
    have upd: "take (Suc ?i) (?e[?i := b]) = take ?i ?e @ [b]"
      using i len by (simp add: take_Suc_conv_app_nth)
    show ?thesis
    proof (cases "Suc ?i = ?n")
      case True
      then show ?thesis
        using cn rhs upd len by (simp add: window_def ring_record_def)
    next
      case False
      then show ?thesis
        using cn rhs upd len i by (simp add: window_def ring_record_def)
    qed
  qed
qed

lemma failures_nth: "k \<le> length xs \<Longrightarrow>
   length (filter (\<lambda>i. \<not> xs ! i) [0..<k]) = length (filter Not (take k xs))"
proof (induction k)
  case (Suc k)
  then show ?case by (simp add: take_Suc_conv_app_nth)
qed simp

lemma ring_failed_window: "ring_inv r \<Longrightarrow> ring_failed r = length (filter Not (window r))"
proof -
  assume r: "ring_inv r"
  then have "ring_failed r = length (filter Not (take (ringCount r) (entries r)))"
    by (simp add: ring_failed_def failures_nth ring_inv_def)
  also have "\<dots> = length (filter Not (window r))"
  proof (cases "ringCount r < ringBufferSize")
    case False
    with r have "take (ringCount r) (entries r) = entries r" by (simp add: ring_inv_def)
    moreover have "length (filter Not (entries r)) =
        length (filter Not (drop (index r) (entries r))) + length (filter Not (take (index r) (entries r)))"
      by (metis add.commute append_take_drop_id filter_append length_append)
    ultimately show ?thesis using False by (simp add: window_def)
  qed (simp add: window_def)
  finally show ?thesis .
qed

lemma recent_success_window: "ring_inv r \<Longrightarrow> hasRecentSuccess r \<longleftrightarrow> True \<in> set (window r)"
proof -
  assume r: "ring_inv r"
  have "hasRecentSuccess r \<longleftrightarrow> ring_failed r < ringCount r"
  proof -
    have "hasRecentSuccess r \<longleftrightarrow> filter (\<lambda>i. entries r ! i) [0..<ringCount r] \<noteq> []"
      by (auto simp: hasRecentSuccess_def list_ex_iff filter_empty_conv)
    moreover have "length (filter (\<lambda>i. entries r ! i) [0..<ringCount r]) + ring_failed r = ringCount r"
      using sum_length_filter_compl [of "\<lambda>i. entries r ! i" "[0..<ringCount r]"]
      by (simp add: ring_failed_def)
    ultimately show ?thesis by (metis add_cancel_right_left length_0_conv less_add_same_cancel2 neq0_conv)
  qed
  also have "\<dots> \<longleftrightarrow> length (filter Not (window r)) < length (window r)"
    using ring_failed_window [OF r] window_length [OF r] by simp
  also have "\<dots> \<longleftrightarrow> True \<in> set (window r)"
    by (metis (full_types) filter_id_conv length_filter_less less_irrefl)
  finally show ?thesis .
qed

section \<open>The tracker\<close>

record HandlerStatus =
  LastEventAt :: Time
  LastError :: string
  LastErrorAt :: Time
  Succeeded :: "64 word"
  Failed :: "64 word"

definition new_status :: HandlerStatus where
  "new_status = \<lparr>LastEventAt = 0, LastError = '''', LastErrorAt = 0, Succeeded = 0, Failed = 0\<rparr>"

record StatusTracker =
  statuses :: "(string, HandlerStatus) gomap"
  rings :: "(string, handlerRing) gomap"

definition NewStatusTracker :: StatusTracker where
  "NewStatusTracker = \<lparr>statuses = [], rings = []\<rparr>"

definition status_of :: "StatusTracker \<Rightarrow> string \<Rightarrow> HandlerStatus" where
  "status_of t h = (case map_of (statuses t) h of None \<Rightarrow> new_status | Some s \<Rightarrow> s)"

definition ring_of :: "StatusTracker \<Rightarrow> string \<Rightarrow> handlerRing" where
  "ring_of t h = (case map_of (rings t) h of None \<Rightarrow> new_ring | Some r \<Rightarrow> r)"

text \<open>A nil tracker records nothing.\<close>

definition Observe :: "Time \<Rightarrow> string \<Rightarrow> err option \<Rightarrow> StatusTracker option \<Rightarrow> StatusTracker option" where
  "Observe now handler er tracker =
     (case tracker of
        None \<Rightarrow> None
      | Some t \<Rightarrow>
          (let s0 = (status_of t handler)\<lparr>LastEventAt := now\<rparr>;
               s1 = (case er of
                       Some e \<Rightarrow> s0\<lparr>Failed := Failed s0 + 1, LastError := error_text e, LastErrorAt := now\<rparr>
                     | None \<Rightarrow> s0\<lparr>Succeeded := Succeeded s0 + 1\<rparr>);
               r = ring_record (ring_of t handler) (er = None)
           in Some \<lparr>statuses = AList.update handler s1 (statuses t),
                    rings = AList.update handler r (rings t)\<rparr>))"

definition Snapshot :: "StatusTracker option \<Rightarrow> (string, HandlerStatus) gomap" where
  "Snapshot tracker = (case tracker of None \<Rightarrow> [] | Some t \<Rightarrow> statuses t)"

definition degradedThreshold :: rat where "degradedThreshold = 1 / 10"

definition degraded :: "handlerRing \<Rightarrow> bool" where
  "degraded r \<longleftrightarrow> ringCount r \<noteq> 0 \<and> degradedThreshold \<le> errorRate r \<and> hasRecentSuccess r"

definition DegradedHandlers :: "StatusTracker option \<Rightarrow> (string, rat) gomap option" where
  "DegradedHandlers tracker =
     (case tracker of
        None \<Rightarrow> None
      | Some t \<Rightarrow>
          (let out = map (\<lambda>(name, r). (name, errorRate r)) (filter (\<lambda>(name, r). degraded r) (rings t))
           in if length out = 0 then None else Some out))"

fun observe_all :: "(Time \<times> string \<times> err option) list \<Rightarrow> StatusTracker option \<Rightarrow> StatusTracker option" where
  "observe_all [] t = t"
| "observe_all ((now, h, er) # os) t = observe_all os (Observe now h er t)"

text \<open>The outcomes observed for one handler.\<close>

definition outcomes :: "string \<Rightarrow> (Time \<times> string \<times> err option) list \<Rightarrow> bool list" where
  "outcomes h os = map (\<lambda>(now, k, er). er = None) (filter (\<lambda>(now, k, er). k = h) os)"

lemma ring_of_Observe:
  "ring_of (the (Observe now k er (Some t))) h =
     (if h = k then ring_record (ring_of t k) (er = None) else ring_of t h)"
  by (simp add: Observe_def Let_def ring_of_def)

lemma Observe_Some: "\<exists>t'. Observe now k er (Some t) = Some t'"
  by (simp add: Observe_def Let_def)

lemma observe_all_ring:
  assumes "ring_inv (ring_of t h)" and "observe_all os (Some t) = Some t'"
  shows "ring_inv (ring_of t' h) \<and>
    window (ring_of t' h) = last_n ringBufferSize (window (ring_of t h) @ outcomes h os)"
  using assms
proof (induction os arbitrary: t)
  case Nil
  then show ?case using window_length [OF Nil.prems(1)] by (simp add: outcomes_def last_n_def ring_inv_def)
next
  case (Cons o' os)
  obtain now k er where o': "o' = (now, k, er)" by (cases o')
  obtain t1 where t1: "Observe now k er (Some t) = Some t1" using Observe_Some by blast
  have ring1: "ring_of t1 h = (if h = k then ring_record (ring_of t k) (er = None) else ring_of t h)"
    using ring_of_Observe [of now k er t h] t1 by simp
  have inv1: "ring_inv (ring_of t1 h)" using ring1 Cons.prems(1) ring_inv_record by auto
  have IH: "ring_inv (ring_of t' h) \<and>
      window (ring_of t' h) = last_n ringBufferSize (window (ring_of t1 h) @ outcomes h os)"
    using Cons.IH [OF inv1] Cons.prems(2) o' t1 by simp
  show ?case
  proof (cases "h = k")
    case True
    then have "window (ring_of t1 h) = last_n ringBufferSize (window (ring_of t h) @ [er = None])"
      using ring1 window_record Cons.prems(1) by simp
    with IH True o' show ?thesis by (simp add: outcomes_def last_n_append)
  next
    case False
    with IH ring1 o' show ?thesis by (auto simp: outcomes_def)
  qed
qed

section \<open>Properties\<close>

text \<open>
  After any sequence of observed outcomes of any handlers, in any order, the error rate kept for
  a handler is the share of failures among its own last 100 outcomes (0 for none), and the handler
  is reported as degraded exactly when at least a tenth of them failed and at least one succeeded;
  what other handlers did has no influence.
\<close>

theorem tracker_error_rate:
  assumes "observe_all os (Some NewStatusTracker) = Some t"
  shows "let w = last_n 100 (outcomes h os) in
    errorRate (ring_of t h) = (if w = [] then 0 else of_nat (length (filter Not w)) / of_nat (length w)) \<and>
    (degraded (ring_of t h) \<longleftrightarrow> length w \<le> 10 * length (filter Not w) \<and> True \<in> set w)"
proof -
  define w where "w = last_n 100 (outcomes h os)"
  have new: "ring_of NewStatusTracker h = new_ring" by (simp add: ring_of_def NewStatusTracker_def)
  have "ring_inv (ring_of NewStatusTracker h)" unfolding new by (rule ring_inv_new)
  note R = observe_all_ring [OF this assms(1)]
  have win: "window (ring_of t h) = w" and inv: "ring_inv (ring_of t h)"
    using R by (simp_all add: new w_def new_ring_def window_def ringBufferSize_def)
  note f = ring_failed_window [OF inv] window_length [OF inv, symmetric] recent_success_window [OF inv]
  have rate: "errorRate (ring_of t h) = (if w = [] then 0 else of_nat (length (filter Not w)) / of_nat (length w))"
    using f by (simp add: errorRate_def win)
  moreover have "degraded (ring_of t h) \<longleftrightarrow> length w \<le> 10 * length (filter Not w) \<and> True \<in> set w"
  proof (cases "w = []")
    case False
    then have pos: "(0 :: rat) < of_nat (length w)" by simp
    have "degradedThreshold \<le> errorRate (ring_of t h) \<longleftrightarrow>
        (of_nat (length w) :: rat) \<le> of_nat (10 * length (filter Not w))"
      unfolding rate using False pos by (simp add: degradedThreshold_def pos_le_divide_eq mult.commute)
    then show ?thesis
      using False f by (simp only: degraded_def win of_nat_le_iff) simp
  qed (use f in \<open>simp add: degraded_def win\<close>)
  ultimately show ?thesis by (simp add: w_def Let_def)
qed

theorem tracker_error_rate_witness:
  "degraded (ring_of (the (observe_all [(1, ''a'', None), (2, ''b'', Some (Err ''x'')), (3, ''a'', Some (Err ''y''))]
      (Some NewStatusTracker))) ''a'')"
proof -
  have "observe_all [(1, ''a'', None), (2, ''b'', Some (Err ''x'')), (3, ''a'', Some (Err ''y''))]
      (Some NewStatusTracker) \<noteq> None"
    by (simp add: Observe_def Let_def)
  then obtain t where "observe_all [(1, ''a'', None), (2, ''b'', Some (Err ''x'')), (3, ''a'', Some (Err ''y''))]
      (Some NewStatusTracker) = Some t"
    by blast
  with tracker_error_rate [OF this, of "''a''"] show ?thesis
    by (simp add: outcomes_def last_n_def)
qed

end
