(* ===== verification/Relay_Pipeline.thy ===== *)
theory Relay_Pipeline
  imports Relay_Notifier Relay_Status "HOL-Library.Multiset"
begin

text \<open>
  Package \<^verbatim>\<open>internal/pipeline\<close>: the chain of responsibility that an event passes (validation,
  filtering, deduplication, enrichment, dispatch) and the wiring of the chain in
  \<^verbatim>\<open>cmd/receiver/main.go\<close>.

  A link is a function of the next handler. The handlers of the dispatcher run as goroutines of an
  \<^verbatim>\<open>errgroup\<close>; the order in which they take effect, the context's state when each starts and the
  clock are the argument \<open>sched\<close>, which stands for the package \<^verbatim>\<open>x/sync/errgroup\<close> and the Go
  scheduler. Handlers take effect one after the other in that order.
\<close>

section \<open>Chain of responsibility\<close>

record 'w Relay =
  World :: 'w
  Coll :: "Collectors option"
  Status :: "StatusTracker option"

definition count :: "string list \<Rightarrow> 'w Relay \<Rightarrow> 'w Relay" where
  "count l s = s\<lparr>Coll := IncIf l (Coll s)\<rparr>"

lemma count_frame [simp, world_frame]: "World (count l s) = World s" "Status (count l s) = Status s"
  by (simp_all add: count_def)

type_synonym 'w HandleFn = "Envelope \<Rightarrow> 'w Relay \<Rightarrow> err option \<times> Envelope \<times> 'w Relay"
type_synonym 'w Link = "'w HandleFn \<Rightarrow> 'w HandleFn"

text \<open>\<^verbatim>\<open>BaseHandler.Next\<close>: nothing follows the last link.\<close>

definition Next :: "'w HandleFn option \<Rightarrow> 'w HandleFn" where
  "Next n env s = (case n of None \<Rightarrow> (None, env, s) | Some h \<Rightarrow> h env s)"

fun Build :: "'w Link list \<Rightarrow> 'w HandleFn option" where
  "Build [] = None"
| "Build (l # ls) = Some (l (Next (Build ls)))"

section \<open>Validator\<close>

text \<open>The envelope is a pointer and may be nil.\<close>

definition validate :: "Envelope option \<Rightarrow> err option" where
  "validate envp =
     (case envp of
        None \<Rightarrow> Some (Err ''nil envelope'')
      | Some env \<Rightarrow>
          if CloudEventID env = '''' then Some (Err ''missing Ce-Id'')
          else
            (let r = Report env in
             if ResourceOf r \<noteq> ''eventlistener'' \<and> Provider r = ''''
             then Some (Err ''missing tekton.dev/tekton-events-relay.scm.provider annotation'')
             else if RunName r = '''' then Some (Err (''missing RunName for '' @ CloudEventType env))
             else None))"

definition Validator_Handle :: "'w Link" where
  "Validator_Handle next env s =
     (case validate (Some env) of Some e \<Rightarrow> (Some e, env, s) | None \<Rightarrow> next env s)"

section \<open>EventFilter\<close>

record EventFilter =
  AllowTaskRun :: bool
  AllowPipelineRun :: bool
  AllowCustomRun :: bool
  AllowEventListener :: bool
  IgnoreUnknown :: bool
  AllowNamespaces :: "string list"
  DenyNamespaces :: "string list"

text \<open>
  \<^verbatim>\<open>matchNamespace\<close>: the loop over the patterns with its variable \<open>matched\<close>; a malformed pattern
  is skipped like one that does not match.
\<close>

fun matchNamespace_loop :: "string \<Rightarrow> string list \<Rightarrow> bool \<Rightarrow> bool" where
  "matchNamespace_loop ns [] matched = matched"
| "matchNamespace_loop ns (p # ps) matched =
     (let negate = HasPrefix p ''!'';
          q = (if negate then drop 1 p else p)
      in case path_match q ns of
           Some True \<Rightarrow> matchNamespace_loop ns ps (\<not> negate)
         | _ \<Rightarrow> matchNamespace_loop ns ps matched)"

definition matchNamespace :: "string \<Rightarrow> string list \<Rightarrow> bool" where
  "matchNamespace ns patterns = matchNamespace_loop ns patterns False"

definition namespaceAllowed :: "EventFilter \<Rightarrow> string \<Rightarrow> bool" where
  "namespaceAllowed f ns =
     (if 0 < length (DenyNamespaces f) \<and> matchNamespace ns (DenyNamespaces f) then False
      else if length (AllowNamespaces f) = 0 then True
      else matchNamespace ns (AllowNamespaces f))"

definition filter_keeps :: "EventFilter \<Rightarrow> Envelope \<Rightarrow> bool" where
  "filter_keeps f env =
     (if IgnoreUnknown f \<and> HasSuffix (CloudEventType env) ''.unknown.v1'' then False
      else if ResourceOf (Report env) = ResourceTaskRun \<and> \<not> AllowTaskRun f then False
      else if ResourceOf (Report env) = ResourcePipelineRun \<and> \<not> AllowPipelineRun f then False
      else if ResourceOf (Report env) = ResourceCustomRun \<and> \<not> AllowCustomRun f then False
      else if ResourceOf (Report env) = ResourceEventListener \<and> \<not> AllowEventListener f then False
      else if ResourceOf (Report env) \<notin>
          {ResourceTaskRun, ResourcePipelineRun, ResourceCustomRun, ResourceEventListener} \<and> IgnoreUnknown f
        then False
      else namespaceAllowed f (Namespace (Report env)))"

definition EventFilter_Handle :: "EventFilter \<Rightarrow> 'w Link" where
  "EventFilter_Handle f next env s = (if filter_keeps f env then next env s else (None, env, s))"

section \<open>Deduper\<close>

record 'w Deduper =
  dedStore :: "'w DedupeStore"
  dedBackend :: string
  dedLen :: "('w \<Rightarrow> nat) option"

definition Deduper_Handle :: "'w Deduper \<Rightarrow> 'w Link" where
  "Deduper_Handle d next env s =
     (case dedStore d (CloudEventID env) (World s) of
        (Inl er, w) \<Rightarrow>
          next env (count [''StoreErrors'', dedBackend d, ''dedupe''] (s\<lparr>World := w\<rparr>))
      | (Inr first, w) \<Rightarrow>
          if \<not> first then (None, env, count [''DeduperHits''] (s\<lparr>World := w\<rparr>))
          else
            (let s1 = s\<lparr>World := w\<rparr>;
                 s2 = (case dedLen d of
                         None \<Rightarrow> s1
                       | Some len \<Rightarrow> s1\<lparr>Coll := map_option (SetGauge [''DedupeCacheSize''] (len w)) (Coll s1)\<rparr>)
             in next env s2))"

section \<open>Enricher\<close>

definition NewEnricher :: "string \<Rightarrow> string" where
  "NewEnricher dashboard = TrimRightByte dashboard (CHR ''/'')"

definition dashboardLink :: "string \<Rightarrow> Event \<Rightarrow> string" where
  "dashboardLink url r =
     (let kind = (if ResourceOf r = ResourceTaskRun then Some ''taskruns''
                  else if ResourceOf r = ResourcePipelineRun then Some ''pipelineruns''
                  else if ResourceOf r = ResourceCustomRun then Some ''customruns''
                  else None)
      in case kind of
           None \<Rightarrow> ''''
         | Some k \<Rightarrow> url @ ''/#/namespaces/'' @ PathEscape (Namespace r) @ ''/'' @ k @ ''/'' @ PathEscape (RunName r))"

definition enrich :: "string \<Rightarrow> Envelope \<Rightarrow> Envelope" where
  "enrich url env =
     (if url \<noteq> '''' \<and> TargetURL (Report env) = ''''
      then env\<lparr>Report := (Report env)\<lparr>TargetURL := dashboardLink url (Report env)\<rparr>\<rparr> else env)"

definition Enricher_Handle :: "string \<Rightarrow> 'w Link" where
  "Enricher_Handle url next env s = next (enrich url env) s"

section \<open>MetricsHandler\<close>

text \<open>\<^verbatim>\<open>SetNext\<close> goes to the wrapped handler, so its next is the next of the wrapper.\<close>

definition WithMetrics :: "string \<Rightarrow> 'w Link \<Rightarrow> 'w Link" where
  "WithMetrics step inner next env s =
     (case inner next env s of
        (er, env', s') \<Rightarrow>
          (let s1 = count [''HandlerDuration'', step] s'
           in (er, env', count [''EventsProcessed'', step, if er = None then ''success'' else ''error''] s1)))"

section \<open>Dispatcher\<close>

text \<open>The interface \<^verbatim>\<open>HandlerSource\<close>, which the registry implements.\<close>

record 'w HandlerSource =
  srcAll :: "'w ActionHandler list"
  srcLookup :: "string \<Rightarrow> 'w ActionHandler option"

definition registry_source :: "'w Registry \<Rightarrow> 'w HandlerSource" where
  "registry_source r = \<lparr>srcAll = All r, srcLookup = Lookup r\<rparr>"

text \<open>One goroutine: its handler, the context's error if it had ended by then, and the time.\<close>

type_synonym 'w goroutine = "'w ActionHandler \<times> err option \<times> Time"

record 'w Dispatcher =
  registry :: "'w HandlerSource"
  maxConcurrency :: int
  handlerTimeout :: int
  fallbacks :: "(string, string) gomap option"
  fallbackOnly :: "(string, bool) gomap option"

definition handlerKey :: "'w ActionHandler \<Rightarrow> string" where
  "handlerKey h = hProvider h @ ''/'' @ hName h"

definition isFallbackOnly :: "'w Dispatcher \<Rightarrow> string \<Rightarrow> bool" where
  "isFallbackOnly d name =
     (case fallbackOnly d of None \<Rightarrow> False
      | Some m \<Rightarrow> (case map_of m name of None \<Rightarrow> False | Some b \<Rightarrow> b))"

definition matches :: "'w Dispatcher \<Rightarrow> Event \<Rightarrow> 'w ActionHandler \<Rightarrow> bool" where
  "matches d e h =
     (if isFallbackOnly d (hName h) then False
      else if Provider e \<noteq> '''' \<and> Provider e \<noteq> hProvider h \<and> hType h \<noteq> ActionNotify then False
      else True)"

definition matched :: "'w Dispatcher \<Rightarrow> Event \<Rightarrow> 'w ActionHandler list" where
  "matched d e = filter (matches d e) (srcAll (registry d))"

definition handler_ctx :: "'w Dispatcher \<Rightarrow> Envelope \<Rightarrow> Ctx" where
  "handler_ctx d env = \<lparr>CloudEventIDKey = Some (CloudEventID env),
     CtxTimeout = (if 0 < handlerTimeout d then Some (handlerTimeout d) else None)\<rparr>"

text \<open>What the goroutines share: the collected errors and results, and the first error returned.\<close>

record 'w shared =
  errs :: "err list"
  results :: "('w ActionHandler \<times> err option) list"
  waitErr :: "err option"

definition run_goroutine ::
  "'w Dispatcher \<Rightarrow> Envelope \<Rightarrow> 'w goroutine \<Rightarrow> 'w shared \<times> 'w Relay \<Rightarrow> 'w shared \<times> 'w Relay" where
  "run_goroutine d env g st =
     (case g of (h, cancelled, now) \<Rightarrow>
       (case cancelled of
          Some e \<Rightarrow> ((fst st)\<lparr>waitErr := (case waitErr (fst st) of None \<Rightarrow> Some e | Some e0 \<Rightarrow> Some e0)\<rparr>, snd st)
        | None \<Rightarrow>
            (case hHandle h (handler_ctx d env) (Report env) (World (snd st)) of
               (er, w) \<Rightarrow>
                 (let s0 = (snd st)\<lparr>World := w\<rparr>;
                      s1 = (case er of Some e \<Rightarrow> if is_deadline e then count [''HandlerTimeouts'', handlerKey h] s0 else s0
                                     | None \<Rightarrow> s0);
                      s2 = s1\<lparr>Status := Observe now (handlerKey h) er (Status s1)\<rparr>;
                      s3 = count [''NotifierLatency'', handlerKey h, hType h] s2;
                      sh = (fst st)\<lparr>
                        errs := errs (fst st) @ (case er of None \<Rightarrow> []
                                  | Some e \<Rightarrow> [Wrap (handlerKey h @ ''/'' @ hType h @ '': '') e]),
                        results := results (fst st) @ [(h, er)]\<rparr>;
                      s4 = count [''HandlerDuration'', handlerKey h] s3;
                      s5 = count [''EventsProcessed'', handlerKey h, if er = None then ''success'' else ''error''] s4
                  in (sh, s5)))))"

fun run_goroutines ::
  "'w Dispatcher \<Rightarrow> Envelope \<Rightarrow> 'w goroutine list \<Rightarrow> 'w shared \<times> 'w Relay \<Rightarrow> 'w shared \<times> 'w Relay" where
  "run_goroutines d env [] st = st"
| "run_goroutines d env (g # gs) st = run_goroutines d env gs (run_goroutine d env g st)"

text \<open>The fallback of a handler's result, when there is one to run.\<close>

definition fallback_for :: "'w Dispatcher \<Rightarrow> 'w ActionHandler \<times> err option \<Rightarrow> (string \<times> err \<times> 'w ActionHandler) option" where
  "fallback_for d r =
     (case snd r of
        None \<Rightarrow> None
      | Some e \<Rightarrow>
          if IsRetryable (Some e) then None
          else case fallbacks d of
            None \<Rightarrow> None
          | Some m \<Rightarrow>
              (case map_of m (hName (fst r)) of
                 None \<Rightarrow> None
               | Some fb \<Rightarrow>
                   if fb = '''' then None
                   else map_option (\<lambda>h. (fb, e, h)) (srcLookup (registry d) fb)))"

fun executeFallbacks ::
  "'w Dispatcher \<Rightarrow> Envelope \<Rightarrow> ('w ActionHandler \<times> err option) list \<Rightarrow> 'w Relay \<Rightarrow> err list \<times> 'w Relay" where
  "executeFallbacks d env [] s = ([], s)"
| "executeFallbacks d env (r # rs) s =
     (case fallback_for d r of
        None \<Rightarrow> executeFallbacks d env rs s
      | Some (fbName, e, fb) \<Rightarrow>
          (case hHandle fb (handler_ctx d env) (Report env) (World s) of
             (fbErr, w) \<Rightarrow>
               (let (es, s') = executeFallbacks d env rs (s\<lparr>World := w\<rparr>)
                in ((case fbErr of None \<Rightarrow> []
                     | Some fe \<Rightarrow> [Wrap (''fallback '' @ fbName @ '' for '' @ hName (fst r) @ '': '') (Join [e, fe])])
                    @ es, s'))))"

definition no_shared :: "'w shared" where
  "no_shared = \<lparr>errs = [], results = [], waitErr = None\<rparr>"

definition Dispatcher_Handle ::
  "('w ActionHandler list \<Rightarrow> 'w goroutine list) \<Rightarrow> 'w Dispatcher \<Rightarrow> 'w Link" where
  "Dispatcher_Handle sched d next env s =
     (if length (srcAll (registry d)) = 0 then next env s
      else
        (let e = Report env;
             s0 = count [''EventsByResourceTotal'', ResourceOf e]
                   (count [''EventsByProviderTotal'', Provider e]
                     (count [''EventsByStateTotal'', StateOf e] s));
             (sh, s1) = run_goroutines d env (sched (matched d e)) (no_shared, s0);
             (fallbackErrs, s2) = (case fallbacks d of None \<Rightarrow> ([], s1)
                                   | Some _ \<Rightarrow> executeFallbacks d env (results sh) s1);
             allErrs = errs sh @ fallbackErrs @ (case waitErr sh of None \<Rightarrow> [] | Some we \<Rightarrow> [we])
         in if 0 < length allErrs then (Some (Join allErrs), env, s2) else next env s2))"

text \<open>
  What the relay relies on of \<^verbatim>\<open>errgroup\<close>: every function passed to \<^verbatim>\<open>Go\<close> is run exactly once before
  \<^verbatim>\<open>Wait\<close> returns. (A concurrency limit of zero would let none start; the configuration's default is
  positive.)
\<close>

definition errgroup_runs_each_once :: "('w ActionHandler list \<Rightarrow> 'w goroutine list) \<Rightarrow> bool" where
  "errgroup_runs_each_once sched \<longleftrightarrow> (\<forall>hs. mset (map fst (sched hs)) = mset hs)"

definition never_cancelled :: "('w ActionHandler list \<Rightarrow> 'w goroutine list) \<Rightarrow> bool" where
  "never_cancelled sched \<longleftrightarrow> (\<forall>hs. \<forall>g \<in> set (sched hs). fst (snd g) = None)"

section \<open>The relay's chain\<close>

record 'w ChainConfig =
  cfgFilter :: EventFilter
  cfgDashboardURL :: string
  cfgDeduper :: "'w Deduper"
  cfgDispatcher :: "'w Dispatcher"

definition buildChain ::
  "('w ActionHandler list \<Rightarrow> 'w goroutine list) \<Rightarrow> 'w ChainConfig \<Rightarrow> 'w HandleFn option" where
  "buildChain sched cfg = Build
     [WithMetrics ''validator'' Validator_Handle,
      WithMetrics ''filter'' (EventFilter_Handle (cfgFilter cfg)),
      WithMetrics ''deduper'' (Deduper_Handle (cfgDeduper cfg)),
      WithMetrics ''enricher'' (Enricher_Handle (NewEnricher (cfgDashboardURL cfg))),
      WithMetrics ''dispatcher'' (Dispatcher_Handle sched (cfgDispatcher cfg))]"

section \<open>Lemmas on the dispatcher\<close>

lemma run_goroutine_World:
  "World (snd (run_goroutine d env (h, c, now) st)) =
     (case c of Some e \<Rightarrow> World (snd st) | None \<Rightarrow> snd (hHandle h (handler_ctx d env) (Report env) (World (snd st))))"
  by (simp add: run_goroutine_def Let_def split: option.split prod.split)

lemma run_goroutine_shared:
  "fst (run_goroutine d env (h, c, now) st) =
     (case c of
        Some e \<Rightarrow> (fst st)\<lparr>waitErr := (case waitErr (fst st) of None \<Rightarrow> Some e | Some e0 \<Rightarrow> Some e0)\<rparr>
      | None \<Rightarrow>
         (let er = fst (hHandle h (handler_ctx d env) (Report env) (World (snd st)))
          in (fst st)\<lparr>
              errs := errs (fst st) @ (case er of None \<Rightarrow> []
                        | Some e \<Rightarrow> [Wrap (handlerKey h @ ''/'' @ hType h @ '': '') e]),
              results := results (fst st) @ [(h, er)]\<rparr>))"
  by (simp add: run_goroutine_def Let_def split: option.split prod.split)

text \<open>Neither the metrics nor the tracker influence what the handlers see.\<close>

lemma run_goroutines_cong:
  assumes "World s = World s'"
  shows "fst (run_goroutines d env gs (sh, s)) = fst (run_goroutines d env gs (sh, s')) \<and>
    World (snd (run_goroutines d env gs (sh, s))) = World (snd (run_goroutines d env gs (sh, s')))"
  using assms
proof (induction gs arbitrary: sh s s')
  case (Cons g gs)
  obtain h c now where g: "g = (h, c, now)" by (cases g)
  obtain sh1 s1 where 1: "run_goroutine d env g (sh, s) = (sh1, s1)" by fastforce
  obtain sh2 s2 where 2: "run_goroutine d env g (sh, s') = (sh2, s2)" by fastforce
  have "fst (run_goroutine d env g (sh, s)) = fst (run_goroutine d env g (sh, s'))"
    unfolding g run_goroutine_shared using Cons.prems by (cases c) simp_all
  then have "sh1 = sh2" using 1 2 by simp
  moreover have "World (snd (run_goroutine d env g (sh, s))) = World (snd (run_goroutine d env g (sh, s')))"
    unfolding g run_goroutine_World using Cons.prems by (cases c) simp_all
  then have "World s1 = World s2" using 1 2 by simp
  ultimately show ?case using Cons.IH [of s1 s2 sh1] 1 2 by simp
qed simp

lemma executeFallbacks_cong:
  assumes "World s = World s'"
  shows "fst (executeFallbacks d env rs s) = fst (executeFallbacks d env rs s') \<and>
    World (snd (executeFallbacks d env rs s)) = World (snd (executeFallbacks d env rs s'))"
  using assms
proof (induction rs arbitrary: s s')
  case (Cons r rs)
  show ?case
  proof (cases "fallback_for d r")
    case None
    then show ?thesis using Cons.IH [OF Cons.prems] by simp
  next
    case (Some x)
    obtain n e fb where x: "x = (n, e, fb)" by (cases x)
    obtain fe w where h: "hHandle fb (handler_ctx d env) (Report env) (World s') = (fe, w)" by fastforce
    obtain es t where 1: "executeFallbacks d env rs (s\<lparr>World := w\<rparr>) = (es, t)" by fastforce
    obtain es' t' where 2: "executeFallbacks d env rs (s'\<lparr>World := w\<rparr>) = (es', t')" by fastforce
    have "es = es' \<and> World t = World t'"
      using Cons.IH [of "s\<lparr>World := w\<rparr>" "s'\<lparr>World := w\<rparr>"] 1 2 by simp
    then show ?thesis using 1 2 Some x h Cons.prems by simp
  qed
qed simp

lemma World_counts [simp]:
  "World (count a (count b (count c s))) = World s" by simp

definition last_link :: "'w HandleFn" where "last_link = Next None"

lemma last_link_simp [simp]: "Next None env s = (None, env, s)" "last_link env s = (None, env, s)"
  by (simp_all add: Next_def last_link_def)

lemma Dispatcher_cong:
  assumes "World s = World s'"
  shows "fst (Dispatcher_Handle sched d last_link env s) = fst (Dispatcher_Handle sched d last_link env s') \<and>
    World (snd (snd (Dispatcher_Handle sched d last_link env s))) =
    World (snd (snd (Dispatcher_Handle sched d last_link env s')))"
proof -
  define s0 where "s0 = count [''EventsByResourceTotal'', ResourceOf (Report env)]
    (count [''EventsByProviderTotal'', Provider (Report env)] (count [''EventsByStateTotal'', StateOf (Report env)] s))"
  define s0' where "s0' = count [''EventsByResourceTotal'', ResourceOf (Report env)]
    (count [''EventsByProviderTotal'', Provider (Report env)] (count [''EventsByStateTotal'', StateOf (Report env)] s'))"
  have w0: "World s0 = World s0'" using assms by (simp add: s0_def s0'_def)
  obtain sh s1 where r: "run_goroutines d env (sched (matched d (Report env))) (no_shared, s0) = (sh, s1)" by fastforce
  obtain s1' where r': "run_goroutines d env (sched (matched d (Report env))) (no_shared, s0') = (sh, s1')"
      and w1: "World s1 = World s1'"
    using run_goroutines_cong [OF w0, of d env "sched (matched d (Report env))" no_shared] r
    by (metis fst_conv prod.collapse snd_conv)
  show ?thesis
    using assms r r' w1 executeFallbacks_cong [OF w1, of d env "results sh"]
    by (auto simp: Dispatcher_Handle_def s0_def [symmetric] s0'_def [symmetric] Let_def
        split: option.splits prod.splits)
qed

text \<open>What a completed group of goroutines leaves behind.\<close>

definition wrap_failure :: "'w ActionHandler \<times> err option \<Rightarrow> err option" where
  "wrap_failure r = map_option (Wrap (handlerKey (fst r) @ ''/'' @ hType (fst r) @ '': '')) (snd r)"

lemma run_goroutines_uncancelled:
  assumes "\<forall>g \<in> set gs. fst (snd g) = None"
  shows "let sh' = fst (run_goroutines d env gs (sh, s)) in
    (\<exists>rs. results sh' = results sh @ rs \<and> map fst rs = map fst gs \<and>
      errs sh' = errs sh @ List.map_filter wrap_failure rs) \<and> waitErr sh' = waitErr sh"
  using assms
proof (induction gs arbitrary: sh s)
  case (Cons g gs)
  obtain h now where g: "g = (h, None, now)" using Cons.prems by (cases g) auto
  obtain sh1 s1 where 1: "run_goroutine d env g (sh, s) = (sh1, s1)" by fastforce
  define er where "er = fst (hHandle h (handler_ctx d env) (Report env) (World s))"
  have sh1: "results sh1 = results sh @ [(h, er)]" "waitErr sh1 = waitErr sh"
      "errs sh1 = errs sh @ List.map_filter wrap_failure [(h, er)]"
    using 1 g run_goroutine_shared [of d env h None now "(sh, s)"]
    by (auto simp: er_def Let_def wrap_failure_def List.map_filter_def split: option.splits)
  obtain rs where "results (fst (run_goroutines d env gs (sh1, s1))) = results sh1 @ rs"
      "map fst rs = map fst gs"
      "errs (fst (run_goroutines d env gs (sh1, s1))) = errs sh1 @ List.map_filter wrap_failure rs"
      "waitErr (fst (run_goroutines d env gs (sh1, s1))) = waitErr sh1"
    using Cons.IH [of sh1 s1] Cons.prems by (auto simp: Let_def)
  then show ?case
    using sh1 1 g by (auto simp: Let_def List.map_filter_def intro!: exI [of _ "(h, er) # rs"])
qed (auto simp: Let_def List.map_filter_def)

section \<open>The chain as a whole\<close>

text \<open>What a link does apart from metrics and status: its error, the envelope and the world.\<close>

definition outcome :: "err option \<times> Envelope \<times> 'w Relay \<Rightarrow> err option \<times> Envelope \<times> 'w" where
  "outcome r = (fst r, fst (snd r), World (snd (snd r)))"

lemma outcome_simps [simp]: "outcome (e, env, s) = (e, env, World s)"
  by (simp add: outcome_def)

lemma outcome_WithMetrics [simp]: "outcome (WithMetrics step l n env s) = outcome (l n env s)"
  by (simp add: WithMetrics_def Let_def outcome_def split: prod.split)

text \<open>The specification of the chain: what happens to an event, and what the handlers see.\<close>

definition dispatch_outcome ::
  "('w ActionHandler list \<Rightarrow> 'w goroutine list) \<Rightarrow> 'w Dispatcher \<Rightarrow> Envelope \<Rightarrow> 'w \<Rightarrow> err option \<times> Envelope \<times> 'w" where
  "dispatch_outcome sched d env w =
     outcome (Dispatcher_Handle sched d last_link env \<lparr>World = w, Coll = None, Status = None\<rparr>)"

lemma outcome_Dispatcher:
  "outcome (Dispatcher_Handle sched d last_link env s) = dispatch_outcome sched d env (World s)"
proof -
  have env: "fst (snd (Dispatcher_Handle sched d last_link env s)) = env" for s :: "'a Relay"
    by (auto simp: Dispatcher_Handle_def Let_def split: option.splits prod.splits)
  show ?thesis
    using Dispatcher_cong [of s "\<lparr>World = World s, Coll = None, Status = None\<rparr>" sched d env] env
    by (simp add: dispatch_outcome_def outcome_def)
qed

definition chain_spec ::
  "('w ActionHandler list \<Rightarrow> 'w goroutine list) \<Rightarrow> 'w ChainConfig \<Rightarrow> Envelope \<Rightarrow> 'w \<Rightarrow> err option \<times> Envelope \<times> 'w" where
  "chain_spec sched cfg env w =
     (case validate (Some env) of
        Some e \<Rightarrow> (Some e, env, w)
      | None \<Rightarrow>
          if \<not> filter_keeps (cfgFilter cfg) env then (None, env, w)
          else
            (case dedStore (cfgDeduper cfg) (CloudEventID env) w of
               (Inr False, w') \<Rightarrow> (None, env, w')
             | (_, w') \<Rightarrow>
                 dispatch_outcome sched (cfgDispatcher cfg) (enrich (NewEnricher (cfgDashboardURL cfg)) env) w'))"

lemma chain_refines_spec:
  assumes "buildChain sched cfg = Some chain"
  shows "outcome (chain env s) = chain_spec sched cfg env (World s)"
proof -
  let ?url = "NewEnricher (cfgDashboardURL cfg)"
  define tail where "tail = WithMetrics ''enricher'' (Enricher_Handle ?url)
    (WithMetrics ''dispatcher'' (Dispatcher_Handle sched (cfgDispatcher cfg)) last_link)"
  have tail: "outcome (tail env' s') = dispatch_outcome sched (cfgDispatcher cfg) (enrich ?url env') (World s')"
    for env' and s' :: "'a Relay"
    unfolding tail_def by (simp add: Enricher_Handle_def outcome_Dispatcher)
  have nx: "Next (Some f) = f" for f :: "'a HandleFn" by (simp add: Next_def fun_eq_iff)
  have chain: "chain = WithMetrics ''validator'' Validator_Handle
      (WithMetrics ''filter'' (EventFilter_Handle (cfgFilter cfg))
        (WithMetrics ''deduper'' (Deduper_Handle (cfgDeduper cfg)) tail))"
    using assms by (simp add: buildChain_def nx tail_def last_link_def)
  obtain r w where st: "dedStore (cfgDeduper cfg) (CloudEventID env) (World s) = (r, w)" by fastforce
  show ?thesis
    unfolding chain
    by (auto simp: Validator_Handle_def EventFilter_Handle_def Deduper_Handle_def chain_spec_def st tail Let_def
        split: option.splits sum.splits if_splits)
qed

text \<open>The chain exists, whatever the configuration.\<close>

lemma buildChain_Some: "\<exists>chain. buildChain sched cfg = Some chain"
  by (simp add: buildChain_def)

section \<open>Properties\<close>

text \<open>
  C16 The chain that the receiver builds out of validator, filter, deduper, enricher and dispatcher,
  each with its metrics wrapper, always exists and does exactly what the specification says: an
  invalid event is rejected with the validator's error and touches nothing; a filtered event is
  dropped without error before the store sees it; a duplicate is dropped without error; any other
  event, and every event when the store fails, is enriched and dispatched.
\<close>

theorem buildChain_correct:
  "\<exists>chain. buildChain sched cfg = Some chain \<and>
     (\<forall>env s. outcome (chain env s) = chain_spec sched cfg env (World s))"
  using buildChain_Some chain_refines_spec by metis


definition demo_action :: "string \<Rightarrow> err option \<Rightarrow> nat ActionHandler" where
  "demo_action n er = \<lparr>hName = n, hProvider = ''slack'', hType = ActionNotify,
     hHandle = \<lambda>c e w. (er, Suc w), hClose = \<lambda>w. (None, w)\<rparr>"

definition demo_dispatcher :: "nat ActionHandler list \<Rightarrow> nat Dispatcher" where
  "demo_dispatcher hs = \<lparr>registry = registry_source (register_all hs NewRegistry), maxConcurrency = 4,
     handlerTimeout = 0, fallbacks = None, fallbackOnly = None\<rparr>"

definition in_order :: "'w ActionHandler list \<Rightarrow> 'w goroutine list" where
  "in_order hs = map (\<lambda>h. (h, None, 0)) hs"

definition reversed :: "'w ActionHandler list \<Rightarrow> 'w goroutine list" where
  "reversed hs = map (\<lambda>h. (h, None, 0)) (rev hs)"

definition demo_env :: Envelope where
  "demo_env = \<lparr>CloudEventID = ''42'', CloudEventType = ''dev.tekton.event.taskrun.failed.v1'', Source = '''',
     Report = zero_event\<lparr>Provider := ''github'', ResourceOf := ResourceTaskRun, RunName := ''run-1'', Namespace := ''ci''\<rparr>\<rparr>"

lemma demo_schedules:
  "errgroup_runs_each_once in_order" "never_cancelled in_order"
  "errgroup_runs_each_once reversed" "never_cancelled reversed"
  by (auto simp: errgroup_runs_each_once_def never_cancelled_def in_order_def reversed_def comp_def)


text \<open>
  A handler whose error does not depend on what other handlers did.
\<close>

definition independent :: "'w ActionHandler \<Rightarrow> bool" where
  "independent h \<longleftrightarrow> (\<forall>ctx e w w'. fst (hHandle h ctx e w) = fst (hHandle h ctx e w'))"

definition failure_of :: "Ctx \<Rightarrow> Event \<Rightarrow> 'w \<Rightarrow> 'w ActionHandler \<Rightarrow> err option" where
  "failure_of ctx e w h = wrap_failure (h, fst (hHandle h ctx e w))"

lemma run_goroutines_independent:
  assumes "\<forall>g \<in> set gs. fst (snd g) = None \<and> independent (fst g)"
  shows "errs (fst (run_goroutines d env gs (sh, s))) =
    errs sh @ List.map_filter (failure_of (handler_ctx d env) (Report env) w) (map fst gs)"
  using assms
proof (induction gs arbitrary: sh s)
  case (Cons g gs)
  obtain h now where g: "g = (h, None, now)" using Cons.prems by (cases g) auto
  obtain sh1 s1 where 1: "run_goroutine d env g (sh, s) = (sh1, s1)" by fastforce
  have ind: "fst (hHandle h (handler_ctx d env) (Report env) (World s)) =
      fst (hHandle h (handler_ctx d env) (Report env) w)"
    using Cons.prems g by (auto simp: independent_def)
  have "errs sh1 = errs sh @ List.map_filter (failure_of (handler_ctx d env) (Report env) w) [h]"
    using 1 g run_goroutine_shared [of d env h None now "(sh, s)"] ind
    by (auto simp: Let_def failure_of_def wrap_failure_def List.map_filter_def split: option.splits)
  with Cons.IH [of sh1 s1] Cons.prems 1 g show ?case by (simp add: List.map_filter_def)
qed (simp add: List.map_filter_def)

lemma mset_map_filter:
  assumes "mset xs = mset ys"
  shows "mset (List.map_filter f xs) = mset (List.map_filter f ys)"
  using assms by (simp add: List.map_filter_def mset_filter [symmetric] flip: mset_filter) (simp add: mset_filter)

lemma dispatch_independent:
  assumes "errgroup_runs_each_once sched" and "never_cancelled sched" and "fallbacks d = None"
    and "\<forall>h \<in> set (srcAll (registry d)). independent h"
  shows "\<exists>es. fst (dispatch_outcome sched d env w) = (if es = [] then None else Some (Join es)) \<and>
    mset es = mset (List.map_filter (failure_of (handler_ctx d env) (Report env) w) (matched d (Report env)))"
proof (cases "srcAll (registry d) = []")
  case True
  then show ?thesis
    by (auto simp: dispatch_outcome_def Dispatcher_Handle_def matched_def List.map_filter_def)
next
  case False
  define s0 where "s0 = count [''EventsByResourceTotal'', ResourceOf (Report env)]
    (count [''EventsByProviderTotal'', Provider (Report env)] (count [''EventsByStateTotal'', StateOf (Report env)]
      \<lparr>World = w, Coll = None, Status = None\<rparr>))"
  define gs where "gs = sched (matched d (Report env))"
  have ms: "mset (map fst gs) = mset (matched d (Report env))"
    using assms(1) by (simp add: errgroup_runs_each_once_def gs_def)
  then have "set (map fst gs) = set (matched d (Report env))" by (rule mset_eq_setD)
  then have "fst g \<in> set (srcAll (registry d))" if "g \<in> set gs" for g
    using that by (auto simp: matched_def)
  then have nc: "\<forall>g \<in> set gs. fst (snd g) = None \<and> independent (fst g)"
    using assms(2,4) by (auto simp: never_cancelled_def gs_def)
  obtain sh s1 where r: "run_goroutines d env gs (no_shared, s0) = (sh, s1)" by fastforce
  have es: "errs sh = List.map_filter (failure_of (handler_ctx d env) (Report env) w) (map fst gs)"
    using run_goroutines_independent [OF nc, of d env no_shared s0 w] r by (simp add: no_shared_def)
  have we: "waitErr sh = None"
    using run_goroutines_uncancelled [of gs d env no_shared s0] nc r by (auto simp: Let_def no_shared_def)
  have out: "fst (dispatch_outcome sched d env w) = (if errs sh = [] then None else Some (Join (errs sh)))"
    using False r we assms(3)
    by (simp add: dispatch_outcome_def Dispatcher_Handle_def Let_def s0_def [symmetric] gs_def [symmetric])
  have "mset (errs sh) = mset (List.map_filter (failure_of (handler_ctx d env) (Report env) w) (matched d (Report env)))"
    unfolding es by (rule mset_map_filter [OF ms])
  with out show ?thesis by blast
qed

text \<open>
  The answer does not depend on the schedule: for handlers whose errors do not depend on one
  another, any two orders of the goroutines give the same verdict, the event succeeding under both or
  failing under both, and being classified as retryable under both or neither.
\<close>

theorem dispatcher_schedule_independent:
  assumes "errgroup_runs_each_once sched" and "never_cancelled sched"
    and "errgroup_runs_each_once sched'" and "never_cancelled sched'"
    and "fallbacks d = None" and "\<forall>h \<in> set (srcAll (registry d)). independent h"
  shows "(fst (dispatch_outcome sched d env w) = None) = (fst (dispatch_outcome sched' d env w) = None) \<and>
    IsRetryable (fst (dispatch_outcome sched d env w)) = IsRetryable (fst (dispatch_outcome sched' d env w))"
proof -
  obtain es where 1: "fst (dispatch_outcome sched d env w) = (if es = [] then None else Some (Join es))"
      "mset es = mset (List.map_filter (failure_of (handler_ctx d env) (Report env) w) (matched d (Report env)))"
    using dispatch_independent [OF assms(1,2,5,6)] by blast
  obtain fs where 2: "fst (dispatch_outcome sched' d env w) = (if fs = [] then None else Some (Join fs))"
      "mset fs = mset (List.map_filter (failure_of (handler_ctx d env) (Report env) w) (matched d (Report env)))"
    using dispatch_independent [OF assms(3,4,5,6)] by blast
  have "mset es = mset fs" using 1 2 by simp
  then have "set es = set fs" and "es = [] \<longleftrightarrow> fs = []"
    by (auto dest: mset_eq_setD)
  with 1(1) 2(1) show ?thesis by (auto simp: list_ex_iff)
qed

theorem dispatcher_schedule_independent_witness:
  "(fst (dispatch_outcome in_order (demo_dispatcher [demo_action ''a'' (Some (Err ''x'')),
        demo_action ''b'' (Some (NewRetryable (Err ''y'') ''503''))]) demo_env 0) = None) =
   (fst (dispatch_outcome reversed (demo_dispatcher [demo_action ''a'' (Some (Err ''x'')),
        demo_action ''b'' (Some (NewRetryable (Err ''y'') ''503''))]) demo_env 0) = None) \<and>
   IsRetryable (fst (dispatch_outcome in_order (demo_dispatcher [demo_action ''a'' (Some (Err ''x'')),
        demo_action ''b'' (Some (NewRetryable (Err ''y'') ''503''))]) demo_env 0)) =
   IsRetryable (fst (dispatch_outcome reversed (demo_dispatcher [demo_action ''a'' (Some (Err ''x'')),
        demo_action ''b'' (Some (NewRetryable (Err ''y'') ''503''))]) demo_env 0))"
  by (rule dispatcher_schedule_independent [OF demo_schedules])
    (auto simp: demo_dispatcher_def registry_source_def All_def Register_def NewRegistry_def
      independent_def demo_action_def)

section \<open>Properties of the filter and the enricher\<close>

definition pattern_hits :: "string \<Rightarrow> string \<Rightarrow> bool" where
  "pattern_hits ns p = (path_match (if HasPrefix p ''!'' then drop 1 p else p) ns = Some True)"

lemma matchNamespace_loop_last:
  "matchNamespace_loop ns ps m \<longleftrightarrow>
     (case List.find (pattern_hits ns) (rev ps) of None \<Rightarrow> m | Some p \<Rightarrow> \<not> HasPrefix p ''!'')"
proof (induction ps arbitrary: m)
  case (Cons p ps)
  have app: "List.find P (xs @ ys) = (case List.find P xs of None \<Rightarrow> List.find P ys | Some x \<Rightarrow> Some x)"
    for P :: "string \<Rightarrow> bool" and xs ys by (induction xs) auto
  have hit: "path_match (if HasPrefix p ''!'' then drop 1 p else p) ns = Some True \<longleftrightarrow> pattern_hits ns p"
    by (simp add: pattern_hits_def)
  show ?case
    using Cons.IH hit
    by (cases "path_match (if HasPrefix p ''!'' then drop 1 p else p) ns")
      (auto simp: Let_def app split: option.splits bool.splits)
qed simp

text \<open>
  C37 Namespace patterns are decided by the last pattern that matches (a malformed one never does):
  the list accepts when that pattern is not negated and rejects when it is or when none matches. An
  event passes when the deny list does not accept its namespace and the allow list is empty or
  accepts it. A pattern \<^verbatim>\<open>prefix*\<close> of ordinary characters stands for the names with that prefix and
  no slash after it.
\<close>

theorem namespace_patterns_last_match:
  "(matchNamespace ns ps \<longleftrightarrow>
      (case List.find (pattern_hits ns) (rev ps) of None \<Rightarrow> False | Some p \<Rightarrow> \<not> HasPrefix p ''!'')) \<and>
   (namespaceAllowed f ns \<longleftrightarrow>
      \<not> matchNamespace ns (DenyNamespaces f) \<and> (AllowNamespaces f = [] \<or> matchNamespace ns (AllowNamespaces f))) \<and>
   (literal_pattern q \<and> \<not> HasPrefix q ''!'' \<and> q \<noteq> [] \<longrightarrow>
      (matchNamespace ns [q @ ''*''] \<longleftrightarrow> HasPrefix ns q \<and> CHR ''/'' \<notin> set (drop (length q) ns)))"
proof -
  have "matchNamespace ns [q @ ''*''] \<longleftrightarrow> HasPrefix ns q \<and> CHR ''/'' \<notin> set (drop (length q) ns)"
    if q: "literal_pattern q \<and> \<not> HasPrefix q ''!'' \<and> q \<noteq> []"
  proof -
    have "\<not> HasPrefix (q @ ''*'') ''!''" using q by (cases q) auto
    with path_match_prefix_star [of q ns] q show ?thesis
      by (simp add: matchNamespace_def split: bool.split)
  qed
  moreover have "namespaceAllowed f ns \<longleftrightarrow>
      \<not> matchNamespace ns (DenyNamespaces f) \<and> (AllowNamespaces f = [] \<or> matchNamespace ns (AllowNamespaces f))"
    by (auto simp: namespaceAllowed_def matchNamespace_def)
  ultimately show ?thesis
    by (simp add: matchNamespace_def matchNamespace_loop_last)
qed

theorem namespace_patterns_last_match_witness:
  "matchNamespace ''staging-eu'' [''staging-'' @ ''*'']"
proof -
  have "literal_pattern ''staging-''" by code_simp
  then show ?thesis
    using namespace_patterns_last_match [of "''staging-eu''" "[]"
      "\<lparr>AllowTaskRun = True, AllowPipelineRun = True, AllowCustomRun = True, AllowEventListener = True,
        IgnoreUnknown = False, AllowNamespaces = [], DenyNamespaces = []\<rparr>" "''staging-''"] by simp
qed

lemma SplitByte_append: "c \<notin> set a \<Longrightarrow> SplitByte c (a @ c # b) = a # SplitByte c b"
  by (induction a) (auto split: list.split)

lemma SplitByte_none: "c \<notin> set a \<Longrightarrow> SplitByte c a = [a]"
  by (induction a) (auto split: list.split)

definition dashboard_kind :: "Resource \<Rightarrow> string option" where
  "dashboard_kind r = (if r = ResourceTaskRun then Some ''taskruns''
     else if r = ResourcePipelineRun then Some ''pipelineruns''
     else if r = ResourceCustomRun then Some ''customruns'' else None)"

lemma dashboardLink_parts:
  assumes "dashboard_kind (ResourceOf r) = Some k"
  shows "SplitByte (CHR ''/'') (drop (length url) (dashboardLink url r)) =
    ['''', ''#'', ''namespaces'', PathEscape (Namespace r), k, PathEscape (RunName r)]"
proof -
  have k: "CHR ''/'' \<notin> set k"
    using assms by (auto simp: dashboard_kind_def split: if_splits)
  have link: "drop (length url) (dashboardLink url r) =
      ''/#/namespaces/'' @ PathEscape (Namespace r) @ CHR ''/'' # k @ CHR ''/'' # PathEscape (RunName r)"
    using assms by (auto simp: dashboardLink_def dashboard_kind_def split: if_splits)
  show ?thesis unfolding link
    using SplitByte_append [OF PathEscape_no_slash] SplitByte_append [OF k] SplitByte_none [OF PathEscape_no_slash]
    by simp
qed

text \<open>
  The dashboard link of a run can be taken apart again: whatever bytes the namespace and the run
  name contain, slashes included, the path has exactly its six segments and unescaping the fourth
  and the last gives the namespace and the name back, so different runs have different links; other
  resources get no link, and the configured base never ends in a slash.
\<close>

theorem dashboardLink_faithful:
  "(case dashboard_kind (ResourceOf r) of
      None \<Rightarrow> dashboardLink url r = ''''
    | Some k \<Rightarrow>
        (let segs = SplitByte (CHR ''/'') (drop (length url) (dashboardLink url r))
         in length segs = 6 \<and> segs ! 4 = k \<and>
            PathUnescape (segs ! 3) = Namespace r \<and> PathUnescape (segs ! 5) = RunName r)) \<and>
   \<not> HasSuffix (NewEnricher dashboard) ''/''"
proof (cases "dashboard_kind (ResourceOf r)")
  case None
  then have "dashboardLink url r = ''''"
    by (auto simp: dashboardLink_def dashboard_kind_def split: if_splits)
  with None TrimRightByte_no_suffix show ?thesis by (simp add: NewEnricher_def)
next
  case (Some k)
  with dashboardLink_parts [OF Some, of url] TrimRightByte_no_suffix show ?thesis
    by (simp add: NewEnricher_def PathUnescape_PathEscape)
qed

section \<open>Properties of deduplication and fallbacks\<close>

lemma run_goroutines_keeps:
  assumes "\<forall>g \<in> set gs. keeps_seen seen (fst g)"
  shows "seen (World s) \<subseteq> seen (World (snd (run_goroutines d env gs (sh, s))))"
  using assms
proof (induction gs arbitrary: sh s)
  case (Cons g gs)
  obtain h c now where g: "g = (h, c, now)" by (cases g)
  obtain sh1 s1 where 1: "run_goroutine d env g (sh, s) = (sh1, s1)" by fastforce
  have "World s1 = World (snd (run_goroutine d env (h, c, now) (sh, s)))" using 1 g by simp
  then have "seen (World s) \<subseteq> seen (World s1)"
    using Cons.prems g unfolding run_goroutine_World by (cases c) (simp_all add: keeps_seen_def)
  with Cons.IH [of s1 sh1] Cons.prems 1 show ?case by auto
qed simp

lemma dispatch_keeps:
  assumes "errgroup_runs_each_once sched" and "fallbacks d = None"
    and "\<forall>h \<in> set (srcAll (registry d)). keeps_seen seen h"
  shows "seen w \<subseteq> seen (snd (snd (dispatch_outcome sched d env w)))"
proof -
  define s0 where "s0 = count [''EventsByResourceTotal'', ResourceOf (Report env)]
    (count [''EventsByProviderTotal'', Provider (Report env)] (count [''EventsByStateTotal'', StateOf (Report env)]
      \<lparr>World = w, Coll = None, Status = None\<rparr>))"
  define gs where "gs = sched (matched d (Report env))"
  have "set (map fst gs) = set (matched d (Report env))"
    using assms(1) by (intro mset_eq_setD) (simp add: errgroup_runs_each_once_def gs_def)
  then have k: "\<forall>g \<in> set gs. keeps_seen seen (fst g)"
    using assms(3) by (auto simp: matched_def)
  obtain sh s1 where r: "run_goroutines d env gs (no_shared, s0) = (sh, s1)" by fastforce
  have "seen w \<subseteq> seen (World s1)"
    using run_goroutines_keeps [OF k, of s0 d env no_shared] r by (simp add: s0_def)
  with r assms(2) show ?thesis
    by (auto simp: dispatch_outcome_def Dispatcher_Handle_def Let_def s0_def [symmetric] gs_def [symmetric])
qed

lemma chain_spec_records:
  assumes "dedupe_store (dedStore (cfgDeduper cfg)) seen"
    and "errgroup_runs_each_once sched" and "fallbacks (cfgDispatcher cfg) = None"
    and "\<forall>h \<in> set (srcAll (registry (cfgDispatcher cfg))). keeps_seen seen h"
    and "validate (Some env) = None" and "filter_keeps (cfgFilter cfg) env"
    and "dedStore (cfgDeduper cfg) (CloudEventID env) w = (Inr b, w')"
  shows "CloudEventID env \<in> seen (snd (snd (chain_spec sched cfg env w)))"
proof -
  have "CloudEventID env \<in> seen w'" using dedupe_store.records [OF assms(1,7)] .
  with dispatch_keeps [OF assms(2-4), of w' "enrich (NewEnricher (cfgDashboardURL cfg)) env"] assms(5-7)
  show ?thesis by (cases b) (auto simp: chain_spec_def)
qed

lemma chain_spec_duplicate:
  assumes "validate (Some env) = None" and "filter_keeps (cfgFilter cfg) env"
    and "dedStore (cfgDeduper cfg) (CloudEventID env) w = (Inr False, w')"
  shows "chain_spec sched cfg env w = (None, env, w')"
  using assms by (simp add: chain_spec_def)

text \<open>
  C23 At most one dispatch per CloudEvent ID while the store remembers it: over any deduplication store
  and handlers that do not erase its memory, once an event that passes validation and filter went
  through the chain and the store answered, a later event with the same ID for which the store answers
  is acknowledged without error and no handler is called for it, however the first dispatch ended.
\<close>

theorem chain_dispatches_once:
  assumes "dedupe_store (dedStore (cfgDeduper cfg)) seen"
    and "errgroup_runs_each_once sched" and "fallbacks (cfgDispatcher cfg) = None"
    and "\<forall>h \<in> set (srcAll (registry (cfgDispatcher cfg))). keeps_seen seen h"
    and "buildChain sched cfg = Some chain"
    and "validate (Some env) = None" and "filter_keeps (cfgFilter cfg) env"
    and "dedStore (cfgDeduper cfg) (CloudEventID env) (World s) = (Inr b, w0)"
    and "outcome (chain env s) = (r, env1, w1)"
    and "World s1 = w1" and "CloudEventID env' = CloudEventID env"
    and "validate (Some env') = None" and "filter_keeps (cfgFilter cfg) env'"
    and "dedStore (cfgDeduper cfg) (CloudEventID env) w1 = (Inr b', w2)"
  shows "outcome (chain env' s1) = (None, env', w2)"
proof -
  have "chain_spec sched cfg env (World s) = (r, env1, w1)"
    using chain_refines_spec [OF assms(5), of env s] assms(9) by simp
  with chain_spec_records [OF assms(1-4,6-8)] have "CloudEventID env \<in> seen w1" by simp
  with dedupe_store.answer [OF assms(1,14)] have "b' = False" by simp
  with assms(10-14) chain_refines_spec [OF assms(5), of env' s1] show ?thesis
    by (simp add: chain_spec_duplicate)
qed

definition demo_filter :: EventFilter where
  "demo_filter = \<lparr>AllowTaskRun = True, AllowPipelineRun = True, AllowCustomRun = True, AllowEventListener = True,
     IgnoreUnknown = True, AllowNamespaces = [], DenyNamespaces = []\<rparr>"

text \<open>A world of a remembering store and a log of the calls made to the handlers.\<close>

definition demo_logger :: "string \<Rightarrow> err option \<Rightarrow> (string list \<times> string list) ActionHandler" where
  "demo_logger n er = \<lparr>hName = n, hProvider = ''github'', hType = ActionCommitStatus,
     hHandle = \<lambda>c e w. (er, (fst w, n # snd w)), hClose = \<lambda>w. (None, w)\<rparr>"

definition demo_chain_config :: "err option \<Rightarrow> (string list \<times> string list) ChainConfig" where
  "demo_chain_config er = \<lparr>cfgFilter = demo_filter, cfgDashboardURL = ''https://d/'',
     cfgDeduper = \<lparr>dedStore = demo_store, dedBackend = ''memory'', dedLen = None\<rparr>,
     cfgDispatcher = \<lparr>registry = \<lparr>srcAll = [demo_logger ''status'' er], srcLookup = \<lambda>n. None\<rparr>,
       maxConcurrency = 4, handlerTimeout = 0, fallbacks = None, fallbackOnly = None\<rparr>\<rparr>"

lemma demo_env_ok: "validate (Some demo_env) = None" "filter_keeps demo_filter demo_env" "CloudEventID demo_env = ''42''"
  by (simp_all add: validate_def demo_env_def Let_def filter_keeps_def demo_filter_def namespaceAllowed_def HasSuffix_def)

lemma demo_dispatch:
  assumes "Provider (Report env) = ''github''"
  shows "dispatch_outcome in_order (cfgDispatcher (demo_chain_config er)) env w =
    (case er of None \<Rightarrow> None | Some e \<Rightarrow> Some (Join [Wrap ''github/status/commit_status: '' e]), env, (fst w, ''status'' # snd w))"
  using assms
  by (cases er) (simp_all add: demo_chain_config_def dispatch_outcome_def Dispatcher_Handle_def in_order_def matched_def
      matches_def isFallbackOnly_def demo_logger_def run_goroutine_def Let_def Observe_def no_shared_def handlerKey_def)

lemma demo_chain_spec:
  "chain_spec in_order (demo_chain_config er) demo_env w =
    (if ''42'' \<in> set (fst w) then (None, demo_env, (''42'' # fst w, snd w))
     else (case er of None \<Rightarrow> None | Some e \<Rightarrow> Some (Join [Wrap ''github/status/commit_status: '' e]),
       enrich ''https://d'' demo_env, (''42'' # fst w, ''status'' # snd w)))"
proof -
  have p: "Provider (Report (enrich u demo_env)) = ''github''" for u
    by (simp add: enrich_def demo_env_def)
  have cfg: "cfgFilter (demo_chain_config er) = demo_filter" "dedStore (cfgDeduper (demo_chain_config er)) = demo_store"
      "NewEnricher (cfgDashboardURL (demo_chain_config er)) = ''https://d''"
    by (simp_all add: demo_chain_config_def NewEnricher_def TrimRightByte_def)
  show ?thesis
    unfolding chain_spec_def cfg demo_env_ok
    by (simp add: demo_env_ok demo_store_def demo_dispatch [OF p])
qed

theorem chain_dispatches_once_witness:
  "\<exists>chain. buildChain in_order (demo_chain_config (Some (NewRetryable (Err ''503'') ''''))) = Some chain \<and>
     outcome (chain demo_env \<lparr>World = ([''42''], [''status'']), Coll = None, Status = None\<rparr>)
       = (None, demo_env, ([''42'', ''42''], [''status'']))"
proof -
  let ?cfg = "demo_chain_config (Some (NewRetryable (Err ''503'') ''''))"
  let ?s = "\<lparr>World = ([], []), Coll = None, Status = None\<rparr> :: (string list \<times> string list) Relay"
  obtain chain where c: "buildChain in_order ?cfg = Some chain" using buildChain_Some by blast
  have keeps: "\<forall>h \<in> set (srcAll (registry (cfgDispatcher ?cfg))). keeps_seen (\<lambda>w. set (fst w)) h"
    by (simp add: demo_chain_config_def keeps_seen_def demo_logger_def)
  have o1: "outcome (chain demo_env ?s) = (Some (Join [Wrap ''github/status/commit_status: '' (NewRetryable (Err ''503'') '''')]),
      enrich ''https://d'' demo_env, ([''42''], [''status'']))"
    unfolding chain_refines_spec [OF c] demo_chain_spec by simp
  have "outcome (chain demo_env \<lparr>World = ([''42''], [''status'']), Coll = None, Status = None\<rparr>)
      = (None, demo_env, ([''42'', ''42''], [''status'']))"
    by (rule chain_dispatches_once [where cfg = ?cfg and sched = in_order and s = ?s and b' = False, OF _ demo_schedules(1) _ keeps c
          _ _ _ o1])
      (simp_all add: demo_chain_config_def demo_env_ok demo_store_def demo.dedupe_store_axioms)
  with c show ?thesis by blast
qed

section \<open>The collectors\<close>

text \<open>No link of the chain sets or removes the collectors.\<close>

lemma Coll_count [simp]: "Coll (count l s) = None \<longleftrightarrow> Coll s = None"
  by (simp add: count_def IncIf_def split: option.split)

lemma Coll_run_goroutines: "Coll (snd (run_goroutines d env gs st)) = None \<longleftrightarrow> Coll (snd st) = None"
proof (induction gs arbitrary: st)
  case (Cons g gs)
  have "Coll (snd (run_goroutine d env g st)) = None \<longleftrightarrow> Coll (snd st) = None"
    by (simp add: run_goroutine_def Let_def split: prod.split option.split)
  with Cons show ?case by simp
qed simp

lemma Coll_executeFallbacks: "Coll (snd (executeFallbacks d env rs s)) = None \<longleftrightarrow> Coll s = None"
proof (induction rs arbitrary: s)
  case (Cons r rs)
  show ?case
  proof (cases "fallback_for d r")
    case (Some x)
    obtain n e fb where x: "x = (n, e, fb)" by (cases x) auto
    obtain er w where h: "hHandle fb (handler_ctx d env) (Report env) (World s) = (er, w)" by fastforce
    show ?thesis using Some x h Cons [of "s\<lparr>World := w\<rparr>"] by (simp add: Let_def split_beta)
  qed (simp add: Cons)
qed simp

definition keeps_coll :: "'w HandleFn \<Rightarrow> bool" where
  "keeps_coll f \<longleftrightarrow> (\<forall>env s. Coll (snd (snd (f env s))) = None \<longleftrightarrow> Coll s = None)"

lemma keeps_coll_links:
  assumes "keeps_coll next"
  shows "keeps_coll (Validator_Handle next)" "keeps_coll (EventFilter_Handle f next)" "keeps_coll (Deduper_Handle dd next)"
    "keeps_coll (Enricher_Handle url next)" "keeps_coll (Dispatcher_Handle sched d next)"
proof -
  show "keeps_coll (Dispatcher_Handle sched d next)"
    unfolding keeps_coll_def
  proof (intro allI)
    fix env :: Envelope and s :: "'a Relay"
    define s0 where "s0 = count [''EventsByResourceTotal'', ResourceOf (Report env)]
        (count [''EventsByProviderTotal'', Provider (Report env)] (count [''EventsByStateTotal'', StateOf (Report env)] s))"
    obtain sh s1 where g: "run_goroutines d env (sched (matched d (Report env))) (no_shared, s0) = (sh, s1)" by fastforce
    have 1: "Coll s1 = None \<longleftrightarrow> Coll s = None"
      using Coll_run_goroutines [of d env "sched (matched d (Report env))" "(no_shared, s0)"] g by (simp add: s0_def)
    obtain fe s2 where fb: "(case fallbacks d of None \<Rightarrow> ([], s1) | Some _ \<Rightarrow> executeFallbacks d env (results sh) s1) = (fe, s2)"
      by fastforce
    have 2: "Coll s2 = None \<longleftrightarrow> Coll s1 = None"
      using fb Coll_executeFallbacks [of d env "results sh" s1] by (auto split: option.splits)
    show "Coll (snd (snd (Dispatcher_Handle sched d next env s))) = None \<longleftrightarrow> Coll s = None"
      using 1 2 assms by (simp add: Dispatcher_Handle_def Let_def s0_def [symmetric] g fb keeps_coll_def)
  qed
qed (use assms in \<open>auto simp: keeps_coll_def Validator_Handle_def EventFilter_Handle_def Deduper_Handle_def
    Enricher_Handle_def Let_def split: option.split prod.split sum.split\<close>)

lemma keeps_coll_WithMetrics:
  assumes "\<And>n. keeps_coll n \<Longrightarrow> keeps_coll (l n)" and "keeps_coll next"
  shows "keeps_coll (WithMetrics step l next)"
  using assms(1) [OF assms(2)] by (simp add: keeps_coll_def WithMetrics_def split_beta Let_def)

lemma keeps_coll_Next: "(\<forall>h. n = Some h \<longrightarrow> keeps_coll h) \<Longrightarrow> keeps_coll (Next n)"
  by (cases n) (simp_all add: keeps_coll_def Next_def)

lemma chain_keeps_coll: "buildChain sched cfg = Some chain \<Longrightarrow> keeps_coll chain"
  unfolding buildChain_def
  by (auto intro!: keeps_coll_WithMetrics keeps_coll_links keeps_coll_Next)

end
