(* ===== verification/Go_Time.thy ===== *)
theory Go_Time
  imports Go_Std "HOL-Library.Monad_Syntax"
begin

text \<open>
  Instants and their RFC 3339 text, as package \<^verbatim>\<open>time\<close> marshals them in JSON. An instant is the number
  of nanoseconds since 1 January of year 1, UTC; the location of a \<^verbatim>\<open>time.Time\<close> is not represented, so
  every instant is written in UTC. Parsing accepts any offset.
\<close>

section \<open>The calendar\<close>

definition leap :: "nat \<Rightarrow> bool" where
  "leap y = (y mod 4 = 0 \<and> (y mod 100 \<noteq> 0 \<or> y mod 400 = 0))"

definition year_len :: "nat \<Rightarrow> nat" where "year_len y = (if leap y then 366 else 365)"

definition month_lens :: "nat \<Rightarrow> nat list" where
  "month_lens y = [31, if leap y then 29 else 28, 31, 30, 31, 30, 31, 31, 30, 31, 30, 31]"

text \<open>Days before the first of January of year \<open>y\<close>, counted from year 1.\<close>

fun days_before_year :: "nat \<Rightarrow> nat" where
  "days_before_year 0 = 0"
| "days_before_year (Suc 0) = 0"
| "days_before_year (Suc (Suc y)) = days_before_year (Suc y) + year_len (Suc y)"

function find_year :: "nat \<Rightarrow> nat \<Rightarrow> nat \<times> nat" where
  "find_year y d = (if d < year_len y then (y, d) else find_year (Suc y) (d - year_len y))"
  by pat_completeness auto
termination
  by (relation "measure (\<lambda>(y, d). d)") (auto simp: year_len_def)

declare find_year.simps [simp del]

fun find_month :: "nat list \<Rightarrow> nat \<Rightarrow> nat \<times> nat" where
  "find_month [] d = (1, d)"
| "find_month (l # ls) d =
     (if d < l then (1, d) else (case find_month ls (d - l) of (m, r) \<Rightarrow> (Suc m, r)))"

definition date_of_days :: "nat \<Rightarrow> nat \<times> nat \<times> nat" where
  "date_of_days n = (case find_year 1 n of (y, d) \<Rightarrow> case find_month (month_lens y) d of (m, r) \<Rightarrow> (y, m, Suc r))"

definition days_of_date :: "nat \<Rightarrow> nat \<Rightarrow> nat \<Rightarrow> nat" where
  "days_of_date y m d = days_before_year y + sum_list (take (m - 1) (month_lens y)) + (d - 1)"

lemma days_before_year_Suc: "1 \<le> y \<Longrightarrow> days_before_year (Suc y) = days_before_year y + year_len y"
  by (cases y) auto

lemma days_before_year_mono: "y \<le> z \<Longrightarrow> days_before_year y \<le> days_before_year z"
proof (induction rule: dec_induct)
  case (step n)
  then show ?case by (cases n) auto
qed simp

lemma find_year_spec:
  "find_year y d = (z, r) \<Longrightarrow> 1 \<le> y \<Longrightarrow>
     1 \<le> z \<and> r < year_len z \<and> days_before_year y + d = days_before_year z + r"
proof (induction y d rule: find_year.induct)
  case (1 y d)
  show ?case
  proof (cases "d < year_len y")
    case True
    with 1 show ?thesis by (simp add: find_year.simps [of y d])
  next
    case False
    with 1 have "find_year (Suc y) (d - year_len y) = (z, r)" by (simp add: find_year.simps [of y d])
    with 1 False show ?thesis using days_before_year_Suc [of y] by simp
  qed
qed

lemma find_month_spec:
  "find_month ls d = (m, r) \<Longrightarrow> d < sum_list ls \<Longrightarrow>
     1 \<le> m \<and> m \<le> length ls \<and> r < ls ! (m - 1) \<and> d = sum_list (take (m - 1) ls) + r"
proof (induction ls arbitrary: d m)
  case (Cons l ls)
  show ?case
  proof (cases "d < l")
    case True
    with Cons.prems show ?thesis by auto
  next
    case False
    obtain m' where m': "find_month ls (d - l) = (m', r)" "m = Suc m'"
      using Cons.prems False by (auto split: prod.splits)
    have "1 \<le> m' \<and> m' \<le> length ls \<and> r < ls ! (m' - 1) \<and> d - l = sum_list (take (m' - 1) ls) + r"
      using Cons.IH [OF m'(1)] Cons.prems(2) False by simp
    with m' False show ?thesis by (cases m') auto
  qed
qed simp

lemma sum_month_lens: "sum_list (month_lens y) = year_len y"
  by (simp add: month_lens_def year_len_def)

lemma length_month_lens [simp]: "length (month_lens y) = 12"
  by (simp add: month_lens_def)

lemma date_of_days_spec:
  assumes "date_of_days n = (y, m, d)"
  shows "days_of_date y m d = n \<and> 1 \<le> y \<and> 1 \<le> m \<and> m \<le> 12 \<and> 1 \<le> d \<and> d \<le> month_lens y ! (m - 1)"
proof -
  obtain r where fy: "find_year 1 n = (y, r)" and fm: "find_month (month_lens y) r = (m, d - 1)" and d: "1 \<le> d"
    using assms by (auto simp: date_of_days_def split: prod.splits)
  note Y = find_year_spec [OF fy]
  have "r < sum_list (month_lens y)" using Y by (simp add: sum_month_lens)
  note M = find_month_spec [OF fm this]
  obtain k where "d = Suc k" using d by (cases d) auto
  with Y M show ?thesis by (simp add: days_of_date_def)
qed

section \<open>Fixed-width digits\<close>

fun digits_n :: "nat \<Rightarrow> nat \<Rightarrow> string" where
  "digits_n 0 n = []"
| "digits_n (Suc k) n = digits_n k (n div 10) @ [char_of (48 + n mod 10)]"

definition take_digits :: "nat \<Rightarrow> string \<Rightarrow> (nat \<times> string) option" where
  "take_digits k s =
     (if k \<le> length s \<and> list_all is_digit (take k s) then Some (digits_val 0 (take k s), drop k s) else None)"

lemma byte_digit [simp]: "(n :: nat) < 10 \<Longrightarrow> byte (char_of (48 + n)) = 48 + n"
  by simp

lemma is_digit_char: "(n :: nat) < 10 \<Longrightarrow> is_digit (char_of (48 + n))"
  by (simp add: is_digit_def)

lemma length_digits_n [simp]: "length (digits_n k n) = k"
  by (induction k arbitrary: n) auto

lemma digits_n_digits: "list_all is_digit (digits_n k n)"
  by (induction k arbitrary: n) (auto simp: is_digit_char)

lemma digits_val_digits_n: "digits_val 0 (digits_n k n) = n mod 10 ^ k"
proof (induction k arbitrary: n)
  case (Suc k)
  have "digits_val 0 (digits_n (Suc k) n) = (n div 10) mod 10 ^ k * 10 + n mod 10"
    using Suc.IH [of "n div 10"] by (simp add: digits_val_append)
  also have "\<dots> = n mod 10 ^ Suc k"
    by (simp add: mod_mult2_eq)
  finally show ?case .
qed simp

lemma take_digits_n: "n < 10 ^ k \<Longrightarrow> take_digits k (digits_n k n @ s) = Some (n, s)"
  by (simp add: take_digits_def digits_n_digits digits_val_digits_n)

section \<open>RFC 3339\<close>

definition strip_zeros :: "string \<Rightarrow> string" where
  "strip_zeros s = rev (dropWhile (\<lambda>c. c = CHR ''0'') (rev s))"

definition fraction :: "nat \<Rightarrow> string" where
  "fraction ns = (if ns = 0 then [] else CHR ''.'' # strip_zeros (digits_n 9 ns))"

definition nsPerSec :: int where "nsPerSec = 1000000000"

text \<open>\<^verbatim>\<open>Time.MarshalJSON\<close> without the quotes: the format \<^verbatim>\<open>RFC3339Nano\<close>, for years up to 9999.\<close>

definition format_rfc3339 :: "int \<Rightarrow> string option" where
  "format_rfc3339 t =
     (if t < 0 then None
      else
        (let secs = nat (t div nsPerSec);
             ns = nat (t mod nsPerSec);
             (y, m, d) = date_of_days (secs div 86400);
             sod = secs mod 86400
         in if y > 9999 then None
            else Some (digits_n 4 y @ ''-'' @ digits_n 2 m @ ''-'' @ digits_n 2 d @ ''T'' @
                  digits_n 2 (sod div 3600) @ '':'' @ digits_n 2 (sod div 60 mod 60) @ '':'' @ digits_n 2 (sod mod 60) @
                  fraction ns @ ''Z'')))"

definition expect :: "char \<Rightarrow> string \<Rightarrow> string option" where
  "expect c s = (case s of [] \<Rightarrow> None | x # xs \<Rightarrow> if x = c then Some xs else None)"

lemma expect_Cons [simp]: "expect c (c # s) = Some s"
  by (simp add: expect_def)

text \<open>A fraction: a dot and at least one digit; digits beyond the ninth are ignored.\<close>

definition parse_fraction :: "string \<Rightarrow> nat \<times> string" where
  "parse_fraction s =
     (if HasPrefix s ''.'' then
        (let ds = takeWhile is_digit (tl s)
         in if ds = [] then (0, s)
            else (digits_val 0 (take 9 (ds @ replicate 9 (CHR ''0''))), dropWhile is_digit (tl s)))
      else (0, s))"

text \<open>The offset in seconds east of UTC.\<close>

definition parse_offset :: "string \<Rightarrow> int option" where
  "parse_offset s =
     (if s = ''Z'' then Some 0
      else if HasPrefix s ''+'' \<or> HasPrefix s ''-'' then
        do {
          (hh, r1) \<leftarrow> take_digits 2 (tl s);
          r2 \<leftarrow> expect (CHR '':'') r1;
          (mm, r3) \<leftarrow> take_digits 2 r2;
          if r3 \<noteq> [] \<or> 24 \<le> hh \<or> 60 \<le> mm then None
          else Some ((if HasPrefix s ''-'' then - 1 else 1) * int (hh * 3600 + mm * 60))
        }
      else None)"

definition parse_fields :: "string \<Rightarrow> ((nat \<times> nat \<times> nat) \<times> (nat \<times> nat \<times> nat) \<times> string) option" where
  "parse_fields s =
     do {
       (y, s1) \<leftarrow> take_digits 4 s;
       s2 \<leftarrow> expect (CHR ''-'') s1;
       (m, s3) \<leftarrow> take_digits 2 s2;
       s4 \<leftarrow> expect (CHR ''-'') s3;
       (d, s5) \<leftarrow> take_digits 2 s4;
       s6 \<leftarrow> expect (CHR ''T'') s5;
       (hh, s7) \<leftarrow> take_digits 2 s6;
       s8 \<leftarrow> expect (CHR '':'') s7;
       (mi, s9) \<leftarrow> take_digits 2 s8;
       s10 \<leftarrow> expect (CHR '':'') s9;
       (ss, s11) \<leftarrow> take_digits 2 s10;
       Some ((y, m, d), (hh, mi, ss), s11)
     }"

text \<open>Years before 1 have no place in the model and are refused.\<close>

definition parse_rfc3339 :: "string \<Rightarrow> int option" where
  "parse_rfc3339 s =
     do {
       ((y, m, d), (hh, mi, ss), rest) \<leftarrow> parse_fields s;
       if y < 1 \<or> m < 1 \<or> 12 < m \<or> d < 1 \<or> month_lens y ! (m - 1) < d \<or> 24 \<le> hh \<or> 60 \<le> mi \<or> 60 \<le> ss then None
       else
         (let (ns, rest') = parse_fraction rest in
          do {
            off \<leftarrow> parse_offset rest';
            Some ((int (days_of_date y m d * 86400 + hh * 3600 + mi * 60 + ss) - off) * nsPerSec + int ns)
          })
     }"

section \<open>Round trip\<close>

lemma strip_zeros_pad:
  assumes "length s = n"
  shows "take n (strip_zeros s @ replicate n (CHR ''0'')) = s" and "length (strip_zeros s) \<le> n"
proof -
  obtain k where k: "s = strip_zeros s @ replicate k (CHR ''0'')"
  proof -
    let ?tw = "takeWhile (\<lambda>c. c = CHR ''0'') (rev s)"
    have "rev s = ?tw @ rev (strip_zeros s)" by (simp add: strip_zeros_def)
    then have "s = strip_zeros s @ rev ?tw" by (metis rev_append rev_rev_ident)
    moreover have "\<forall>c \<in> set (rev ?tw). c = CHR ''0''" by (auto dest: set_takeWhileD)
    then have "rev ?tw = replicate (length ?tw) (CHR ''0'')"
      by (intro replicate_eqI) auto
    ultimately show ?thesis using that by metis
  qed
  then have len: "length (strip_zeros s) + k = n" using assms by (metis length_append length_replicate)
  then show "length (strip_zeros s) \<le> n" by simp
  have "take n (strip_zeros s @ replicate n (CHR ''0'')) = strip_zeros s @ replicate k (CHR ''0'')"
    using len by (auto simp: min_def)
  with k show "take n (strip_zeros s @ replicate n (CHR ''0'')) = s" by simp
qed

lemma strip_zeros_digits: "list_all is_digit s \<Longrightarrow> list_all is_digit (strip_zeros s)"
  by (auto simp: strip_zeros_def list_all_iff dest: set_dropWhileD)

lemma strip_zeros_empty: "strip_zeros s = [] \<Longrightarrow> s = replicate (length s) (CHR ''0'')"
  using strip_zeros_pad(1) [of s "length s"] by simp

lemma digits_val_zeros: "digits_val 0 (replicate k (CHR ''0'')) = 0"
  by (induction k) auto

lemma takeWhile_digits:
  assumes "list_all is_digit ds" and "rest = [] \<or> \<not> is_digit (hd rest)"
  shows "takeWhile is_digit (ds @ rest) = ds" and "dropWhile is_digit (ds @ rest) = rest"
  using assms by (auto simp: list_all_iff takeWhile_append dropWhile_append takeWhile_eq_all_conv [THEN iffD2]
      dropWhile_eq_Nil_conv [THEN iffD2] split: if_splits) (cases rest; auto)+

lemma parse_fraction_roundtrip:
  assumes "ns < 1000000000"
  shows "parse_fraction (fraction ns @ ''Z'') = (ns, ''Z'')"
proof (cases "ns = 0")
  case True
  then show ?thesis by (simp add: fraction_def parse_fraction_def)
next
  case False
  let ?d = "digits_n 9 ns"
  have v: "digits_val 0 ?d = ns" using assms by (simp add: digits_val_digits_n)
  have dg: "list_all is_digit (strip_zeros ?d)" by (rule strip_zeros_digits [OF digits_n_digits])
  have z: "\<not> is_digit (CHR ''Z'')" by (simp add: is_digit_def)
  have ne: "strip_zeros ?d \<noteq> []"
  proof
    assume "strip_zeros ?d = []"
    from strip_zeros_empty [OF this] have "digits_val 0 ?d = 0" by (metis digits_val_zeros)
    with v False show False by simp
  qed
  have tw: "takeWhile is_digit (strip_zeros ?d @ ''Z'') = strip_zeros ?d" "dropWhile is_digit (strip_zeros ?d @ ''Z'') = ''Z''"
    using takeWhile_digits [OF dg, of "''Z''"] z by simp_all
  have "take 9 (strip_zeros ?d @ replicate 9 (CHR ''0'')) = ?d"
    by (rule strip_zeros_pad(1)) simp
  with tw ne v False show ?thesis
    by (simp add: fraction_def parse_fraction_def Let_def)
qed

lemma parse_fields_roundtrip:
  assumes "y < 10000" "m < 100" "d < 100" "hh < 100" "mi < 100" "ss < 100"
  shows "parse_fields (digits_n 4 y @ ''-'' @ digits_n 2 m @ ''-'' @ digits_n 2 d @ ''T'' @
    digits_n 2 hh @ '':'' @ digits_n 2 mi @ '':'' @ digits_n 2 ss @ rest) = Some ((y, m, d), (hh, mi, ss), rest)"
  using assms by (simp add: parse_fields_def take_digits_n del: digits_n.simps)

lemma month_len_le: "m < 12 \<Longrightarrow> month_lens y ! m \<le> 31"
  by (auto simp: month_lens_def nth_Cons split: nat.splits)

text \<open>An instant that can be written can be read back.\<close>

lemma parse_format_rfc3339:
  assumes "format_rfc3339 t = Some s"
  shows "parse_rfc3339 s = Some t"
proof -
  have t0: "0 \<le> t" using assms by (auto simp: format_rfc3339_def split: if_splits)
  define secs where "secs = nat (t div nsPerSec)"
  define ns where "ns = nat (t mod nsPerSec)"
  define sod where "sod = secs mod 86400"
  obtain y m d where dt: "date_of_days (secs div 86400) = (y, m, d)" by (cases "date_of_days (secs div 86400)")
  have y: "y \<le> 9999" and s: "s = digits_n 4 y @ ''-'' @ digits_n 2 m @ ''-'' @ digits_n 2 d @ ''T'' @
      digits_n 2 (sod div 3600) @ '':'' @ digits_n 2 (sod div 60 mod 60) @ '':'' @ digits_n 2 (sod mod 60) @
      fraction ns @ ''Z''"
    using assms dt by (auto simp: format_rfc3339_def Let_def secs_def [symmetric] ns_def [symmetric] sod_def [symmetric]
        simp del: digits_n.simps split: if_splits)
  note D = date_of_days_spec [OF dt]
  have "month_lens y ! (m - 1) \<le> 31" using D by (intro month_len_le) auto
  then have md: "d \<le> 31" using D by linarith
  have sod: "sod < 86400" by (simp add: sod_def)
  then have h: "sod div 3600 < 24" by (simp add: div_less_iff_less_mult)
  have ns: "ns < 1000000000" by (simp add: ns_def nsPerSec_def nat_less_iff)
  have f: "parse_fields s = Some ((y, m, d), (sod div 3600, sod div 60 mod 60, sod mod 60), fraction ns @ ''Z'')"
    unfolding s using y D md h by (intro parse_fields_roundtrip) auto
  have hms: "sod div 3600 * 3600 + sod div 60 mod 60 * 60 + sod mod 60 = sod"
  proof -
    have "sod div 3600 = sod div 60 div 60" using div_mult2_eq [of sod 60 60] by simp
    then have "sod div 3600 * 60 + sod div 60 mod 60 = sod div 60" using div_mult_mod_eq [of "sod div 60" 60] by simp
    moreover have "sod div 60 * 60 + sod mod 60 = sod" by simp
    ultimately show ?thesis by linarith
  qed
  have total: "days_of_date y m d * 86400 + sod div 3600 * 3600 + sod div 60 mod 60 * 60 + sod mod 60 = secs"
  proof -
    have "secs div 86400 * 86400 + sod = secs" by (simp add: sod_def)
    with D hms show ?thesis by linarith
  qed
  have "int secs * nsPerSec + int ns = t"
    using t0 by (simp add: secs_def ns_def nsPerSec_def pos_imp_zdiv_nonneg_iff)
  with f D h y total parse_fraction_roundtrip [OF ns] show ?thesis
    by (simp add: parse_rfc3339_def parse_offset_def not_le)
qed

section \<open>64-bit integers\<close>

definition wrap64 :: "int \<Rightarrow> int" where
  "wrap64 x = (x + 2 ^ 63) mod 2 ^ 64 - 2 ^ 63"

lemma wrap64_id: "- (2 ^ 63) \<le> x \<Longrightarrow> x < 2 ^ 63 \<Longrightarrow> wrap64 x = x"
  by (simp add: wrap64_def)

abbreviation minDuration :: int where "minDuration \<equiv> - (2 ^ 63)"
abbreviation maxDuration :: int where "maxDuration \<equiv> 2 ^ 63 - 1"

text \<open>\<^verbatim>\<open>t.Sub(u)\<close> saturates.\<close>

definition time_Sub :: "int \<Rightarrow> int \<Rightarrow> int" where
  "time_Sub t u = (if t - u < minDuration then minDuration else if t - u > maxDuration then maxDuration else t - u)"

text \<open>\<^verbatim>\<open>time.Unix(secs, 0)\<close>: the seconds are counted from year 1 in a 64-bit integer, which may wrap.\<close>

definition unixToInternal :: int where "unixToInternal = 62135596800"

definition time_Unix :: "int \<Rightarrow> int" where
  "time_Unix secs = wrap64 (secs + unixToInternal) * 10 ^ 9"

text \<open>
  \<^verbatim>\<open>Duration.String\<close> of a duration truncated to whole seconds.
\<close>

definition truncate_seconds :: "int \<Rightarrow> int" where
  "truncate_seconds d = (if d < 0 then - (- d div nsPerSec * nsPerSec) else d div nsPerSec * nsPerSec)"

definition duration_string :: "int \<Rightarrow> string" where
  "duration_string d =
     (let secs = nat (abs d) div nat nsPerSec;
          s = nat_digits (secs mod 60) @ ''s'';
          m = secs div 60;
          t = (if m = 0 then s else nat_digits (m mod 60) @ ''m'' @ s);
          h = m div 60;
          u = (if h = 0 then t else nat_digits h @ ''h'' @ t)
      in if d = 0 then ''0s'' else if d < 0 then ''-'' @ u else u)"

end
