(* ===== verification/Go_Json.thy ===== *)
theory Go_Json
  imports Go_Time
begin

text \<open>
  Package \<^verbatim>\<open>encoding/json\<close> as the relay uses it: the text of a JSON document, written compactly by
  \<^verbatim>\<open>Marshal\<close> with Go's escaping rules and read by \<^verbatim>\<open>Unmarshal\<close>. Ill-formed UTF-8 is replaced by
  U+FFFD in both directions; a number is kept as its literal. The limit of 10000 on the nesting depth
  is not represented.
\<close>

datatype json = JNull | JBool bool | JNum string | JStr string | JArr "json list" | JObj "(string \<times> json) list"

section \<open>Writing strings\<close>

definition hexd :: "nat \<Rightarrow> char" where
  "hexd n = (if n < 10 then char_of (48 + n) else char_of (87 + n))"

text \<open>The escape of an ASCII character, with HTML escaping on.\<close>

definition escape_ascii :: "char \<Rightarrow> string" where
  "escape_ascii c =
     (if c = CHR 0x22 \<or> c = CHR 0x5C then [CHR 0x5C, c]
      else if c = CHR 0x08 then [CHR 0x5C, CHR ''b'']
      else if c = CHR 0x0C then [CHR 0x5C, CHR ''f'']
      else if c = CHR 0x0A then [CHR 0x5C, CHR ''n'']
      else if c = CHR 0x0D then [CHR 0x5C, CHR ''r'']
      else if c = CHR 0x09 then [CHR 0x5C, CHR ''t'']
      else if byte c < (32::nat) \<or> c = CHR ''<'' \<or> c = CHR ''>'' \<or> c = CHR ''&''
        then [CHR 0x5C, CHR ''u'', CHR ''0'', CHR ''0'', hexd (byte c div 16), hexd (byte c mod 16)]
      else [c])"

function quote_body :: "string \<Rightarrow> string" where
  "quote_body [] = []"
| "quote_body (c # s) =
     (if byte c < (128::nat) then escape_ascii c @ quote_body s
      else
        (let (r, n) = decode_rune (c # s)
         in (if r = RuneError \<and> n = 1 then [CHR 0x5C] @ ''ufffd''
             else if r = 8232 \<or> r = 8233 then [CHR 0x5C] @ ''u202'' @ [hexd (r mod 16)]
             else take n (c # s)) @ quote_body (drop (max 1 n) (c # s))))"
  by pat_completeness auto
termination
  by (relation "measure length") (auto simp: max_def)

declare quote_body.simps(2) [simp del]

definition quote :: "string \<Rightarrow> string" where
  "quote s = [CHR 0x22] @ quote_body s @ [CHR 0x22]"

section \<open>Reading strings\<close>

definition hex4 :: "string \<Rightarrow> nat option" where
  "hex4 s =
     (let h = (\<lambda>c. if 48 \<le> byte c \<and> byte c \<le> (57::nat) then Some (byte c - 48)
                   else if 97 \<le> byte c \<and> byte c \<le> (102::nat) then Some (byte c - 87)
                   else if 65 \<le> byte c \<and> byte c \<le> (70::nat) then Some (byte c - 55) else None)
      in if length s < 4 then None
         else do {
           a \<leftarrow> h (s ! 0); b \<leftarrow> h (s ! 1); c \<leftarrow> h (s ! 2); d \<leftarrow> h (s ! 3);
           Some (a * 4096 + b * 256 + c * 16 + d)
         })"

definition high_surrogate :: "nat \<Rightarrow> bool" where "high_surrogate r = (55296 \<le> r \<and> r < 56320)"
definition low_surrogate :: "nat \<Rightarrow> bool" where "low_surrogate r = (56320 \<le> r \<and> r < 57344)"

text \<open>
  The escape after a backslash: the bytes it stands for and the number of characters it takes. A
  surrogate pair written as two escapes is one rune; a lone surrogate is U+FFFD.
\<close>

definition unescape :: "string \<Rightarrow> (string \<times> nat) option" where
  "unescape s =
     (if s = [] then None
      else if hd s = CHR 0x22 \<or> hd s = CHR 0x5C \<or> hd s = CHR ''/'' then Some ([hd s], 1)
      else if hd s = CHR ''b'' then Some ([CHR 0x08], 1)
      else if hd s = CHR ''f'' then Some ([CHR 0x0C], 1)
      else if hd s = CHR ''n'' then Some ([CHR 0x0A], 1)
      else if hd s = CHR ''r'' then Some ([CHR 0x0D], 1)
      else if hd s = CHR ''t'' then Some ([CHR 0x09], 1)
      else if hd s = CHR ''u'' then
        (case hex4 (tl s) of
           None \<Rightarrow> None
         | Some r \<Rightarrow>
             if high_surrogate r \<and> HasPrefix (drop 5 s) [CHR 0x5C, CHR ''u''] then
               (case hex4 (drop 7 s) of
                  Some r2 \<Rightarrow>
                    if low_surrogate r2 then Some (encode_rune (65536 + (r - 55296) * 1024 + (r2 - 56320)), 11)
                    else Some (encode_rune RuneError, 5)
                | None \<Rightarrow> Some (encode_rune RuneError, 5))
             else Some (encode_rune r, 5))
      else None)"

lemma unescape_width: "unescape s = Some (x, n) \<Longrightarrow> 1 \<le> n"
  by (auto simp: unescape_def split: if_splits option.splits)

text \<open>Reading from behind the opening quote: the string and what follows the closing quote.\<close>

function unquote :: "string \<Rightarrow> (string \<times> string) option" where
  "unquote [] = None"
| "unquote (c # s) =
     (if c = CHR 0x22 then Some ([], s)
      else if c = CHR 0x5C then
        (case unescape s of
           None \<Rightarrow> None
         | Some (x, n) \<Rightarrow> map_option (\<lambda>(y, r). (x @ y, r)) (unquote (drop n s)))
      else if byte c < (32::nat) then None
      else if byte c < (128::nat) then map_option (\<lambda>(y, r). (c # y, r)) (unquote s)
      else
        (let (r, n) = decode_rune (c # s)
         in map_option (\<lambda>(y, rest). (encode_rune r @ y, rest)) (unquote (drop (max 1 n) (c # s)))))"
  by pat_completeness auto
termination
  by (relation "measure length") (auto simp: max_def)

declare unquote.simps(2) [simp del]

section \<open>Strings round trip\<close>

lemma hex4_ascii:
  assumes "n < (256::nat)"
  shows "hex4 (CHR ''0'' # CHR ''0'' # hexd (n div 16) # hexd (n mod 16) # s) = Some n"
proof -
  have d: "n div 16 < 16" "n mod 16 < 16" using assms by (auto intro: less_mult_imp_div_less)
  have h: "(if 48 \<le> byte (hexd k) \<and> byte (hexd k) \<le> (57::nat) then Some (byte (hexd k) - 48)
      else if 97 \<le> byte (hexd k) \<and> byte (hexd k) \<le> (102::nat) then Some (byte (hexd k) - 87)
      else if 65 \<le> byte (hexd k) \<and> byte (hexd k) \<le> (70::nat) then Some (byte (hexd k) - 55) else None) = Some k"
    if "k < 16" for k
    using that by (auto simp: hexd_def)
  show ?thesis
    using h [OF d(1)] h [OF d(2)] by (simp add: hex4_def Let_def)
qed

lemma unquote_escape_ascii:
  assumes "byte c < (128::nat)"
  shows "unquote (escape_ascii c @ s) = map_option (\<lambda>(y, r). (c # y, r)) (unquote s)"
proof -
  have enc: "encode_rune (byte c) = [c]"
    using assms by (simp add: encode_rune_def valid_rune_def)
  have hs: "\<not> high_surrogate (byte c)" using assms by (simp add: high_surrogate_def)
  have small: "byte c < (256::nat)" using assms by simp
  show ?thesis
    using assms enc hs hex4_ascii [OF small, of s]
    by (auto simp: escape_ascii_def unquote.simps(2) unescape_def)
qed
definition valid_utf8 :: "string \<Rightarrow> bool" where
  "valid_utf8 s = (string_of_runes (runes s) = s)"

lemma string_of_runes_simps [simp]:
  "string_of_runes [] = []" "string_of_runes (r # rs) = encode_rune r @ string_of_runes rs"
  by (simp_all add: string_of_runes_def)

lemma encode_rune_ascii: "r < 128 \<Longrightarrow> encode_rune r = [char_of r]"
  by (simp add: encode_rune_def valid_rune_def)

lemma valid_utf8_ascii_append: "list_all (\<lambda>c. byte c < (128::nat)) a \<Longrightarrow> valid_utf8 (a @ s) = valid_utf8 s"
proof (induction a)
  case (Cons c a)
  then have c: "byte c < (128::nat)" by simp
  have "decode_rune (c # a @ s) = (byte c, 1)" using c by (simp add: decode_rune_def Let_def)
  then show ?case using c Cons by (simp add: valid_utf8_def runes.simps(2) encode_rune_ascii)
qed simp

lemma ascii_valid_utf8: "list_all (\<lambda>c. byte c < (128::nat)) s \<Longrightarrow> valid_utf8 s"
  using valid_utf8_ascii_append [of s "[]"] by (simp add: valid_utf8_def)

lemma encode_rune_lead:
  assumes "valid_rune r" "128 \<le> r"
  obtains c t where "encode_rune r = c # t" "128 \<le> byte c" "c \<noteq> CHR 0x22" "c \<noteq> CHR 0x5C"
proof -
  obtain c t where ct: "encode_rune r = c # t" by (cases "encode_rune r") auto
  have "r div 64 < 32" if "r < 2048" using that by (simp add: less_mult_imp_div_less)
  moreover have "r div 4096 < 16" if "r < 65536" using that by (simp add: less_mult_imp_div_less)
  moreover have "r div 262144 < 5" using assms(1) by (auto simp: valid_rune_def less_mult_imp_div_less)
  ultimately have b: "128 \<le> byte c"
    using ct assms by (auto simp: encode_rune_def Let_def split: if_splits)
  then have "c \<noteq> CHR 0x22" "c \<noteq> CHR 0x5C" by auto
  with ct b that show thesis by blast
qed

lemma quote_body_rune:
  assumes "valid_rune r"
  shows "\<exists>q. quote_body (encode_rune r @ s) = q @ quote_body s \<and>
    (\<forall>t. unquote (q @ t) = map_option (\<lambda>(y, rest). (encode_rune r @ y, rest)) (unquote t))"
proof (cases "r < 128")
  case True
  have "byte (char_of r) = r" using True by simp
  then show ?thesis
    using True unquote_escape_ascii [of "char_of r"]
    by (intro exI [of _ "escape_ascii (char_of r)"]) (simp add: encode_rune_ascii quote_body.simps(2))
next
  case False
  then obtain c t where ct: "encode_rune r = c # t" and b: "128 \<le> byte c" "c \<noteq> CHR 0x22" "c \<noteq> CHR 0x5C"
    using encode_rune_lead [OF assms] by (metis not_le)
  have dec: "decode_rune (c # t @ x) = (r, Suc (length t))" for x
    using decode_encode_rune [OF assms, of x] ct by simp
  have long: "Suc (length t) \<noteq> 1"
    using False ct assms by (auto simp: encode_rune_def Let_def split: if_splits)
  define q where "q = (if r = 8232 \<or> r = 8233 then [CHR 0x5C] @ ''u202'' @ [hexd (r mod 16)] else c # t)"
  have "quote_body (encode_rune r @ s) = q @ quote_body s"
    using b(1) long dec [of s] ct by (simp add: quote_body.simps(2) q_def)
  moreover have "unquote (q @ x) = map_option (\<lambda>(y, rest). (encode_rune r @ y, rest)) (unquote x)" for x
  proof (cases "r = 8232 \<or> r = 8233")
    case True
    then show ?thesis
      by (auto simp: q_def unquote.simps(2) unescape_def hex4_def Let_def hexd_def high_surrogate_def)
  next
    case no: False
    then have "unquote (q @ x) = unquote (c # t @ x)" by (simp add: q_def)
    also have "\<dots> = map_option (\<lambda>(y, rest). (encode_rune r @ y, rest)) (unquote x)"
      using b dec [of x] by (simp add: unquote.simps(2))
    finally show ?thesis .
  qed
  ultimately show ?thesis by blast
qed

lemma unquote_quote_runes:
  assumes "\<forall>r \<in> set rs. valid_rune r"
  shows "unquote (quote_body (string_of_runes rs) @ CHR 0x22 # rest) = Some (string_of_runes rs, rest)"
  using assms
proof (induction rs)
  case Nil
  then show ?case by (simp add: unquote.simps(2))
next
  case (Cons r rs)
  then obtain q where "quote_body (encode_rune r @ string_of_runes rs) = q @ quote_body (string_of_runes rs)"
      "\<And>t. unquote (q @ t) = map_option (\<lambda>(y, rest). (encode_rune r @ y, rest)) (unquote t)"
    using quote_body_rune [of r "string_of_runes rs"] by auto
  with Cons show ?case by simp
qed

lemma unquote_quote:
  assumes "valid_utf8 s"
  shows "unquote (quote_body s @ CHR 0x22 # rest) = Some (s, rest)"
  using unquote_quote_runes [of "runes s" rest] runes_valid assms by (auto simp: valid_utf8_def)

section \<open>Numbers\<close>

text \<open>The number literal at the head of the text and the rest, by the JSON grammar.\<close>

definition scan_digits :: "string \<Rightarrow> (string \<times> string) option" where
  "scan_digits s = (let ds = takeWhile is_digit s in if ds = [] then None else Some (ds, dropWhile is_digit s))"

definition scan_int :: "string \<Rightarrow> (string \<times> string) option" where
  "scan_int s = (if HasPrefix s ''0'' then Some (''0'', tl s) else scan_digits s)"

definition scan_frac :: "string \<Rightarrow> (string \<times> string) option" where
  "scan_frac s =
     (if HasPrefix s ''.'' then do { (ds, r) \<leftarrow> scan_digits (tl s); Some (''.'' @ ds, r) } else Some ([], s))"

definition scan_exp :: "string \<Rightarrow> (string \<times> string) option" where
  "scan_exp s =
     (if HasPrefix s ''e'' \<or> HasPrefix s ''E'' then
        (let sgn = (if HasPrefix (tl s) ''+'' \<or> HasPrefix (tl s) ''-'' then take 1 (tl s) else [])
         in do { (ds, r) \<leftarrow> scan_digits (drop (length sgn) (tl s)); Some (take 1 s @ sgn @ ds, r) })
      else Some ([], s))"

definition scan_number :: "string \<Rightarrow> (string \<times> string) option" where
  "scan_number s =
     (let sgn = (if HasPrefix s ''-'' then ''-'' else [])
      in do {
           (i, r1) \<leftarrow> scan_int (drop (length sgn) s);
           (f, r2) \<leftarrow> scan_frac r1;
           (e, r3) \<leftarrow> scan_exp r2;
           Some (sgn @ i @ f @ e, r3)
         })"

text \<open>What may follow a value inside a document.\<close>

definition value_end :: "string \<Rightarrow> bool" where
  "value_end s = (s = [] \<or> hd s \<in> {CHR '','', CHR '']'', CHR ''}''})"

lemma char_of_48 [simp]: "char_of (48 :: nat) = CHR ''0''"
  using char_of_char [of "CHR ''0''", where ?'a = nat] by simp

lemma nat_digits_no_zero: "n \<noteq> 0 \<Longrightarrow> \<not> HasPrefix (nat_digits n @ s) ''0''"
proof (induction n arbitrary: s rule: nat_digits.induct)
  case (1 n)
  show ?case
  proof (cases "n < 10")
    case True
    have "char_of (48 + n) \<noteq> CHR ''0''"
    proof
      assume "char_of (48 + n) = CHR ''0''"
      then have "byte (char_of (48 + n)) = (48 :: nat)" by simp
      with True 1(2) show False by simp
    qed
    with True show ?thesis by (simp add: nat_digits.simps [of n])
  next
    case False
    then show ?thesis using 1 by (simp add: nat_digits.simps [of n])
  qed
qed

lemma value_end_scan:
  assumes "value_end s"
  shows "scan_frac s = Some ([], s)" "scan_exp s = Some ([], s)" "s = [] \<or> \<not> is_digit (hd s)"
  using assms by (cases s; auto simp: value_end_def scan_frac_def scan_exp_def is_digit_def)+

lemma scan_int_digits:
  assumes "value_end s"
  shows "scan_int (nat_digits n @ s) = Some (nat_digits n, s)"
proof (cases "n = 0")
  case True
  then show ?thesis by (simp add: nat_digits.simps [of 0] scan_int_def)
next
  case False
  have d: "list_all is_digit (nat_digits n)" "nat_digits n \<noteq> []" using nat_digits_props [of n] by auto
  show ?thesis
    using nat_digits_no_zero [OF False] takeWhile_digits [OF d(1) value_end_scan(3) [OF assms]] d(2)
    by (simp add: scan_int_def scan_digits_def)
qed

lemma nat_digits_no_minus: "\<not> HasPrefix (nat_digits n @ s) ''-''"
proof -
  obtain c t where "nat_digits n = c # t" "is_digit c"
    using nat_digits_props [of n] by (cases "nat_digits n") auto
  then show ?thesis by (auto simp: is_digit_def)
qed

lemma scan_number_Itoa:
  assumes "value_end s"
  shows "scan_number (Itoa i @ s) = Some (Itoa i, s)"
  using scan_int_digits [OF assms] value_end_scan [OF assms] nat_digits_no_minus
  by (auto simp: Itoa_def scan_number_def)

section \<open>Documents\<close>

fun json_print :: "json \<Rightarrow> string" and print_elems :: "json list \<Rightarrow> string"
  and print_members :: "(string \<times> json) list \<Rightarrow> string" and print_member :: "string \<times> json \<Rightarrow> string" where
  "json_print JNull = ''null''"
| "json_print (JBool b) = (if b then ''true'' else ''false'')"
| "json_print (JNum lit) = lit"
| "json_print (JStr s) = quote s"
| "json_print (JArr vs) = ''['' @ print_elems vs @ '']''"
| "json_print (JObj ms) = ''{'' @ print_members ms @ ''}''"
| "print_elems [] = []"
| "print_elems (v # vs) = json_print v @ (if vs = [] then [] else '','' @ print_elems vs)"
| "print_members [] = []"
| "print_members (m # ms) = print_member m @ (if ms = [] then [] else '','' @ print_members ms)"
| "print_member (k, v) = quote k @ '':'' @ json_print v"

definition skip_ws :: "string \<Rightarrow> string" where
  "skip_ws s = dropWhile (\<lambda>c. c = CHR '' '' \<or> c = CHR 0x09 \<or> c = CHR 0x0A \<or> c = CHR 0x0D) s"

lemma length_skip_ws: "length (skip_ws s) \<le> length s"
  by (simp add: skip_ws_def length_dropWhile_le)

lemma tl_shorter: "HasPrefix r [c] \<Longrightarrow> length r \<le> length s \<Longrightarrow> length (tl r) < length s"
  by (cases r) auto

text \<open>
  The parser. The comparisons of lengths always hold, since a value takes at least one character; they
  make the termination evident.
\<close>

function parse_value :: "string \<Rightarrow> (json \<times> string) option"
  and parse_elems :: "string \<Rightarrow> (json list \<times> string) option"
  and parse_members :: "string \<Rightarrow> ((string \<times> json) list \<times> string) option" where
  "parse_value s0 =
     (let s = skip_ws s0 in
      if s = [] then None
      else if hd s = CHR ''{'' then
        (let t = skip_ws (tl s)
         in if HasPrefix t ''}'' then Some (JObj [], tl t)
            else map_option (\<lambda>(ms, r). (JObj ms, r)) (parse_members t))
      else if hd s = CHR ''['' then
        (let t = skip_ws (tl s)
         in if HasPrefix t '']'' then Some (JArr [], tl t)
            else map_option (\<lambda>(vs, r). (JArr vs, r)) (parse_elems t))
      else if hd s = CHR 0x22 then map_option (\<lambda>(x, r). (JStr x, r)) (unquote (tl s))
      else if HasPrefix s ''true'' then Some (JBool True, drop 4 s)
      else if HasPrefix s ''false'' then Some (JBool False, drop 5 s)
      else if HasPrefix s ''null'' then Some (JNull, drop 4 s)
      else map_option (\<lambda>(lit, r). (JNum lit, r)) (scan_number s))"
| "parse_elems s =
     (case parse_value s of
        None \<Rightarrow> None
      | Some (v, r0) \<Rightarrow>
          (let r = skip_ws r0
           in if HasPrefix r '']'' then Some ([v], tl r)
              else if HasPrefix r '','' \<and> length r \<le> length s
                then map_option (\<lambda>(vs, r2). (v # vs, r2)) (parse_elems (tl r))
              else None))"
| "parse_members s0 =
     (let s = skip_ws s0
      in if \<not> HasPrefix s [CHR 0x22] then None
         else case unquote (tl s) of
           None \<Rightarrow> None
         | Some (k, r0) \<Rightarrow>
             (let r1 = skip_ws r0
              in if \<not> (HasPrefix r1 '':'' \<and> length r1 \<le> length s0) then None
                 else case parse_value (tl r1) of
                   None \<Rightarrow> None
                 | Some (v, r2) \<Rightarrow>
                     (let r3 = skip_ws r2
                      in if HasPrefix r3 ''}'' then Some ([(k, v)], tl r3)
                         else if HasPrefix r3 '','' \<and> length r3 \<le> length s0
                           then map_option (\<lambda>(ms, r4). ((k, v) # ms, r4)) (parse_members (tl r3))
                         else None)))"
  by pat_completeness auto
termination
proof (relation "measure (\<lambda>x. case x of Inl s \<Rightarrow> 2 * length s | Inr (Inl s) \<Rightarrow> 2 * length s + 1
    | Inr (Inr s) \<Rightarrow> 2 * length s + 1)", goal_cases)
  case (2 s0 s t)
  then have "0 < length s" "length s \<le> length s0" "length t \<le> length s - 1"
    using length_skip_ws [of s0] length_skip_ws [of "tl s"] by auto
  then have "Suc (2 * length t) < 2 * length s0" by linarith
  then show ?case by simp
next
  case (3 s0 s t)
  then have "0 < length s" "length s \<le> length s0" "length t \<le> length s - 1"
    using length_skip_ws [of s0] length_skip_ws [of "tl s"] by auto
  then have "Suc (2 * length t) < 2 * length s0" by linarith
  then show ?case by simp
next
  case (5 s x2 x y r)
  then have "HasPrefix r '',''" "length r \<le> length s" by blast+
  from tl_shorter [OF this] show ?case by simp
next
  case (6 s0 s x2 x y r1)
  then have "HasPrefix r1 '':''" "length r1 \<le> length s0" by blast+
  from tl_shorter [OF this] show ?case by simp
next
  case (7 s0 s x2 x y r1 x2a xa ya r3)
  then have "HasPrefix r3 '',''" "length r3 \<le> length s0" by blast+
  from tl_shorter [OF this] show ?case by simp
qed auto

declare parse_value.simps [simp del] parse_elems.simps [simp del] parse_members.simps [simp del]

definition json_parse :: "string \<Rightarrow> json option" where
  "json_parse s = (case parse_value s of None \<Rightarrow> None | Some (v, r) \<Rightarrow> if skip_ws r = [] then Some v else None)"

section \<open>Documents round trip\<close>

text \<open>What the relay's encoders produce: valid strings and integer literals.\<close>

fun wf_json :: "json \<Rightarrow> bool" and wf_elems :: "json list \<Rightarrow> bool"
  and wf_members :: "(string \<times> json) list \<Rightarrow> bool" and wf_member :: "string \<times> json \<Rightarrow> bool" where
  "wf_json JNull = True"
| "wf_json (JBool b) = True"
| "wf_json (JNum lit) = (\<exists>i. lit = Itoa i)"
| "wf_json (JStr s) = valid_utf8 s"
| "wf_json (JArr vs) = wf_elems vs"
| "wf_json (JObj ms) = wf_members ms"
| "wf_elems [] = True"
| "wf_elems (v # vs) = (wf_json v \<and> wf_elems vs)"
| "wf_members [] = True"
| "wf_members (m # ms) = (wf_member m \<and> wf_members ms)"
| "wf_member (k, v) = (valid_utf8 k \<and> wf_json v)"

definition no_ws :: "string \<Rightarrow> bool" where
  "no_ws s = (s \<noteq> [] \<and> hd s \<notin> {CHR '' '', CHR 0x09, CHR 0x0A, CHR 0x0D})"

lemma skip_ws_id: "no_ws s \<Longrightarrow> skip_ws s = s"
  by (cases s) (auto simp: no_ws_def skip_ws_def)

lemma skip_ws_id_append: "no_ws s \<Longrightarrow> skip_ws (s @ t) = s @ t"
  by (cases s) (auto simp: no_ws_def skip_ws_def)

lemma Itoa_head: "\<exists>c t. Itoa i = c # t \<and> (is_digit c \<or> c = CHR ''-'')"
  using nat_digits_props [of "nat i"] by (cases "nat_digits (nat i)") (auto simp: Itoa_def)

lemma json_print_head:
  assumes "wf_json v"
  shows "no_ws (json_print v)" "hd (json_print v) \<notin> {CHR '']'', CHR ''}'', CHR '','', CHR '':''}"
proof -
  have "no_ws (json_print v) \<and> hd (json_print v) \<notin> {CHR '']'', CHR ''}'', CHR '','', CHR '':''}"
  proof (cases v)
    case (JNum lit)
    then obtain i where "lit = Itoa i" using assms by auto
    with Itoa_head [of i] JNum show ?thesis by (auto simp: no_ws_def is_digit_def)
  qed (auto simp: no_ws_def quote_def)
  then show "no_ws (json_print v)" "hd (json_print v) \<notin> {CHR '']'', CHR ''}'', CHR '','', CHR '':''}" by auto
qed

lemma json_print_nonempty: "wf_json v \<Longrightarrow> json_print v \<noteq> []"
  using json_print_head(1) [of v] by (simp add: no_ws_def)

lemma parse_print_num:
  assumes "value_end rest"
  shows "parse_value (Itoa i @ rest) = Some (JNum (Itoa i), rest)"
proof -
  obtain c t where ct: "Itoa i = c # t" "is_digit c \<or> c = CHR ''-''" using Itoa_head by blast
  have nws: "no_ws (Itoa i)" using ct by (auto simp: no_ws_def is_digit_def)
  have "c \<noteq> CHR ''{''" "c \<noteq> CHR ''[''" "c \<noteq> CHR 0x22" "c \<noteq> CHR ''t''" "c \<noteq> CHR ''f''" "c \<noteq> CHR ''n''"
    using ct(2) by (auto simp: is_digit_def)
  then show ?thesis
    using scan_number_Itoa [OF assms, of i] skip_ws_id_append [OF nws, of rest] ct(1)
    by (subst parse_value.simps) (simp add: Let_def)
qed

lemma parse_print_str:
  assumes "valid_utf8 s"
  shows "parse_value (quote s @ rest) = Some (JStr s, rest)"
  using unquote_quote [OF assms, of rest] by (subst parse_value.simps) (simp add: quote_def skip_ws_def Let_def)

lemma value_end_comma: "value_end (CHR '','' # s)" "value_end (CHR '']'' # s)" "value_end (CHR ''}'' # s)"
  by (simp_all add: value_end_def)

lemma parse_print:
  shows "wf_json v \<Longrightarrow> value_end rest \<Longrightarrow> parse_value (json_print v @ rest) = Some (v, rest)"
    and "wf_elems vs \<Longrightarrow> vs \<noteq> [] \<Longrightarrow> parse_elems (print_elems vs @ CHR '']'' # rest) = Some (vs, rest)"
    and "wf_members ms \<Longrightarrow> ms \<noteq> [] \<Longrightarrow> parse_members (print_members ms @ CHR ''}'' # rest) = Some (ms, rest)"
    and "wf_member m \<Longrightarrow> value_end rest \<Longrightarrow> parse_value (json_print (snd m) @ rest) = Some (snd m, rest)"
proof (induction v and vs and ms and m arbitrary: rest and rest and rest and rest
    rule: json_print_print_elems_print_members_print_member.induct)
  case 1
  then show ?case by (subst parse_value.simps) (simp add: skip_ws_def Let_def)
next
  case (2 b)
  then show ?case by (subst parse_value.simps) (simp add: skip_ws_def Let_def)
next
  case (3 lit)
  then show ?case using parse_print_num by auto
next
  case (4 s)
  then show ?case using parse_print_str by simp
next
  case (5 vs)
  show ?case
  proof (cases vs)
    case Nil
    then show ?thesis by (subst parse_value.simps) (simp add: skip_ws_def Let_def)
  next
    case (Cons v vs')
    have w: "wf_json v" using 5 Cons by simp
    have nws: "no_ws (print_elems vs)" and h: "hd (print_elems vs) \<noteq> CHR '']''"
      using Cons json_print_head [OF w] json_print_nonempty [OF w] by (auto simp: no_ws_def)
    have "\<not> HasPrefix (print_elems vs @ CHR '']'' # rest) '']''"
      using nws h by (cases "print_elems vs") (auto simp: no_ws_def)
    with 5 Cons skip_ws_id_append [OF nws, of "CHR '']'' # rest"] show ?thesis
      by (subst parse_value.simps) (simp add: skip_ws_def [of "CHR ''['' # _"] Let_def del: print_elems.simps)
  qed
next
  case (6 ms)
  show ?case
  proof (cases ms)
    case Nil
    then show ?thesis by (subst parse_value.simps) (simp add: skip_ws_def Let_def)
  next
    case (Cons m ms')
    have nws: "no_ws (print_members ms)" and h: "hd (print_members ms) \<noteq> CHR ''}''"
      using Cons by (cases m; auto simp: no_ws_def quote_def)+
    have "\<not> HasPrefix (print_members ms @ CHR ''}'' # rest) ''}''"
      using nws h by (cases "print_members ms") (auto simp: no_ws_def)
    with 6 Cons skip_ws_id_append [OF nws, of "CHR ''}'' # rest"] show ?thesis
      by (subst parse_value.simps) (simp add: skip_ws_def [of "CHR ''{'' # _"] Let_def del: print_members.simps)
  qed
next
  case 7
  then show ?case by simp
next
  case (8 v vs)
  then have wv: "wf_json v" and wvs: "wf_elems vs" by auto
  show ?case
  proof (cases "vs = []")
    case True
    then show ?thesis
      using 8(1) [OF wv value_end_comma(2)] by (subst parse_elems.simps) (simp add: skip_ws_def Let_def)
  next
    case False
    then show ?thesis
      using 8(1) [OF wv value_end_comma(1)] 8(2) [OF False wvs False] json_print_nonempty [OF wv]
      by (subst parse_elems.simps) (simp add: skip_ws_def [of "CHR '','' # _"] Let_def)
  qed
next
  case 9
  then show ?case by simp
next
  case (10 m ms)
  obtain k v where m: "m = (k, v)" by (cases m)
  then have wk: "valid_utf8 k" and wv: "wf_json v" and wms: "wf_members ms" using 10(3) by auto
  have ws: "skip_ws (CHR 0x22 # t) = CHR 0x22 # t" "skip_ws (CHR '':'' # t) = CHR '':'' # t"
      "skip_ws (CHR '','' # t) = CHR '','' # t" "skip_ws (CHR ''}'' # t) = CHR ''}'' # t" for t
    by (simp_all add: skip_ws_def)
  show ?case
  proof (cases "ms = []")
    case True
    then show ?thesis
      using unquote_quote [OF wk] 10(1) [OF _ value_end_comma(3)] m wk wv
      by (subst parse_members.simps) (simp add: quote_def ws Let_def)
  next
    case False
    then show ?thesis
      using unquote_quote [OF wk] 10(1) [OF _ value_end_comma(1)] 10(2) [OF False wms False] m wk wv
      by (subst parse_members.simps) (simp add: quote_def ws Let_def)
  qed
next
  case (11 k v)
  then show ?case by simp
qed

theorem json_parse_print: "wf_json v \<Longrightarrow> json_parse (json_print v) = Some v"
  using parse_print(1) [of v "[]"] by (simp add: json_parse_def value_end_def skip_ws_def)

text \<open>A document has no control characters, so it fits one line of a file.\<close>

lemma escape_ascii_printable: "c' \<in> set (escape_ascii c) \<Longrightarrow> 32 \<le> byte c'"
proof -
  have h: "32 \<le> byte (hexd k)" if "k < 16" for k using that by (auto simp: hexd_def)
  have "byte c div 16 < 16" "byte c mod 16 < 16" using byte_div_16 by auto
  then have "32 \<le> byte (hexd (byte c div 16))" "32 \<le> byte (hexd (byte c mod 16))" using h by blast+
  moreover define x y where "x = hexd (byte c div 16)" and "y = hexd (byte c mod 16)"
  moreover define b where "b \<longleftrightarrow> byte c < (32::nat) \<or> c = CHR ''<'' \<or> c = CHR ''>'' \<or> c = CHR ''&''"
  ultimately have xy: "32 \<le> byte x" "32 \<le> byte y" and nb: "\<not> b \<Longrightarrow> 32 \<le> byte c" by auto
  show "c' \<in> set (escape_ascii c) \<Longrightarrow> 32 \<le> byte c'"
    unfolding escape_ascii_def x_def [symmetric] y_def [symmetric] b_def [symmetric]
    by (cases b; use xy nb in \<open>simp split: if_splits\<close>) (elim disjE; simp)+
qed

lemma byte_cont: "32 \<le> byte (char_of (128 + x mod 64 :: nat))"
proof -
  have "128 + x mod 64 < (256::nat)" using mod_less_divisor [of 64 x] by linarith
  from byte_char_of [OF this] show ?thesis by linarith
qed

lemma byte_lead: "x < 16 \<Longrightarrow> 32 \<le> byte (char_of (240 + x :: nat))" "x < 16 \<Longrightarrow> 32 \<le> byte (char_of (224 + x :: nat))"
  "x < 64 \<Longrightarrow> 32 \<le> byte (char_of (192 + x :: nat))"
  using byte_char_of [of "240 + x"] byte_char_of [of "224 + x"] byte_char_of [of "192 + x"] by linarith+

lemma encode_rune_high:
  assumes "valid_rune r" "128 \<le> r" "c \<in> set (encode_rune r)"
  shows "32 \<le> byte c"
proof -
  consider "r < 2048" | "2048 \<le> r" "r < 65536" | "65536 \<le> r" by linarith
  then show ?thesis
  proof cases
    case 1
    then have "encode_rune r = [char_of (192 + r div 64), char_of (128 + r mod 64)]" "r div 64 < 64"
      using assms by (simp_all add: encode_rune_def less_mult_imp_div_less)
    with assms(3) byte_lead(3) byte_cont show ?thesis by (auto simp del: of_char_of)
  next
    case 2
    then have "encode_rune r = [char_of (224 + r div 4096), char_of (128 + r div 64 mod 64), char_of (128 + r mod 64)]"
        "r div 4096 < 16"
      using assms by (simp_all add: encode_rune_def less_mult_imp_div_less)
    with assms(3) byte_lead(2) byte_cont show ?thesis by (auto simp del: of_char_of)
  next
    case 3
    then have "encode_rune r = [char_of (240 + r div 262144), char_of (128 + r div 4096 mod 64),
        char_of (128 + r div 64 mod 64), char_of (128 + r mod 64)]" "r div 262144 < 16"
      using assms by (auto simp: encode_rune_def valid_rune_def less_mult_imp_div_less)
    with assms(3) byte_lead(1) byte_cont show ?thesis by (auto simp del: of_char_of)
  qed
qed

lemma quote_body_printable_rune:
  assumes "valid_rune r" and "c \<in> set (quote_body (encode_rune r @ s))"
  shows "32 \<le> byte c \<or> c \<in> set (quote_body s)"
proof (cases "r < 128")
  case True
  with assms show ?thesis using escape_ascii_printable
    by (auto simp: encode_rune_ascii quote_body.simps(2))
next
  case False
  then obtain c0 t where ct: "encode_rune r = c0 # t" and b: "128 \<le> byte c0"
    using encode_rune_lead [OF assms(1)] by (metis not_le)
  have dec: "decode_rune (c0 # t @ s) = (r, Suc (length t))"
    using decode_encode_rune [OF assms(1), of s] ct by simp
  have hi: "32 \<le> byte x" if "x \<in> set (c0 # t)" for x
    using encode_rune_high [OF assms(1)] False that ct by simp
  have hx: "32 \<le> byte (hexd (r mod 16))" by (auto simp: hexd_def)
  show ?thesis
    using assms(2) b dec hi hx ct by (auto simp: quote_body.simps(2) split: if_splits)
qed

lemma quote_body_printable:
  assumes "valid_utf8 s" "c \<in> set (quote_body s)"
  shows "32 \<le> byte c"
proof -
  have "32 \<le> byte c" if "\<forall>r \<in> set rs. valid_rune r" "c \<in> set (quote_body (string_of_runes rs))" for rs
    using that by (induction rs) (auto dest: quote_body_printable_rune)
  then show ?thesis
    using assms runes_valid unfolding valid_utf8_def by metis
qed

lemma nat_digits_printable: "c \<in> set (Itoa i) \<Longrightarrow> 32 \<le> byte c"
  using nat_digits_props [of "nat i"] nat_digits_props [of "nat (- i)"]
  by (auto simp: Itoa_def list_all_iff is_digit_def split: if_splits)

lemma json_print_printable:
  shows "wf_json v \<Longrightarrow> c \<in> set (json_print v) \<Longrightarrow> 32 \<le> byte c"
    and "wf_elems vs \<Longrightarrow> c \<in> set (print_elems vs) \<Longrightarrow> 32 \<le> byte c"
    and "wf_members ms \<Longrightarrow> c \<in> set (print_members ms) \<Longrightarrow> 32 \<le> byte c"
    and "wf_member m \<Longrightarrow> c \<in> set (print_member m) \<Longrightarrow> 32 \<le> byte c"
proof (induction v and vs and ms and m rule: json_print_print_elems_print_members_print_member.induct)
  case (3 lit)
  then show ?case using nat_digits_printable by auto
qed (auto simp: quote_def quote_body_printable split: if_splits)

text \<open>The size of a document: a string grows at most sixfold, and never shrinks.\<close>

lemma length_escape_ascii: "1 \<le> length (escape_ascii c) \<and> length (escape_ascii c) \<le> 6"
  by (simp add: escape_ascii_def)

lemma length_quote_body: "length s \<le> length (quote_body s) \<and> length (quote_body s) \<le> 6 * length s"
proof (induction s rule: quote_body.induct)
  case (2 c s)
  obtain r n where d: "decode_rune (c # s) = (r, n)" by (cases "decode_rune (c # s)")
  have n: "1 \<le> n" "n \<le> length (c # s)" "n \<le> 4"
    using decode_rune_width [of "c # s"] d by (auto simp: decode_rune_def Let_def split: list.splits if_splits)
  show ?case
  proof (cases "byte c < (128::nat)")
    case True
    with 2(1) length_escape_ascii [of c] show ?thesis by (simp add: quote_body.simps(2))
  next
    case False
    have m: "max 1 n = n" using n by simp
    let ?q = "quote_body (drop n (c # s))"
    have IH: "length (c # s) - n \<le> length ?q" "length ?q \<le> 6 * (length (c # s) - n)"
      using 2(2) [OF False d [symmetric] refl] m by simp_all
    obtain h where q: "quote_body (c # s) = h @ ?q" and h: "length h = 6 \<or> length h = n"
      using False d n m by (simp add: quote_body.simps(2) Let_def split: if_splits)
    show ?thesis using IH n h unfolding q length_append by linarith
  qed
qed simp

lemma length_quote: "length s + 2 \<le> length (quote s) \<and> length (quote s) \<le> 6 * length s + 2"
  using length_quote_body [of s] by (simp add: quote_def)

fun json_bound :: "json \<Rightarrow> nat" and elems_bound :: "json list \<Rightarrow> nat"
  and members_bound :: "(string \<times> json) list \<Rightarrow> nat" and member_bound :: "string \<times> json \<Rightarrow> nat" where
  "json_bound JNull = 4"
| "json_bound (JBool b) = 5"
| "json_bound (JNum lit) = length lit"
| "json_bound (JStr s) = 6 * length s + 2"
| "json_bound (JArr vs) = elems_bound vs + 2"
| "json_bound (JObj ms) = members_bound ms + 2"
| "elems_bound [] = 0"
| "elems_bound (v # vs) = json_bound v + 1 + elems_bound vs"
| "members_bound [] = 0"
| "members_bound (m # ms) = member_bound m + 1 + members_bound ms"
| "member_bound (k, v) = 6 * length k + 3 + json_bound v"

lemma length_json_print:
  "length (json_print v) \<le> json_bound v" "length (print_elems vs) \<le> elems_bound vs"
  "length (print_members ms) \<le> members_bound ms" "length (print_member m) \<le> member_bound m"
proof (induction v and vs and ms and m rule: json_print_print_elems_print_members_print_member.induct)
  case (4 s)
  then show ?case using length_quote [of s] by simp
next
  case (11 k v)
  then show ?case using length_quote [of k] by simp
qed auto

end
