(* ===== verification/Relay_DLQ.thy ===== *)
theory Relay_DLQ
  imports Relay_Domain
begin

text \<open>
  Package \<^verbatim>\<open>internal/dlq\<close>: the dead letter queue, a file of JSON lines that is read and rewritten as a
  whole. The state is the content of the queue's file and of its temporary file; an operation of the
  operating system that fails is an argument of the operation. The JSON coding of an entry is a pair
  of functions, given in \<^verbatim>\<open>Relay_Codec\<close>.

  The file with its lines is shown to implement the queue of entries that the interface describes.
\<close>

section \<open>Dead events\<close>

record DeadEvent =
  deID :: string
  FailedAt :: Time
  Cause :: string
  RetryCount :: int
  deEnvelope :: "Envelope option"

record ReplayFilter =
  rfProvider :: string
  rfState :: string
  rfAfter :: Time

definition ReplayFilter_Matches :: "ReplayFilter \<Rightarrow> DeadEvent \<Rightarrow> bool" where
  "ReplayFilter_Matches f e =
     (if rfProvider f \<noteq> '''' \<and> (case deEnvelope e of None \<Rightarrow> True | Some v \<Rightarrow> Provider (Report v) \<noteq> rfProvider f) then False
      else if rfState f \<noteq> '''' \<and> (case deEnvelope e of None \<Rightarrow> True | Some v \<Rightarrow> StateOf (Report v) \<noteq> rfState f) then False
      else if rfAfter f \<noteq> 0 \<and> FailedAt e < rfAfter f then False
      else True)"

section \<open>The queue's contract\<close>

text \<open>
  The operations of the interface on entries, without the file: replace in place with a higher retry
  count, or append; then drop the oldest entries while the encoded size exceeds the bound.
\<close>

fun upsert :: "DeadEvent list \<Rightarrow> DeadEvent \<Rightarrow> DeadEvent list" where
  "upsert [] x = [x]"
| "upsert (e # es) x =
     (if deID e = deID x then x\<lparr>RetryCount := RetryCount e + 1\<rparr> # es else e # upsert es x)"

text \<open>\<open>sz\<close> is the number of bytes an entry takes in the file, newline included.\<close>

fun compact :: "('a \<Rightarrow> nat) \<Rightarrow> nat \<Rightarrow> 'a list \<Rightarrow> 'a list" where
  "compact sz maxBytes [] = []"
| "compact sz maxBytes (e # es) =
     (if sum_list (map sz (e # es)) \<le> maxBytes then e # es else compact sz maxBytes es)"

lemma compact_suffix: "\<exists>pre. es = pre @ compact sz n es"
proof (induction es)
  case (Cons e es)
  then obtain pre where "es = pre @ compact sz n es" by blast
  then show ?case
    by (cases "sum_list (map sz (e # es)) \<le> n")
      (auto intro: exI [of _ "[]"] exI [of _ "e # pre"])
qed simp

lemma compact_bound: "sum_list (map sz (compact sz n es)) \<le> n"
  by (induction es) auto

text \<open>It is the longest suffix within the bound: adding one more entry would exceed it.\<close>

lemma compact_longest:
  assumes "es = pre @ suf" and "sum_list (map sz suf) \<le> n"
  shows "length suf \<le> length (compact sz n es)"
  using assms
proof (induction es arbitrary: pre)
  case (Cons e es)
  show ?case
  proof (cases pre)
    case Nil
    with Cons.prems show ?thesis by auto
  next
    case (Cons p pre')
    then have "es = pre' @ suf" using Cons.prems by simp
    then have "length suf \<le> length (compact sz n es)" using Cons.IH Cons.prems(2) by blast
    moreover have "length suf \<le> length (e # es)" using \<open>es = pre' @ suf\<close> by simp
    ultimately show ?thesis by simp
  qed
qed simp

lemma compact_id: "sum_list (map sz es) \<le> n \<Longrightarrow> compact sz n es = es"
  by (cases es) auto

lemma upsert_ids: "map deID (upsert es x) = (if deID x \<in> deID ` set es then map deID es else map deID es @ [deID x])"
  by (induction es) auto

lemma upsert_distinct: "distinct (map deID es) \<Longrightarrow> distinct (map deID (upsert es x))"
  by (auto simp: upsert_ids)

section \<open>The file\<close>

definition scannerMax :: nat where "scannerMax = 4 * 1024 * 1024"

text \<open>
  \<^verbatim>\<open>bufio.Scanner\<close> with \<^verbatim>\<open>ScanLines\<close>: the lines of a file, without the newline and a carriage return
  before it, up to the first line that does not fit the buffer.
\<close>

definition dropCR :: "string \<Rightarrow> string" where
  "dropCR l = (if l \<noteq> [] \<and> last l = CHR 0x0D then butlast l else l)"

function scan_lines :: "nat \<Rightarrow> string \<Rightarrow> string list \<times> bool" where
  "scan_lines mx s =
     (if s = [] then ([], False)
      else
        (let l = takeWhile (\<lambda>c. c \<noteq> CHR 0x0A) s
         in if mx \<le> length l then ([], True)
            else (let (ls, tooLong) = scan_lines mx (drop (Suc (length l)) s) in (dropCR l # ls, tooLong))))"
  by pat_completeness auto
termination
  by (relation "measure (\<lambda>(mx, s). length s)") (auto simp: length_greater_0_conv)

declare scan_lines.simps [simp del]

text \<open>The coding of an entry as a JSON document.\<close>

record codec =
  marshal :: "DeadEvent \<Rightarrow> string result"
  unmarshal :: "string \<Rightarrow> DeadEvent result"

text \<open>What the operating system may refuse; a failed write leaves some bytes in the temporary file.\<close>

datatype io_fault = NoFault | OpenFails err | OpenTmpFails err | WriteFails err string | FlushFails err string
  | SyncFails err | CloseFails err | RenameFails err

record FileQueue =
  queueFile :: "string option"
  tmpFile :: "string option"

record QueueConfig =
  qcMaxBytes :: int
  qcRetentionDays :: int

definition DefaultMaxSizeBytes :: int where "DefaultMaxSizeBytes = 10 * 1024 * 1024"

definition NewFileQueue :: "int \<Rightarrow> int \<Rightarrow> FileQueue \<Rightarrow> QueueConfig \<times> FileQueue" where
  "NewFileQueue maxBytes retentionDays q =
     (\<lparr>qcMaxBytes = (if maxBytes \<le> 0 then DefaultMaxSizeBytes else maxBytes), qcRetentionDays = retentionDays\<rparr>,
      q\<lparr>queueFile := (case queueFile q of None \<Rightarrow> Some [] | Some c \<Rightarrow> Some c)\<rparr>)"

text \<open>Empty and corrupt lines are skipped.\<close>

definition decode_lines :: "codec \<Rightarrow> string list \<Rightarrow> DeadEvent list" where
  "decode_lines cd ls =
     List.map_filter (\<lambda>l. if l = [] then None else case unmarshal cd l of Inl _ \<Rightarrow> None | Inr e \<Rightarrow> Some e) ls"

definition readAll :: "codec \<Rightarrow> io_fault \<Rightarrow> FileQueue \<Rightarrow> DeadEvent list result" where
  "readAll cd io q =
     (case queueFile q of
        None \<Rightarrow> Inr []
      | Some content \<Rightarrow>
          (case io of
             OpenFails e \<Rightarrow> Inl (Wrap ''dlq: open: '' e)
           | _ \<Rightarrow>
              (case scan_lines scannerMax content of
                 (ls, True) \<Rightarrow> Inl (Wrap ''dlq: read: '' (Err ''bufio.Scanner: token too long''))
               | (ls, False) \<Rightarrow> Inr (decode_lines cd ls))))"

fun marshal_all :: "codec \<Rightarrow> DeadEvent list \<Rightarrow> string list result" where
  "marshal_all cd [] = Inr []"
| "marshal_all cd (e # es) =
     (case marshal cd e of
        Inl er \<Rightarrow> Inl (Wrap ''dlq: marshal: '' er)
      | Inr raw \<Rightarrow> (case marshal_all cd es of Inl er \<Rightarrow> Inl er | Inr raws \<Rightarrow> Inr (raw # raws)))"

text \<open>The loop that drops the oldest entries, with its running total.\<close>

fun drop_oldest :: "int \<Rightarrow> string list \<Rightarrow> int \<Rightarrow> string list" where
  "drop_oldest maxBytes [] totalBytes = []"
| "drop_oldest maxBytes (r # rs) totalBytes =
     (if totalBytes > maxBytes then drop_oldest maxBytes rs (totalBytes - (int (length r) + 1)) else r # rs)"

definition render :: "string list \<Rightarrow> string" where
  "render raws = concat (map (\<lambda>r. r @ [CHR 0x0A]) raws)"

definition writeAll :: "codec \<Rightarrow> QueueConfig \<Rightarrow> io_fault \<Rightarrow> DeadEvent list \<Rightarrow> FileQueue \<Rightarrow> err option \<times> FileQueue" where
  "writeAll cd qc io entries q =
     (case marshal_all cd entries of
        Inl er \<Rightarrow> (Some er, q)
      | Inr raws \<Rightarrow>
          (let totalBytes = sum_list (map (\<lambda>r. int (length r) + 1) raws);
               kept = drop_oldest (qcMaxBytes qc) raws totalBytes;
               content = render kept
           in case io of
                OpenTmpFails e \<Rightarrow> (Some (Wrap ''dlq: open tmp: '' e), q)
              | WriteFails e part \<Rightarrow> (Some (Wrap ''dlq: write: '' e), q\<lparr>tmpFile := Some part\<rparr>)
              | FlushFails e part \<Rightarrow> (Some (Wrap ''dlq: flush: '' e), q\<lparr>tmpFile := Some part\<rparr>)
              | SyncFails e \<Rightarrow> (Some (Wrap ''dlq: sync: '' e), q\<lparr>tmpFile := Some content\<rparr>)
              | CloseFails e \<Rightarrow> (Some (Wrap ''dlq: close tmp: '' e), q\<lparr>tmpFile := Some content\<rparr>)
              | RenameFails e \<Rightarrow> (Some (Wrap ''dlq: rename: '' e), q\<lparr>tmpFile := Some content\<rparr>)
              | _ \<Rightarrow> (None, \<lparr>queueFile = Some content, tmpFile = None\<rparr>)))"

definition Enqueue ::
  "codec \<Rightarrow> QueueConfig \<Rightarrow> io_fault \<Rightarrow> Time \<Rightarrow> Envelope \<Rightarrow> err \<Rightarrow> FileQueue \<Rightarrow> err option \<times> FileQueue" where
  "Enqueue cd qc io now env cause q =
     (case readAll cd io q of
        Inl er \<Rightarrow> (Some er, q)
      | Inr entries \<Rightarrow>
          writeAll cd qc io
            (upsert entries \<lparr>deID = CloudEventID env, FailedAt = now, Cause = error_text cause,
                             RetryCount = 0, deEnvelope = Some env\<rparr>) q)"

definition List_entries :: "codec \<Rightarrow> io_fault \<Rightarrow> int \<Rightarrow> FileQueue \<Rightarrow> DeadEvent list result" where
  "List_entries cd io limit q =
     (case readAll cd io q of
        Inl er \<Rightarrow> Inl er
      | Inr entries \<Rightarrow> Inr (if 0 < limit \<and> int (length entries) > limit then take (nat limit) entries else entries))"

definition Remove :: "codec \<Rightarrow> QueueConfig \<Rightarrow> io_fault \<Rightarrow> string \<Rightarrow> FileQueue \<Rightarrow> err option \<times> FileQueue" where
  "Remove cd qc io i q =
     (case readAll cd io q of
        Inl er \<Rightarrow> (Some er, q)
      | Inr entries \<Rightarrow> writeAll cd qc io (filter (\<lambda>e. deID e \<noteq> i) entries) q)"

definition Size :: "codec \<Rightarrow> io_fault \<Rightarrow> FileQueue \<Rightarrow> nat result" where
  "Size cd io q = (case readAll cd io q of Inl er \<Rightarrow> Inl er | Inr entries \<Rightarrow> Inr (length entries))"

definition nsPerDay :: int where "nsPerDay = 24 * 3600 * 10 ^ 9"

definition purgeExpired :: "codec \<Rightarrow> QueueConfig \<Rightarrow> io_fault \<Rightarrow> Time \<Rightarrow> FileQueue \<Rightarrow> FileQueue" where
  "purgeExpired cd qc io now q =
     (case readAll cd io q of
        Inl er \<Rightarrow> q
      | Inr entries \<Rightarrow>
          (let cutoff = now - qcRetentionDays qc * nsPerDay;
               kept = filter (\<lambda>e. \<not> FailedAt e < cutoff) entries
           in if length entries - length kept = 0 then q else snd (writeAll cd qc io kept q)))"

text \<open>
  \<^verbatim>\<open>Scan\<close> with a callback that may stop: the callback folds over a state and answers whether to go on,
  stop quietly (\<^verbatim>\<open>ErrStopScan\<close>) or fail.
\<close>

datatype scan_signal = Continue | ErrStopScan | ScanFail err

fun scan_fold :: "codec \<Rightarrow> string list \<Rightarrow> (DeadEvent \<Rightarrow> 'a \<Rightarrow> scan_signal \<times> 'a) \<Rightarrow> 'a \<Rightarrow> (err option + unit) \<times> 'a" where
  "scan_fold cd [] fn a = (Inr (), a)"
| "scan_fold cd (l # ls) fn a =
     (if l = [] then scan_fold cd ls fn a
      else case unmarshal cd l of
        Inl _ \<Rightarrow> scan_fold cd ls fn a
      | Inr e \<Rightarrow>
          (case fn e a of
             (Continue, a') \<Rightarrow> scan_fold cd ls fn a'
           | (ErrStopScan, a') \<Rightarrow> (Inl None, a')
           | (ScanFail er, a') \<Rightarrow> (Inl (Some er), a')))"

definition Scan :: "codec \<Rightarrow> io_fault \<Rightarrow> (DeadEvent \<Rightarrow> 'a \<Rightarrow> scan_signal \<times> 'a) \<Rightarrow> 'a \<Rightarrow> FileQueue \<Rightarrow> err option \<times> 'a" where
  "Scan cd io fn a q =
     (case queueFile q of
        None \<Rightarrow> (None, a)
      | Some content \<Rightarrow>
          (case io of
             OpenFails e \<Rightarrow> (Some (Wrap ''dlq: open: '' e), a)
           | _ \<Rightarrow>
              (case scan_lines scannerMax content of
                 (ls, tooLong) \<Rightarrow>
                   (case scan_fold cd ls fn a of
                      (Inl er, a') \<Rightarrow> (er, a')
                    | (Inr _, a') \<Rightarrow> (if tooLong then Some (Err ''bufio.Scanner: token too long'') else None, a')))))"

section \<open>The file implements the queue\<close>

text \<open>An entry that survives the way through the file.\<close>

definition storable :: "codec \<Rightarrow> DeadEvent \<Rightarrow> bool" where
  "storable cd e \<longleftrightarrow> (\<exists>raw. marshal cd e = Inr raw \<and> unmarshal cd raw = Inr e \<and> raw \<noteq> [] \<and>
     CHR 0x0A \<notin> set raw \<and> last raw \<noteq> CHR 0x0D \<and> length raw < scannerMax)"

definition raw_of :: "codec \<Rightarrow> DeadEvent \<Rightarrow> string" where
  "raw_of cd e = (case marshal cd e of Inl _ \<Rightarrow> [] | Inr raw \<Rightarrow> raw)"

definition entry_size :: "codec \<Rightarrow> DeadEvent \<Rightarrow> nat" where
  "entry_size cd e = Suc (length (raw_of cd e))"

lemma entry_size_fun: "entry_size cd = (\<lambda>e. Suc (length (raw_of cd e)))"
  by (simp add: fun_eq_iff entry_size_def)

lemma storable_raw:
  assumes "storable cd e"
  shows "marshal cd e = Inr (raw_of cd e)" "unmarshal cd (raw_of cd e) = Inr e" "raw_of cd e \<noteq> []"
    "CHR 0x0A \<notin> set (raw_of cd e)" "dropCR (raw_of cd e) = raw_of cd e" "length (raw_of cd e) < scannerMax"
  using assms by (auto simp: storable_def raw_of_def dropCR_def)

lemma marshal_all_storable: "\<forall>e \<in> set es. storable cd e \<Longrightarrow> marshal_all cd es = Inr (map (raw_of cd) es)"
  by (induction es) (auto dest: storable_raw(1))

lemma render_simps [simp]: "render [] = []" "render (r # rs) = r @ CHR 0x0A # render rs"
  by (simp_all add: render_def)

lemma scan_render:
  assumes "\<forall>r \<in> set raws. CHR 0x0A \<notin> set r \<and> dropCR r = r \<and> length r < mx"
  shows "scan_lines mx (render raws) = (raws, False)"
  using assms
proof (induction raws)
  case Nil
  then show ?case by (subst scan_lines.simps) simp
next
  case (Cons r rs)
  have tw: "takeWhile (\<lambda>c. c \<noteq> CHR 0x0A) (r @ CHR 0x0A # render rs) = r"
    using Cons.prems by (simp add: takeWhile_append takeWhile_eq_all_conv [THEN iffD2])
  have "scan_lines mx (render rs) = (rs, False)" using Cons by simp
  with Cons.prems tw show ?case
    by (subst scan_lines.simps) (simp add: Let_def)
qed

lemma decode_render: "\<forall>e \<in> set es. storable cd e \<Longrightarrow> decode_lines cd (map (raw_of cd) es) = es"
  by (induction es) (auto simp: decode_lines_def List.map_filter_def storable_raw)

lemma drop_oldest_compact:
  assumes "0 \<le> n"
  shows "drop_oldest n (map f es) (sum_list (map (\<lambda>e. int (length (f e)) + 1) es)) =
    map f (compact (\<lambda>e. Suc (length (f e))) (nat n) es)"
proof (induction es)
  case (Cons e es)
  have "sum_list (map (\<lambda>e. int (length (f e)) + 1) xs) = int (sum_list (map (\<lambda>e. Suc (length (f e))) xs))" for xs
    by (induction xs) auto
  then have "(sum_list (map (\<lambda>e. int (length (f e)) + 1) (e # es)) > n) \<longleftrightarrow>
      \<not> sum_list (map (\<lambda>e. Suc (length (f e))) (e # es)) \<le> nat n"
    using assms by (simp only:) auto
  with Cons.IH show ?case by (simp add: algebra_simps)
qed simp

text \<open>The relation between a file and the queue it stands for.\<close>

definition holds :: "codec \<Rightarrow> QueueConfig \<Rightarrow> FileQueue \<Rightarrow> DeadEvent list \<Rightarrow> bool" where
  "holds cd qc q es \<longleftrightarrow>
     (case queueFile q of None \<Rightarrow> es = [] | Some c \<Rightarrow> c = render (map (raw_of cd) es)) \<and>
     (\<forall>e \<in> set es. storable cd e) \<and> int (sum_list (map (entry_size cd) es)) \<le> qcMaxBytes qc"

lemma readAll_holds: "holds cd qc q es \<Longrightarrow> \<forall>e. io \<noteq> OpenFails e \<Longrightarrow> readAll cd io q = Inr es"
proof -
  assume h: "holds cd qc q es" and io: "\<forall>e. io \<noteq> OpenFails e"
  have st: "\<forall>e \<in> set es. storable cd e" using h by (simp add: holds_def)
  then have "scan_lines scannerMax (render (map (raw_of cd) es)) = (map (raw_of cd) es, False)"
    by (intro scan_render) (auto simp: storable_raw)
  with h decode_render [OF st] io show ?thesis
    by (auto simp: readAll_def holds_def split: option.splits io_fault.splits)
qed

lemma readAll_fault: "readAll cd (OpenFails e) q = Inr es \<Longrightarrow> holds cd qc q es' \<Longrightarrow> es' = es \<and> queueFile q = None"
  by (auto simp: readAll_def holds_def split: option.splits)

lemma readAll_entries: "holds cd qc q es \<Longrightarrow> readAll cd io q = Inr es' \<Longrightarrow> es' = es"
  using readAll_holds [of cd qc q es io] readAll_fault [of cd _ q es' qc es] by (metis Inr_inject)

lemma writeAll_fault:
  assumes "writeAll cd qc io es q = (Some e, q')"
  shows "queueFile q' = queueFile q"
  using assms by (auto simp: writeAll_def Let_def split: sum.splits io_fault.splits)

lemma writeAll_holds:
  assumes "writeAll cd qc io es q = (None, q')" and "\<forall>e \<in> set es. storable cd e" and "0 \<le> qcMaxBytes qc"
  shows "holds cd qc q' (compact (entry_size cd) (nat (qcMaxBytes qc)) es)"
proof -
  let ?k = "compact (entry_size cd) (nat (qcMaxBytes qc)) es"
  have kept: "drop_oldest (qcMaxBytes qc) (map (raw_of cd) es)
      (sum_list (map (\<lambda>r. int (length r) + 1) (map (raw_of cd) es))) = map (raw_of cd) ?k"
    using drop_oldest_compact [OF assms(3), of "raw_of cd" es] entry_size_fun [of cd] by (simp add: comp_def)
  then have "queueFile q' = Some (render (map (raw_of cd) ?k))"
    using assms(1) marshal_all_storable [OF assms(2)]
    by (auto simp: writeAll_def Let_def split: io_fault.splits)
  moreover obtain pre where "es = pre @ ?k" using compact_suffix by blast
  then have "\<forall>e \<in> set ?k. storable cd e" using assms(2) by (metis Un_iff set_append)
  moreover have "int (sum_list (map (entry_size cd) ?k)) \<le> qcMaxBytes qc"
    using compact_bound [of "entry_size cd" "nat (qcMaxBytes qc)" es] assms(3) by linarith
  ultimately show ?thesis by (simp add: holds_def)
qed

lemma holds_file: "holds cd qc q es \<Longrightarrow> queueFile q' = queueFile q \<Longrightarrow> holds cd qc q' es"
  by (simp add: holds_def)

section \<open>The interface the relay programs against\<close>

text \<open>
  The contract of \<^verbatim>\<open>Queue\<close>, as a simulation of the list of dead events: a failed operation changes
  nothing, a successful \<^verbatim>\<open>Enqueue\<close> updates or appends and may only give up the oldest entries, a
  successful \<^verbatim>\<open>Remove\<close> deletes the entry and nothing else.
\<close>

definition dead_event :: "Time \<Rightarrow> Envelope \<Rightarrow> err \<Rightarrow> DeadEvent" where
  "dead_event now env cause = \<lparr>deID = CloudEventID env, FailedAt = now, Cause = error_text cause,
     RetryCount = 0, deEnvelope = Some env\<rparr>"

locale dead_letter_queue =
  fixes enqueue :: "Time \<Rightarrow> Envelope \<Rightarrow> err \<Rightarrow> 'q \<Rightarrow> err option \<times> 'q"
    and remove :: "string \<Rightarrow> 'q \<Rightarrow> err option \<times> 'q"
    and list :: "int \<Rightarrow> 'q \<Rightarrow> DeadEvent list result"
    and stands_for :: "'q \<Rightarrow> DeadEvent list \<Rightarrow> bool"
    and admissible :: "DeadEvent \<Rightarrow> bool"
  assumes enqueue_fails: "stands_for q es \<Longrightarrow> enqueue t env c q = (Some e, q') \<Longrightarrow> stands_for q' es"
    and enqueue_succeeds: "stands_for q es \<Longrightarrow> \<forall>x \<in> set (upsert es (dead_event t env c)). admissible x \<Longrightarrow>
        enqueue t env c q = (None, q') \<Longrightarrow> \<exists>k. stands_for q' (drop k (upsert es (dead_event t env c)))"
    and remove_fails: "stands_for q es \<Longrightarrow> remove i q = (Some e, q') \<Longrightarrow> stands_for q' es"
    and remove_succeeds: "stands_for q es \<Longrightarrow> remove i q = (None, q') \<Longrightarrow>
        stands_for q' (filter (\<lambda>e. deID e \<noteq> i) es)"
    and list_result: "stands_for q es \<Longrightarrow> list n q = Inr es' \<Longrightarrow> es' = (if 0 < n then take (nat n) es else es)"
begin

lemma remove_then_list:
  assumes "stands_for q es" and "remove i q = (None, q')" and "list 0 q' = Inr es'"
  shows "i \<notin> deID ` set es' \<and> set es' \<subseteq> set es"
  using list_result [OF remove_succeeds [OF assms(1,2)] assms(3)] by auto

end

lemma compact_drop: "\<exists>k. compact sz n es = drop k es"
  using compact_suffix [of es sz n] by (metis append_eq_conv_conj)

lemma Enqueue_holds:
  assumes "holds cd qc q es" and "0 \<le> qcMaxBytes qc"
    and "\<forall>x \<in> set (upsert es (dead_event t env c)). storable cd x"
    and "Enqueue cd qc io t env c q = (None, q')"
  shows "holds cd qc q' (compact (entry_size cd) (nat (qcMaxBytes qc)) (upsert es (dead_event t env c)))"
proof -
  obtain es' where r: "readAll cd io q = Inr es'"
      and w: "writeAll cd qc io (upsert es' (dead_event t env c)) q = (None, q')"
    using assms(4) by (auto simp: Enqueue_def dead_event_def split: sum.splits)
  have "es' = es" by (rule readAll_entries [OF assms(1) r])
  with writeAll_holds [OF w _ assms(2)] assms(3) show ?thesis by simp
qed

lemma writeAll_filter:
  assumes "holds cd qc q es" and "writeAll cd qc io (filter P es) q = (None, q')"
  shows "holds cd qc q' (filter P es)"
proof -
  have st: "\<forall>x \<in> set (filter P es). storable cd x" and b: "int (sum_list (map (entry_size cd) es)) \<le> qcMaxBytes qc"
    using assms(1) by (auto simp: holds_def)
  have "sum_list (map (entry_size cd) (filter P es)) \<le> sum_list (map (entry_size cd) es)"
    by (induction es) auto
  with b have "sum_list (map (entry_size cd) (filter P es)) \<le> nat (qcMaxBytes qc)" "0 \<le> qcMaxBytes qc" by linarith+
  with writeAll_holds [OF assms(2) st] compact_id show ?thesis by metis
qed

lemma Remove_holds:
  assumes "holds cd qc q es" and "Remove cd qc io i q = (None, q')"
  shows "holds cd qc q' (filter (\<lambda>e. deID e \<noteq> i) es)"
proof -
  obtain es' where r: "readAll cd io q = Inr es'"
      and w: "writeAll cd qc io (filter (\<lambda>e. deID e \<noteq> i) es') q = (None, q')"
    using assms(2) by (auto simp: Remove_def split: sum.splits)
  with writeAll_filter [OF assms(1)] readAll_entries [OF assms(1) r] show ?thesis by blast
qed

lemma Enqueue_fails: "Enqueue cd qc io t env c q = (Some e, q') \<Longrightarrow> queueFile q' = queueFile q"
  by (auto simp: Enqueue_def split: sum.splits dest: writeAll_fault)

lemma Remove_fails: "Remove cd qc io i q = (Some e, q') \<Longrightarrow> queueFile q' = queueFile q"
  by (auto simp: Remove_def split: sum.splits dest: writeAll_fault)

lemma FileQueue_is_queue:
  assumes "0 \<le> qcMaxBytes qc"
  shows "dead_letter_queue (Enqueue cd qc io) (Remove cd qc io) (List_entries cd io) (holds cd qc) (storable cd)"
proof
  fix q es t env c e q' i n es'
  show "holds cd qc q es \<Longrightarrow> Enqueue cd qc io t env c q = (Some e, q') \<Longrightarrow> holds cd qc q' es"
    using Enqueue_fails holds_file by blast
  show "holds cd qc q es \<Longrightarrow> Remove cd qc io i q = (Some e, q') \<Longrightarrow> holds cd qc q' es"
    using Remove_fails holds_file by blast
  show "holds cd qc q es \<Longrightarrow> \<forall>x \<in> set (upsert es (dead_event t env c)). storable cd x \<Longrightarrow>
      Enqueue cd qc io t env c q = (None, q') \<Longrightarrow> \<exists>k. holds cd qc q' (drop k (upsert es (dead_event t env c)))"
    using Enqueue_holds [OF _ assms] compact_drop by metis
  show "holds cd qc q es \<Longrightarrow> Remove cd qc io i q = (None, q') \<Longrightarrow> holds cd qc q' (filter (\<lambda>e. deID e \<noteq> i) es)"
    by (rule Remove_holds)
  show "holds cd qc q es \<Longrightarrow> List_entries cd io n q = Inr es' \<Longrightarrow> es' = (if 0 < n then take (nat n) es else es)"
    using readAll_holds [of cd qc q es io] readAll_fault [of cd _ q _ qc es]
    by (cases io) (auto simp: List_entries_def split: sum.splits)
qed

end
