(* ===== verification/Relay_Codec.thy ===== *)
theory Relay_Codec
  imports Go_Json Relay_DLQ
begin

text \<open>
  The JSON coding of events (struct tags of \<^verbatim>\<open>internal/domain/status.go\<close>), envelopes
  (\<^verbatim>\<open>internal/event/event.go\<close>) and dead letter entries (\<^verbatim>\<open>internal/dlq/dlq.go\<close>), and the proof that
  what the relay writes it can read back.

  A struct is a list of fields. Writing emits them in order; reading looks the field of every member
  up by its exact name or else without regard to case, ignores unknown members and fails on a value
  of the wrong type.
\<close>

section \<open>Struct coding\<close>

datatype emitted = Omit | Emit json | Fail

record 'r field =
  fdName :: string
  fdEnc :: "'r \<Rightarrow> emitted"
  fdDec :: "json \<Rightarrow> 'r \<Rightarrow> 'r option"

fun encode_fields :: "'r field list \<Rightarrow> 'r \<Rightarrow> (string \<times> json) list option" where
  "encode_fields [] r = Some []"
| "encode_fields (f # fs) r =
     (case fdEnc f r of
        Fail \<Rightarrow> None
      | Omit \<Rightarrow> encode_fields fs r
      | Emit v \<Rightarrow> map_option (\<lambda>ms. (fdName f, v) # ms) (encode_fields fs r))"

text \<open>Case folding of member names; U+212A and U+017F fold to k and s.\<close>

definition fold_rune :: "nat \<Rightarrow> nat" where
  "fold_rune r = (if 65 \<le> r \<and> r \<le> 90 then r + 32 else if r = 8490 then 107 else if r = 383 then 115 else r)"

definition fold_name :: "string \<Rightarrow> nat list" where
  "fold_name s = map fold_rune (runes s)"

definition find_field :: "'r field list \<Rightarrow> string \<Rightarrow> 'r field option" where
  "find_field fs k =
     (case List.find (\<lambda>f. fdName f = k) fs of
        Some f \<Rightarrow> Some f
      | None \<Rightarrow> List.find (\<lambda>f. fold_name (fdName f) = fold_name k) fs)"

fun decode_members :: "'r field list \<Rightarrow> (string \<times> json) list \<Rightarrow> 'r \<Rightarrow> 'r option" where
  "decode_members fs [] r = Some r"
| "decode_members fs ((k, v) # ms) r =
     (case find_field fs k of
        None \<Rightarrow> decode_members fs ms r
      | Some f \<Rightarrow> (case fdDec f v r of None \<Rightarrow> None | Some r' \<Rightarrow> decode_members fs ms r'))"

definition decode_struct :: "'r field list \<Rightarrow> json \<Rightarrow> 'r \<Rightarrow> 'r option" where
  "decode_struct fs j r = (case j of JObj ms \<Rightarrow> decode_members fs ms r | JNull \<Rightarrow> Some r | _ \<Rightarrow> None)"

definition encode_struct :: "'r field list \<Rightarrow> 'r \<Rightarrow> emitted" where
  "encode_struct fs r = (case encode_fields fs r of None \<Rightarrow> Fail | Some ms \<Rightarrow> Emit (JObj ms))"

text \<open>Reading what was written sets every emitted field in turn.\<close>

fun replay_fields :: "'r field list \<Rightarrow> 'r \<Rightarrow> 'r \<Rightarrow> 'r option" where
  "replay_fields [] r x = Some x"
| "replay_fields (f # fs) r x =
     (case fdEnc f r of
        Emit v \<Rightarrow> (case fdDec f v x of None \<Rightarrow> None | Some x' \<Rightarrow> replay_fields fs r x')
      | _ \<Rightarrow> replay_fields fs r x)"

lemma find_field_self:
  assumes "distinct (map fdName fs)" and "f \<in> set fs"
  shows "find_field fs (fdName f) = Some f"
proof -
  have "List.find (\<lambda>g. fdName g = fdName f) fs = Some f"
    using assms by (induction fs) (auto simp: image_iff)
  then show ?thesis by (simp add: find_field_def)
qed

lemma decode_encode_fields:
  assumes "distinct (map fdName fs)" and "set gs \<subseteq> set fs" and "encode_fields gs r = Some ms"
  shows "decode_members fs ms x = replay_fields gs r x"
  using assms(2,3)
proof (induction gs arbitrary: ms x)
  case (Cons g gs)
  have g: "find_field fs (fdName g) = Some g" using find_field_self [OF assms(1)] Cons.prems(1) by simp
  show ?case
    using Cons g by (cases "fdEnc g r") (auto split: option.splits)
qed simp

section \<open>Kinds of fields\<close>

definition str_field :: "string \<Rightarrow> ('r \<Rightarrow> string) \<Rightarrow> ((string \<Rightarrow> string) \<Rightarrow> 'r \<Rightarrow> 'r) \<Rightarrow> 'r field" where
  "str_field n get upd = \<lparr>fdName = n, fdEnc = \<lambda>r. Emit (JStr (get r)),
     fdDec = \<lambda>j r. case j of JStr s \<Rightarrow> Some (upd (\<lambda>_. s) r) | JNull \<Rightarrow> Some r | _ \<Rightarrow> None\<rparr>"

definition str_omit_field :: "string \<Rightarrow> ('r \<Rightarrow> string) \<Rightarrow> ((string \<Rightarrow> string) \<Rightarrow> 'r \<Rightarrow> 'r) \<Rightarrow> 'r field" where
  "str_omit_field n get upd = (str_field n get upd)\<lparr>fdEnc := \<lambda>r. if get r = '''' then Omit else Emit (JStr (get r))\<rparr>"

definition bool_field :: "string \<Rightarrow> ('r \<Rightarrow> bool) \<Rightarrow> ((bool \<Rightarrow> bool) \<Rightarrow> 'r \<Rightarrow> 'r) \<Rightarrow> 'r field" where
  "bool_field n get upd = \<lparr>fdName = n, fdEnc = \<lambda>r. Emit (JBool (get r)),
     fdDec = \<lambda>j r. case j of JBool b \<Rightarrow> Some (upd (\<lambda>_. b) r) | JNull \<Rightarrow> Some r | _ \<Rightarrow> None\<rparr>"

definition int_field :: "string \<Rightarrow> ('r \<Rightarrow> int) \<Rightarrow> ((int \<Rightarrow> int) \<Rightarrow> 'r \<Rightarrow> 'r) \<Rightarrow> 'r field" where
  "int_field n get upd = \<lparr>fdName = n, fdEnc = \<lambda>r. Emit (JNum (Itoa (get r))),
     fdDec = \<lambda>j r. case j of JNum lit \<Rightarrow> map_option (\<lambda>i. upd (\<lambda>_. i) r) (Atoi lit) | JNull \<Rightarrow> Some r | _ \<Rightarrow> None\<rparr>"

definition int_ptr_field :: "string \<Rightarrow> ('r \<Rightarrow> int option) \<Rightarrow> ((int option \<Rightarrow> int option) \<Rightarrow> 'r \<Rightarrow> 'r) \<Rightarrow> 'r field" where
  "int_ptr_field n get upd = \<lparr>fdName = n,
     fdEnc = \<lambda>r. case get r of None \<Rightarrow> Omit | Some i \<Rightarrow> Emit (JNum (Itoa i)),
     fdDec = \<lambda>j r. case j of JNum lit \<Rightarrow> map_option (\<lambda>i. upd (\<lambda>_. Some i) r) (Atoi lit)
                     | JNull \<Rightarrow> Some (upd (\<lambda>_. None) r) | _ \<Rightarrow> None\<rparr>"

definition time_field :: "string \<Rightarrow> ('r \<Rightarrow> Time) \<Rightarrow> ((Time \<Rightarrow> Time) \<Rightarrow> 'r \<Rightarrow> 'r) \<Rightarrow> 'r field" where
  "time_field n get upd = \<lparr>fdName = n,
     fdEnc = \<lambda>r. case format_rfc3339 (get r) of None \<Rightarrow> Fail | Some s \<Rightarrow> Emit (JStr s),
     fdDec = \<lambda>j r. case j of JStr s \<Rightarrow> map_option (\<lambda>t. upd (\<lambda>_. t) r) (parse_rfc3339 s) | JNull \<Rightarrow> Some r | _ \<Rightarrow> None\<rparr>"

definition struct_field ::
  "string \<Rightarrow> 's field list \<Rightarrow> ('r \<Rightarrow> 's) \<Rightarrow> (('s \<Rightarrow> 's) \<Rightarrow> 'r \<Rightarrow> 'r) \<Rightarrow> 'r field" where
  "struct_field n fs get upd = \<lparr>fdName = n, fdEnc = \<lambda>r. encode_struct fs (get r),
     fdDec = \<lambda>j r. map_option (\<lambda>x. upd (\<lambda>_. x) r) (decode_struct fs j (get r))\<rparr>"

fun encode_all :: "'s field list \<Rightarrow> 's list \<Rightarrow> json list option" where
  "encode_all fs [] = Some []"
| "encode_all fs (x # xs) =
     (case encode_struct fs x of Emit j \<Rightarrow> map_option (\<lambda>js. j # js) (encode_all fs xs) | _ \<Rightarrow> None)"

fun decode_all :: "'s field list \<Rightarrow> 's \<Rightarrow> json list \<Rightarrow> 's list option" where
  "decode_all fs z [] = Some []"
| "decode_all fs z (j # js) =
     (case decode_struct fs j z of None \<Rightarrow> None | Some x \<Rightarrow> map_option (\<lambda>xs. x # xs) (decode_all fs z js))"

definition list_field ::
  "string \<Rightarrow> 's field list \<Rightarrow> 's \<Rightarrow> ('r \<Rightarrow> 's list) \<Rightarrow> (('s list \<Rightarrow> 's list) \<Rightarrow> 'r \<Rightarrow> 'r) \<Rightarrow> 'r field" where
  "list_field n fs z get upd = \<lparr>fdName = n,
     fdEnc = \<lambda>r. if get r = [] then Omit
        else case encode_all fs (get r) of None \<Rightarrow> Fail | Some js \<Rightarrow> Emit (JArr js),
     fdDec = \<lambda>j r. case j of JArr js \<Rightarrow> map_option (\<lambda>xs. upd (\<lambda>_. xs) r) (decode_all fs z js)
                     | JNull \<Rightarrow> Some (upd (\<lambda>_. []) r) | _ \<Rightarrow> None\<rparr>"

definition ptr_field ::
  "string \<Rightarrow> 's field list \<Rightarrow> 's \<Rightarrow> ('r \<Rightarrow> 's option) \<Rightarrow> (('s option \<Rightarrow> 's option) \<Rightarrow> 'r \<Rightarrow> 'r) \<Rightarrow> 'r field" where
  "ptr_field n fs z get upd = \<lparr>fdName = n,
     fdEnc = \<lambda>r. case get r of None \<Rightarrow> Emit JNull | Some x \<Rightarrow> encode_struct fs x,
     fdDec = \<lambda>j r. case j of JNull \<Rightarrow> Some (upd (\<lambda>_. None) r)
                     | _ \<Rightarrow> map_option (\<lambda>x. upd (\<lambda>_. Some x) r) (decode_struct fs j (case get r of None \<Rightarrow> z | Some x \<Rightarrow> x))\<rparr>"

lemmas field_defs = str_field_def str_omit_field_def bool_field_def int_field_def int_ptr_field_def time_field_def
  struct_field_def list_field_def ptr_field_def

section \<open>The relay's structs\<close>

definition repo_fields :: "Repo field list" where
  "repo_fields = [str_field ''owner'' Owner Owner_update, str_field ''name'' RepoName RepoName_update,
     str_field ''id'' RepoID RepoID_update, str_field ''workspace'' Workspace Workspace_update,
     str_field ''project'' Project Project_update, str_field ''org'' Org Org_update]"

definition result_fields :: "Result field list" where
  "result_fields = [str_field ''name'' ResultName ResultName_update, str_field ''value'' ResultValue ResultValue_update]"

definition zero_result :: Result where "zero_result = \<lparr>ResultName = '''', ResultValue = ''''\<rparr>"

definition event_fields :: "Event field list" where
  "event_fields = [
     str_field ''provider'' Provider Provider_update,
     str_field ''resource'' ResourceOf ResourceOf_update,
     str_field ''api_base_url'' APIBaseURL APIBaseURL_update,
     str_field ''run_name'' RunName RunName_update,
     str_field ''run_id'' RunID RunID_update,
     str_field ''namespace'' Namespace Namespace_update,
     str_field ''task_name'' TaskName TaskName_update,
     str_field ''pipeline_name'' PipelineName PipelineName_update,
     str_field ''pipeline_task_name'' PipelineTaskName PipelineTaskName_update,
     str_field ''event_listener_name'' EventListenerName EventListenerName_update,
     str_field ''trigger_name'' TriggerName TriggerName_update,
     str_field ''task_display_name'' TaskDisplayName TaskDisplayName_update,
     str_field ''pipeline_display_name'' PipelineDisplayName PipelineDisplayName_update,
     bool_field ''is_finally_task'' IsFinallyTask IsFinallyTask_update,
     str_field ''scm_event_type'' SCMEventType SCMEventType_update,
     int_field ''task_count'' TaskCount TaskCount_update,
     str_field ''state'' StateOf StateOf_update,
     str_field ''context'' Context Context_update,
     str_field ''description'' Description Description_update,
     str_field ''target_url'' TargetURL TargetURL_update,
     str_field ''commit_sha'' CommitSHA CommitSHA_update,
     struct_field ''repo'' repo_fields RepoOf RepoOf_update,
     int_ptr_field ''issue_number'' IssueNumber IssueNumber_update,
     int_ptr_field ''pr_number'' PRNumber PRNumber_update,
     int_ptr_field ''discussion_number'' DiscussionNumber DiscussionNumber_update,
     str_omit_field ''jira_issue_key'' JiraIssueKey JiraIssueKey_update,
     str_omit_field ''accumulator_group_id'' AccumulatorGroupID AccumulatorGroupID_update,
     list_field ''results'' result_fields zero_result Results Results_update,
     time_field ''started_at'' StartedAt StartedAt_update,
     time_field ''finished_at'' FinishedAt FinishedAt_update]"

definition envelope_fields :: "Envelope field list" where
  "envelope_fields = [str_field ''CloudEventID'' CloudEventID CloudEventID_update,
     str_field ''CloudEventType'' CloudEventType CloudEventType_update,
     str_field ''Source'' Source Source_update,
     struct_field ''Report'' event_fields Report Report_update]"

definition zero_envelope :: Envelope where
  "zero_envelope = \<lparr>CloudEventID = '''', CloudEventType = '''', Source = '''', Report = zero_event\<rparr>"

definition dead_fields :: "DeadEvent field list" where
  "dead_fields = [str_field ''id'' deID deID_update, time_field ''failed_at'' FailedAt FailedAt_update,
     str_field ''cause'' Cause Cause_update, int_field ''retry_count'' RetryCount RetryCount_update,
     ptr_field ''envelope'' envelope_fields zero_envelope deEnvelope deEnvelope_update]"

definition zero_dead :: DeadEvent where
  "zero_dead = \<lparr>deID = '''', FailedAt = 0, Cause = '''', RetryCount = 0, deEnvelope = None\<rparr>"

definition Marshal :: "'r field list \<Rightarrow> 'r \<Rightarrow> string result" where
  "Marshal fs r = (case encode_struct fs r of Emit j \<Rightarrow> Inr (json_print j)
     | _ \<Rightarrow> Inl (Err ''Time.MarshalJSON: year outside of range [0,9999]''))"

definition Unmarshal :: "'r field list \<Rightarrow> 'r \<Rightarrow> string \<Rightarrow> 'r result" where
  "Unmarshal fs z s =
     (case json_parse s of
        None \<Rightarrow> Inl (Err ''invalid JSON'')
      | Some j \<Rightarrow> (case decode_struct fs j z of None \<Rightarrow> Inl (Err ''cannot unmarshal'') | Some r \<Rightarrow> Inr r))"

definition dead_codec :: codec where
  "dead_codec = \<lparr>marshal = Marshal dead_fields, unmarshal = Unmarshal dead_fields zero_dead\<rparr>"

section \<open>Reading back what was written\<close>

text \<open>A value comes back from its own encoding, which is a well-formed document.\<close>

definition roundtrips :: "'r field list \<Rightarrow> 'r \<Rightarrow> 'r \<Rightarrow> bool" where
  "roundtrips fs z r \<longleftrightarrow> (\<exists>ms. encode_struct fs r = Emit (JObj ms) \<and> decode_struct fs (JObj ms) z = Some r \<and>
     wf_json (JObj ms))"

definition wf_field :: "'r \<Rightarrow> 'r field \<Rightarrow> bool" where
  "wf_field r f \<longleftrightarrow> valid_utf8 (fdName f) \<and> (case fdEnc f r of Fail \<Rightarrow> False | Omit \<Rightarrow> True | Emit v \<Rightarrow> wf_json v)"

lemma encode_fields_wf:
  assumes "\<forall>f \<in> set fs. wf_field r f"
  shows "\<exists>ms. encode_fields fs r = Some ms \<and> wf_members ms"
  using assms
proof (induction fs)
  case (Cons f fs)
  then obtain ms where "encode_fields fs r = Some ms" "wf_members ms" by auto
  with Cons.prems show ?case by (auto simp: wf_field_def split: emitted.splits)
qed simp

lemma roundtripsI:
  assumes "distinct (map fdName fs)" and "\<forall>f \<in> set fs. wf_field r f" and "replay_fields fs r z = Some r"
  shows "roundtrips fs z r"
proof -
  obtain ms where ms: "encode_fields fs r = Some ms" "wf_members ms" using encode_fields_wf [OF assms(2)] by blast
  with decode_encode_fields [OF assms(1) order.refl ms(1), of z] assms(3)
  show ?thesis by (auto simp: roundtrips_def encode_struct_def decode_struct_def)
qed

lemma roundtrips_all:
  assumes "\<forall>x \<in> set xs. roundtrips fs z x"
  shows "\<exists>js. encode_all fs xs = Some js \<and> decode_all fs z js = Some xs \<and> wf_elems js"
  using assms
proof (induction xs)
  case (Cons x xs)
  then obtain js where "encode_all fs xs = Some js" "decode_all fs z js = Some xs" "wf_elems js" by auto
  moreover obtain ms where "encode_struct fs x = Emit (JObj ms)" "decode_struct fs (JObj ms) z = Some x" "wf_json (JObj ms)"
    using Cons.prems by (auto simp: roundtrips_def)
  ultimately show ?case by auto
qed simp

text \<open>The events whose encoding is faithful: valid UTF-8, 64-bit numbers, years up to 9999.\<close>

definition int64 :: "int \<Rightarrow> bool" where
  "int64 i = (- (2 ^ 63) \<le> i \<and> i < 2 ^ 63)"

definition valid_time :: "Time \<Rightarrow> bool" where
  "valid_time t = (format_rfc3339 t \<noteq> None)"

definition valid_repo :: "Repo \<Rightarrow> bool" where
  "valid_repo r = list_all valid_utf8 [Owner r, RepoName r, RepoID r, Workspace r, Project r, Org r]"

definition valid_result :: "Result \<Rightarrow> bool" where
  "valid_result r = (valid_utf8 (ResultName r) \<and> valid_utf8 (ResultValue r))"

definition event_strings :: "Event \<Rightarrow> string list" where
  "event_strings e = [Provider e, ResourceOf e, APIBaseURL e, RunName e, RunID e, Namespace e, TaskName e,
     PipelineName e, PipelineTaskName e, EventListenerName e, TriggerName e, TaskDisplayName e,
     PipelineDisplayName e, SCMEventType e, StateOf e, Context e, Description e, TargetURL e, CommitSHA e,
     JiraIssueKey e, AccumulatorGroupID e]"

definition valid_event :: "Event \<Rightarrow> bool" where
  "valid_event e = (list_all valid_utf8 (event_strings e) \<and> int64 (TaskCount e) \<and> valid_repo (RepoOf e) \<and>
     list_all (\<lambda>n. case n of None \<Rightarrow> True | Some i \<Rightarrow> int64 i) [IssueNumber e, PRNumber e, DiscussionNumber e] \<and>
     list_all valid_result (Results e) \<and> valid_time (StartedAt e) \<and> valid_time (FinishedAt e))"

definition valid_envelope :: "Envelope \<Rightarrow> bool" where
  "valid_envelope v = (list_all valid_utf8 [CloudEventID v, CloudEventType v, Source v] \<and> valid_event (Report v))"

definition valid_dead :: "DeadEvent \<Rightarrow> bool" where
  "valid_dead d = (valid_utf8 (deID d) \<and> valid_time (FailedAt d) \<and> valid_utf8 (Cause d) \<and> int64 (RetryCount d) \<and>
     (case deEnvelope d of None \<Rightarrow> True | Some v \<Rightarrow> valid_envelope v))"

lemma valid_digits: "list_all (\<lambda>c. byte c < (128::nat)) (digits_n k n)"
  by (induction k arbitrary: n) auto

lemma valid_strip_zeros: "list_all P s \<Longrightarrow> list_all P (strip_zeros s)"
  by (auto simp: strip_zeros_def list_all_iff dest: set_dropWhileD)

lemma format_valid_utf8: "format_rfc3339 t = Some s \<Longrightarrow> valid_utf8 s"
  by (auto intro!: ascii_valid_utf8 simp: format_rfc3339_def Let_def fraction_def valid_digits valid_strip_zeros split: if_splits prod.splits)

text \<open>Every moment of the first 9990 years or so of the calendar can be written.\<close>

lemma days_before_year_ge: "365 * y \<le> days_before_year (Suc y)"
proof (induction y)
  case (Suc y)
  have "365 \<le> year_len (Suc y)" by (simp add: year_len_def)
  with Suc show ?case by simp
qed simp

lemma valid_timeI:
  assumes "0 \<le> t" and "t < 315328464000000000000"
  shows "valid_time t"
proof -
  let ?n = "nat (t div nsPerSec) div 86400"
  obtain y m d where dt: "date_of_days ?n = (y, m, d)" by (cases "date_of_days ?n")
  have "t div nsPerSec < 315328464000" using assms by (simp add: nsPerSec_def)
  then have n: "?n < 3649635" by linarith
  have "days_before_year y \<le> ?n" using date_of_days_spec [OF dt] by (simp add: days_of_date_def)
  moreover have "365 * (y - 1) \<le> days_before_year y" using days_before_year_ge [of "y - 1"] date_of_days_spec [OF dt] by simp
  ultimately have "y \<le> 9999" using n by linarith
  with assms(1) dt show ?thesis by (simp add: valid_time_def format_rfc3339_def Let_def)
qed

lemma repo_roundtrips: "valid_repo r \<Longrightarrow> roundtrips repo_fields zero_repo r"
  by (rule roundtripsI; cases r)
    (auto simp: repo_fields_def field_defs valid_repo_def wf_field_def zero_repo_def intro: ascii_valid_utf8)

lemma result_roundtrips: "valid_result r \<Longrightarrow> roundtrips result_fields zero_result r"
  by (rule roundtripsI; cases r)
    (auto simp: result_fields_def field_defs valid_result_def wf_field_def zero_result_def intro: ascii_valid_utf8)

text \<open>What each kind of field needs to be read back, so that a struct is done field by field.\<close>

lemma replay_str: "replay_fields (str_field n get upd # fs) r x = replay_fields fs r (upd (\<lambda>_. get r) x)"
  and replay_bool: "replay_fields (bool_field n getb updb # fs) r x = replay_fields fs r (updb (\<lambda>_. getb r) x)"
  by (simp_all add: field_defs)

lemma replay_str_omit:
  "upd (\<lambda>_. '''') x = x \<Longrightarrow> replay_fields (str_omit_field n get upd # fs) r x = replay_fields fs r (upd (\<lambda>_. get r) x)"
  by (simp add: field_defs)

lemma replay_int: "int64 (get r) \<Longrightarrow> replay_fields (int_field n get upd # fs) r x = replay_fields fs r (upd (\<lambda>_. get r) x)"
  by (simp add: field_defs int64_def Atoi_Itoa)

lemma replay_int_ptr:
  assumes "upd (\<lambda>_. None) x = x" and "case get r of None \<Rightarrow> True | Some i \<Rightarrow> int64 i"
  shows "replay_fields (int_ptr_field n get upd # fs) r x = replay_fields fs r (upd (\<lambda>_. get r) x)"
  using assms by (cases "get r") (simp_all add: field_defs int64_def Atoi_Itoa)

lemma replay_time:
  "valid_time (get r) \<Longrightarrow> replay_fields (time_field n get upd # fs) r x = replay_fields fs r (upd (\<lambda>_. get r) x)"
  by (auto simp: field_defs valid_time_def parse_format_rfc3339)

lemma replay_struct:
  "roundtrips gs (get x) (get r) \<Longrightarrow>
   replay_fields (struct_field n gs get upd # fs) r x = replay_fields fs r (upd (\<lambda>_. get r) x)"
  by (auto simp: field_defs roundtrips_def)

lemma replay_list:
  assumes "upd (\<lambda>_. []) x = x" and "\<forall>y \<in> set (get r). roundtrips gs z y"
  shows "replay_fields (list_field n gs z get upd # fs) r x = replay_fields fs r (upd (\<lambda>_. get r) x)"
  using assms roundtrips_all [OF assms(2)] by (cases "get r = []") (auto simp: list_field_def)

lemma replay_ptr:
  assumes "get x = None" and "case get r of None \<Rightarrow> True | Some y \<Rightarrow> roundtrips gs z y"
  shows "replay_fields (ptr_field n gs z get upd # fs) r x = replay_fields fs r (upd (\<lambda>_. get r) x)"
  using assms by (cases "get r") (auto simp: field_defs roundtrips_def)

declare replay_fields.simps(2) [simp del]

lemmas replay_kinds = replay_str replay_bool replay_str_omit replay_int replay_int_ptr replay_time replay_struct
  replay_list replay_ptr

lemma wf_kinds:
  "wf_field r (str_field n get upd) \<longleftrightarrow> valid_utf8 n \<and> valid_utf8 (get r)"
  "wf_field r (str_omit_field n get upd) \<longleftrightarrow> valid_utf8 n \<and> (get r = '''' \<or> valid_utf8 (get r))"
  "wf_field r (bool_field n getb updb) \<longleftrightarrow> valid_utf8 n"
  "wf_field r (int_field n geti updi) \<longleftrightarrow> valid_utf8 n"
  "wf_field r (int_ptr_field n getp updp) \<longleftrightarrow> valid_utf8 n"
  by (auto simp: wf_field_def field_defs split: option.split)

lemma wf_kinds_valid:
  "valid_utf8 n \<Longrightarrow> valid_time (gett r) \<Longrightarrow> wf_field r (time_field n gett updt)"
  "valid_utf8 n \<Longrightarrow> roundtrips gs z' (gets r) \<Longrightarrow> wf_field r (struct_field n gs gets upds)"
  "valid_utf8 n \<Longrightarrow> \<forall>y \<in> set (getl r). roundtrips gs z y \<Longrightarrow> wf_field r (list_field n gs z getl updl)"
  "valid_utf8 n \<Longrightarrow> case geto r of None \<Rightarrow> True | Some y \<Rightarrow> roundtrips gs z y \<Longrightarrow> wf_field r (ptr_field n gs z geto updo)"
  using roundtrips_all [of "getl r" gs z]
  by (auto simp: wf_field_def field_defs valid_time_def format_valid_utf8 roundtrips_def split: option.splits)

lemma event_wf_fields:
  assumes "valid_event e"
  shows "\<forall>f \<in> set event_fields. wf_field e f"
proof -
  have "list_all valid_utf8 (event_strings e)" "roundtrips repo_fields zero_repo (RepoOf e)"
      "\<forall>y \<in> set (Results e). roundtrips result_fields zero_result y" "valid_time (StartedAt e)" "valid_time (FinishedAt e)"
    using assms repo_roundtrips result_roundtrips by (auto simp: valid_event_def list_all_iff)
  then show ?thesis
    by (simp add: event_fields_def event_strings_def wf_kinds wf_kinds_valid(1,3) wf_kinds_valid(2) [where z' = zero_repo]
        ascii_valid_utf8)
qed

lemma event_replay:
  assumes "valid_event e"
  shows "replay_fields event_fields e zero_event = Some e"
proof -
  have "int64 (TaskCount e)" "roundtrips repo_fields zero_repo (RepoOf e)"
      "\<forall>y \<in> set (Results e). roundtrips result_fields zero_result y" "valid_time (StartedAt e)" "valid_time (FinishedAt e)"
      "case IssueNumber e of None \<Rightarrow> True | Some i \<Rightarrow> int64 i" "case PRNumber e of None \<Rightarrow> True | Some i \<Rightarrow> int64 i"
      "case DiscussionNumber e of None \<Rightarrow> True | Some i \<Rightarrow> int64 i"
    using assms repo_roundtrips result_roundtrips by (auto simp: valid_event_def list_all_iff)
  then show ?thesis
    unfolding event_fields_def zero_event_def by (simp add: replay_kinds)
qed

lemma event_fields_distinct: "distinct (map fdName event_fields)"
  by (simp add: event_fields_def field_defs)

lemma event_roundtrips: "valid_event e \<Longrightarrow> roundtrips event_fields zero_event e"
  by (rule roundtripsI [OF event_fields_distinct event_wf_fields event_replay])

lemma envelope_roundtrips:
  assumes "valid_envelope v"
  shows "roundtrips envelope_fields zero_envelope v"
proof (rule roundtripsI)
  have "roundtrips event_fields zero_event (Report v)"
    using event_roundtrips assms by (simp add: valid_envelope_def)
  then show "\<forall>f \<in> set envelope_fields. wf_field v f"
      and "replay_fields envelope_fields v zero_envelope = Some v"
    using assms by (simp_all add: envelope_fields_def wf_kinds wf_kinds_valid(2) [where z' = zero_event] valid_envelope_def
        ascii_valid_utf8 zero_envelope_def replay_kinds)
qed (simp add: envelope_fields_def field_defs)

lemma dead_roundtrips:
  assumes "valid_dead d"
  shows "roundtrips dead_fields zero_dead d"
proof (rule roundtripsI)
  have "case deEnvelope d of None \<Rightarrow> True | Some v \<Rightarrow> roundtrips envelope_fields zero_envelope v"
    using assms envelope_roundtrips by (auto simp: valid_dead_def split: option.splits)
  then show "\<forall>f \<in> set dead_fields. wf_field d f" and "replay_fields dead_fields d zero_dead = Some d"
    using assms by (simp_all add: dead_fields_def wf_kinds wf_kinds_valid valid_dead_def ascii_valid_utf8
        zero_dead_def replay_kinds)
qed (simp add: dead_fields_def field_defs)

lemma Unmarshal_Marshal:
  assumes "roundtrips fs z r"
  shows "\<exists>raw. Marshal fs r = Inr raw \<and> Unmarshal fs z raw = Inr r \<and> raw \<noteq> [] \<and> (\<forall>c \<in> set raw. 32 \<le> byte c)"
proof -
  obtain ms where ms: "encode_struct fs r = Emit (JObj ms)" "decode_struct fs (JObj ms) z = Some r" "wf_json (JObj ms)"
    using assms by (auto simp: roundtrips_def)
  then show ?thesis
    using json_parse_print [OF ms(3)] json_print_printable(1) [OF ms(3)] json_print_nonempty [OF ms(3)]
    by (simp add: Marshal_def Unmarshal_def)
qed

section \<open>The dead letter file\<close>

lemma valid_dead_storable:
  assumes "valid_dead d" and "length (raw_of dead_codec d) < scannerMax"
  shows "storable dead_codec d"
proof -
  obtain raw where raw: "marshal dead_codec d = Inr raw" "unmarshal dead_codec raw = Inr d" "raw \<noteq> []"
      "\<forall>c \<in> set raw. 32 \<le> byte c"
    using Unmarshal_Marshal [OF dead_roundtrips [OF assms(1)]] by (auto simp: dead_codec_def)
  then have "CHR 0x0A \<notin> set raw" "last raw \<noteq> CHR 0x0D" by (fastforce dest: last_in_set)+
  with raw assms(2) show ?thesis by (auto simp: storable_def raw_of_def)
qed

text \<open>The file holds a queue of valid entries, each of which fits a line of the scanner.\<close>

definition dlq_entry :: "DeadEvent \<Rightarrow> bool" where
  "dlq_entry d = (valid_dead d \<and> length (raw_of dead_codec d) < scannerMax)"

lemma dlq_entry_storable: "dlq_entry d \<Longrightarrow> storable dead_codec d"
  by (simp add: dlq_entry_def valid_dead_storable)

lemma writeAll_NoFault:
  "\<forall>e \<in> set es. storable cd e \<Longrightarrow> fst (writeAll cd qc NoFault es q) = None"
  by (simp add: writeAll_def marshal_all_storable Let_def)

lemma Enqueue_NoFault:
  assumes "holds cd qc q es" and "\<forall>x \<in> set (upsert es (dead_event t env c)). storable cd x"
  shows "fst (Enqueue cd qc NoFault t env c q) = None"
proof -
  have "readAll cd NoFault q = Inr es" using readAll_holds [OF assms(1)] by simp
  then show ?thesis using writeAll_NoFault [OF assms(2)] by (simp add: Enqueue_def dead_event_def)
qed

lemma Remove_NoFault:
  assumes "holds cd qc q es"
  shows "fst (Remove cd qc NoFault i q) = None"
proof -
  have "readAll cd NoFault q = Inr es" using readAll_holds [OF assms] by simp
  moreover have "\<forall>e \<in> set (filter (\<lambda>e. deID e \<noteq> i) es). storable cd e" using assms by (simp add: holds_def)
  ultimately show ?thesis using writeAll_NoFault by (simp add: Remove_def)
qed

lemma holds_empty: "0 \<le> qcMaxBytes qc \<Longrightarrow> holds cd qc \<lparr>queueFile = Some [], tmpFile = None\<rparr> []"
  by (simp add: holds_def)

text \<open>The production queue: the default bound of 10 MiB.\<close>

definition default_queue_config :: QueueConfig where
  "default_queue_config = \<lparr>qcMaxBytes = DefaultMaxSizeBytes, qcRetentionDays = 7\<rparr>"

interpretation file_queue: dead_letter_queue "Enqueue dead_codec default_queue_config io"
  "Remove dead_codec default_queue_config io" "List_entries dead_codec io" "holds dead_codec default_queue_config"
  "storable dead_codec" for io
  by (rule FileQueue_is_queue) (simp add: default_queue_config_def DefaultMaxSizeBytes_def)

section \<open>Properties\<close>

text \<open>
  C22 What the dead letter queue stores it can read back: encoding an entry whose strings are valid UTF-8,
  whose numbers fit 64 bits and whose times lie in years up to 9999 as JSON and decoding the text gives
  the same entry, envelope and event included, and the text has no line break.
\<close>

theorem dead_event_roundtrip:
  assumes "valid_dead d"
  shows "\<exists>raw. Marshal dead_fields d = Inr raw \<and> Unmarshal dead_fields zero_dead raw = Inr d \<and>
    CHR 0x0A \<notin> set raw \<and> CHR 0x0D \<notin> set raw"
proof -
  obtain raw where "Marshal dead_fields d = Inr raw" "Unmarshal dead_fields zero_dead raw = Inr d"
      "\<forall>c \<in> set raw. 32 \<le> byte c"
    using Unmarshal_Marshal [OF dead_roundtrips [OF assms]] by blast
  moreover from this(3) have "CHR 0x0A \<notin> set raw" "CHR 0x0D \<notin> set raw" by fastforce+
  ultimately show ?thesis by blast
qed

text \<open>A failed pipeline run, as it is stored; the text has characters that JSON escapes.\<close>

definition demo_dead :: DeadEvent where
  "demo_dead = \<lparr>deID = ''id-1'', FailedAt = 63871234567 * 10 ^ 9, Cause = ''status 422: \"bad\" <ref> & more'', RetryCount = 2,
     deEnvelope = Some \<lparr>CloudEventID = ''id-1'', CloudEventType = ''dev.tekton.event.pipelinerun.failed.v1'', Source = ''/tekton'',
       Report = zero_event\<lparr>Provider := ''github'', ResourceOf := ''pipelinerun'', RunName := ''build-x7'', StateOf := ''failure'', PRNumber := Some 17,
         Results := [\<lparr>ResultName = ''digest'', ResultValue = ''sha256:ab''\<rparr>]\<rparr>\<rparr>\<rparr>"

lemma demo_dead_valid: "valid_dead demo_dead"
  by (simp add: demo_dead_def valid_dead_def valid_envelope_def valid_event_def event_strings_def valid_repo_def
      zero_event_def zero_repo_def valid_result_def int64_def ascii_valid_utf8 valid_timeI)

theorem dead_event_roundtrip_witness:
  "\<exists>raw. Marshal dead_fields demo_dead = Inr raw \<and> Unmarshal dead_fields zero_dead raw = Inr demo_dead \<and>
    CHR 0x0A \<notin> set raw \<and> CHR 0x0D \<notin> set raw"
  by (rule dead_event_roundtrip [OF demo_dead_valid])

text \<open>
  C21 The dead letter file implements the queue of dead events. Storing an event in a file that holds the
  entries \<open>es\<close> never leaves a damaged file, whichever system call fails: on failure the file's content is
  the old one, byte for byte; on success the file holds the entries with the event appended or, if its
  identifier is there already, replaced in place with a higher retry count, less the oldest entries that
  do not fit the size bound, and no more of them than necessary. Without a fault it succeeds.
\<close>

theorem file_queue_enqueue:
  assumes "holds dead_codec qc q es" and "0 \<le> qcMaxBytes qc"
    and "\<forall>x \<in> set (upsert es (dead_event now env cause)). dlq_entry x"
  shows "(\<forall>io e q'. Enqueue dead_codec qc io now env cause q = (Some e, q') \<longrightarrow> queueFile q' = queueFile q) \<and>
    (\<forall>io q'. Enqueue dead_codec qc io now env cause q = (None, q') \<longrightarrow>
      (\<exists>k. holds dead_codec qc q' (drop k (upsert es (dead_event now env cause))) \<and>
        (\<forall>j < k. qcMaxBytes qc <
           int (sum_list (map (entry_size dead_codec) (drop j (upsert es (dead_event now env cause)))))))) \<and>
    fst (Enqueue dead_codec qc NoFault now env cause q) = None"
proof (intro conjI allI impI)
  let ?us = "upsert es (dead_event now env cause)"
  let ?k = "compact (entry_size dead_codec) (nat (qcMaxBytes qc)) ?us"
  have st: "\<forall>x \<in> set ?us. storable dead_codec x" using assms(3) dlq_entry_storable by blast
  show "fst (Enqueue dead_codec qc NoFault now env cause q) = None" by (rule Enqueue_NoFault [OF assms(1) st])
  show "queueFile q' = queueFile q" if "Enqueue dead_codec qc io now env cause q = (Some e, q')" for io e q'
    using Enqueue_fails [OF that] .
  fix io q' assume ok: "Enqueue dead_codec qc io now env cause q = (None, q')"
  note h = Enqueue_holds [OF assms(1,2) st ok]
  obtain pre where pre: "?us = pre @ ?k" using compact_suffix by blast
  have "int (sum_list (map (entry_size dead_codec) (drop j ?us))) > qcMaxBytes qc" if j: "j < length pre" for j
  proof (rule ccontr)
    assume "\<not> ?thesis"
    then have "sum_list (map (entry_size dead_codec) (drop j ?us)) \<le> nat (qcMaxBytes qc)" by linarith
    from compact_longest [OF _ this, of ?us "take j ?us"] have "length (drop j ?us) \<le> length ?k" by simp
    moreover have "length ?us = length pre + length ?k" using pre by (metis length_append)
    ultimately show False using j by simp
  qed
  moreover have "drop (length pre) ?us = ?k" using pre by (metis append_eq_conv_conj)
  ultimately show "\<exists>k. holds dead_codec qc q' (drop k ?us) \<and>
      (\<forall>j < k. qcMaxBytes qc < int (sum_list (map (entry_size dead_codec) (drop j ?us))))"
    using h by (intro exI [of _ "length pre"]) simp
qed

text \<open>The size of a stored entry, from the size of its fields.\<close>

lemma length_format: "format_rfc3339 t = Some s \<Longrightarrow> length s \<le> 30"
proof -
  have strip: "length (strip_zeros x) \<le> length x" for x
    by (metis length_dropWhile_le length_rev strip_zeros_def)
  assume "format_rfc3339 t = Some s"
  then show ?thesis
    using strip [of "digits_n 9 (nat (t mod nsPerSec))"]
    by (auto simp: format_rfc3339_def Let_def fraction_def simp del: digits_n.simps split: if_splits prod.splits)
qed

definition demo_envelope :: Envelope where
  "demo_envelope = the (deEnvelope demo_dead)"

lemma encode_kinds:
  "encode_fields (str_field n get upd # fs) r = map_option (Cons (n, JStr (get r))) (encode_fields fs r)"
  "encode_fields (str_omit_field n get upd # fs) r =
     (if get r = '''' then encode_fields fs r else map_option (Cons (n, JStr (get r))) (encode_fields fs r))"
  "encode_fields (bool_field n getb updb # fs) r = map_option (Cons (n, JBool (getb r))) (encode_fields fs r)"
  "encode_fields (int_field n geti updi # fs) r = map_option (Cons (n, JNum (Itoa (geti r)))) (encode_fields fs r)"
  "encode_fields (int_ptr_field n getp updp # fs) r =
     (case getp r of None \<Rightarrow> encode_fields fs r | Some i \<Rightarrow> map_option (Cons (n, JNum (Itoa i))) (encode_fields fs r))"
  "encode_fields (time_field n gett updt # fs) r =
     (case format_rfc3339 (gett r) of None \<Rightarrow> None | Some s \<Rightarrow> map_option (Cons (n, JStr s)) (encode_fields fs r))"
  "encode_fields (struct_field n gs gets upds # fs) r =
     (case encode_struct gs (gets r) of Emit v \<Rightarrow> map_option (Cons (n, v)) (encode_fields fs r)
        | Omit \<Rightarrow> encode_fields fs r | Fail \<Rightarrow> None)"
  "encode_fields (list_field n gs z getl updl # fs) r =
     (if getl r = [] then encode_fields fs r
      else case encode_all gs (getl r) of None \<Rightarrow> None | Some js \<Rightarrow> map_option (Cons (n, JArr js)) (encode_fields fs r))"
  "encode_fields (ptr_field n gs z geto updo # fs) r =
     (case geto r of None \<Rightarrow> map_option (Cons (n, JNull)) (encode_fields fs r)
        | Some x \<Rightarrow> (case encode_struct gs x of Emit v \<Rightarrow> map_option (Cons (n, v)) (encode_fields fs r)
        | Omit \<Rightarrow> encode_fields fs r | Fail \<Rightarrow> None))"
  by (simp_all add: field_defs split: option.split emitted.split)

declare encode_fields.simps(2) [simp del]

lemma demo_envelope_size:
  "\<exists>j. encode_struct envelope_fields demo_envelope = Emit j \<and> length (json_print j) \<le> 10000"
proof -
  obtain s where s: "format_rfc3339 0 = Some s" "length s \<le> 30"
    using valid_timeI [of 0] length_format by (auto simp: valid_time_def)
  have i: "length (Itoa 0) = 1" "length (Itoa 17) = 2" by (simp_all add: Itoa_def nat_digits.simps)
  define r where "r = Report demo_envelope"
  have "\<exists>j. encode_struct repo_fields zero_repo = Emit j \<and> json_bound j \<le> 500"
    by (simp add: encode_struct_def zero_repo_def repo_fields_def encode_kinds)
  then obtain jr where jr: "encode_struct repo_fields zero_repo = Emit jr" "json_bound jr \<le> 500" by blast
  have "\<exists>js. encode_all result_fields (Results r) = Some js \<and> elems_bound js \<le> 500"
    by (simp add: r_def demo_envelope_def demo_dead_def encode_struct_def result_fields_def encode_kinds)
  then obtain js where js: "encode_all result_fields (Results r) = Some js" "elems_bound js \<le> 500" by blast
  have ne: "Results r \<noteq> []" by (simp add: r_def demo_envelope_def demo_dead_def)
  have r: "r = zero_event\<lparr>Provider := ''github'', ResourceOf := ''pipelinerun'', RunName := ''build-x7'', StateOf := ''failure'', PRNumber := Some 17,
      Results := Results r\<rparr>"
    by (simp add: r_def demo_envelope_def demo_dead_def)
  have "\<exists>ms. encode_fields event_fields r = Some ms \<and> members_bound ms \<le> 5000"
    unfolding event_fields_def
    by (subst r, simp add: encode_kinds ne js(1) zero_event_def jr(1) s(1)) (use js(2) jr(2) s(2) i in simp)
  then obtain ms where ms: "encode_fields event_fields r = Some ms" "members_bound ms \<le> 5000" by blast
  have er: "encode_struct event_fields (Report demo_envelope) = Emit (JObj ms)"
    using ms(1) by (simp add: encode_struct_def r_def)
  have "\<exists>k. encode_struct envelope_fields demo_envelope = Emit k \<and> json_bound k \<le> 10000"
    by (subst encode_struct_def, simp add: envelope_fields_def encode_kinds er)
      (use ms(2) in \<open>simp add: demo_envelope_def demo_dead_def\<close>)
  then show ?thesis using length_json_print(1) le_trans by blast
qed

text \<open>An entry's text around its cause.\<close>

lemma dead_event_size:
  assumes "list_all (\<lambda>c. byte c < (128::nat)) (error_text e)"
  shows "\<exists>k. length (raw_of dead_codec (dead_event 0 demo_envelope e)) = k + length (quote (error_text e)) \<and> k \<le> 11000 \<and>
    valid_dead (dead_event 0 demo_envelope e)"
proof -
  obtain s where s: "format_rfc3339 0 = Some s" "length s \<le> 30"
    using valid_timeI [of 0] length_format by (auto simp: valid_time_def)
  obtain j where j: "encode_struct envelope_fields demo_envelope = Emit j" "length (json_print j) \<le> 10000"
    using demo_envelope_size by blast
  have v: "valid_dead (dead_event 0 demo_envelope e)"
    using demo_dead_valid assms
    by (simp add: demo_envelope_def demo_dead_def valid_dead_def dead_event_def int64_def ascii_valid_utf8 valid_timeI)
  have i: "length (Itoa 0) = 1" by (simp add: Itoa_def nat_digits.simps)
  have c: "CloudEventID demo_envelope = ''id-1''" by (simp add: demo_envelope_def demo_dead_def)
  have enc: "encode_struct dead_fields (dead_event 0 demo_envelope e) = Emit (JObj [(''id'', JStr ''id-1''), (''failed_at'', JStr s),
      (''cause'', JStr (error_text e)), (''retry_count'', JNum (Itoa 0)), (''envelope'', j)])"
    by (subst encode_struct_def) (simp add: dead_fields_def encode_kinds dead_event_def s(1) j(1) c)
  have len: "length (raw_of dead_codec (dead_event 0 demo_envelope e)) =
      2 + (length (quote ''id'') + 1 + length (quote ''id-1'') + 1) + (length (quote ''failed_at'') + 1 + length (quote s) + 1) +
      (length (quote ''cause'') + 1 + length (quote (error_text e)) + 1) + (length (quote ''retry_count'') + 2 + 1) +
      (length (quote ''envelope'') + 1 + length (json_print j))"
    using enc by (simp add: raw_of_def dead_codec_def Marshal_def i)
  show ?thesis
    using v j(2) s(2) length_quote [of s] length_quote [of "''id''"] length_quote [of "''id-1''"] length_quote [of "''failed_at''"]
      length_quote [of "''cause''"] length_quote [of "''retry_count''"] length_quote [of "''envelope''"]
    by (intro exI [of _ "length (raw_of dead_codec (dead_event 0 demo_envelope e)) - length (quote (error_text e))"])
      (simp add: len)
qed

lemma demo_entry: "dlq_entry (dead_event 0 demo_envelope (Err ''status 422''))"
  using dead_event_size [of "Err ''status 422''"] length_quote [of "''status 422''"]
  by (auto simp: dlq_entry_def scannerMax_def)

theorem file_queue_enqueue_witness:
  "let qc = default_queue_config; q = \<lparr>queueFile = Some [], tmpFile = None\<rparr>; e = Err ''status 422'' in
    (\<forall>io er q'. Enqueue dead_codec qc io 0 demo_envelope e q = (Some er, q') \<longrightarrow> queueFile q' = queueFile q) \<and>
    (\<forall>io q'. Enqueue dead_codec qc io 0 demo_envelope e q = (None, q') \<longrightarrow>
      (\<exists>k. holds dead_codec qc q' (drop k (upsert [] (dead_event 0 demo_envelope e))) \<and>
        (\<forall>j < k. qcMaxBytes qc < int (sum_list (map (entry_size dead_codec) (drop j (upsert [] (dead_event 0 demo_envelope e)))))))) \<and>
    fst (Enqueue dead_codec qc NoFault 0 demo_envelope e q) = None"
proof -
  have c: "0 \<le> qcMaxBytes default_queue_config" by (simp add: default_queue_config_def DefaultMaxSizeBytes_def)
  show ?thesis
    unfolding Let_def by (rule file_queue_enqueue [OF holds_empty [OF c] c]) (simp add: demo_entry)
qed

text \<open>
  C35 Retention: purging a file that holds the entries \<open>es\<close> leaves exactly those that failed within the
  last \<^verbatim>\<open>retentionDays\<close> days, in their order; when a system call fails, the entries are all still there.
\<close>

theorem purgeExpired_keeps_recent:
  assumes "holds dead_codec qc q es"
  shows "holds dead_codec qc (purgeExpired dead_codec qc NoFault now q)
      (filter (\<lambda>e. now - qcRetentionDays qc * nsPerDay \<le> FailedAt e) es) \<and>
    (\<forall>io. holds dead_codec qc (purgeExpired dead_codec qc io now q) es \<or>
      holds dead_codec qc (purgeExpired dead_codec qc io now q)
        (filter (\<lambda>e. now - qcRetentionDays qc * nsPerDay \<le> FailedAt e) es))"
proof -
  let ?P = "\<lambda>e. now - qcRetentionDays qc * nsPerDay \<le> FailedAt e"
  let ?fs = "filter ?P es"
  have P: "(\<lambda>e. \<not> FailedAt e < now - qcRetentionDays qc * nsPerDay) = ?P" by auto
  have full: "length es - length ?fs = 0 \<Longrightarrow> ?fs = es"
    using length_filter_less [of _ es ?P] by (auto simp: filter_id_conv)
  have st: "\<forall>e \<in> set ?fs. storable dead_codec e" using assms by (simp add: holds_def)
  have written: "holds dead_codec qc q' (if er = None then ?fs else es)" if "writeAll dead_codec qc io ?fs q = (er, q')" for io er q'
    using writeAll_filter [OF assms] writeAll_fault holds_file [OF assms] that by (cases er) auto
  obtain q0 where "writeAll dead_codec qc NoFault ?fs q = (None, q0)"
    using writeAll_NoFault [OF st, of qc q] by (metis prod.collapse)
  with written [OF this] readAll_holds [OF assms, of NoFault] full assms
  have 1: "holds dead_codec qc (purgeExpired dead_codec qc NoFault now q) ?fs"
    by (auto simp: purgeExpired_def Let_def P)
  have 2: "holds dead_codec qc (purgeExpired dead_codec qc io now q) es \<or> holds dead_codec qc (purgeExpired dead_codec qc io now q) ?fs" for io
  proof (cases "readAll dead_codec io q")
    case (Inr es')
    obtain er q' where w: "writeAll dead_codec qc io ?fs q = (er, q')" by fastforce
    from Inr written [OF w] w readAll_entries [OF assms Inr] assms show ?thesis
      by (cases er) (simp_all add: purgeExpired_def Let_def P)
  qed (use assms in \<open>simp add: purgeExpired_def\<close>)
  from 1 2 show ?thesis by blast
qed

theorem purgeExpired_keeps_recent_witness:
  "let d = dead_event 0 demo_envelope (Err ''status 422'');
       q = \<lparr>queueFile = Some (render [raw_of dead_codec d]), tmpFile = None\<rparr>; now = 8 * nsPerDay
   in holds dead_codec default_queue_config (purgeExpired dead_codec default_queue_config NoFault now q) []"
proof -
  let ?d = "dead_event 0 demo_envelope (Err ''status 422'')"
  have len: "length (raw_of dead_codec ?d) < 12000"
    using dead_event_size [of "Err ''status 422''"] length_quote [of "''status 422''"] by auto
  have "holds dead_codec default_queue_config \<lparr>queueFile = Some (render [raw_of dead_codec ?d]), tmpFile = None\<rparr> [?d]"
    using demo_entry len
    by (simp add: holds_def dlq_entry_storable entry_size_def default_queue_config_def DefaultMaxSizeBytes_def)
  from purgeExpired_keeps_recent [OF this, of "8 * nsPerDay"] show ?thesis
    by (simp add: Let_def default_queue_config_def dead_event_def nsPerDay_def)
qed

text \<open>
  An entry whose line does not fit the reader's buffer of 4 MiB is accepted, and from then on every
  operation on the queue fails: no entry can be listed, counted, removed or added, and purging changes
  nothing. The default bound on the file, 10 MiB, does not exclude such an entry.
\<close>

theorem oversized_entry_blocks_queue:
  assumes "queueFile q = Some []" and "0 \<le> qcMaxBytes qc"
    and "valid_dead (dead_event now env cause)"
    and "scannerMax \<le> length (raw_of dead_codec (dead_event now env cause))"
    and "int (length (raw_of dead_codec (dead_event now env cause))) < qcMaxBytes qc"
  shows "case Enqueue dead_codec qc NoFault now env cause q of (er, q') \<Rightarrow>
    er = None \<and> (\<forall>n. \<exists>e. List_entries dead_codec NoFault n q' = Inl e) \<and> (\<exists>e. Size dead_codec NoFault q' = Inl e) \<and>
    (\<forall>i. \<exists>e. Remove dead_codec qc NoFault i q' = (Some e, q')) \<and>
    (\<forall>t v c. \<exists>e. Enqueue dead_codec qc NoFault t v c q' = (Some e, q')) \<and>
    (\<forall>t. purgeExpired dead_codec qc NoFault t q' = q')"
proof -
  let ?d = "dead_event now env cause"
  obtain raw where raw: "marshal dead_codec ?d = Inr raw" "raw \<noteq> []" "\<forall>c \<in> set raw. 32 \<le> byte c"
    using Unmarshal_Marshal [OF dead_roundtrips [OF assms(3)]] by (auto simp: dead_codec_def)
  have rd: "readAll dead_codec NoFault q = Inr []"
    using assms(1) by (simp add: readAll_def scan_lines.simps decode_lines_def List.map_filter_def)
  define q' where "q' = \<lparr>queueFile = Some (raw @ [CHR 0x0A]), tmpFile = None\<rparr>"
  have "\<not> int (length raw) + 1 > qcMaxBytes qc" using assms(5) raw(1) by (simp add: raw_of_def)
  then have enq: "Enqueue dead_codec qc NoFault now env cause q = (None, q')"
    using rd raw(1) by (simp add: Enqueue_def dead_event_def [symmetric] writeAll_def Let_def q'_def)
  have "CHR 0x0A \<notin> set raw" using raw(3) by fastforce
  then have "takeWhile (\<lambda>c. c \<noteq> CHR 0x0A) (raw @ [CHR 0x0A]) = raw"
    by (simp add: takeWhile_append takeWhile_eq_all_conv [THEN iffD2])
  moreover have "scannerMax \<le> length raw" using assms(4) raw(1) by (simp add: raw_of_def)
  ultimately have "readAll dead_codec NoFault q' = Inl (Wrap ''dlq: read: '' (Err ''bufio.Scanner: token too long''))"
    by (simp add: readAll_def q'_def scan_lines.simps)
  with enq show ?thesis
    by (simp add: List_entries_def Size_def Remove_def Enqueue_def purgeExpired_def)
qed

text \<open>An error message of 4 MiB.\<close>

lemma quote_body_plain: "quote_body (replicate n (CHR ''x'')) = replicate n (CHR ''x'')"
  by (induction n) (simp_all add: quote_body.simps(2) escape_ascii_def)

theorem oversized_entry_blocks_queue_witness:
  "let e = Err (replicate 4194304 (CHR ''x'')); q = \<lparr>queueFile = Some [], tmpFile = None\<rparr>; qc = default_queue_config in
   case Enqueue dead_codec qc NoFault 0 demo_envelope e q of (er, q') \<Rightarrow>
    er = None \<and> (\<forall>n. \<exists>e. List_entries dead_codec NoFault n q' = Inl e) \<and> (\<exists>e. Size dead_codec NoFault q' = Inl e) \<and>
    (\<forall>i. \<exists>e. Remove dead_codec qc NoFault i q' = (Some e, q')) \<and>
    (\<forall>t v c. \<exists>e. Enqueue dead_codec qc NoFault t v c q' = (Some e, q')) \<and>
    (\<forall>t. purgeExpired dead_codec qc NoFault t q' = q')"
proof -
  define n :: nat where "n = 4194304"
  obtain k where k: "length (raw_of dead_codec (dead_event 0 demo_envelope (Err (replicate n (CHR ''x''))))) = k + (n + 2)"
      "k \<le> 11000" "valid_dead (dead_event 0 demo_envelope (Err (replicate n (CHR ''x''))))"
    using dead_event_size [of "Err (replicate n (CHR ''x''))"] quote_body_plain [of n]
    by (auto simp: quote_def list_all_iff)
  show ?thesis
    unfolding Let_def n_def [symmetric]
    by (rule oversized_entry_blocks_queue [OF _ _ k(3)])
      (use k n_def in \<open>simp_all add: scannerMax_def default_queue_config_def DefaultMaxSizeBytes_def\<close>)
qed

end
