(* ===== verification/Relay_Middleware.thy ===== *)
theory Relay_Middleware
  imports Relay_Domain Go_Time "HOL-Library.Multiset"
begin

text \<open>
  Package \<^verbatim>\<open>internal/http/middleware\<close>: authentication (HMAC signature, bearer token, timestamp
  freshness) and the per-source rate limiter.

  The HMAC function and the token bucket of \<^verbatim>\<open>x/time/rate\<close> are arguments. 64-bit durations wrap and
  saturate as in the source.
\<close>

section \<open>Requests\<close>

record Request =
  Method :: string
  RemoteAddr :: string
  Header :: "(string, string) gomap"
  Body :: string

definition header :: "Request \<Rightarrow> string \<Rightarrow> string" where
  "header r k = gomap_str (Header r) k"

section \<open>Authentication\<close>

definition DefaultTimestampTolerance :: int where "DefaultTimestampTolerance = 5 * 60 * 10 ^ 9"

definition timestampFresh :: "Time \<Rightarrow> Request \<Rightarrow> int \<Rightarrow> bool" where
  "timestampFresh now r tolerance =
     (let raw = header r ''X-Webhook-Timestamp'' in
      if raw = '''' then False
      else case Atoi raw of
        None \<Rightarrow> False
      | Some secs \<Rightarrow>
          (let delta = time_Sub now (time_Unix secs);
               delta' = (if delta < 0 then wrap64 (- delta) else delta)
           in delta' \<le> tolerance))"

definition hex_nibble :: "nat \<Rightarrow> char" where
  "hex_nibble n = (if n < 10 then char_of (48 + n) else char_of (87 + n))"

definition EncodeToString :: "string \<Rightarrow> string" where
  "EncodeToString s = concat (map (\<lambda>c. [hex_nibble (of_char c div 16), hex_nibble (of_char c mod 16)]) s)"

text \<open>The argument \<open>hmac\<close> maps the key and the message to the HMAC-SHA256 digest.\<close>

definition validateHMAC :: "(string \<Rightarrow> string \<Rightarrow> string) \<Rightarrow> Request \<Rightarrow> string \<Rightarrow> bool" where
  "validateHMAC hmac r secret =
     (let signature = header r ''X-Hub-Signature-256'' in
      if signature = '''' then False
      else signature = ''sha256='' @ EncodeToString (hmac secret (Body r)))"

text \<open>\<^verbatim>\<open>strings.SplitN(auth, " ", 2)\<close> and \<^verbatim>\<open>strings.EqualFold(_, "Bearer")\<close>: none of the letters has a
  non-ASCII case variant.\<close>

definition split_space :: "string \<Rightarrow> string list" where
  "split_space s = (if CHR '' '' \<in> set s
     then [takeWhile (\<lambda>c. c \<noteq> CHR '' '') s, tl (dropWhile (\<lambda>c. c \<noteq> CHR '' '') s)] else [s])"

definition validateBearer :: "Request \<Rightarrow> string \<Rightarrow> bool" where
  "validateBearer r expectedToken =
     (let auth = header r ''Authorization'' in
      if auth = '''' then False
      else (let parts = split_space auth in
        if length parts \<noteq> 2 \<or> map ascii_lower (parts ! 0) \<noteq> ''bearer'' then False
        else parts ! 1 = expectedToken))"

record AuthConfig =
  AuthTypeOf :: string
  Secret :: string
  ValidateTimestamp :: bool
  TimestampTolerance :: int

text \<open>What a request gets: the handler's answer, or a refusal with its status code.\<close>

datatype 'a response = Refused int | Served 'a

definition AuthMiddleware ::
  "(string \<Rightarrow> string \<Rightarrow> string) \<Rightarrow> AuthConfig \<Rightarrow>
   (Time \<Rightarrow> (Request \<Rightarrow> 'a response) \<Rightarrow> Request \<Rightarrow> 'a response) result" where
  "AuthMiddleware hmac cfg =
     (let v = (if AuthTypeOf cfg = ''hmac-sha256'' then Some (validateHMAC hmac)
               else if AuthTypeOf cfg = ''bearer'' then Some validateBearer else None)
      in case v of
           None \<Rightarrow> Inl (Err (''unsupported auth type: '' @ AuthTypeOf cfg))
         | Some validate \<Rightarrow>
             (let tolerance = (if TimestampTolerance cfg \<le> 0 then DefaultTimestampTolerance else TimestampTolerance cfg)
              in Inr (\<lambda>now next r.
                   if ValidateTimestamp cfg \<and> \<not> timestampFresh now r tolerance then Refused 401
                   else if \<not> validate r (Secret cfg) then Refused 401
                   else next r)))"

section \<open>Rate limiter\<close>

text \<open>A token bucket of the package \<^verbatim>\<open>x/time/rate\<close>.\<close>

record 'l limiter_ops =
  NewLimiter :: 'l
  AllowAt :: "Time \<Rightarrow> 'l \<Rightarrow> bool \<times> 'l"

type_synonym 'l RateLimiter = "(string, 'l \<times> Time) gomap"

definition maxKeyLength :: nat where "maxKeyLength = 256"
definition maxRateLimiterEntries :: nat where "maxRateLimiterEntries = 10000"
definition rateLimiterTTL :: int where "rateLimiterTTL = 5 * 60 * 10 ^ 9"

definition limiter_key :: "string \<Rightarrow> string" where
  "limiter_key key =
     (let k = (if length key > maxKeyLength then take maxKeyLength key else key)
      in if k = '''' then ''__fallback__'' else k)"

text \<open>
  \<^verbatim>\<open>getLimiter\<close> followed by \<^verbatim>\<open>Allow\<close> on the bucket it returns. A bucket in the table is shared by
  reference, so its new state is kept; the bucket returned when the table is full is in no table.
\<close>

definition allow_request :: "'l limiter_ops \<Rightarrow> Time \<Rightarrow> string \<Rightarrow> 'l RateLimiter \<Rightarrow> bool \<times> 'l RateLimiter" where
  "allow_request ops now key0 rl =
     (let key = limiter_key key0 in
      case map_of rl key of
        Some (l, seen) \<Rightarrow> (case AllowAt ops now l of (ok, l') \<Rightarrow> (ok, AList.update key (l', now) rl))
      | None \<Rightarrow>
          if length rl \<ge> maxRateLimiterEntries then (fst (AllowAt ops now (NewLimiter ops)), rl)
          else (case AllowAt ops now (NewLimiter ops) of (ok, l') \<Rightarrow> (ok, AList.update key (l', now) rl)))"

definition evictStale :: "Time \<Rightarrow> 'l RateLimiter \<Rightarrow> 'l RateLimiter" where
  "evictStale now rl = filter (\<lambda>(k, l, seen). \<not> seen < now - rateLimiterTTL) rl"

text \<open>\<^verbatim>\<open>net.SplitHostPort\<close>: the host part, or None for an error.\<close>

definition SplitHostPort :: "string \<Rightarrow> string option" where
  "SplitHostPort hp =
     (if CHR '':'' \<notin> set hp then None
      else
        (let afterLast = rev (takeWhile (\<lambda>c. c \<noteq> CHR '':'') (rev hp));
             i = length hp - length afterLast - 1
         in if HasPrefix hp ''['' then
              (case Index hp '']'' of
                 None \<Rightarrow> None
               | Some e \<Rightarrow>
                   if e + 1 \<noteq> i then None
                   else if CHR ''['' \<in> set (drop 1 hp) \<or> CHR '']'' \<in> set (drop (e + 1) hp) then None
                   else Some (take (e - 1) (drop 1 hp)))
            else
              (let host = take i hp
               in if CHR '':'' \<in> set host then None
                  else if CHR ''['' \<in> set hp \<or> CHR '']'' \<in> set hp then None
                  else Some host)))"

definition rateLimitIdentity :: "Request \<Rightarrow> string" where
  "rateLimitIdentity r = (case SplitHostPort (RemoteAddr r) of None \<Rightarrow> RemoteAddr r | Some h \<Rightarrow> h)"

definition RateLimit_Middleware ::
  "'l limiter_ops \<Rightarrow> Time \<Rightarrow> (Request \<Rightarrow> 'a response) \<Rightarrow> Request \<Rightarrow> 'l RateLimiter \<Rightarrow> 'a response \<times> 'l RateLimiter" where
  "RateLimit_Middleware ops now next r rl =
     (case allow_request ops now (rateLimitIdentity r) rl of
        (False, rl') \<Rightarrow> (Refused 429, rl')
      | (True, rl') \<Rightarrow> (next r, rl'))"

section \<open>Payload redaction\<close>

definition sensitivePayloadKeys :: "string list" where
  "sensitivePayloadKeys = [''token'', ''secret'', ''password'', ''api_key'', ''apiKey'', ''webhook_url'',
     ''webhookUrl'', ''webhookURL'', ''integration_key'', ''integrationKey'', ''app_password'', ''appPassword'']"

definition maxRedactPayloadSize :: nat where "maxRedactPayloadSize = 1048576"

definition redact_variants :: "string \<Rightarrow> string list" where
  "redact_variants key = [''\"'' @ key @ ''\":'', ''\"'' @ key @ ''\" :'', ''\"'' @ key @ ''\": '']"

text \<open>One step of the loop: the first occurrence of the variant, when a string value follows.\<close>

definition redact_one :: "string \<Rightarrow> string \<Rightarrow> string" where
  "redact_one variant out =
     (case Index out variant of
        None \<Rightarrow> out
      | Some idx \<Rightarrow>
          (let colonIdx = idx + length variant;
               start = colonIdx + length (takeWhile (\<lambda>c. c = CHR '' '') (drop colonIdx out))
           in if length out \<le> start then out
              else if out ! start = CHR 0x22 then
                (case Index (drop (start + 1) out) [CHR 0x22] of
                   None \<Rightarrow> out
                 | Some e \<Rightarrow> take (start + 1) out @ ''[REDACTED]'' @ drop (e + start + 1) out)
              else out))"

text \<open>The keys are visited in the order the map iteration yields, the argument \<open>keys\<close>.\<close>

definition redactPayload :: "string list \<Rightarrow> string \<Rightarrow> string" where
  "redactPayload keys data =
     (if length data > maxRedactPayloadSize then data
      else fold redact_one (concat (map redact_variants keys)) data)"

section \<open>Lemmas\<close>

definition limiter_inv :: "'l RateLimiter \<Rightarrow> bool" where
  "limiter_inv rl \<longleftrightarrow> length rl \<le> maxRateLimiterEntries \<and> distinct (map fst rl) \<and>
     (\<forall>k \<in> fst ` set rl. k \<noteq> '''' \<and> length k \<le> maxKeyLength)"

lemma limiter_key_bounds: "limiter_key k \<noteq> '''' \<and> length (limiter_key k) \<le> maxKeyLength"
  by (simp add: limiter_key_def Let_def maxKeyLength_def)

lemma allow_request_inv:
  assumes "limiter_inv rl"
  shows "limiter_inv (snd (allow_request ops now k rl))"
proof -
  let ?k = "limiter_key k"
  have new: "limiter_inv (AList.update ?k x rl)" if "?k \<in> fst ` set rl \<or> length rl < maxRateLimiterEntries" for x
  proof -
    have "length (AList.update ?k x rl) \<le> maxRateLimiterEntries"
      using that assms gomap_length_set_present [of ?k rl x] gomap_length_set_absent [of ?k rl x]
      by (cases "?k \<in> fst ` set rl") (auto simp: limiter_inv_def)
    with assms limiter_key_bounds [of k] show ?thesis
      by (auto simp: limiter_inv_def gomap_keys_set)
  qed
  show ?thesis
  proof (cases "map_of rl ?k")
    case None
    then show ?thesis using assms new
      by (auto simp: allow_request_def Let_def split: prod.split)
  next
    case (Some ls)
    then have "?k \<in> fst ` set rl" by (force dest: map_of_SomeD)
    with Some new show ?thesis
      by (auto simp: allow_request_def Let_def split: prod.splits)
  qed
qed

lemma evictStale_inv: "limiter_inv rl \<Longrightarrow> limiter_inv (evictStale now rl)"
  by (auto simp: limiter_inv_def evictStale_def distinct_map_filter intro: order_trans [OF length_filter_le])

section \<open>Properties\<close>

text \<open>
  The timestamp check does what it is meant to do for every timestamp whose distance from the
  server's clock fits a 64-bit duration (292 years): the request is fresh exactly when the distance,
  in either direction, is at most the tolerance; a missing or unparsable header is never fresh.
\<close>

theorem timestampFresh_window:
  assumes "Atoi (header r ''X-Webhook-Timestamp'') = Some secs"
    and "abs (now - (secs + unixToInternal) * 10 ^ 9) \<le> maxDuration"
    and "secs + unixToInternal < 2 ^ 63"
  shows "timestampFresh now r tolerance \<longleftrightarrow> abs (now - (secs + unixToInternal) * 10 ^ 9) \<le> tolerance"
proof -
  have ne: "header r ''X-Webhook-Timestamp'' \<noteq> ''''"
    using assms(1) by (auto simp: Atoi_def Let_def)
  have "- (2 ^ 63) \<le> secs" using Atoi_range [OF assms(1)] by simp
  then have u: "time_Unix secs = (secs + unixToInternal) * 10 ^ 9"
    using assms(3) by (simp add: time_Unix_def wrap64_id unixToInternal_def)
  define d where "d = now - (secs + unixToInternal) * 10 ^ 9"
  have d: "abs d \<le> maxDuration" using assms(2) by (simp add: d_def)
  then have "time_Sub now (time_Unix secs) = d"
    unfolding u time_Sub_def d_def [symmetric] by auto
  moreover have "d < 0 \<Longrightarrow> wrap64 (- d) = - d"
    using d by (intro wrap64_id) auto
  ultimately show ?thesis
    unfolding timestampFresh_def Let_def d_def [symmetric] using assms(1) ne by auto
qed

definition demo_request :: "string \<Rightarrow> Request" where
  "demo_request ts = \<lparr>Method = ''POST'', RemoteAddr = ''10.0.0.1:4711'',
     Header = [(''X-Webhook-Timestamp'', ts)], Body = ''x''\<rparr>"

text \<open>15 November 2023, 22:13:20 UTC.\<close>

definition demo_now :: Time where "demo_now = (1700086400 + unixToInternal) * 10 ^ 9"

theorem timestampFresh_window_witness:
  "timestampFresh demo_now (demo_request ''1700086300'') (60 * 10 ^ 9) \<longleftrightarrow>
     abs (demo_now - (1700086300 + unixToInternal) * 10 ^ 9) \<le> 60 * 10 ^ 9"
proof (rule timestampFresh_window)
  show "Atoi (header (demo_request ''1700086300'') ''X-Webhook-Timestamp'') = Some 1700086300"
    by (simp add: demo_request_def header_def gomap_str_def Atoi_def Let_def is_digit_def)
qed (simp_all add: demo_now_def unixToInternal_def)

text \<open>
  Beyond that range the check is defeated: a timestamp more than 292 years in the future makes the
  difference saturate at the smallest duration, whose negation is itself, so the request is fresh for
  every tolerance.
\<close>

theorem timestampFresh_far_future:
  assumes "Atoi (header r ''X-Webhook-Timestamp'') = Some secs"
    and "secs + unixToInternal < 2 ^ 63"
    and "2 ^ 63 < (secs + unixToInternal) * 10 ^ 9 - now" and "0 < tolerance"
  shows "timestampFresh now r tolerance"
proof -
  have ne: "header r ''X-Webhook-Timestamp'' \<noteq> ''''"
    using assms(1) by (auto simp: Atoi_def Let_def)
  have "- (2 ^ 63) \<le> secs" using Atoi_range [OF assms(1)] by simp
  then have u: "time_Unix secs = (secs + unixToInternal) * 10 ^ 9"
    using assms(2) by (simp add: time_Unix_def wrap64_id unixToInternal_def)
  have "time_Sub now (time_Unix secs) = minDuration"
    unfolding u time_Sub_def using assms(3) by simp
  moreover have "wrap64 (- minDuration) = minDuration" by (simp add: wrap64_def)
  ultimately show ?thesis
    using assms(1,4) ne by (simp add: timestampFresh_def Let_def)
qed

theorem timestampFresh_far_future_witness:
  "timestampFresh demo_now (demo_request ''99999999999'') (300 * 10 ^ 9)"
proof (rule timestampFresh_far_future)
  show "Atoi (header (demo_request ''99999999999'') ''X-Webhook-Timestamp'') = Some 99999999999"
    by (simp add: demo_request_def header_def gomap_str_def Atoi_def Let_def is_digit_def)
qed (simp_all add: demo_now_def unixToInternal_def)

text \<open>
  C40 The rate limiter's table never exceeds 10000 sources, each key is non-empty and at most 256 bytes
  long, and this holds after any request and any eviction. When the table is full, a source that is not
  in it gets a new bucket on every request that is kept nowhere, so with buckets that allow a first
  request none of its requests is refused, however many it sends.
\<close>

theorem rate_limiter_bounded_but_open_when_full:
  "(limiter_inv rl \<longrightarrow> limiter_inv (snd (allow_request ops now k rl)) \<and> limiter_inv (evictStale now rl)) \<and>
   (map_of rl (limiter_key k) = None \<and> length rl = maxRateLimiterEntries \<and> (\<forall>t. fst (AllowAt ops t (NewLimiter ops))) \<longrightarrow>
      (\<forall>t. allow_request ops t k rl = (True, rl)))"
proof (intro conjI impI)
  assume "limiter_inv rl"
  then show "limiter_inv (snd (allow_request ops now k rl))" and "limiter_inv (evictStale now rl)"
    by (rule allow_request_inv, intro evictStale_inv)
next
  assume "map_of rl (limiter_key k) = None \<and> length rl = maxRateLimiterEntries \<and>
    (\<forall>t. fst (AllowAt ops t (NewLimiter ops)))"
  then show "\<forall>t. allow_request ops t k rl = (True, rl)"
    by (simp add: allow_request_def Let_def)
qed

definition bucket_of_one :: "nat limiter_ops" where
  "bucket_of_one = \<lparr>NewLimiter = 1, AllowAt = \<lambda>t n. (0 < n, n - 1)\<rparr>"

theorem rate_limiter_bounded_but_open_when_full_witness:
  "\<forall>t. allow_request bucket_of_one t ''10.0.0.9'' (replicate 10000 (''10.0.0.1'', 0, 5)) =
     (True, replicate 10000 (''10.0.0.1'', 0, 5))"
proof -
  have "limiter_key ''10.0.0.9'' = ''10.0.0.9''" by code_simp
  then have "map_of (replicate 10000 (''10.0.0.1'', 0 :: nat, 5 :: Time)) (limiter_key ''10.0.0.9'') = None"
    by (simp add: map_of_eq_None_iff)
  with rate_limiter_bounded_but_open_when_full [of "replicate 10000 (''10.0.0.1'', 0, 5)" bucket_of_one 0 "''10.0.0.9''"]
  show ?thesis by (simp add: maxRateLimiterEntries_def bucket_of_one_def)
qed

lemma Index_quote:
  assumes "c \<notin> set v"
  shows "Index (v @ c # post) [c] = Some (length v)"
  using assms by (induction v) auto

text \<open>
  Redaction of a logged payload: where a variant of a sensitive key first occurs and a quoted value
  without escapes follows, exactly the characters between the quotes are replaced and the rest of the
  payload is unchanged. Only the first occurrence is treated: a second object with the same key keeps
  its value, and so does the part of a value after an escaped quote.
\<close>

theorem redact_first_occurrence_only:
  "(Index (pre @ variant @ CHR 0x22 # v @ CHR 0x22 # post) variant = Some (length pre) \<and> CHR 0x22 \<notin> set v \<longrightarrow>
      redact_one variant (pre @ variant @ CHR 0x22 # v @ CHR 0x22 # post) =
        pre @ variant @ CHR 0x22 # ''[REDACTED]'' @ CHR 0x22 # post) \<and>
   redactPayload sensitivePayloadKeys ''{\"token\":\"a1\",\"next\":{\"token\":\"b2\"}}'' =
     ''{\"token\":\"[REDACTED]\",\"next\":{\"token\":\"b2\"}}''"
proof (intro conjI impI)
  assume a: "Index (pre @ variant @ CHR 0x22 # v @ CHR 0x22 # post) variant = Some (length pre) \<and> CHR 0x22 \<notin> set v"
  have "drop (length pre + length variant + 1) (pre @ variant @ CHR 0x22 # v @ CHR 0x22 # post) = v @ CHR 0x22 # post"
    by simp
  with Index_quote [of "CHR 0x22" v post] a
  show "redact_one variant (pre @ variant @ CHR 0x22 # v @ CHR 0x22 # post) =
      pre @ variant @ CHR 0x22 # ''[REDACTED]'' @ CHR 0x22 # post"
    by (simp add: redact_one_def Let_def nth_append)
next
  show "redactPayload sensitivePayloadKeys ''{\"token\":\"a1\",\"next\":{\"token\":\"b2\"}}'' =
     ''{\"token\":\"[REDACTED]\",\"next\":{\"token\":\"b2\"}}''"
    by (simp add: redactPayload_def maxRedactPayloadSize_def sensitivePayloadKeys_def redact_variants_def
        redact_one_def Let_def)
qed

theorem redact_first_occurrence_only_witness:
  "redact_one ''\"secret\":'' ''{\"secret\":\"x\"}'' = ''{\"secret\":\"[REDACTED]\"}''"
  using redact_first_occurrence_only [of "''{''" "''\"secret\":''" "''x''" "''}''", THEN conjunct1] by simp

end
