(* ===== verification/Relay_HTTP.thy ===== *)
theory Relay_HTTP
  imports Relay_Pipeline Relay_Codec Relay_Middleware
begin

text \<open>
  The HTTP endpoints (\<^verbatim>\<open>internal/http/handler.go\<close>, \<^verbatim>\<open>internal/http/dlq.go\<close>): receiving a CloudEvent,
  and listing, replaying and analysing the dead letter queue.

  The CloudEvents SDK that parses the request is an argument. The queue is used through its interface
  (a record of operations). Its state is a component of the server's state beside the pipeline's.
\<close>

section \<open>The server's state\<close>

text \<open>
  The operations of the interface \<^verbatim>\<open>dlq.Queue\<close> that the endpoints call. The callbacks passed to
  \<^verbatim>\<open>Scan\<close> never stop it, so a scan is its error and the entries it delivered.
\<close>

record 'q QueueOps =
  qEnqueue :: "Time \<Rightarrow> Envelope \<Rightarrow> err \<Rightarrow> 'q \<Rightarrow> err option \<times> 'q"
  qList :: "int \<Rightarrow> 'q \<Rightarrow> DeadEvent list result"
  qRemove :: "string \<Rightarrow> 'q \<Rightarrow> err option \<times> 'q"
  qSize :: "'q \<Rightarrow> nat result"
  qScan :: "'q \<Rightarrow> err option \<times> DeadEvent list"

record ('w, 'q) Server =
  Pipe :: "'w Relay"
  DeadLetters :: 'q

definition scount :: "string list \<Rightarrow> ('w, 'q) Server \<Rightarrow> ('w, 'q) Server" where
  "scount l s = s\<lparr>Pipe := count l (Pipe s)\<rparr>"

lemma scount_frame [simp]:
  "DeadLetters (scount l s) = DeadLetters s" "World (Pipe (scount l s)) = World (Pipe s)"
  by (simp_all add: scount_def)

text \<open>The answer to a request; None stands for a panic, which the recovery middleware turns into 500.\<close>

type_synonym http_status = "int option"

section \<open>Receiving an event\<close>

definition decodeEvent ::
  "DecoderRegistry \<Rightarrow> RawEvent \<Rightarrow> ('w, 'q) Server \<Rightarrow> (int + Envelope) \<times> ('w, 'q) Server" where
  "decodeEvent decoders ce s =
     (case DecoderFind decoders (RawType ce) of
        Inl e \<Rightarrow> (Inl 200, scount [''EventsUnsupportedType'', RawType ce] s)
      | Inr d \<Rightarrow>
          (case Decode d ce of
             Inl e \<Rightarrow> (Inl 200, scount [''ErrorsPermanent'', ''decode_error''] s)
           | Inr env \<Rightarrow> (Inr env, s)))"

definition updateDLQSizeGauge :: "'q QueueOps \<Rightarrow> ('w, 'q) Server \<Rightarrow> ('w, 'q) Server" where
  "updateDLQSizeGauge ops s =
     (case qSize ops (DeadLetters s) of
        Inl _ \<Rightarrow> s
      | Inr n \<Rightarrow> s\<lparr>Pipe := (Pipe s)\<lparr>Coll := map_option (SetGauge [''DLQSize''] n) (Coll (Pipe s))\<rparr>\<rparr>)"

definition preserveInDLQ ::
  "'q QueueOps option \<Rightarrow> Time \<Rightarrow> Envelope \<Rightarrow> err \<Rightarrow> ('w, 'q) Server \<Rightarrow> ('w, 'q) Server" where
  "preserveInDLQ dl now env cause s =
     (case dl of
        None \<Rightarrow> s
      | Some ops \<Rightarrow>
          (case qEnqueue ops now env cause (DeadLetters s) of
             (Some e, q) \<Rightarrow> s\<lparr>DeadLetters := q\<rparr>
           | (None, q) \<Rightarrow> updateDLQSizeGauge ops (scount [''DLQEnqueued''] (s\<lparr>DeadLetters := q\<rparr>))))"

text \<open>The collectors are used here without a nil check.\<close>

definition handleChainResult ::
  "'w HandleFn \<Rightarrow> 'q QueueOps option \<Rightarrow> Time \<Rightarrow> Envelope \<Rightarrow> ('w, 'q) Server \<Rightarrow> http_status \<times> ('w, 'q) Server" where
  "handleChainResult chain dl now env s =
     (case chain env (Pipe s) of
        (er, env', p) \<Rightarrow>
          (let s1 = s\<lparr>Pipe := p\<rparr> in
           case er of
             None \<Rightarrow> (Some 200, s1)
           | Some e \<Rightarrow>
               if Coll p = None then (None, s1)
               else if IsRetryable (Some e) then (Some 503, scount [''EventsBackpressure''] s1)
               else (Some 200, preserveInDLQ dl now env' e (scount [''ErrorsPermanent'', ''chain_error''] s1))))"

definition CloudEventsHandler ::
  "(Request \<Rightarrow> RawEvent result) \<Rightarrow> DecoderRegistry \<Rightarrow> 'w HandleFn \<Rightarrow> 'q QueueOps option \<Rightarrow>
   Time \<Rightarrow> Request \<Rightarrow> ('w, 'q) Server \<Rightarrow> http_status \<times> ('w, 'q) Server" where
  "CloudEventsHandler FromRequest decoders chain dl now r s =
     (case FromRequest r of
        Inl e \<Rightarrow> (Some 400, s)
      | Inr ce \<Rightarrow>
          (case decodeEvent decoders ce s of
             (Inl code, s') \<Rightarrow> (Some code, s')
           | (Inr env, s') \<Rightarrow> handleChainResult chain dl now env s'))"

section \<open>Listing the queue\<close>

definition dlqDefaultListLimit :: int where "dlqDefaultListLimit = 100"
definition dlqMaxListLimit :: int where "dlqMaxListLimit = 100"

definition query_limit :: "string \<Rightarrow> int" where
  "query_limit raw =
     (if raw = '''' then dlqDefaultListLimit
      else case Atoi raw of
        None \<Rightarrow> dlqDefaultListLimit
      | Some v \<Rightarrow> if 0 < v then (if v > dlqMaxListLimit then dlqMaxListLimit else v) else dlqDefaultListLimit)"

definition query_offset :: "string \<Rightarrow> int" where
  "query_offset raw =
     (if raw = '''' then 0 else case Atoi raw of None \<Rightarrow> 0 | Some v \<Rightarrow> if 0 \<le> v then v else 0)"

record list_page =
  pageEvents :: "DeadEvent list"
  pageTotal :: int
  pageOffset :: int
  pageLimit :: int

text \<open>
  The slice \<^verbatim>\<open>entries[offset:end]\<close> reaches up to the capacity of the slice, which is the whole list the
  queue read: \<open>all\<close> is the backing array of \<open>entries\<close>. A slice beyond it panics.
\<close>

datatype list_answer = MethodNotAllowed | ListUnavailable | ListPanic | ListPage list_page

definition dlqListHandler ::
  "'q QueueOps \<Rightarrow> string \<Rightarrow> string \<Rightarrow> string \<Rightarrow> 'q \<Rightarrow> list_answer" where
  "dlqListHandler ops mthd rawLimit rawOffset q =
     (if mthd \<noteq> ''GET'' then MethodNotAllowed
      else
        (let limit = query_limit rawLimit;
             offset = query_offset rawOffset;
             sum = wrap64 (limit + offset);
             fetchCount = (if sum < 1 then 1 else sum)
         in case qList ops fetchCount q of
              Inl e \<Rightarrow> ListUnavailable
            | Inr ents \<Rightarrow>
                (let backing = (case qList ops 0 q of Inl _ \<Rightarrow> ents | Inr es \<Rightarrow> es);
                     tot = (case qSize ops q of Inl _ \<Rightarrow> int (length ents) | Inr n \<Rightarrow> int n);
                     off = (if offset > tot then tot else offset);
                     e0 = wrap64 (off + limit);
                     e1 = (if e0 > tot then tot else e0)
                 in if e1 > int (length backing) \<or> off > e1 then ListPanic
                    else ListPage \<lparr>pageEvents = take (nat (e1 - off)) (drop (nat off) backing),
                           pageTotal = tot, pageOffset = off, pageLimit = limit\<rparr>)))"

section \<open>Replay\<close>

record dlqReplayResult =
  Replayed :: nat
  ReplayFailed :: nat
  FailedID :: "string list"
  RemoveFailed :: nat
  Filtered :: bool
  Overridden :: bool

text \<open>The request body: a filter and optional changes to the events.\<close>

record replayOverride =
  Payload :: "(string \<times> json) list option"
  Timestamp :: string

record replayRequest =
  rqFilter :: ReplayFilter
  rqOverride :: "replayOverride option"

definition filter_fields :: "ReplayFilter field list" where
  "filter_fields = [str_field ''provider'' rfProvider rfProvider_update, str_field ''state'' rfState rfState_update,
     time_field ''after'' rfAfter rfAfter_update]"

text \<open>
  A \<^verbatim>\<open>map[string]any\<close>: the last of several members of one name counts. Numbers become \<^verbatim>\<open>float64\<close> and
  are written again: integers up to \<open>2\<^sup>5\<^sup>3\<close> come back as they are, \<open>fl\<close> stands for the other literals.
  \<^verbatim>\<open>Marshal\<close> writes the members of a map in the order of their names.
\<close>

fun insert_member :: "string \<times> 'v \<Rightarrow> (string \<times> 'v) list \<Rightarrow> (string \<times> 'v) list" where
  "insert_member m [] = [m]"
| "insert_member m (n # ns) =
     (if fst m = fst n then m # ns else if fst m \<le> fst n then m # n # ns else n # insert_member m ns)"

definition float_literal :: "(string \<Rightarrow> string) \<Rightarrow> string \<Rightarrow> string" where
  "float_literal fl lit =
     (case Atoi lit of
        Some i \<Rightarrow> if lit = Itoa i \<and> - (2 ^ 53) \<le> i \<and> i \<le> 2 ^ 53 then lit else fl lit
      | None \<Rightarrow> fl lit)"

fun as_any :: "(string \<Rightarrow> string) \<Rightarrow> json \<Rightarrow> json" and any_elems :: "(string \<Rightarrow> string) \<Rightarrow> json list \<Rightarrow> json list"
  and any_members :: "(string \<Rightarrow> string) \<Rightarrow> (string \<times> json) list \<Rightarrow> (string \<times> json) list \<Rightarrow> (string \<times> json) list" where
  "as_any fl (JNum lit) = JNum (float_literal fl lit)"
| "as_any fl (JArr vs) = JArr (any_elems fl vs)"
| "as_any fl (JObj ms) = JObj (any_members fl ms [])"
| "as_any fl JNull = JNull"
| "as_any fl (JBool b) = JBool b"
| "as_any fl (JStr s) = JStr s"
| "any_elems fl [] = []"
| "any_elems fl (v # vs) = as_any fl v # any_elems fl vs"
| "any_members fl [] acc = acc"
| "any_members fl ((k, v) # ms) acc = any_members fl ms (insert_member (k, as_any fl v) acc)"

definition override_fields :: "(string \<Rightarrow> string) \<Rightarrow> replayOverride field list" where
  "override_fields fl = [
     \<lparr>fdName = ''payload'', fdEnc = \<lambda>o'. Omit,
      fdDec = \<lambda>j o'. case j of
          JObj ms \<Rightarrow> Some (o'\<lparr>Payload := Some (any_members fl ms (case Payload o' of None \<Rightarrow> [] | Some ps \<Rightarrow> ps))\<rparr>)
        | JNull \<Rightarrow> Some (o'\<lparr>Payload := None\<rparr>) | _ \<Rightarrow> None\<rparr>,
     str_field ''timestamp'' Timestamp Timestamp_update]"

definition no_override :: replayOverride where "no_override = \<lparr>Payload = None, Timestamp = ''''\<rparr>"

definition request_fields :: "(string \<Rightarrow> string) \<Rightarrow> replayRequest field list" where
  "request_fields fl = [struct_field ''filter'' filter_fields rqFilter rqFilter_update,
     ptr_field ''override'' (override_fields fl) no_override rqOverride rqOverride_update]"

definition zero_request :: replayRequest where
  "zero_request = \<lparr>rqFilter = \<lparr>rfProvider = '''', rfState = '''', rfAfter = 0\<rparr>, rqOverride = None\<rparr>"

definition UnixNano :: "Time \<Rightarrow> int" where
  "UnixNano t = wrap64 (t - unixToInternal * 10 ^ 9)"

text \<open>The report is merged at the top level of its JSON form and read back over the report.\<close>

definition merge_report :: "(string \<Rightarrow> string) \<Rightarrow> (string \<times> json) list \<Rightarrow> Event \<Rightarrow> Event result" where
  "merge_report fl payload report =
     (case encode_struct event_fields report of
        Emit (JObj base) \<Rightarrow>
          (let merged = fold insert_member payload (any_members fl base []) in
           case decode_struct event_fields (JObj merged) report of
             Some r \<Rightarrow> Inr r
           | None \<Rightarrow> Inl (Wrap ''unmarshal merged report: '' (Err ''cannot unmarshal'')))
      | _ \<Rightarrow> Inl (Wrap ''marshal report: '' (Err ''Time.MarshalJSON: year outside of range [0,9999]'')))"

definition applyOverride :: "(string \<Rightarrow> string) \<Rightarrow> DeadEvent \<Rightarrow> replayOverride \<Rightarrow> DeadEvent result" where
  "applyOverride fl entry ov =
     (case (case (Payload ov, deEnvelope entry) of
              (Some payload, Some env) \<Rightarrow>
                (case merge_report fl payload (Report env) of
                   Inl e \<Rightarrow> Inl e
                 | Inr r \<Rightarrow> Inr (entry\<lparr>deEnvelope := Some (env\<lparr>Report := r\<rparr>)\<rparr>))
            | _ \<Rightarrow> Inr entry) of
        Inl e \<Rightarrow> Inl e
      | Inr out \<Rightarrow>
          (if Timestamp ov = '''' then Inr out
           else case parse_rfc3339 (Timestamp ov) of
             None \<Rightarrow> Inl (Wrap ''parse timestamp: '' (Err ''cannot parse''))
           | Some ts \<Rightarrow>
               (let i = ''override-'' @ Itoa (UnixNano ts)
                in Inr (out\<lparr>deID := i, FailedAt := ts,
                        deEnvelope := map_option (\<lambda>env. env\<lparr>CloudEventID := i\<rparr>) (deEnvelope out)\<rparr>))))"

definition validateOverride :: "replayOverride option \<Rightarrow> bool" where
  "validateOverride ov =
     (case ov of None \<Rightarrow> True | Some x \<Rightarrow> Timestamp x = '''' \<or> parse_rfc3339 (Timestamp x) \<noteq> None)"

text \<open>The body of the request: None when it is not acceptable.\<close>

definition replay_request ::
  "(string \<Rightarrow> string) \<Rightarrow> string \<Rightarrow> (ReplayFilter option \<times> replayOverride option) option" where
  "replay_request fl body =
     (if TrimSpace body = '''' then Some (None, None)
      else case Unmarshal (request_fields fl) zero_request body of
        Inl e \<Rightarrow> None
      | Inr rq \<Rightarrow> if validateOverride (rqOverride rq) then Some (Some (rqFilter rq), rqOverride rq) else None)"

definition collectReplayEntries :: "'q QueueOps \<Rightarrow> ReplayFilter option \<Rightarrow> 'q \<Rightarrow> DeadEvent list result" where
  "collectReplayEntries ops flt q =
     (case flt of
        None \<Rightarrow> qList ops 0 q
      | Some f \<Rightarrow> (case qScan ops q of (Some e, es) \<Rightarrow> Inl e | (None, es) \<Rightarrow> Inr (filter (ReplayFilter_Matches f) es)))"

text \<open>One entry: without an envelope it is removed; otherwise it runs, changed, through the chain.\<close>

definition replay_entry ::
  "'q QueueOps \<Rightarrow> 'w HandleFn \<Rightarrow> (DeadEvent \<Rightarrow> DeadEvent result) \<Rightarrow> DeadEvent \<Rightarrow>
   dlqReplayResult \<times> ('w, 'q) Server \<Rightarrow> dlqReplayResult \<times> ('w, 'q) Server" where
  "replay_entry ops chain override entry st =
     (case st of (res, s) \<Rightarrow>
       (let failed = (\<lambda>p. (res\<lparr>ReplayFailed := Suc (ReplayFailed res), FailedID := FailedID res @ [deID entry]\<rparr>, s\<lparr>Pipe := p\<rparr>)) in
        case deEnvelope entry of
          None \<Rightarrow> (res, s\<lparr>DeadLetters := snd (qRemove ops (deID entry) (DeadLetters s))\<rparr>)
        | Some _ \<Rightarrow>
            (case override entry of
               Inl e \<Rightarrow> failed (Pipe s)
             | Inr changed \<Rightarrow>
                (case deEnvelope changed of
                   None \<Rightarrow> failed (Pipe s)
                 | Some env \<Rightarrow>
                    (case chain env (Pipe s) of
                       (Some e, env', p) \<Rightarrow> failed p
                     | (None, env', p) \<Rightarrow>
                         (case qRemove ops (deID entry) (DeadLetters s) of
                            (Some e, q) \<Rightarrow> (res\<lparr>RemoveFailed := Suc (RemoveFailed res)\<rparr>, s\<lparr>Pipe := p, DeadLetters := q\<rparr>)
                          | (None, q) \<Rightarrow> (res\<lparr>Replayed := Suc (Replayed res)\<rparr>, s\<lparr>Pipe := p, DeadLetters := q\<rparr>)))))))"

datatype replay_answer = ReplayMethodNotAllowed | ReplayBadRequest | ReplayUnavailable | ReplayRemoveError
  | ReplayDone dlqReplayResult

definition recordDlqReplayMetrics :: "nat \<Rightarrow> nat \<Rightarrow> ('w, 'q) Server \<Rightarrow> ('w, 'q) Server" where
  "recordDlqReplayMetrics failed removeFailed s =
     scount [''DlqReplayDuration''] (scount [''DlqReplayTotal'', if 0 < failed \<or> 0 < removeFailed then ''error'' else ''success''] s)"

text \<open>
  The entries are replayed by up to ten goroutines; \<open>order\<close> is the order in which they take effect.
\<close>

definition dlqReplayHandler ::
  "'q QueueOps \<Rightarrow> 'w HandleFn \<Rightarrow> (string \<Rightarrow> string) \<Rightarrow> (DeadEvent list \<Rightarrow> DeadEvent list) \<Rightarrow> string \<Rightarrow> string \<Rightarrow>
   ('w, 'q) Server \<Rightarrow> replay_answer \<times> ('w, 'q) Server" where
  "dlqReplayHandler ops chain fl order mthd body s =
     (if mthd \<noteq> ''POST'' then (ReplayMethodNotAllowed, s)
      else case replay_request fl body of
        None \<Rightarrow> (ReplayBadRequest, s)
      | Some (flt, ov) \<Rightarrow>
         (case collectReplayEntries ops flt (DeadLetters s) of
            Inl e \<Rightarrow> (ReplayUnavailable, s)
          | Inr ents \<Rightarrow>
              (let override = (case ov of None \<Rightarrow> Inr | Some x \<Rightarrow> (\<lambda>entry. applyOverride fl entry x));
                   (res, s1) = fold (replay_entry ops chain override) (order ents)
                     (\<lparr>Replayed = 0, ReplayFailed = 0, FailedID = [], RemoveFailed = 0, Filtered = (flt \<noteq> None),
                       Overridden = (ov \<noteq> None)\<rparr>, s);
                   s2 = updateDLQSizeGauge ops (recordDlqReplayMetrics (ReplayFailed res) (RemoveFailed res) s1)
               in (if 0 < RemoveFailed res then ReplayRemoveError else ReplayDone res, s2))))"

section \<open>Analytics\<close>

record dlqAnalytics =
  Causes :: "(string, nat) gomap"
  ByProvider :: "(string, nat) gomap"
  ByState :: "(string, nat) gomap"
  Lt1h :: nat
  Lt24h :: nat
  Gt24h :: nat
  AnTotal :: nat

definition bump :: "string \<Rightarrow> (string, nat) gomap \<Rightarrow> (string, nat) gomap" where
  "bump k m = AList.update k (Suc (case map_of m k of None \<Rightarrow> 0 | Some n \<Rightarrow> n)) m"

definition nsPerHour :: int where "nsPerHour = 3600 * 10 ^ 9"

definition analyse :: "Time \<Rightarrow> DeadEvent \<Rightarrow> dlqAnalytics \<Rightarrow> dlqAnalytics" where
  "analyse now e a =
     (let a1 = a\<lparr>AnTotal := Suc (AnTotal a), Causes := bump (Cause e) (Causes a)\<rparr>;
          a2 = (case deEnvelope e of
                  None \<Rightarrow> a1
                | Some v \<Rightarrow>
                    (let p = Provider (Report v); st = StateOf (Report v);
                         b1 = (if p \<noteq> '''' then a1\<lparr>ByProvider := bump p (ByProvider a1)\<rparr> else a1)
                     in if st \<noteq> '''' then b1\<lparr>ByState := bump st (ByState b1)\<rparr> else b1));
          age = time_Sub now (FailedAt e)
      in if age < nsPerHour then a2\<lparr>Lt1h := Suc (Lt1h a2)\<rparr>
         else if age < 24 * nsPerHour then a2\<lparr>Lt24h := Suc (Lt24h a2)\<rparr>
         else a2\<lparr>Gt24h := Suc (Gt24h a2)\<rparr>)"

definition dlqAnalyticsTopCausesLimit :: nat where "dlqAnalyticsTopCausesLimit = 10"

text \<open>
  \<^verbatim>\<open>sort.Slice\<close> by descending count; ties are in no specified order, here in the order of \<open>iter\<close>, which
  stands for the map iteration.
\<close>

definition topCauses :: "((string, nat) gomap \<Rightarrow> (string, nat) gomap) \<Rightarrow> (string, nat) gomap \<Rightarrow> (string \<times> nat) list" where
  "topCauses iter causes =
     (let l = rev (sort_key snd (rev (iter causes)))
      in if length l > dlqAnalyticsTopCausesLimit then take dlqAnalyticsTopCausesLimit l else l)"

definition no_analytics :: dlqAnalytics where
  "no_analytics = \<lparr>Causes = [], ByProvider = [], ByState = [], Lt1h = 0, Lt24h = 0, Gt24h = 0, AnTotal = 0\<rparr>"

text \<open>The left value is the status of a refusal.\<close>

definition dlqAnalyticsHandler ::
  "'q QueueOps \<Rightarrow> ((string, nat) gomap \<Rightarrow> (string, nat) gomap) \<Rightarrow> string \<Rightarrow> Time \<Rightarrow> 'q \<Rightarrow>
   (int + dlqAnalytics \<times> (string \<times> nat) list)" where
  "dlqAnalyticsHandler ops iter mthd now q =
     (if mthd \<noteq> ''GET'' then Inl 405
      else case qScan ops q of
        (Some e, es) \<Rightarrow> Inl 500
      | (None, es) \<Rightarrow>
          (let a = fold (analyse now) es no_analytics in Inr (a, topCauses iter (Causes a))))"

text \<open>The file queue as the queue of the endpoints.\<close>

definition file_queue_ops :: "codec \<Rightarrow> QueueConfig \<Rightarrow> io_fault \<Rightarrow> FileQueue QueueOps" where
  "file_queue_ops cd qc io = \<lparr>qEnqueue = Enqueue cd qc io, qList = List_entries cd io, qRemove = Remove cd qc io,
     qSize = Size cd io, qScan = (\<lambda>q. Scan cd io (\<lambda>e es. (Continue, es @ [e])) [] q)\<rparr>"

section \<open>Lemmas\<close>

lemma scan_fold_collect:
  assumes "\<forall>e \<in> set es. storable cd e"
  shows "scan_fold cd (map (raw_of cd) es) (\<lambda>e acc. (Continue, acc @ [e])) acc = (Inr (), acc @ es)"
  using assms by (induction es arbitrary: acc) (auto simp: storable_raw)

lemma file_queue_reads:
  assumes "holds cd qc q es"
  shows "qList (file_queue_ops cd qc NoFault) n q = Inr (if 0 < n then take (nat n) es else es)"
    and "qSize (file_queue_ops cd qc NoFault) q = Inr (length es)"
    and "qScan (file_queue_ops cd qc NoFault) q = (None, es)"
proof -
  have r: "readAll cd NoFault q = Inr es" using readAll_holds [OF assms] by simp
  show "qList (file_queue_ops cd qc NoFault) n q = Inr (if 0 < n then take (nat n) es else es)"
    using r by (simp add: file_queue_ops_def List_entries_def)
  show "qSize (file_queue_ops cd qc NoFault) q = Inr (length es)"
    using r by (simp add: file_queue_ops_def Size_def)
  have st: "\<forall>e \<in> set es. storable cd e" using assms by (simp add: holds_def)
  then have "scan_lines scannerMax (render (map (raw_of cd) es)) = (map (raw_of cd) es, False)"
    by (intro scan_render) (auto simp: storable_raw)
  with scan_fold_collect [OF st, of "[]"] assms
  show "qScan (file_queue_ops cd qc NoFault) q = (None, es)"
    by (auto simp: file_queue_ops_def Scan_def holds_def split: option.splits)
qed

lemma query_limit_range: "1 \<le> query_limit raw \<and> query_limit raw \<le> 100"
  by (simp add: query_limit_def dlqDefaultListLimit_def dlqMaxListLimit_def split: option.split)

lemma query_offset_range: "0 \<le> query_offset raw \<and> query_offset raw < 2 ^ 63"
  using Atoi_range [of raw] by (auto simp: query_offset_def split: option.split)

lemma World_updateDLQSizeGauge [simp]:
  "World (Pipe (updateDLQSizeGauge ops s)) = World (Pipe s)"
  "DeadLetters (updateDLQSizeGauge ops s) = DeadLetters s"
  by (simp_all add: updateDLQSizeGauge_def split: sum.split)

text \<open>The file of one entry, and a server over it.\<close>

definition demo_queue :: FileQueue where
  "demo_queue = \<lparr>queueFile = Some (render [raw_of dead_codec (dead_event 0 demo_envelope (Err ''status 422''))]), tmpFile = None\<rparr>"

lemma demo_queue_holds:
  "holds dead_codec default_queue_config demo_queue [dead_event 0 demo_envelope (Err ''status 422'')]"
  using demo_entry dead_event_size [of "Err ''status 422''"] length_quote [of "''status 422''"]
  by (auto simp: holds_def demo_queue_def dlq_entry_storable entry_size_def default_queue_config_def DefaultMaxSizeBytes_def)

section \<open>Properties\<close>

text \<open>
  C39 Paging of the dead letter list: whatever the query parameters are, absent, not numbers, negative or
  so large that limit plus offset overflows 64 bits, the endpoint over a file queue answers the entries
  from the offset on, at most the limit (between 1 and 100) of them, oldest first, with the true total;
  the slice never goes out of range.
\<close>

theorem dlqList_pages:
  assumes "holds cd qc q es" and "int (length es) < 2 ^ 62"
  shows "dlqListHandler (file_queue_ops cd qc NoFault) ''GET'' rawLimit rawOffset q =
    ListPage \<lparr>pageEvents = take (nat (query_limit rawLimit)) (drop (nat (query_offset rawOffset)) es),
      pageTotal = int (length es), pageOffset = min (query_offset rawOffset) (int (length es)),
      pageLimit = query_limit rawLimit\<rparr>"
proof -
  define l where "l = query_limit rawLimit"
  define off0 where "off0 = query_offset rawOffset"
  define off where "off = (if off0 > int (length es) then int (length es) else off0)"
  have l: "1 \<le> l" "l \<le> 100" and o0: "0 \<le> off0" using query_limit_range query_offset_range by (auto simp: l_def off0_def)
  have w: "wrap64 (off + l) = off + l"
    using l o0 assms(2) by (intro wrap64_id) (auto simp: off_def)
  define e1 where "e1 = (if off + l > int (length es) then int (length es) else off + l)"
  have rng: "\<not> (e1 > int (length es) \<or> off > e1)" using l by (auto simp: e1_def off_def)
  have d: "drop (nat off0) es = drop (nat off) es"
    by (auto simp: off_def)
  have page: "take (nat (e1 - off)) (drop (nat off) es) = take (nat l) (drop (nat off0) es)"
    unfolding d
  proof (cases "off + l > int (length es)")
    case True
    have "nat (e1 - off) = length (drop (nat off) es)"
      using True o0 by (auto simp: e1_def off_def nat_diff_distrib)
    moreover have "length (drop (nat off) es) \<le> nat l" using True o0 l by (auto simp: off_def)
    ultimately show "take (nat (e1 - off)) (drop (nat off) es) = take (nat l) (drop (nat off) es)" by simp
  next
    case False
    then show "take (nat (e1 - off)) (drop (nat off) es) = take (nat l) (drop (nat off) es)"
      by (simp add: e1_def)
  qed
  have off_min: "off = min off0 (int (length es))" by (auto simp: off_def)
  show ?thesis
    unfolding dlqListHandler_def Let_def l_def [symmetric] off0_def [symmetric] file_queue_reads [OF assms(1)]
    by (simp only: sum.case off_def [symmetric] w e1_def [symmetric] rng page off_min [symmetric]
        if_False if_True order.irrefl simp_thms not_True_eq_False less_irrefl)
qed

theorem dlqList_pages_witness:
  "dlqListHandler (file_queue_ops dead_codec default_queue_config NoFault) ''GET'' ''5'' ''9223372036854775807'' demo_queue =
    ListPage \<lparr>pageEvents = [], pageTotal = 1, pageOffset = 1, pageLimit = 5\<rparr>"
  using dlqList_pages [OF demo_queue_holds, of "''5''" "''9223372036854775807''"]
  by (simp add: query_limit_def query_offset_def Atoi_def is_digit_def Let_def dlqMaxListLimit_def)

subsection \<open>Replay\<close>

lemma replay_fold_counts:
  assumes "fold (replay_entry ops chain override) xs (res, s) = (res', s')"
  shows "Replayed res' + ReplayFailed res' + RemoveFailed res' =
      Replayed res + ReplayFailed res + RemoveFailed res + length (filter (\<lambda>e. deEnvelope e \<noteq> None) xs) \<and>
    length (FailedID res') + ReplayFailed res = length (FailedID res) + ReplayFailed res' \<and>
    Filtered res' = Filtered res \<and> Overridden res' = Overridden res"
  using assms
proof (induction xs arbitrary: res s)
  case (Cons x xs)
  obtain res1 s1 where 1: "replay_entry ops chain override x (res, s) = (res1, s1)" by fastforce
  have "Replayed res1 + ReplayFailed res1 + RemoveFailed res1 =
      Replayed res + ReplayFailed res + RemoveFailed res + (if deEnvelope x \<noteq> None then 1 else 0)"
      "Filtered res1 = Filtered res" "Overridden res1 = Overridden res"
      "length (FailedID res1) + ReplayFailed res = length (FailedID res) + ReplayFailed res1"
    using 1 by (auto simp: replay_entry_def Let_def split: option.splits prod.splits sum.splits)
  with Cons.IH [of res1 s1] Cons.prems 1 show ?case by auto
qed simp

text \<open>What a replay leaves in a queue that keeps its contract and whose removals succeed.\<close>

context dead_letter_queue
begin

lemma replay_entry_queue:
  assumes "qRemove ops = remove" and "\<And>i q es. stands_for q es \<Longrightarrow> fst (remove i q) = None"
    and "replay_entry ops chain override x (res, s) = (res1, s1)"
    and "stands_for (DeadLetters s) es"
  shows "RemoveFailed res1 = RemoveFailed res \<and>
    (FailedID res1 = FailedID res @ [deID x] \<and> stands_for (DeadLetters s1) es \<or>
     FailedID res1 = FailedID res \<and> stands_for (DeadLetters s1) (filter (\<lambda>e. deID e \<noteq> deID x) es))"
proof -
  obtain q where q: "remove (deID x) (DeadLetters s) = (None, q)"
    using assms(2) [OF assms(4)] by (metis prod.collapse)
  with remove_succeeds [OF assms(4) q] assms(1,3,4) show ?thesis
    by (auto simp: replay_entry_def Let_def split: option.splits prod.splits sum.splits)
qed

lemma replay_fold_queue:
  assumes "qRemove ops = remove" and "\<And>i q es. stands_for q es \<Longrightarrow> fst (remove i q) = None"
    and "fold (replay_entry ops chain override) xs (res, s) = (res', s')" and "distinct (map deID xs)"
    and "stands_for (DeadLetters s) (filter (\<lambda>e. deID e \<notin> R) es)"
  shows "\<exists>R'. R' \<subseteq> deID ` set xs \<and> set (FailedID res') = set (FailedID res) \<union> (deID ` set xs - R') \<and>
    RemoveFailed res' = RemoveFailed res \<and> stands_for (DeadLetters s') (filter (\<lambda>e. deID e \<notin> R \<union> R') es)"
  using assms(3-5)
proof (induction xs arbitrary: res s R)
  case Nil
  then show ?case by auto
next
  case (Cons x xs)
  obtain res1 s1 where 1: "replay_entry ops chain override x (res, s) = (res1, s1)" by fastforce
  have fin: "fold (replay_entry ops chain override) xs (res1, s1) = (res', s')" using Cons.prems(1) 1 by simp
  have dx: "distinct (map deID xs)" "deID x \<notin> deID ` set xs" using Cons.prems(2) by auto
  have flt: "filter (\<lambda>e. deID e \<noteq> deID x) (filter (\<lambda>e. deID e \<notin> R) es) = filter (\<lambda>e. deID e \<notin> insert (deID x) R) es"
    by (auto intro: filter_cong)
  note E = replay_entry_queue [OF assms(1,2) 1 Cons.prems(3), unfolded flt]
  show ?case
  proof (cases "FailedID res1 = FailedID res")
    case False
    with E have "stands_for (DeadLetters s1) (filter (\<lambda>e. deID e \<notin> R) es)"
        and f: "FailedID res1 = FailedID res @ [deID x]" "RemoveFailed res1 = RemoveFailed res" by auto
    from Cons.IH [OF fin dx(1) this(1)] obtain R' where R': "R' \<subseteq> deID ` set xs"
        "set (FailedID res') = set (FailedID res1) \<union> (deID ` set xs - R')" "RemoveFailed res' = RemoveFailed res1"
        "stands_for (DeadLetters s') (filter (\<lambda>e. deID e \<notin> R \<union> R') es)" by blast
    moreover from this(1) have "deID ` set (x # xs) - R' = insert (deID x) (deID ` set xs - R')" using dx(2) by auto
    ultimately show ?thesis using f by (intro exI [of _ R']) auto
  next
    case True
    with E have "stands_for (DeadLetters s1) (filter (\<lambda>e. deID e \<notin> insert (deID x) R) es)"
        and f: "RemoveFailed res1 = RemoveFailed res" by auto
    from Cons.IH [OF fin dx(1) this(1)] obtain R' where R': "R' \<subseteq> deID ` set xs"
        "set (FailedID res') = set (FailedID res1) \<union> (deID ` set xs - R')" "RemoveFailed res' = RemoveFailed res1"
        "stands_for (DeadLetters s') (filter (\<lambda>e. deID e \<notin> insert (deID x) R \<union> R') es)" by blast
    have "insert (deID x) R' \<subseteq> deID ` set (x # xs)" using R'(1) by auto
    moreover have "deID ` set (x # xs) - insert (deID x) R' = deID ` set xs - R'" using dx(2) by auto
    moreover have "insert (deID x) R \<union> R' = R \<union> insert (deID x) R'" by auto
    ultimately show ?thesis using R' f True by metis
  qed
qed

end

text \<open>
  C24 A replay over the dead letter file, for every accepted request body, with or without a filter and an
  override, for every chain, and for every order in which its goroutines take effect: the request is
  answered; every selected entry with an envelope is counted once, as replayed or as failed; the failed
  identifiers and the entries that were not selected are exactly what stays in the file, as it was, and
  everything else is gone from it.
\<close>

theorem dlqReplay_accounts:
  assumes "holds dead_codec default_queue_config (DeadLetters s) es" and "distinct (map deID es)"
    and "\<forall>xs. mset (order xs) = mset xs" and "replay_request fl body = Some (flt, ov)"
  shows "\<exists>res s'. dlqReplayHandler (file_queue_ops dead_codec default_queue_config NoFault) chain fl order ''POST'' body s =
      (ReplayDone res, s') \<and>
    (let sel = (case flt of None \<Rightarrow> es | Some f \<Rightarrow> filter (ReplayFilter_Matches f) es) in
      Replayed res + ReplayFailed res = length (filter (\<lambda>e. deEnvelope e \<noteq> None) sel) \<and>
      length (FailedID res) = ReplayFailed res \<and> set (FailedID res) \<subseteq> deID ` set sel \<and>
      holds dead_codec default_queue_config (DeadLetters s')
        (filter (\<lambda>e. deID e \<notin> deID ` set sel \<or> deID e \<in> set (FailedID res)) es))"
proof -
  let ?ops = "file_queue_ops dead_codec default_queue_config NoFault"
  define sel where "sel = (case flt of None \<Rightarrow> es | Some f \<Rightarrow> filter (ReplayFilter_Matches f) es)"
  define override where "override = (case ov of None \<Rightarrow> Inr | Some x \<Rightarrow> (\<lambda>entry. applyOverride fl entry x))"
  let ?r0 = "\<lparr>Replayed = 0, ReplayFailed = 0, FailedID = [], RemoveFailed = 0, Filtered = (flt \<noteq> None), Overridden = (ov \<noteq> None)\<rparr>"
  have col: "collectReplayEntries ?ops flt (DeadLetters s) = Inr sel"
    using file_queue_reads [OF assms(1)] by (simp add: collectReplayEntries_def sel_def split: option.split)
  obtain res s1 where f: "fold (replay_entry ?ops chain override) (order sel) (?r0, s) = (res, s1)" by fastforce
  have ms: "mset (order sel) = mset sel" using assms(3) by blast
  have "distinct (map deID sel)" using assms(2) by (simp add: sel_def distinct_map_filter split: option.split)
  moreover have "mset (map deID (order sel)) = mset (map deID sel)" using ms by simp
  ultimately have dsel: "distinct (map deID (order sel))" using mset_eq_imp_distinct_iff by blast
  have st: "set (order sel) = set sel" using ms by (rule mset_eq_setD)
  have rm: "qRemove ?ops = Remove dead_codec default_queue_config NoFault" by (simp add: file_queue_ops_def)
  have "\<exists>R'. R' \<subseteq> deID ` set (order sel) \<and> set (FailedID res) = set (FailedID ?r0) \<union> (deID ` set (order sel) - R') \<and>
      RemoveFailed res = RemoveFailed ?r0 \<and>
      holds dead_codec default_queue_config (DeadLetters s1) (filter (\<lambda>e. deID e \<notin> {} \<union> R') es)"
    by (rule file_queue.replay_fold_queue [OF rm _ f dsel]) (use assms(1) Remove_NoFault in auto)
  then obtain R' where R': "R' \<subseteq> deID ` set sel" "set (FailedID res) = deID ` set sel - R'" "RemoveFailed res = 0"
      "holds dead_codec default_queue_config (DeadLetters s1) (filter (\<lambda>e. deID e \<notin> R') es)"
    using st by auto
  have counts: "Replayed res + ReplayFailed res = length (filter (\<lambda>e. deEnvelope e \<noteq> None) sel)"
      "length (FailedID res) = ReplayFailed res"
    using replay_fold_counts [OF f] R'(3) mset_eq_length [OF arg_cong [OF ms, of "filter_mset (\<lambda>e. deEnvelope e \<noteq> None)", folded mset_filter]]
    by auto
  have "filter (\<lambda>e. deID e \<notin> R') es = filter (\<lambda>e. deID e \<notin> deID ` set sel \<or> deID e \<in> set (FailedID res)) es"
    using R'(1,2) by (intro filter_cong) auto
  moreover define s' where "s' = updateDLQSizeGauge ?ops (recordDlqReplayMetrics (ReplayFailed res) (RemoveFailed res) s1)"
  ultimately have "DeadLetters s' = DeadLetters s1" "dlqReplayHandler ?ops chain fl order ''POST'' body s = (ReplayDone res, s')"
    using col f R'(3) assms(4)
    by (simp_all add: recordDlqReplayMetrics_def dlqReplayHandler_def Let_def override_def)
  with R' counts show ?thesis
    unfolding Let_def sel_def [symmetric]
    using \<open>filter (\<lambda>e. deID e \<notin> R') es = _\<close> by (intro exI [of _ res] exI [of _ s']) auto
qed

theorem dlqReplay_accounts_witness:
  "let s = (\<lparr>Pipe = \<lparr>World = (), Coll = None, Status = None\<rparr>, DeadLetters = demo_queue\<rparr> :: (unit, FileQueue) Server) in
   \<exists>res s'. dlqReplayHandler (file_queue_ops dead_codec default_queue_config NoFault) (\<lambda>env p. (None, env, p)) id rev ''POST'' '''' s =
      (ReplayDone res, s') \<and>
    (let es = [dead_event 0 demo_envelope (Err ''status 422'')] in
      Replayed res + ReplayFailed res = length (filter (\<lambda>e. deEnvelope e \<noteq> None) es) \<and>
      length (FailedID res) = ReplayFailed res \<and> set (FailedID res) \<subseteq> deID ` set es \<and>
      holds dead_codec default_queue_config (DeadLetters s')
        (filter (\<lambda>e. deID e \<notin> deID ` set es \<or> deID e \<in> set (FailedID res)) es))"
proof -
  have b: "replay_request id '''' = Some (None, None)" by (simp add: replay_request_def)
  show ?thesis
    unfolding Let_def
    by (rule dlqReplay_accounts [OF _ _ _ b, unfolded Let_def option.case]) (simp_all add: demo_queue_holds)
qed

subsection \<open>Analytics\<close>

lemma sum_bump: "distinct (map fst m) \<Longrightarrow> sum_list (map snd (bump k m)) = Suc (sum_list (map snd m))"
proof (induction m)
  case (Cons a m)
  then show ?case by (cases a) (auto simp: bump_def)
qed (simp add: bump_def)

lemma distinct_bump: "distinct (map fst m) \<Longrightarrow> distinct (map fst (bump k m))"
  by (simp add: bump_def)

lemma analyse_step:
  "AnTotal (analyse now e a) = Suc (AnTotal a)"
  "Causes (analyse now e a) = bump (Cause e) (Causes a)"
  "Lt1h (analyse now e a) + Lt24h (analyse now e a) + Gt24h (analyse now e a) = Suc (Lt1h a + Lt24h a + Gt24h a)"
  by (auto simp: analyse_def Let_def split: option.split)

lemma analyse_fold:
  assumes "distinct (map fst (Causes a))"
  shows "AnTotal (fold (analyse now) es a) = AnTotal a + length es \<and>
    sum_list (map snd (Causes (fold (analyse now) es a))) = sum_list (map snd (Causes a)) + length es \<and>
    Lt1h (fold (analyse now) es a) + Lt24h (fold (analyse now) es a) + Gt24h (fold (analyse now) es a) =
      Lt1h a + Lt24h a + Gt24h a + length es"
  using assms
proof (induction es arbitrary: a)
  case (Cons e es)
  have "distinct (map fst (Causes (analyse now e a)))"
    using Cons.prems by (simp add: analyse_step distinct_bump)
  from Cons.IH [OF this] show ?case
    using Cons.prems by (simp add: analyse_step sum_bump)
qed simp

lemma topCauses_sorted:
  assumes "\<forall>m. mset (iter m) = mset m"
  shows "sorted_wrt (\<lambda>x y. snd x \<ge> snd y) (topCauses iter m) \<and> set (topCauses iter m) \<subseteq> set m \<and>
    length (topCauses iter m) = min 10 (length m)"
proof -
  let ?l = "rev (sort_key snd (rev (iter m)))"
  have srt: "sorted_wrt (\<lambda>x y. snd x \<ge> snd y) ?l"
    using sorted_sort_key [of snd "rev (iter m)"] by (simp add: sorted_wrt_rev sorted_wrt_map)
  have st: "set ?l = set m" using assms by (metis mset_eq_setD set_rev set_sort)
  have len: "length ?l = length m" using assms by (metis length_rev length_sort mset_eq_length)
  show ?thesis
    using srt st len set_take_subset [of 10 ?l]
    by (auto simp: topCauses_def Let_def dlqAnalyticsTopCausesLimit_def sorted_wrt_take)
qed

text \<open>
  The analytics of the dead letter queue add up: over a file queue, the total, the sum of the age
  buckets and the sum of the causes all equal the number of stored entries, and the reported causes are
  at most ten of the counted ones, in descending order of their counts, for every map iteration order.
\<close>

theorem dlqAnalytics_adds_up:
  assumes "holds cd qc q es" and "\<forall>m. mset (iter m) = mset m"
    and "dlqAnalyticsHandler (file_queue_ops cd qc NoFault) iter ''GET'' now q = Inr (a, tops)"
  shows "AnTotal a = length es \<and> Lt1h a + Lt24h a + Gt24h a = length es \<and>
    sum_list (map snd (Causes a)) = length es \<and>
    sorted_wrt (\<lambda>x y. snd x \<ge> snd y) tops \<and> set tops \<subseteq> set (Causes a) \<and> length tops \<le> 10"
proof -
  have a: "a = fold (analyse now) es no_analytics" and top: "tops = topCauses iter (Causes a)"
    using assms(3) file_queue_reads(3) [OF assms(1)] by (auto simp: dlqAnalyticsHandler_def Let_def)
  have "distinct (map fst (Causes no_analytics))" by (simp add: no_analytics_def)
  from analyse_fold [OF this, of now es] topCauses_sorted [OF assms(2), of "Causes a"] top
  show ?thesis by (simp add: a [symmetric]) (simp add: no_analytics_def)
qed

theorem dlqAnalytics_adds_up_witness:
  "let a = fst (projr (dlqAnalyticsHandler (file_queue_ops dead_codec default_queue_config NoFault) id ''GET'' 5 demo_queue))
   in AnTotal a = 1 \<and> Lt1h a + Lt24h a + Gt24h a = 1 \<and> sum_list (map snd (Causes a)) = 1"
proof -
  obtain a tops where "dlqAnalyticsHandler (file_queue_ops dead_codec default_queue_config NoFault) id ''GET'' 5 demo_queue = Inr (a, tops)"
    using file_queue_reads(3) [OF demo_queue_holds] by (simp add: dlqAnalyticsHandler_def Let_def)
  from dlqAnalytics_adds_up [OF demo_queue_holds _ this] this show ?thesis by simp
qed

end
