(* ===== verification/Relay_Config.thy ===== *)
theory Relay_Config
  imports Relay_Notifier Go_Time Complex_Main
begin

text \<open>
  Package \<^verbatim>\<open>internal/config\<close>: the configuration as the YAML file gives it, with one record per struct,
  and the defaults that loading fills in. A field \<open>x_F\<close> is the field \<open>F\<close> of the struct whose short
  name is \<open>x\<close>; durations are nanoseconds.
\<close>

section \<open>Numbers\<close>

text \<open>
  A \<^verbatim>\<open>float64\<close> read from the file is a rational number, an infinity or not a number; comparisons with
  the last are false.
\<close>

datatype go_float = Finite rat | PosInf | NegInf | NaN

fun flt_less :: "go_float \<Rightarrow> go_float \<Rightarrow> bool" where
  "flt_less (Finite x) (Finite y) = (x < y)"
| "flt_less (Finite x) PosInf = True"
| "flt_less NegInf (Finite x) = True"
| "flt_less NegInf PosInf = True"
| "flt_less _ _ = False"

fun flt_eq :: "go_float \<Rightarrow> go_float \<Rightarrow> bool" where
  "flt_eq NaN y = False"
| "flt_eq x y = (x = y)"

section \<open>Structures\<close>

datatype RabbitMQAuth = RabbitMQAuth

record AccumulatorProviderConfig =
  ap_Name :: string

record AccumulatorConfig =
  acc_Enabled :: bool
  acc_TTL :: int
  acc_MaxSize :: int
  acc_Template :: string
  acc_Provider :: "AccumulatorProviderConfig option"

record NotifierBatchConfig =
  bat_Enabled :: bool
  bat_MaxSize :: int
  bat_FlushInterval :: int

record RetryConfig =
  rt_MaxAttempts :: int
  rt_InitialBackoff :: int
  rt_MaxBackoff :: int

record RetryOverride =
  ro_MaxAttempts :: int
  ro_InitialBackoff :: int
  ro_MaxBackoff :: int

record ValkeyConfig =
  vk_Address :: string
  vk_PasswordFile :: string
  vk_DB :: int
  vk_KeyPrefix :: string

record OlricConfig =
  ol_BindAddr :: string
  ol_BindPort :: int
  ol_MemberlistPort :: int
  ol_Peers :: "string list"
  ol_Env :: string

record StoreConfig =
  sto_Backend :: string
  sto_TTL :: int
  sto_Valkey :: ValkeyConfig
  sto_Olric :: OlricConfig

record DLQConfig =
  dq_Enabled :: bool
  dq_Path :: string
  dq_MaxSizeBytes :: int
  dq_RetentionDays :: int

record RateLimitConfig =
  rl_Enabled :: bool
  rl_RequestsPerSecond :: go_float
  rl_Burst :: int

record ServerAuthConfig =
  sa_Enabled :: bool
  sa_Type :: string
  sa_SecretFile :: string
  sa_ValidateTimestamp :: bool
  sa_TimestampTolerance :: int

record ServerTLSConfig =
  tls_CertFile :: string
  tls_KeyFile :: string

record ServerConfig =
  srv_Addr :: string
  srv_MetricsAddr :: string
  srv_ReadTimeoutSec :: int
  srv_WriteTimeoutSec :: int
  srv_ShutdownTimeoutSec :: int
  srv_MaxBodySize :: int
  srv_RateLimit :: RateLimitConfig
  srv_Auth :: ServerAuthConfig
  srv_TLS :: ServerTLSConfig

record EventFilterConfig =
  ef_AllowTaskRun :: bool
  ef_AllowPipelineRun :: bool
  ef_AllowCustomRun :: bool
  ef_AllowEventListener :: bool
  ef_IgnoreUnknown :: bool
  ef_AllowNamespaces :: "string list"
  ef_DenyNamespaces :: "string list"

record GitHubAuth =
  ghA_SecretFile :: string
  ghA_SecretKey :: string
  ghA_AppID :: int
  ghA_InstallationID :: int
  ghA_PrivateKeyFile :: string

record OutboundRateLimit =
  orl_RequestsPerSecond :: go_float
  orl_Burst :: int

record GitHubInstance =
  gh_Name :: string
  gh_Enabled :: bool
  gh_BaseURL :: string
  gh_InsecureSkipVerify :: bool
  gh_Auth :: "GitHubAuth option"
  gh_RateLimit :: "OutboundRateLimit option"
  gh_Actions :: "Action list"

record OAuth2Config =
  oa_GrantType :: string
  oa_ClientIDFile :: string
  oa_ClientIDKey :: string
  oa_ClientSecretFile :: string
  oa_ClientSecretKey :: string
  oa_TokenURL :: string
  oa_RefreshTokenFile :: string
  oa_RefreshTokenKey :: string

record GitLabAuth =
  glA_SecretFile :: string
  glA_SecretKey :: string
  glA_OAuth2 :: "OAuth2Config option"

record GitLabInstance =
  gl_Name :: string
  gl_Variant :: string
  gl_Enabled :: bool
  gl_Auth :: "GitLabAuth option"
  gl_BaseURL :: string
  gl_InsecureSkipVerify :: bool
  gl_RateLimit :: "OutboundRateLimit option"
  gl_Actions :: "Action list"

record GiteaAuth =
  gtA_SecretFile :: string
  gtA_SecretKey :: string
  gtA_OAuth2 :: "OAuth2Config option"

record GiteaInstance =
  gt_Name :: string
  gt_Enabled :: bool
  gt_Auth :: "GiteaAuth option"
  gt_BaseURL :: string
  gt_InsecureSkipVerify :: bool
  gt_RateLimit :: "OutboundRateLimit option"
  gt_Actions :: "Action list"

record AzureInstance =
  az_Name :: string
  az_Enabled :: bool
  az_SecretFile :: string
  az_SecretKey :: string
  az_BaseURL :: string
  az_Genre :: string
  az_InsecureSkipVerify :: bool
  az_RateLimit :: "OutboundRateLimit option"
  az_Actions :: "Action list"

record BitbucketAuth =
  bbA_UsernameFile :: string
  bbA_UsernameKey :: string
  bbA_AppPasswordFile :: string
  bbA_AppPasswordKey :: string
  bbA_TokenFile :: string
  bbA_TokenKey :: string
  bbA_OAuth2 :: "OAuth2Config option"

record BitbucketInstance =
  bb_Name :: string
  bb_Variant :: string
  bb_Enabled :: bool
  bb_Auth :: "BitbucketAuth option"
  bb_BaseURL :: string
  bb_InsecureSkipVerify :: bool
  bb_RateLimit :: "OutboundRateLimit option"
  bb_Actions :: "Action list"

record SourceHutAuth =
  shA_SecretFile :: string
  shA_SecretKey :: string

record SourceHutInstance =
  sh_Name :: string
  sh_Enabled :: bool
  sh_Auth :: "SourceHutAuth option"
  sh_BaseURL :: string
  sh_InsecureSkipVerify :: bool
  sh_RateLimit :: "OutboundRateLimit option"
  sh_Actions :: "Action list"

record SCMConfig =
  scm_GitHub :: "GitHubInstance list"
  scm_GitLab :: "GitLabInstance list"
  scm_Gitea :: "GiteaInstance list"
  scm_Azure :: "AzureInstance list"
  scm_Bitbucket :: "BitbucketInstance list"
  scm_SourceHut :: "SourceHutInstance list"

record BotTokenAuth =
  bt_TokenFile :: string
  bt_TokenKey :: string
  bt_ChannelID :: string

record SlackAuth =
  slaA_WebhookURLFile :: string
  slaA_WebhookURLKey :: string
  slaA_BotToken :: "BotTokenAuth option"

record SlackInstance =
  sla_Name :: string
  sla_Enabled :: bool
  sla_Auth :: "SlackAuth option"
  sla_Channel :: string
  sla_Username :: string
  sla_IconEmoji :: string
  sla_When :: string
  sla_Template :: string
  sla_Dedupe :: bool
  sla_Mode :: string
  sla_ThreadMode :: string
  sla_ThreadTS :: string
  sla_ChannelExpr :: string
  sla_Batch :: "NotifierBatchConfig option"
  sla_RetryOverride :: "RetryOverride option"

record TeamsAuth =
  teaA_WebhookURLFile :: string
  teaA_WebhookURLKey :: string

record MentionUser =
  mu_Name :: string
  mu_ID :: string

record TeamsInstance =
  tea_Name :: string
  tea_Enabled :: bool
  tea_Auth :: "TeamsAuth option"
  tea_When :: string
  tea_Template :: string
  tea_Dedupe :: bool
  tea_MentionUsers :: "MentionUser list"
  tea_Batch :: "NotifierBatchConfig option"
  tea_RetryOverride :: "RetryOverride option"

record DiscordAuth =
  disA_WebhookURLFile :: string
  disA_WebhookURLKey :: string
  disA_BotToken :: "BotTokenAuth option"

record DiscordInstance =
  dis_Name :: string
  dis_Enabled :: bool
  dis_Auth :: "DiscordAuth option"
  dis_Username :: string
  dis_When :: string
  dis_Template :: string
  dis_Dedupe :: bool
  dis_Mode :: string
  dis_ThreadMode :: string
  dis_MentionRoles :: "string list"
  dis_Batch :: "NotifierBatchConfig option"
  dis_RetryOverride :: "RetryOverride option"

record PagerDutyAuth =
  pagA_IntegrationKeyFile :: string
  pagA_IntegrationKeyKey :: string

record PagerDutyInstance =
  pag_Name :: string
  pag_Enabled :: bool
  pag_Auth :: "PagerDutyAuth option"
  pag_Severity :: string
  pag_SeverityExpr :: string
  pag_AcknowledgeOnRunning :: bool
  pag_When :: string
  pag_Dedupe :: bool
  pag_RetryOverride :: "RetryOverride option"

record DatadogAuth =
  datA_APIKeyFile :: string
  datA_APIKeyKey :: string

record DatadogInstance =
  dat_Name :: string
  dat_Enabled :: bool
  dat_Auth :: "DatadogAuth option"
  dat_Site :: string
  dat_Tags :: "string list"
  dat_ExtraTags :: "string list"
  dat_When :: string
  dat_Dedupe :: bool
  dat_RetryOverride :: "RetryOverride option"

record WebhookAuthConfig =
  whA_Type :: string
  whA_TokenFile :: string
  whA_UsernameFile :: string
  whA_PasswordFile :: string
  whA_Header :: string
  whA_SecretFile :: string
  whA_OAuth2 :: "OAuth2Config option"

record WebhookInstance =
  wh_Name :: string
  wh_Enabled :: bool
  wh_URLFile :: string
  wh_URLKey :: string
  wh_Auth :: "WebhookAuthConfig option"
  wh_Transform :: string
  wh_Headers :: "(string, string) gomap"
  wh_When :: string
  wh_Dedupe :: bool
  wh_Batch :: "NotifierBatchConfig option"
  wh_RetryOverride :: "RetryOverride option"

record GrafanaAuth =
  graA_TokenFile :: string
  graA_TokenKey :: string

record GrafanaInstance =
  gra_Name :: string
  gra_Enabled :: bool
  gra_URL :: string
  gra_Auth :: "GrafanaAuth option"
  gra_Tags :: "string list"
  gra_When :: string
  gra_Template :: string
  gra_Dedupe :: bool
  gra_DashboardUID :: string
  gra_DashboardUIDs :: "string list"
  gra_PanelID :: int
  gra_RetryOverride :: "RetryOverride option"

record SentryAuth =
  senA_TokenFile :: string
  senA_TokenKey :: string

record SentryInstance =
  sen_Name :: string
  sen_Enabled :: bool
  sen_BaseURL :: string
  sen_Org :: string
  sen_Projects :: "string list"
  sen_Auth :: "SentryAuth option"
  sen_EnvironmentExpr :: string
  sen_When :: string
  sen_Dedupe :: bool
  sen_RetryOverride :: "RetryOverride option"

record EmailAuth =
  emA_Username :: string
  emA_PasswordFile :: string
  emA_PasswordKey :: string
  emA_XOAuth2 :: bool
  emA_TokenFile :: string
  emA_TokenKey :: string

record EmailInstance =
  em_Name :: string
  em_Enabled :: bool
  em_Dedupe :: bool
  em_Host :: string
  em_Port :: int
  em_Encryption :: string
  em_Auth :: "EmailAuth option"
  em_From :: string
  em_To :: "string list"
  em_Cc :: "string list"
  em_Bcc :: "string list"
  em_ReplyTo :: string
  em_Subject :: string
  em_Template :: string
  em_HTML :: bool
  em_InsecureSkipVerify :: bool
  em_When :: string
  em_RetryOverride :: "RetryOverride option"

record MattermostAuth =
  matA_WebhookURLFile :: string
  matA_WebhookURLKey :: string
  matA_BotToken :: "BotTokenAuth option"

record MattermostInstance =
  mat_Name :: string
  mat_Enabled :: bool
  mat_Auth :: "MattermostAuth option"
  mat_BaseURL :: string
  mat_Channel :: string
  mat_Username :: string
  mat_IconURL :: string
  mat_When :: string
  mat_Template :: string
  mat_Dedupe :: bool
  mat_RetryOverride :: "RetryOverride option"

record IncidentIOAuth =
  incA_APIKeyFile :: string
  incA_APIKeyKey :: string

record IncidentIOInstance =
  inc_Name :: string
  inc_Enabled :: bool
  inc_Auth :: "IncidentIOAuth option"
  inc_SeverityID :: string
  inc_IncidentTypeID :: string
  inc_Visibility :: string
  inc_When :: string
  inc_Dedupe :: bool
  inc_RetryOverride :: "RetryOverride option"

record TelegramAuth =
  telA_TokenFile :: string
  telA_TokenKey :: string

record TelegramInstance =
  tel_Name :: string
  tel_Enabled :: bool
  tel_Auth :: "TelegramAuth option"
  tel_ChatID :: string
  tel_When :: string
  tel_Template :: string
  tel_Dedupe :: bool
  tel_RetryOverride :: "RetryOverride option"

record OpsgenieAuth =
  opsA_APIKeyFile :: string
  opsA_APIKeyKey :: string

record OpsgenieInstance =
  ops_Name :: string
  ops_Enabled :: bool
  ops_Auth :: "OpsgenieAuth option"
  ops_TeamName :: string
  ops_Priority :: string
  ops_When :: string
  ops_Dedupe :: bool
  ops_RetryOverride :: "RetryOverride option"

record NewRelicAuth =
  nrA_APIKeyFile :: string
  nrA_APIKeyKey :: string

record NewRelicInstance =
  nr_Name :: string
  nr_Enabled :: bool
  nr_Auth :: "NewRelicAuth option"
  nr_AccountID :: string
  nr_When :: string
  nr_Dedupe :: bool
  nr_RetryOverride :: "RetryOverride option"

record HoneycombAuth =
  honA_APIKeyFile :: string
  honA_APIKeyKey :: string

record HoneycombInstance =
  hon_Name :: string
  hon_Enabled :: bool
  hon_Auth :: "HoneycombAuth option"
  hon_Dataset :: string
  hon_When :: string
  hon_Dedupe :: bool
  hon_RetryOverride :: "RetryOverride option"

record KafkaAuth =
  kafA_SASLMechanism :: string
  kafA_UsernameFile :: string
  kafA_PasswordFile :: string
  kafA_TLSEnabled :: bool

record KafkaInstance =
  kaf_Name :: string
  kaf_Enabled :: bool
  kaf_Brokers :: "string list"
  kaf_Topic :: string
  kaf_TopicFunc :: string
  kaf_RequiredAcks :: int
  kaf_Auth :: "KafkaAuth option"
  kaf_When :: string
  kaf_Dedupe :: bool
  kaf_RetryOverride :: "RetryOverride option"

record NATSAuth =
  natA_CredentialsFile :: string
  natA_TLSEnabled :: bool

record NATSInstance =
  nat_Name :: string
  nat_Enabled :: bool
  nat_Servers :: "string list"
  nat_Subject :: string
  nat_Auth :: "NATSAuth option"
  nat_When :: string
  nat_Dedupe :: bool
  nat_RetryOverride :: "RetryOverride option"

record RabbitMQInstance =
  rab_Name :: string
  rab_Enabled :: bool
  rab_URLFile :: string
  rab_Exchange :: string
  rab_RoutingKey :: string
  rab_Auth :: "RabbitMQAuth option"
  rab_When :: string
  rab_Dedupe :: bool
  rab_RetryOverride :: "RetryOverride option"

record RedisPubSubAuth =
  rpsA_PasswordFile :: string

record RedisPubSubInstance =
  rps_Name :: string
  rps_Enabled :: bool
  rps_Address :: string
  rps_Channel :: string
  rps_PasswordFile :: string
  rps_DB :: int
  rps_Auth :: "RedisPubSubAuth option"
  rps_When :: string
  rps_Dedupe :: bool
  rps_RetryOverride :: "RetryOverride option"

record NotifiersConfig =
  nc_Slack :: "SlackInstance list"
  nc_Teams :: "TeamsInstance list"
  nc_Discord :: "DiscordInstance list"
  nc_PagerDuty :: "PagerDutyInstance list"
  nc_Datadog :: "DatadogInstance list"
  nc_Webhook :: "WebhookInstance list"
  nc_Grafana :: "GrafanaInstance list"
  nc_Sentry :: "SentryInstance list"
  nc_Email :: "EmailInstance list"
  nc_Mattermost :: "MattermostInstance list"
  nc_IncidentIO :: "IncidentIOInstance list"
  nc_Telegram :: "TelegramInstance list"
  nc_Opsgenie :: "OpsgenieInstance list"
  nc_NewRelic :: "NewRelicInstance list"
  nc_Honeycomb :: "HoneycombInstance list"
  nc_Kafka :: "KafkaInstance list"
  nc_NATS :: "NATSInstance list"
  nc_RabbitMQ :: "RabbitMQInstance list"
  nc_RedisPubSub :: "RedisPubSubInstance list"

record JiraAuth =
  jiA_Email :: string
  jiA_TokenFile :: string
  jiA_TokenKey :: string
  jiA_OAuth2 :: "OAuth2Config option"

record JiraAction =
  ja_Name :: string
  ja_Type :: string
  ja_Enabled :: bool
  ja_When :: string
  ja_Template :: string
  ja_Transition :: string
  ja_IssueKey :: string
  ja_ProjectKey :: string
  ja_IssueType :: string

record JiraInstance =
  ji_Name :: string
  ji_Enabled :: bool
  ji_Dedupe :: bool
  ji_BaseURL :: string
  ji_APIVersion :: string
  ji_Auth :: "JiraAuth option"
  ji_InsecureSkipVerify :: bool
  ji_Actions :: "JiraAction list"

record VerboseConfig =
  vb_Caller :: bool
  vb_HTTPCalls :: bool
  vb_Payloads :: bool

record LoggingConfig =
  lg_Level :: string
  lg_Verbose :: VerboseConfig

record TracingConfig =
  tr_Endpoint :: string
  tr_ServiceName :: string
  tr_Insecure :: bool
  tr_SampleRate :: go_float

record Config =
  cf_Server :: ServerConfig
  cf_DashboardURL :: string
  cf_Filter :: EventFilterConfig
  cf_DedupeSize :: int
  cf_MaxConcurrency :: int
  cf_HandlerTimeout :: int
  cf_Retry :: RetryConfig
  cf_Store :: StoreConfig
  cf_DLQ :: DLQConfig
  cf_Accumulator :: AccumulatorConfig
  cf_SCM :: SCMConfig
  cf_Notifiers :: NotifiersConfig
  cf_Jira :: "JiraInstance list"
  cf_Logging :: LoggingConfig
  cf_Tracing :: TracingConfig

text \<open>The zero value, which the YAML decoder fills.\<close>

definition zero_Config :: Config where
  "zero_Config =
    \<lparr>cf_Server = \<lparr>srv_Addr = '''', srv_MetricsAddr = '''', srv_ReadTimeoutSec = 0, srv_WriteTimeoutSec = 0, srv_ShutdownTimeoutSec = 0,
       srv_MaxBodySize = 0, srv_RateLimit = \<lparr>rl_Enabled = False, rl_RequestsPerSecond = Finite 0, rl_Burst = 0\<rparr>, srv_Auth =
       \<lparr>sa_Enabled = False, sa_Type = '''', sa_SecretFile = '''', sa_ValidateTimestamp = False, sa_TimestampTolerance = 0\<rparr>, srv_TLS =
       \<lparr>tls_CertFile = '''', tls_KeyFile = ''''\<rparr>\<rparr>,
          cf_DashboardURL = '''',
          cf_Filter = \<lparr>ef_AllowTaskRun = False, ef_AllowPipelineRun = False, ef_AllowCustomRun = False, ef_AllowEventListener = False,
       ef_IgnoreUnknown = False, ef_AllowNamespaces = [], ef_DenyNamespaces = []\<rparr>,
          cf_DedupeSize = 0,
          cf_MaxConcurrency = 0,
          cf_HandlerTimeout = 0,
          cf_Retry = \<lparr>rt_MaxAttempts = 0, rt_InitialBackoff = 0, rt_MaxBackoff = 0\<rparr>,
          cf_Store = \<lparr>sto_Backend = '''', sto_TTL = 0, sto_Valkey = \<lparr>vk_Address = '''', vk_PasswordFile = '''', vk_DB = 0, vk_KeyPrefix
       = ''''\<rparr>, sto_Olric = \<lparr>ol_BindAddr = '''', ol_BindPort = 0, ol_MemberlistPort = 0, ol_Peers = [], ol_Env = ''''\<rparr>\<rparr>,
          cf_DLQ = \<lparr>dq_Enabled = False, dq_Path = '''', dq_MaxSizeBytes = 0, dq_RetentionDays = 0\<rparr>,
          cf_Accumulator = \<lparr>acc_Enabled = False, acc_TTL = 0, acc_MaxSize = 0, acc_Template = '''', acc_Provider = None\<rparr>,
          cf_SCM = \<lparr>scm_GitHub = [], scm_GitLab = [], scm_Gitea = [], scm_Azure = [], scm_Bitbucket = [], scm_SourceHut = []\<rparr>,
          cf_Notifiers = \<lparr>nc_Slack = [], nc_Teams = [], nc_Discord = [], nc_PagerDuty = [], nc_Datadog = [], nc_Webhook = [], nc_Grafana = [],
       nc_Sentry = [], nc_Email = [], nc_Mattermost = [], nc_IncidentIO = [], nc_Telegram = [], nc_Opsgenie = [], nc_NewRelic = [], nc_Honeycomb = [],
       nc_Kafka = [], nc_NATS = [], nc_RabbitMQ = [], nc_RedisPubSub = []\<rparr>,
          cf_Jira = [],
          cf_Logging = \<lparr>lg_Level = '''', lg_Verbose = \<lparr>vb_Caller = False, vb_HTTPCalls = False, vb_Payloads = False\<rparr>\<rparr>,
          cf_Tracing = \<lparr>tr_Endpoint = '''', tr_ServiceName = '''', tr_Insecure = False, tr_SampleRate = Finite 0\<rparr>\<rparr>"

section \<open>Defaults\<close>

definition DefaultServerAddr :: string where "DefaultServerAddr = '':8080''"
definition DefaultMaxBodySize :: int where "DefaultMaxBodySize = 1048576"
definition DefaultRateLimitRPS :: go_float where "DefaultRateLimitRPS = Finite 100"
definition DefaultRateLimitBurst :: int where "DefaultRateLimitBurst = 200"
definition ServerTLSConfig_Enabled :: "ServerTLSConfig \<Rightarrow> bool" where
  "ServerTLSConfig_Enabled t = (tls_CertFile t \<noteq> '''' \<and> tls_KeyFile t \<noteq> '''')"

text \<open>A field that still has its zero value gets the default.\<close>

definition or_default :: "'a \<Rightarrow> 'a \<Rightarrow> 'a \<Rightarrow> 'a" where
  "or_default z d x = (if x = z then d else x)"

definition defaults_server :: "ServerConfig \<Rightarrow> ServerConfig" where
  "defaults_server s = s\<lparr>srv_Addr := or_default '''' DefaultServerAddr (srv_Addr s),
     srv_ReadTimeoutSec := or_default 0 10 (srv_ReadTimeoutSec s),
     srv_WriteTimeoutSec := or_default 0 10 (srv_WriteTimeoutSec s),
     srv_ShutdownTimeoutSec := or_default 0 30 (srv_ShutdownTimeoutSec s)\<rparr>"

definition defaults_retry :: "RetryConfig \<Rightarrow> RetryConfig" where
  "defaults_retry r = r\<lparr>rt_MaxAttempts := or_default 0 4 (rt_MaxAttempts r),
     rt_InitialBackoff := or_default 0 (250 * 10 ^ 6) (rt_InitialBackoff r),
     rt_MaxBackoff := or_default 0 (30 * nsPerSec) (rt_MaxBackoff r)\<rparr>"

definition defaults_store :: "StoreConfig \<Rightarrow> StoreConfig" where
  "defaults_store s = s\<lparr>sto_Backend := or_default '''' ''memory'' (sto_Backend s),
     sto_TTL := or_default 0 (3600 * nsPerSec) (sto_TTL s)\<rparr>"

definition defaults_dlq :: "DLQConfig \<Rightarrow> DLQConfig" where
  "defaults_dlq d = d\<lparr>dq_Path := or_default '''' ''/var/lib/tekton-events-relay/dlq.jsonl'' (dq_Path d),
     dq_MaxSizeBytes := or_default 0 (10 * 1024 * 1024) (dq_MaxSizeBytes d),
     dq_RetentionDays := or_default 0 7 (dq_RetentionDays d)\<rparr>"

definition defaults_filter :: "EventFilterConfig \<Rightarrow> EventFilterConfig" where
  "defaults_filter f =
     (if \<not> ef_AllowTaskRun f \<and> \<not> ef_AllowPipelineRun f then f\<lparr>ef_AllowPipelineRun := True, ef_IgnoreUnknown := True\<rparr> else f)"

definition defaults_tracing :: "TracingConfig \<Rightarrow> TracingConfig" where
  "defaults_tracing t =
     (let t1 = (if tr_Endpoint t \<noteq> '''' \<and> tr_ServiceName t = '''' then t\<lparr>tr_ServiceName := ''tekton-events-relay''\<rparr> else t)
      in if flt_eq (tr_SampleRate t1) (Finite 0) then t1\<lparr>tr_SampleRate := Finite 1\<rparr> else t1)"

definition applyDefaults :: "Config \<Rightarrow> Config" where
  "applyDefaults c = c\<lparr>cf_Server := defaults_server (cf_Server c),
     cf_DedupeSize := or_default 0 10000 (cf_DedupeSize c),
     cf_MaxConcurrency := or_default 0 100 (cf_MaxConcurrency c),
     cf_HandlerTimeout := or_default 0 (10 * nsPerSec) (cf_HandlerTimeout c),
     cf_Retry := defaults_retry (cf_Retry c), cf_Store := defaults_store (cf_Store c), cf_DLQ := defaults_dlq (cf_DLQ c),
     cf_Filter := defaults_filter (cf_Filter c),
     cf_Logging := (cf_Logging c)\<lparr>lg_Level := or_default '''' ''info'' (lg_Level (cf_Logging c))\<rparr>,
     cf_Tracing := defaults_tracing (cf_Tracing c)\<rparr>"

text \<open>
  A label is an object with a name, or a plain string. \<open>obj\<close> and \<open>str\<close> are what the YAML decoder makes of
  the node as an object and as a string.
\<close>

definition LabelEntry_UnmarshalYAML :: "(string \<times> string) result \<Rightarrow> string result \<Rightarrow> LabelEntry result" where
  "LabelEntry_UnmarshalYAML obj str =
     (case obj of
        Inr (n, c) \<Rightarrow> if n \<noteq> '''' then Inr \<lparr>le_Name = n, le_Color = c\<rparr>
          else (case str of Inl e \<Rightarrow> Inl e | Inr s \<Rightarrow> Inr \<lparr>le_Name = s, le_Color = ''''\<rparr>)
      | Inl _ \<Rightarrow> (case str of Inl e \<Rightarrow> Inl e | Inr s \<Rightarrow> Inr \<lparr>le_Name = s, le_Color = ''''\<rparr>))"

definition GitHub_GetBaseURL :: "GitHubInstance \<Rightarrow> string" where
  "GitHub_GetBaseURL g = (if gh_BaseURL g = '''' then ''https://api.github.com'' else gh_BaseURL g)"

section \<open>What the defaults do\<close>

lemma or_default_idem [simp]: "d \<noteq> z \<Longrightarrow> or_default z d (or_default z d x) = or_default z d x"
  by (simp add: or_default_def)

lemmas defaults_defs = applyDefaults_def defaults_server_def defaults_retry_def defaults_store_def defaults_dlq_def

lemma flt_eq_zero: "flt_eq x (Finite 0) \<longleftrightarrow> x = Finite 0"
  by (cases x) auto

lemma defaults_sections_idem [simp]:
  "defaults_server (defaults_server s) = defaults_server s" "defaults_retry (defaults_retry r) = defaults_retry r"
  "defaults_store (defaults_store st) = defaults_store st" "defaults_dlq (defaults_dlq d) = defaults_dlq d"
  "defaults_filter (defaults_filter f) = defaults_filter f" "defaults_tracing (defaults_tracing t) = defaults_tracing t"
  by (simp_all add: defaults_defs DefaultServerAddr_def nsPerSec_def defaults_filter_def defaults_tracing_def flt_eq_zero Let_def)

lemma applyDefaults_idem: "applyDefaults (applyDefaults c) = applyDefaults c"
  by (simp add: applyDefaults_def nsPerSec_def)

end
