(* ===== verification/Relay_Validate.thy ===== *)
theory Relay_Validate
  imports Relay_Config Relay_Middleware
begin

text \<open>
  Package \<^verbatim>\<open>internal/config\<close>: the checks of a configuration. \<open>Validate\<close> is what loading runs and stops at
  the first problem; \<open>ValidateAll\<close> is what the command line option \<^verbatim>\<open>--validate\<close> runs on a loaded
  configuration and lists them all. The compilers of CEL, Go templates and jq, the URL parser and
  the struct tag validator are arguments.
\<close>

section \<open>Problems and checkers\<close>

record ValidationError =
  vePath :: string
  veMessage :: string

definition ValidationError_Error :: "ValidationError \<Rightarrow> string" where
  "ValidationError_Error e = vePath e @ '': '' @ veMessage e"

definition ve :: "string \<Rightarrow> string \<Rightarrow> ValidationError" where
  "ve p m = \<lparr>vePath = p, veMessage = m\<rparr>"

definition err_if :: "bool \<Rightarrow> string \<Rightarrow> string \<Rightarrow> ValidationError list" where
  "err_if b p m = (if b then [ve p m] else [])"

text \<open>The answer of a compiler or parser: an error or nothing.\<close>

record Checkers =
  ckCEL :: "string \<Rightarrow> err option"
  ckCELString :: "string \<Rightarrow> err option"
  ckTemplate :: "string \<Rightarrow> string \<Rightarrow> err option"
  ckURI :: "string \<Rightarrow> err option"
  ckJqParse :: "string \<Rightarrow> err option"
  ckJqCompile :: "string \<Rightarrow> err option"
  ckFormatG :: "go_float \<Rightarrow> string"

definition err_of :: "err option \<Rightarrow> string \<Rightarrow> string \<Rightarrow> ValidationError list" where
  "err_of r p m = (case r of None \<Rightarrow> [] | Some e \<Rightarrow> [ve p (m @ error_text e)])"

definition at_index :: "string \<Rightarrow> nat \<Rightarrow> string" where
  "at_index p i = p @ ''['' @ Itoa (int i) @ '']''"

definition quoted :: "string \<Rightarrow> string" where
  "quoted s = [CHR 0x27] @ s @ [CHR 0x27]"

text \<open>The elements of a list, each checked with its index.\<close>

definition indexed :: "string \<Rightarrow> (string \<Rightarrow> 'a \<Rightarrow> ValidationError list) \<Rightarrow> 'a list \<Rightarrow> ValidationError list" where
  "indexed p check xs = concat (map (\<lambda>(i, x). check (at_index p i) x) (enumerate 0 xs))"

abbreviation msgRequired :: string where "msgRequired \<equiv> ''required''"
abbreviation msgRequiredForEnabled :: string where "msgRequiredForEnabled \<equiv> ''required for enabled instance''"
abbreviation pathAuth :: string where "pathAuth \<equiv> ''.auth''"

definition auth_required :: "string \<Rightarrow> bool \<Rightarrow> ValidationError list" where
  "auth_required p b = err_if b (p @ pathAuth) (''enabled instance missing required field '' @ quoted ''auth'')"

definition missing :: "('a \<Rightarrow> string) \<Rightarrow> 'a option \<Rightarrow> bool" where
  "missing f a = (case a of None \<Rightarrow> True | Some x \<Rightarrow> f x = '''')"

section \<open>Shared rules\<close>

text \<open>
  A rule that looks for a method of the instance by a type assertion is given None for a type
  without the method.
\<close>

definition validateCELWhen :: "Checkers \<Rightarrow> string \<Rightarrow> string option \<Rightarrow> ValidationError list" where
  "validateCELWhen ck p getWhen =
     (case getWhen of
        None \<Rightarrow> []
      | Some w \<Rightarrow> if w = '''' then [] else err_of (ckCEL ck w) (p @ ''.when'') ''invalid CEL: '')"

definition validateTemplate :: "Checkers \<Rightarrow> string \<Rightarrow> string option \<Rightarrow> ValidationError list" where
  "validateTemplate ck p getTemplate =
     (case getTemplate of
        None \<Rightarrow> []
      | Some t \<Rightarrow> if t = '''' then [] else err_of (ckTemplate ck ''test'' t) (p @ ''.template'') ''invalid template: '')"

definition requireBaseURL :: "Checkers \<Rightarrow> string \<Rightarrow> bool \<Rightarrow> string \<Rightarrow> ValidationError list" where
  "requireBaseURL ck p enabled url =
     (if \<not> enabled then []
      else if url = '''' then [ve (p @ ''.base_url'') (''enabled instance missing required field '' @ quoted ''base_url'')]
      else err_of (ckURI ck url) (p @ ''.base_url'') (''invalid URL '' @ quoted url @ '': ''))"

definition validTypes :: "string list" where
  "validTypes = [''commit_status'', ''commit_comment'', ''pr_comment'', ''issue_comment'', ''label'', ''discussion_comment'',
     ''check_run'', ''deployment_status'', ''incident_create'']"

definition validateAction :: "Checkers \<Rightarrow> string \<Rightarrow> Action \<Rightarrow> ValidationError list" where
  "validateAction ck p a =
     err_if (ActionTypeOf a \<noteq> '''' \<and> ActionTypeOf a \<notin> set validTypes) (p @ ''.type'')
       (''invalid action type '' @ quoted (ActionTypeOf a) @ '' (must be one of: commit_status, commit_comment, pr_comment, issue_comment, label, discussion_comment, check_run, deployment_status, incident_create)'') @
     err_if (ActionTypeOf a = ''label'' \<and> (case LabelsOf a of None \<Rightarrow> True | Some l \<Rightarrow> al_Add l = [] \<and> al_Remove l = [])) (p @ ''.labels'')
       ''label actions require a labels block with at least one add or remove entry'' @
     err_if (ContextPerTask a \<and> ActionTypeOf a \<noteq> ''commit_status'') (p @ ''.context_per_task'')
       (''context_per_task is only valid for commit_status actions, but action type is '' @ quoted (ActionTypeOf a)) @
     (if When a = '''' then [] else err_of (ckCEL ck (When a)) (p @ ''.when'') ''invalid CEL: '') @
     (if ActionTemplate a = '''' then [] else err_of (ckTemplate ck ''test'' (ActionTemplate a)) (p @ ''.template'') ''invalid template: '') @
     err_if (FallbackAction a \<noteq> '''' \<and> FallbackAction a = ActionName a) (p @ ''.fallback_action'')
       ''fallback_action cannot reference itself (anti-loop)''"

definition validateActions :: "Checkers \<Rightarrow> string \<Rightarrow> Action list \<Rightarrow> ValidationError list" where
  "validateActions ck p as = indexed (p @ ''.actions'') (validateAction ck) as"

definition validateOAuth2 :: "string \<Rightarrow> OAuth2Config option \<Rightarrow> ValidationError list" where
  "validateOAuth2 p o2 =
     (case o2 of
        None \<Rightarrow> []
      | Some c \<Rightarrow>
          err_if (oa_GrantType c \<notin> {'''', ''client_credentials'', ''refresh_token''}) (p @ ''.oauth2.grant_type'')
            (''must be '' @ quoted ''client_credentials'' @ '' or '' @ quoted ''refresh_token'' @ '' (authorization_code is not supported '' @
             [CHR 0xE2, CHR 0x80, CHR 0x94] @ '' the relay has no redirect endpoint; seed a refresh_token instead)'') @
          err_if (oa_TokenURL c = '''') (p @ ''.oauth2.token_url'') (''oauth2 requires '' @ quoted ''token_url''))"

definition validateTransform :: "Checkers \<Rightarrow> string \<Rightarrow> WebhookInstance \<Rightarrow> ValidationError list" where
  "validateTransform ck p w =
     (if \<not> wh_Enabled w then []
      else if wh_Transform w = '''' then []
      else (case ckJqParse ck (wh_Transform w) of
              Some _ \<Rightarrow> [ve (p @ ''.transform'') ''invalid jq syntax'']
            | None \<Rightarrow> err_of (ckJqCompile ck (wh_Transform w)) (p @ ''.transform'') ''invalid jq expression: ''))"

section \<open>SCM providers\<close>

definition validateGitHubInstance :: "Checkers \<Rightarrow> string \<Rightarrow> GitHubInstance \<Rightarrow> ValidationError list" where
  "validateGitHubInstance ck p g =
     (let hasSecretFile = (case gh_Auth g of None \<Rightarrow> False | Some a \<Rightarrow> ghA_SecretFile a \<noteq> '''');
          hasApp = (case gh_Auth g of None \<Rightarrow> False | Some a \<Rightarrow> ghA_AppID a \<noteq> 0 \<and> ghA_InstallationID a \<noteq> 0);
          appFieldsSet = (case gh_Auth g of None \<Rightarrow> False | Some a \<Rightarrow> ghA_AppID a \<noteq> 0 \<or> ghA_InstallationID a \<noteq> 0)
      in (if \<not> gh_Enabled g then []
          else
            (if hasSecretFile \<and> hasApp then
               [ve (p @ ''.auth'') ''cannot use both token (secret_file) and GitHub App auth (app_id, installation_id); choose one'']
             else if \<not> hasSecretFile \<and> \<not> hasApp then
               [ve p (''either 'auth.secret_file' or GitHub App credentials (auth.app_id, auth.installation_id) required when enabled; '' @
                  ''private key must be mounted at /etc/github-app/private-key.pem'')]
             else []) @
            err_if (appFieldsSet \<and> \<not> hasApp) p
              ''when using GitHub App auth, both fields (auth.app_id, auth.installation_id) are required'') @
         requireBaseURL ck p (gh_Enabled g) (GitHub_GetBaseURL g) @ validateActions ck p (gh_Actions g))"

text \<open>A secret file or OAuth2, and not both.\<close>

definition secret_or_oauth2 :: "string \<Rightarrow> string \<Rightarrow> OAuth2Config option \<Rightarrow> ValidationError list" where
  "secret_or_oauth2 p secretFile oauth2 =
     err_if (secretFile = '''' \<and> oauth2 = None) (p @ ''.auth'') ''either auth.secret_file or auth.oauth2 required when enabled'' @
     err_if (secretFile \<noteq> '''' \<and> oauth2 \<noteq> None) (p @ ''.auth'')
       ''cannot use both auth.secret_file and auth.oauth2; choose one''"

definition validateGitLabInstance :: "Checkers \<Rightarrow> string \<Rightarrow> GitLabInstance \<Rightarrow> ValidationError list" where
  "validateGitLabInstance ck p g =
     (if \<not> gl_Enabled g then []
      else
        err_if (gl_Variant g \<noteq> ''saas'' \<and> gl_Variant g \<noteq> ''self-managed'') (p @ ''.variant'')
          (''variant must be 'saas' or 'self-managed', got '' @ quoted (gl_Variant g)) @
        (case gl_Auth g of None \<Rightarrow> auth_required p True | Some a \<Rightarrow> secret_or_oauth2 p (glA_SecretFile a) (glA_OAuth2 a)) @
        err_if (gl_Variant g = ''self-managed'' \<and> gl_BaseURL g = '''') (p @ ''.base_url'') ''base_url is required for self-managed variant'' @
        (if gl_BaseURL g = '''' then []
         else err_of (ckURI ck (gl_BaseURL g)) (p @ ''.base_url'') (''invalid URL '' @ quoted (gl_BaseURL g) @ '': ''))) @
     validateActions ck p (gl_Actions g)"

definition validateGiteaInstance :: "Checkers \<Rightarrow> string \<Rightarrow> GiteaInstance \<Rightarrow> ValidationError list" where
  "validateGiteaInstance ck p g =
     (if \<not> gt_Enabled g then []
      else (case gt_Auth g of None \<Rightarrow> auth_required p True | Some a \<Rightarrow> secret_or_oauth2 p (gtA_SecretFile a) (gtA_OAuth2 a))) @
     requireBaseURL ck p (gt_Enabled g) (gt_BaseURL g) @ validateActions ck p (gt_Actions g)"

definition validateBitbucketInstance :: "Checkers \<Rightarrow> string \<Rightarrow> BitbucketInstance \<Rightarrow> ValidationError list" where
  "validateBitbucketInstance ck p b =
     (if \<not> bb_Enabled b then []
      else
        err_if (bb_Variant b \<noteq> ''cloud'' \<and> bb_Variant b \<noteq> ''server'') (p @ ''.variant'')
          (''variant must be 'cloud' or 'server', got '' @ quoted (bb_Variant b)) @
        (if bb_Variant b = ''cloud'' then
           (case bb_Auth b of
              None \<Rightarrow> [ve (p @ ''.auth'') ''variant 'cloud' requires auth'']
            | Some a \<Rightarrow>
                err_if (\<not> (bbA_UsernameFile a \<noteq> '''' \<and> bbA_AppPasswordFile a \<noteq> '''') \<and> bbA_OAuth2 a = None) (p @ ''.auth'')
                  ''variant 'cloud' requires either (username_file + app_password_file) or oauth2'')
         else
           (case bb_Auth b of
              None \<Rightarrow> [ve (p @ ''.auth'') ''variant 'server' requires auth'']
            | Some a \<Rightarrow> err_if (bbA_TokenFile a = '''') (p @ ''.auth.token_file'') ''variant 'server' requires auth.token_file'') @
           requireBaseURL ck p (bb_Enabled b) (bb_BaseURL b))) @
     validateActions ck p (bb_Actions b)"

definition validateAzureInstance :: "Checkers \<Rightarrow> string \<Rightarrow> AzureInstance \<Rightarrow> ValidationError list" where
  "validateAzureInstance ck p a =
     err_if (az_Enabled a \<and> az_SecretFile a = '''') (p @ ''.secret_file'') msgRequiredForEnabled @
     requireBaseURL ck p (az_Enabled a) (az_BaseURL a) @ validateActions ck p (az_Actions a)"

definition validateSourceHutInstance :: "Checkers \<Rightarrow> string \<Rightarrow> SourceHutInstance \<Rightarrow> ValidationError list" where
  "validateSourceHutInstance ck p s =
     auth_required p (sh_Enabled s \<and> missing shA_SecretFile (sh_Auth s)) @
     requireBaseURL ck p (sh_Enabled s) (sh_BaseURL s) @ validateActions ck p (sh_Actions s)"

section \<open>Notifiers\<close>

definition validateBotTokenAuth :: "string \<Rightarrow> BotTokenAuth \<Rightarrow> ValidationError list" where
  "validateBotTokenAuth p b =
     err_if (bt_TokenFile b = '''') (p @ ''.token_file'') msgRequired @
     err_if (bt_ChannelID b = '''') (p @ ''.channel_id'') msgRequired"

text \<open>A webhook or a bot token, and not both: the rule that Slack, Discord and Mattermost share.\<close>

definition webhook_or_bot :: "string \<Rightarrow> string \<Rightarrow> BotTokenAuth option \<Rightarrow> ValidationError list" where
  "webhook_or_bot p url tok =
     (if url = '''' \<and> tok = None then
        [ve (p @ ''.auth'') ''exactly one of auth.webhook_url_file or auth.bot_token required when enabled'']
      else if url \<noteq> '''' \<and> tok \<noteq> None then
        [ve (p @ ''.auth'') ''auth.webhook_url_file and auth.bot_token are mutually exclusive'']
      else []) @
     (case tok of None \<Rightarrow> [] | Some b \<Rightarrow> validateBotTokenAuth (p @ ''.auth.bot_token'') b)"

definition validateSlackInstance :: "Checkers \<Rightarrow> string \<Rightarrow> SlackInstance \<Rightarrow> ValidationError list" where
  "validateSlackInstance ck p s =
     (if \<not> sla_Enabled s then []
      else (case sla_Auth s of None \<Rightarrow> auth_required p True | Some a \<Rightarrow> webhook_or_bot p (slaA_WebhookURLFile a) (slaA_BotToken a))) @
     validateCELWhen ck p (Some (sla_When s)) @ validateTemplate ck p (Some (sla_Template s)) @
     err_if (sla_ThreadMode s \<noteq> '''' \<and> sla_ThreadMode s \<noteq> ''grouped'') (p @ ''.thread_mode'') ''thread_mode must be empty or \"grouped\"'' @
     err_if (sla_ThreadMode s = ''grouped'' \<and> sla_Mode s = ''upsert'') (p @ ''.thread_mode'')
       ''thread_mode \"grouped\" and mode \"upsert\" are mutually exclusive'' @
     err_if (sla_ThreadMode s = ''grouped'' \<and> (case sla_Auth s of None \<Rightarrow> False | Some a \<Rightarrow> slaA_BotToken a = None)) (p @ ''.thread_mode'')
       ''thread_mode \"grouped\" requires bot_token auth'' @
     (if sla_ChannelExpr s = '''' then [] else err_of (ckCELString ck (sla_ChannelExpr s)) (p @ ''.channel_expr'') ''invalid CEL: '')"

definition validateTeamsInstance :: "Checkers \<Rightarrow> string \<Rightarrow> TeamsInstance \<Rightarrow> ValidationError list" where
  "validateTeamsInstance ck p t =
     auth_required p (tea_Enabled t \<and> missing teaA_WebhookURLFile (tea_Auth t)) @
     indexed (p @ ''.mention_users'') (\<lambda>q mu. err_if (mu_ID mu = '''') (q @ ''.id'') ''id is required for mention_users entries'')
       (tea_MentionUsers t) @
     validateCELWhen ck p (Some (tea_When t)) @ validateTemplate ck p (Some (tea_Template t))"

definition validateDiscordInstance :: "Checkers \<Rightarrow> string \<Rightarrow> DiscordInstance \<Rightarrow> ValidationError list" where
  "validateDiscordInstance ck p d =
     (if \<not> dis_Enabled d then []
      else (case dis_Auth d of None \<Rightarrow> auth_required p True | Some a \<Rightarrow> webhook_or_bot p (disA_WebhookURLFile a) (disA_BotToken a))) @
     indexed (p @ ''.mention_roles'') (\<lambda>q i. err_if (i = '''') q ''role ID must not be empty'') (dis_MentionRoles d) @
     validateCELWhen ck p (Some (dis_When d)) @ validateTemplate ck p (Some (dis_Template d))"

definition validatePagerDutyInstance :: "Checkers \<Rightarrow> string \<Rightarrow> PagerDutyInstance \<Rightarrow> ValidationError list" where
  "validatePagerDutyInstance ck p i =
     auth_required p (pag_Enabled i \<and> missing pagA_IntegrationKeyFile (pag_Auth i)) @ validateCELWhen ck p (Some (pag_When i))"

definition validateOpsgenieInstance :: "Checkers \<Rightarrow> string \<Rightarrow> OpsgenieInstance \<Rightarrow> ValidationError list" where
  "validateOpsgenieInstance ck p i =
     auth_required p (ops_Enabled i \<and> missing opsA_APIKeyFile (ops_Auth i)) @
     err_if (ops_Priority i \<noteq> '''' \<and> ops_Priority i \<notin> {''P1'', ''P2'', ''P3'', ''P4'', ''P5''}) (p @ ''.priority'')
       ''priority must be one of P1, P2, P3, P4, P5'' @
     validateCELWhen ck p (Some (ops_When i))"

definition validateNewRelicInstance :: "Checkers \<Rightarrow> string \<Rightarrow> NewRelicInstance \<Rightarrow> ValidationError list" where
  "validateNewRelicInstance ck p i =
     auth_required p (nr_Enabled i \<and> missing nrA_APIKeyFile (nr_Auth i)) @
     err_if (nr_Enabled i \<and> nr_AccountID i = '''') (p @ ''.account_id'') msgRequired @ validateCELWhen ck p (Some (nr_When i))"

definition validateHoneycombInstance :: "Checkers \<Rightarrow> string \<Rightarrow> HoneycombInstance \<Rightarrow> ValidationError list" where
  "validateHoneycombInstance ck p i =
     auth_required p (hon_Enabled i \<and> missing honA_APIKeyFile (hon_Auth i)) @
     err_if (hon_Enabled i \<and> hon_Dataset i = '''') (p @ ''.dataset'') msgRequired @ validateCELWhen ck p (Some (hon_When i))"

definition validateDatadogInstance :: "Checkers \<Rightarrow> string \<Rightarrow> DatadogInstance \<Rightarrow> ValidationError list" where
  "validateDatadogInstance ck p i =
     auth_required p (dat_Enabled i \<and> missing datA_APIKeyFile (dat_Auth i)) @ validateCELWhen ck p (Some (dat_When i))"

text \<open>Each kind of credentials of a webhook needs its own fields and refuses those of the others.\<close>

definition validateWebhookBearerAuth :: "string \<Rightarrow> WebhookAuthConfig \<Rightarrow> ValidationError list" where
  "validateWebhookBearerAuth p a =
     (if whA_TokenFile a = '''' then [ve (p @ ''.auth'') (''type 'bearer' requires '' @ quoted ''token_file'')]
      else if whA_UsernameFile a \<noteq> '''' \<or> whA_PasswordFile a \<noteq> '''' \<or> whA_SecretFile a \<noteq> '''' \<or> whA_Header a \<noteq> '''' then
        [ve (p @ ''.auth'') (''type 'bearer' does not accept 'username_file', 'password_file', 'secret_file', or '' @ quoted ''header'')]
      else [])"

definition validateWebhookBasicAuth :: "string \<Rightarrow> WebhookAuthConfig \<Rightarrow> ValidationError list" where
  "validateWebhookBasicAuth p a =
     (if whA_UsernameFile a = '''' \<or> whA_PasswordFile a = '''' then
        [ve (p @ ''.auth'') (''type 'basic' requires 'username_file' and '' @ quoted ''password_file'')]
      else if whA_TokenFile a \<noteq> '''' \<or> whA_SecretFile a \<noteq> '''' \<or> whA_Header a \<noteq> '''' then
        [ve (p @ ''.auth'') (''type 'basic' does not accept 'token_file', 'secret_file', or '' @ quoted ''header'')]
      else [])"

definition validateWebhookAPIKeyAuth :: "string \<Rightarrow> WebhookAuthConfig \<Rightarrow> ValidationError list" where
  "validateWebhookAPIKeyAuth p a =
     (if whA_TokenFile a = '''' \<or> whA_Header a = '''' then
        [ve (p @ ''.auth'') (''type 'apikey' requires 'token_file' and '' @ quoted ''header'')]
      else if whA_UsernameFile a \<noteq> '''' \<or> whA_PasswordFile a \<noteq> '''' \<or> whA_SecretFile a \<noteq> '''' then
        [ve (p @ ''.auth'') (''type 'apikey' does not accept 'username_file', 'password_file', or '' @ quoted ''secret_file'')]
      else [])"

definition validateWebhookHMACAuth :: "string \<Rightarrow> WebhookAuthConfig \<Rightarrow> ValidationError list" where
  "validateWebhookHMACAuth p a =
     (if whA_SecretFile a = '''' then [ve (p @ ''.auth'') (''type 'hmac' requires '' @ quoted ''secret_file'')]
      else if whA_TokenFile a \<noteq> '''' \<or> whA_UsernameFile a \<noteq> '''' \<or> whA_PasswordFile a \<noteq> '''' \<or> whA_Header a \<noteq> '''' then
        [ve (p @ ''.auth'') (''type 'hmac' does not accept 'token_file', 'username_file', 'password_file', or '' @ quoted ''header'')]
      else [])"

definition validateWebhookOAuth2Auth :: "string \<Rightarrow> WebhookAuthConfig \<Rightarrow> ValidationError list" where
  "validateWebhookOAuth2Auth p a =
     (if whA_OAuth2 a = None then [ve (p @ ''.auth'') (''type 'oauth2' requires an 'oauth2' block'')]
      else if whA_TokenFile a \<noteq> '''' \<or> whA_UsernameFile a \<noteq> '''' \<or> whA_PasswordFile a \<noteq> '''' \<or> whA_SecretFile a \<noteq> '''' \<or>
        whA_Header a \<noteq> '''' then
        [ve (p @ ''.auth'') (''type 'oauth2' does not accept 'token_file', 'username_file', 'password_file', 'secret_file', or '' @ quoted ''header'')]
      else validateOAuth2 (p @ ''.auth'') (whA_OAuth2 a))"

definition validateWebhookAuth :: "string \<Rightarrow> WebhookInstance \<Rightarrow> ValidationError list" where
  "validateWebhookAuth p w =
     (if \<not> wh_Enabled w then []
      else case wh_Auth w of
        None \<Rightarrow> []
      | Some a \<Rightarrow>
          if whA_Type a = '''' then []
          else if whA_Type a = ''bearer'' then validateWebhookBearerAuth p a
          else if whA_Type a = ''basic'' then validateWebhookBasicAuth p a
          else if whA_Type a = ''apikey'' then validateWebhookAPIKeyAuth p a
          else if whA_Type a = ''hmac'' then validateWebhookHMACAuth p a
          else if whA_Type a = ''oauth2'' then validateWebhookOAuth2Auth p a
          else [ve (p @ ''.auth.type'') (''invalid type '' @ quoted (whA_Type a))])"

definition validateWebhookInstance :: "Checkers \<Rightarrow> string \<Rightarrow> WebhookInstance \<Rightarrow> ValidationError list" where
  "validateWebhookInstance ck p w =
     err_if (wh_Enabled w \<and> wh_URLFile w = '''') (p @ ''.url_file'') (''enabled instance missing required field '' @ quoted ''url_file'') @
     validateCELWhen ck p (Some (wh_When w)) @ validateTransform ck p w @ validateWebhookAuth p w"

text \<open>The type of a Grafana instance has neither method, so neither its condition nor its template is looked at.\<close>

definition validateGrafanaInstance :: "Checkers \<Rightarrow> string \<Rightarrow> GrafanaInstance \<Rightarrow> ValidationError list" where
  "validateGrafanaInstance ck p g =
     (if \<not> gra_Enabled g then []
      else
        err_if (gra_URL g = '''') (p @ ''.url'') (''enabled instance missing required field '' @ quoted ''base_url'') @
        auth_required p (missing graA_TokenFile (gra_Auth g)) @
        err_if (gra_Template g = '''') (p @ ''.template'') msgRequiredForEnabled) @
     validateCELWhen ck p None @ validateTemplate ck p None"

text \<open>Nor has the type of a Sentry instance.\<close>

definition validateSentryInstance :: "Checkers \<Rightarrow> string \<Rightarrow> SentryInstance \<Rightarrow> ValidationError list" where
  "validateSentryInstance ck p s =
     auth_required p (sen_Enabled s \<and> missing senA_TokenFile (sen_Auth s)) @
     err_if (sen_Enabled s \<and> sen_Org s = '''') (p @ ''.org'') msgRequired @ validateCELWhen ck p None"

definition validateIncidentIOInstance :: "Checkers \<Rightarrow> string \<Rightarrow> IncidentIOInstance \<Rightarrow> ValidationError list" where
  "validateIncidentIOInstance ck p i =
     auth_required p (inc_Enabled i \<and> missing incA_APIKeyFile (inc_Auth i)) @ validateCELWhen ck p (Some (inc_When i))"

text \<open>The type of a Telegram instance has no method for its template.\<close>

definition validateTelegramInstance :: "Checkers \<Rightarrow> string \<Rightarrow> TelegramInstance \<Rightarrow> ValidationError list" where
  "validateTelegramInstance ck p t =
     auth_required p (tel_Enabled t \<and> missing telA_TokenFile (tel_Auth t)) @
     err_if (tel_Enabled t \<and> tel_ChatID t = '''') (p @ ''.chat_id'') msgRequired @
     validateCELWhen ck p (Some (tel_When t)) @ validateTemplate ck p None"

definition validateMattermostInstance :: "Checkers \<Rightarrow> string \<Rightarrow> MattermostInstance \<Rightarrow> ValidationError list" where
  "validateMattermostInstance ck p m =
     (if \<not> mat_Enabled m then []
      else (case mat_Auth m of
              None \<Rightarrow> auth_required p True
            | Some a \<Rightarrow>
                webhook_or_bot p (matA_WebhookURLFile a) (matA_BotToken a) @
                err_if (matA_BotToken a \<noteq> None \<and> mat_BaseURL m = '''') (p @ ''.base_url'') ''base_url required for bot token mode'')) @
     validateCELWhen ck p (Some (mat_When m)) @ validateTemplate ck p (Some (mat_Template m))"

definition validateEmailInstance :: "Checkers \<Rightarrow> string \<Rightarrow> EmailInstance \<Rightarrow> ValidationError list" where
  "validateEmailInstance ck p e =
     (if \<not> em_Enabled e then []
      else
        err_if (em_Host e = '''') (p @ ''.host'') ''host required when enabled'' @
        err_if (em_From e = '''') (p @ ''.from'') ''from required when enabled'' @
        err_if (length (em_To e) = 0) (p @ ''.to'') ''at least one recipient required when enabled'' @
        err_if (em_Port e < 0 \<or> em_Port e > 65535) (p @ ''.port'') ''port must be between 1 and 65535'' @
        (if em_Subject e = '''' then [ve (p @ ''.subject'') msgRequiredForEnabled]
         else err_of (ckTemplate ck ''subject'' (em_Subject e)) (p @ ''.subject'') ''invalid template: '') @
        err_if (em_Template e = '''') (p @ ''.template'') msgRequiredForEnabled @
        (case em_Auth e of
           None \<Rightarrow> []
         | Some a \<Rightarrow>
             if emA_XOAuth2 a then
               err_if (emA_Username a = '''') (p @ ''.auth.username'') ''username required for xoauth2'' @
               err_if (emA_TokenFile a = '''') (p @ ''.auth.token_file'') ''token_file required for xoauth2'' @
               err_if (emA_PasswordFile a \<noteq> '''') (p @ ''.auth'') ''cannot use both auth.xoauth2 and auth.password_file; choose one''
             else
               err_if (emA_Username a \<noteq> '''' \<and> emA_PasswordFile a = '''') (p @ ''.auth.password_file'')
                 ''password_file required when auth.username is set'' @
               err_if (emA_Username a = '''' \<and> emA_PasswordFile a \<noteq> '''') (p @ ''.auth.username'')
                 ''username required when auth.password_file is set'')) @
     validateCELWhen ck p (Some (em_When e)) @ validateTemplate ck p (Some (em_Template e))"

definition validateNATSInstance :: "Checkers \<Rightarrow> string \<Rightarrow> NATSInstance \<Rightarrow> ValidationError list" where
  "validateNATSInstance ck p n =
     err_if (nat_Enabled n \<and> length (nat_Servers n) = 0) (p @ ''.servers'') msgRequiredForEnabled @
     err_if (nat_Enabled n \<and> nat_Subject n = '''') (p @ ''.subject'') msgRequiredForEnabled @ validateCELWhen ck p (Some (nat_When n))"

definition validateRabbitMQInstance :: "Checkers \<Rightarrow> string \<Rightarrow> RabbitMQInstance \<Rightarrow> ValidationError list" where
  "validateRabbitMQInstance ck p r =
     err_if (rab_Enabled r \<and> rab_URLFile r = '''') (p @ ''.url_file'') msgRequiredForEnabled @ validateCELWhen ck p (Some (rab_When r))"

definition validateRedisPubSubInstance :: "Checkers \<Rightarrow> string \<Rightarrow> RedisPubSubInstance \<Rightarrow> ValidationError list" where
  "validateRedisPubSubInstance ck p r =
     err_if (rps_Enabled r \<and> rps_Address r = '''') (p @ ''.address'') msgRequiredForEnabled @
     err_if (rps_Enabled r \<and> rps_Channel r = '''') (p @ ''.channel'') msgRequiredForEnabled @ validateCELWhen ck p (Some (rps_When r))"

section \<open>Jira\<close>

definition validate_jira_action :: "Checkers \<Rightarrow> bool \<Rightarrow> string \<Rightarrow> JiraAction \<Rightarrow> ValidationError list" where
  "validate_jira_action ck enabled p a =
     (if ja_Type a = ''comment'' then
        err_if (enabled \<and> ja_Enabled a \<and> ja_Template a = '''') (p @ ''.template'') msgRequiredForEnabled @
        (if ja_Template a = '''' then [] else err_of (ckTemplate ck ''jira'' (ja_Template a)) (p @ ''.template'') ''invalid template: '')
      else if ja_Type a = ''transition'' then
        err_if (ja_Transition a = '''') (p @ ''.transition'') ''transition name or id required''
      else if ja_Type a = ''create_issue'' then
        err_if (enabled \<and> ja_Enabled a \<and> ja_ProjectKey a = '''') (p @ ''.project_key'') msgRequiredForEnabled
      else if ja_Type a = ''link_commit'' then
        err_if (enabled \<and> ja_Enabled a \<and> ja_IssueKey a = '''') (p @ ''.issue_key'') msgRequiredForEnabled
      else [ve (p @ ''.type'') (''invalid jira action type '' @ quoted (ja_Type a) @
        '' (must be comment, transition, create_issue, or link_commit)'')]) @
     (if ja_When a = '''' then [] else err_of (ckCEL ck (ja_When a)) (p @ ''.when'') ''invalid CEL: '')"

definition validateJiraInstance :: "Checkers \<Rightarrow> string \<Rightarrow> JiraInstance \<Rightarrow> ValidationError list" where
  "validateJiraInstance ck p j =
     (if \<not> ji_Enabled j then []
      else
        err_if (ji_BaseURL j = '''') (p @ ''.base_url'') ''base_url required when enabled'' @
        err_if (ji_APIVersion j \<notin> {'''', ''2'', ''3''}) (p @ ''.api_version'')
          (''invalid api_version '' @ quoted (ji_APIVersion j) @ '' (must be 2 or 3)'') @
        (case ji_Auth j of
           None \<Rightarrow> auth_required p True
         | Some a \<Rightarrow>
             err_if (jiA_Email a \<noteq> '''' \<and> jiA_OAuth2 a \<noteq> None) (p @ ''.auth'')
               ''cannot use both auth.email (basic auth) and auth.oauth2; choose one'' @
             err_if (jiA_TokenFile a \<noteq> '''' \<and> jiA_OAuth2 a \<noteq> None) (p @ ''.auth'')
               ''cannot use both auth.token_file and auth.oauth2; choose one'' @
             err_if (jiA_OAuth2 a = None \<and> jiA_TokenFile a = '''') (p @ ''.auth.token_file'') msgRequiredForEnabled @
             validateOAuth2 (p @ ''.auth'') (jiA_OAuth2 a))) @
     indexed (p @ ''.actions'') (validate_jira_action ck (ji_Enabled j)) (ji_Actions j)"

section \<open>The sections of the process\<close>

text \<open>A check of a section answers an error or nothing; of several checks the first error counts.\<close>

definition check :: "bool \<Rightarrow> string \<Rightarrow> err option" where
  "check bad m = (if bad then Some (Err m) else None)"

fun first_err :: "err option list \<Rightarrow> err option" where
  "first_err [] = None"
| "first_err (r # rs) = (case r of None \<Rightarrow> first_err rs | Some e \<Rightarrow> Some e)"

definition validateLogging :: "Config \<Rightarrow> err option" where
  "validateLogging c =
     (let l = cf_Logging c; v = lg_Verbose l
      in check ((vb_Caller v \<or> vb_HTTPCalls v \<or> vb_Payloads v) \<and> lg_Level l \<noteq> ''debug'')
           (''logging.verbose: verbose options (caller, http_calls, payloads) require logging.level to be 'debug', current level is '' @
            quoted (lg_Level l)))"

definition validateServer :: "Config \<Rightarrow> err option" where
  "validateServer c =
     (let n = cf_MaxConcurrency c; a = srv_Auth (cf_Server c)
      in first_err
        [check (n \<noteq> 0 \<and> (n < 1 \<or> n > 500)) (''max_concurrency: must be between 1 and 500 (or 0 for default), got '' @ Itoa n),
         if \<not> sa_Enabled a then None
         else first_err
           [check (sa_Type a \<noteq> ''hmac-sha256'' \<and> sa_Type a \<noteq> ''bearer'')
              (''server.auth.type: unsupported auth type '' @ quoted (sa_Type a) @ '' (must be 'hmac-sha256' or 'bearer')''),
            check (sa_SecretFile a = '''') (''server.auth: enabled but missing '' @ quoted ''secret_file''),
            check (sa_Type a = ''hmac-sha256'' \<and> \<not> sa_ValidateTimestamp a)
              (''server.auth.validate_timestamp: must be true when server.auth.type is '' @ quoted ''hmac-sha256'')]])"

text \<open>A peer has the form host:port with both parts present.\<close>

definition host_port :: "string \<Rightarrow> bool" where
  "host_port peer =
     (case SplitHostPort peer of
        None \<Rightarrow> False
      | Some host \<Rightarrow> host \<noteq> '''' \<and> takeWhile (\<lambda>ch. ch \<noteq> CHR '':'') (rev peer) \<noteq> [])"

definition validateStore :: "Config \<Rightarrow> err option" where
  "validateStore c =
     (let s = cf_Store c
      in first_err
        ((if sto_Backend s \<in> {'''', ''memory'', ''olric''} then None
          else if sto_Backend s = ''valkey'' then
            check (vk_Address (sto_Valkey s) = '''') (''store.valkey: backend selected but missing '' @ quoted ''address'')
          else Some (Err (''store.backend: unsupported backend '' @ quoted (sto_Backend s) @ '' (must be 'memory', 'valkey' or 'olric')''))) #
         map (\<lambda>(i, peer). check (\<not> host_port peer)
                (at_index ''store.olric.peers'' i @ '': '' @ quoted peer @ '' must be in host:port format''))
           (enumerate 0 (ol_Peers (sto_Olric s)))))"

definition validateRetry :: "Config \<Rightarrow> err option" where
  "validateRetry c =
     (let r = cf_Retry c
      in first_err
        [check (rt_MaxAttempts r < 0) ''retry.max_attempts: must be non-negative'',
         check (rt_InitialBackoff r < 0 \<or> rt_MaxBackoff r < 0) ''retry: backoff values must be non-negative'',
         check (rt_InitialBackoff r > rt_MaxBackoff r \<and> rt_MaxBackoff r > 0) ''retry: initial_backoff must be <= max_backoff''])"

definition validateLimits :: "Config \<Rightarrow> err option" where
  "validateLimits c =
     (let w = srv_WriteTimeoutSec (cf_Server c)
      in first_err
        [check (cf_DedupeSize c > 1000000) ''dedupe_size: maximum is 1000000'',
         check (dq_Enabled (cf_DLQ c) \<and> dq_MaxSizeBytes (cf_DLQ c) < 1024) ''dlq.max_size_bytes: minimum is 1024'',
         check (cf_HandlerTimeout c > 0 \<and> w > 0 \<and> cf_HandlerTimeout c > wrap64 (w * nsPerSec))
           ''handler_timeout must be less than write_timeout''])"

definition validateTracing :: "Checkers \<Rightarrow> Config \<Rightarrow> err option" where
  "validateTracing ck c =
     (let t = cf_Tracing c
      in first_err
        [if tr_Endpoint t = '''' then None
         else map_option (Wrap (''tracing.endpoint: invalid URL '' @ quoted (tr_Endpoint t) @ '': '')) (ckURI ck (tr_Endpoint t)),
         check (flt_less (tr_SampleRate t) (Finite 0) \<or> flt_less (Finite 1) (tr_SampleRate t))
           (''tracing.sample_rate: must be between 0.0 and 1.0, got '' @ ckFormatG ck (tr_SampleRate t))])"

definition validateTLS :: "Config \<Rightarrow> err option" where
  "validateTLS c =
     (let t = srv_TLS (cf_Server c)
      in first_err
        [check (tls_CertFile t \<noteq> '''' \<and> tls_KeyFile t = '''') ''server.tls: cert_file set but missing key_file'',
         check (tls_KeyFile t \<noteq> '''' \<and> tls_CertFile t = '''') ''server.tls: key_file set but missing cert_file''])"

section \<open>Names and instances\<close>

text \<open>The names seen so far, per kind of provider.\<close>

type_synonym NameTable = "(string, (string, bool) gomap) gomap"

definition names_of :: "NameTable \<Rightarrow> string \<Rightarrow> (string, bool) gomap" where
  "names_of seen path = (case map_of seen path of None \<Rightarrow> [] | Some m \<Rightarrow> m)"

definition checkDuplicateName :: "string \<Rightarrow> string \<Rightarrow> NameTable \<Rightarrow> NameTable result" where
  "checkDuplicateName path name seen =
     (if map_of (names_of seen path) name = Some True then Inl (Err (path @ '': duplicate instance name '' @ quoted name))
      else Inr (AList.update path (AList.update name True (names_of seen path)) seen))"

text \<open>The loop over the instances of one kind: the name first, then the instance's own checks.\<close>

fun validate_kind ::
  "string \<Rightarrow> ('a \<Rightarrow> string) \<Rightarrow> (string \<Rightarrow> 'a \<Rightarrow> ValidationError list) \<Rightarrow> nat \<Rightarrow> 'a list \<Rightarrow> NameTable \<Rightarrow> NameTable result" where
  "validate_kind path nm chk i [] seen = Inr seen"
| "validate_kind path nm chk i (x # xs) seen =
     (case checkDuplicateName path (nm x) seen of
        Inl e \<Rightarrow> Inl e
      | Inr seen' \<Rightarrow>
          (case chk (at_index path i) x of
             v # _ \<Rightarrow> Inl (Err (ValidationError_Error v))
           | [] \<Rightarrow> validate_kind path nm chk (Suc i) xs seen'))"

definition validateSCM :: "Checkers \<Rightarrow> Config \<Rightarrow> NameTable \<Rightarrow> NameTable result" where
  "validateSCM ck c =
     in_turn
       [validate_kind ''scm.github'' gh_Name (validateGitHubInstance ck) 0 (scm_GitHub (cf_SCM c)),
        validate_kind ''scm.gitlab'' gl_Name (validateGitLabInstance ck) 0 (scm_GitLab (cf_SCM c)),
        validate_kind ''scm.gitea'' gt_Name (validateGiteaInstance ck) 0 (scm_Gitea (cf_SCM c)),
        validate_kind ''scm.bitbucket'' bb_Name (validateBitbucketInstance ck) 0 (scm_Bitbucket (cf_SCM c)),
        validate_kind ''scm.azure_devops'' az_Name (validateAzureInstance ck) 0 (scm_Azure (cf_SCM c)),
        validate_kind ''scm.sourcehut'' sh_Name (validateSourceHutInstance ck) 0 (scm_SourceHut (cf_SCM c))]"

definition validateNotifiers :: "Checkers \<Rightarrow> Config \<Rightarrow> NameTable \<Rightarrow> NameTable result" where
  "validateNotifiers ck c =
     (let n = cf_Notifiers c
      in in_turn
       [validate_kind ''notifiers.slack'' sla_Name (validateSlackInstance ck) 0 (nc_Slack n),
        validate_kind ''notifiers.teams'' tea_Name (validateTeamsInstance ck) 0 (nc_Teams n),
        validate_kind ''notifiers.email'' em_Name (validateEmailInstance ck) 0 (nc_Email n),
        validate_kind ''notifiers.discord'' dis_Name (validateDiscordInstance ck) 0 (nc_Discord n),
        validate_kind ''notifiers.pagerduty'' pag_Name (validatePagerDutyInstance ck) 0 (nc_PagerDuty n),
        validate_kind ''notifiers.datadog'' dat_Name (validateDatadogInstance ck) 0 (nc_Datadog n),
        validate_kind ''notifiers.webhook'' wh_Name (validateWebhookInstance ck) 0 (nc_Webhook n),
        validate_kind ''notifiers.grafana'' gra_Name (validateGrafanaInstance ck) 0 (nc_Grafana n),
        validate_kind ''notifiers.sentry'' sen_Name (validateSentryInstance ck) 0 (nc_Sentry n),
        validate_kind ''notifiers.mattermost'' mat_Name (validateMattermostInstance ck) 0 (nc_Mattermost n),
        validate_kind ''notifiers.opsgenie'' ops_Name (validateOpsgenieInstance ck) 0 (nc_Opsgenie n),
        validate_kind ''notifiers.incidentio'' inc_Name (validateIncidentIOInstance ck) 0 (nc_IncidentIO n),
        validate_kind ''notifiers.honeycomb'' hon_Name (validateHoneycombInstance ck) 0 (nc_Honeycomb n)])"

definition validateJira :: "Checkers \<Rightarrow> Config \<Rightarrow> NameTable \<Rightarrow> NameTable result" where
  "validateJira ck c = validate_kind ''jira'' ji_Name (validateJiraInstance ck) 0 (cf_Jira c)"

definition Validate :: "Checkers \<Rightarrow> Config \<Rightarrow> err option" where
  "Validate ck c =
     (case first_err [validateLogging c, validateServer c, validateStore c, validateRetry c, validateLimits c, validateTracing ck c,
        validateTLS c] of
        Some e \<Rightarrow> Some e
      | None \<Rightarrow> (case in_turn [validateSCM ck c, validateNotifiers ck c, validateJira ck c] [] of Inl e \<Rightarrow> Some e | Inr _ \<Rightarrow> None))"

section \<open>Loading\<close>

text \<open>The bytes of the file, or the error of reading it, and the YAML decoder are arguments.\<close>

definition Load :: "Checkers \<Rightarrow> (string \<Rightarrow> Config result) \<Rightarrow> string result \<Rightarrow> Config result" where
  "Load ck yaml file =
     (case file of
        Inl e \<Rightarrow> Inl (Wrap ''read config: '' e)
      | Inr bytes \<Rightarrow>
          (case yaml bytes of
             Inl e \<Rightarrow> Inl (Wrap ''parse yaml: '' e)
           | Inr c0 \<Rightarrow>
               (let c = applyDefaults c0
                in case Validate ck c of Some e \<Rightarrow> Inl (Wrap ''config validation: '' e) | None \<Rightarrow> Inr c)))"

section \<open>The complete check\<close>

text \<open>A violation found by the struct tag validator: namespace of the field, tag and parameter.\<close>

record FieldError =
  feNamespace :: string
  feTag :: string
  feParam :: string

definition translateFieldPath :: "string \<Rightarrow> string" where
  "translateFieldPath ns = (case Index ns ''.'' of None \<Rightarrow> ns | Some i \<Rightarrow> drop (i + 1) ns)"

definition translateFieldMessage :: "FieldError \<Rightarrow> string" where
  "translateFieldMessage fe =
     (if feTag fe = ''required'' then msgRequired
      else if feTag fe = ''required_when_enabled'' then ''required when auth is enabled''
      else if feTag fe = ''unsupported_auth_type'' then
        ''unsupported auth type '' @ quoted (feParam fe) @ '' (must be 'hmac-sha256' or 'bearer')''
      else if feTag fe = ''hmac_requires_timestamp'' then ''must be true when server.auth.type is '' @ quoted ''hmac-sha256''
      else ''failed on '' @ quoted (feTag fe) @ '' validation'')"

definition fieldErrorToValidationError :: "FieldError \<Rightarrow> ValidationError" where
  "fieldErrorToValidationError fe = ve (translateFieldPath (feNamespace fe)) (translateFieldMessage fe)"

text \<open>What the relay registers with the validator for the authentication section: field, tag, parameter.\<close>

definition validateServerAuthStruct :: "ServerAuthConfig \<Rightarrow> (string \<times> string \<times> string) list" where
  "validateServerAuthStruct a =
     (if \<not> sa_Enabled a then []
      else
        (if sa_Type a = ''hmac-sha256'' \<or> sa_Type a = ''bearer'' then []
         else if sa_Type a = '''' then [(''type'', ''required_when_enabled'', '''')]
         else [(''type'', ''unsupported_auth_type'', sa_Type a)]) @
        (if sa_SecretFile a = '''' then [(''secret_file'', ''required_when_enabled'', '''')] else []) @
        (if sa_Type a = ''hmac-sha256'' \<and> \<not> sa_ValidateTimestamp a
         then [(''validate_timestamp'', ''hmac_requires_timestamp'', '''')] else []))"

definition validateNotifierInstances :: "Checkers \<Rightarrow> Config \<Rightarrow> ValidationError list" where
  "validateNotifierInstances ck c =
     (let n = cf_Notifiers c
      in indexed ''notifiers.slack'' (validateSlackInstance ck) (nc_Slack n) @
         indexed ''notifiers.teams'' (validateTeamsInstance ck) (nc_Teams n) @
         indexed ''notifiers.discord'' (validateDiscordInstance ck) (nc_Discord n) @
         indexed ''notifiers.pagerduty'' (validatePagerDutyInstance ck) (nc_PagerDuty n) @
         indexed ''notifiers.datadog'' (validateDatadogInstance ck) (nc_Datadog n) @
         indexed ''notifiers.webhook'' (validateWebhookInstance ck) (nc_Webhook n) @
         indexed ''notifiers.grafana'' (validateGrafanaInstance ck) (nc_Grafana n) @
         indexed ''notifiers.sentry'' (validateSentryInstance ck) (nc_Sentry n) @
         indexed ''notifiers.mattermost'' (validateMattermostInstance ck) (nc_Mattermost n) @
         indexed ''notifiers.telegram'' (validateTelegramInstance ck) (nc_Telegram n) @
         indexed ''notifiers.incidentio'' (validateIncidentIOInstance ck) (nc_IncidentIO n) @
         indexed ''notifiers.newrelic'' (validateNewRelicInstance ck) (nc_NewRelic n) @
         indexed ''notifiers.honeycomb'' (validateHoneycombInstance ck) (nc_Honeycomb n) @
         indexed ''notifiers.email'' (validateEmailInstance ck) (nc_Email n) @
         indexed ''notifiers.nats'' (validateNATSInstance ck) (nc_NATS n) @
         indexed ''notifiers.rabbitmq'' (validateRabbitMQInstance ck) (nc_RabbitMQ n) @
         indexed ''notifiers.redispubsub'' (validateRedisPubSubInstance ck) (nc_RedisPubSub n))"

text \<open>The text of a duration (\<^verbatim>\<open>Duration.String\<close>).\<close>

definition Duration_String :: "int \<Rightarrow> string" where
  "Duration_String d =
     (let u = nat (abs d);
          frac = (\<lambda>k x. if x = 0 then '''' else CHR ''.'' # strip_zeros (digits_n k x));
          m = u div 10 ^ 9 div 60; h = m div 60;
          s = nat_digits (u div 10 ^ 9 mod 60) @ frac 9 (u mod 10 ^ 9) @ ''s'';
          t = (if u = 0 then ''0s''
               else if u < 10 ^ 3 then nat_digits u @ ''ns''
               else if u < 10 ^ 6 then nat_digits (u div 10 ^ 3) @ frac 3 (u mod 10 ^ 3) @ [CHR 0xC2, CHR 0xB5] @ ''s''
               else if u < 10 ^ 9 then nat_digits (u div 10 ^ 6) @ frac 6 (u mod 10 ^ 6) @ ''ms''
               else (if h = 0 then '''' else nat_digits h @ ''h'') @ (if m = 0 then '''' else nat_digits (m mod 60) @ ''m'') @ s)
      in if d < 0 then CHR ''-'' # t else t)"

text \<open>\<open>tags\<close> is the struct tag validator on the whole configuration.\<close>

definition ValidateAll :: "Checkers \<Rightarrow> (Config \<Rightarrow> FieldError list) \<Rightarrow> Config \<Rightarrow> ValidationError list" where
  "ValidateAll ck tags c =
     err_if (cf_HandlerTimeout c < 0) ''handler_timeout'' (''must be non-negative, got '' @ Duration_String (cf_HandlerTimeout c)) @
     err_if (cf_MaxConcurrency c < 0) ''max_concurrency'' (''must be non-negative, got '' @ Itoa (cf_MaxConcurrency c)) @
     err_if (rt_MaxAttempts (cf_Retry c) < 0) ''retry.max_attempts'' (''must be non-negative, got '' @ Itoa (rt_MaxAttempts (cf_Retry c))) @
     err_if (cf_DedupeSize c < 0) ''dedupe_size'' (''must be non-negative, got '' @ Itoa (cf_DedupeSize c)) @
     map fieldErrorToValidationError (tags c) @
     indexed ''scm.github'' (validateGitHubInstance ck) (scm_GitHub (cf_SCM c)) @
     indexed ''scm.gitlab'' (validateGitLabInstance ck) (scm_GitLab (cf_SCM c)) @
     indexed ''scm.bitbucket'' (validateBitbucketInstance ck) (scm_Bitbucket (cf_SCM c)) @
     indexed ''scm.azure_devops'' (validateAzureInstance ck) (scm_Azure (cf_SCM c)) @
     indexed ''scm.gitea'' (validateGiteaInstance ck) (scm_Gitea (cf_SCM c)) @
     indexed ''scm.sourcehut'' (validateSourceHutInstance ck) (scm_SourceHut (cf_SCM c)) @
     validateNotifierInstances ck c @
     indexed ''jira'' (validateJiraInstance ck) (cf_Jira c)"

section \<open>When a configuration is accepted\<close>

lemma err_if_Nil [simp]: "err_if b p m = [] \<longleftrightarrow> \<not> b"
  by (simp add: err_if_def)

lemma check_None [simp]: "check b m = None \<longleftrightarrow> \<not> b"
  by (simp add: check_def)

lemma first_err_None [simp]: "first_err rs = None \<longleftrightarrow> (\<forall>r \<in> set rs. r = None)"
  by (induction rs) (auto split: option.split)

declare first_err.simps [simp del]

lemma names_of_update: "names_of (AList.update p m s) q = (if q = p then m else names_of s q)"
  by (auto simp: names_of_def update_conv' split: option.split)

text \<open>
  One kind of instances under a path without names: the loop succeeds exactly on distinct names and
  faultless instances, and leaves the names under the other paths alone.
\<close>

definition decides :: "string \<Rightarrow> (NameTable \<Rightarrow> NameTable result) \<Rightarrow> bool \<Rightarrow> bool" where
  "decides path f ok \<longleftrightarrow> (\<forall>s. names_of s path = [] \<longrightarrow>
     (if ok then \<exists>s'. f s = Inr s' \<and> (\<forall>q. q \<noteq> path \<longrightarrow> names_of s' q = names_of s q) else \<exists>e. f s = Inl e))"

definition kind_ok :: "('a \<Rightarrow> string) \<Rightarrow> string \<Rightarrow> (string \<Rightarrow> 'a \<Rightarrow> ValidationError list) \<Rightarrow> 'a list \<Rightarrow> bool" where
  "kind_ok nm path chk xs \<longleftrightarrow> distinct (map nm xs) \<and> indexed path chk xs = []"

lemma validate_kind_Inr:
  "(\<exists>s'. validate_kind path nm chk i xs s = Inr s') \<longleftrightarrow>
     distinct (map nm xs) \<and> (\<forall>x \<in> set xs. map_of (names_of s path) (nm x) \<noteq> Some True) \<and>
     concat (map (\<lambda>(j, x). chk (at_index path j) x) (enumerate i xs)) = []"
proof (induction xs arbitrary: i s)
  case (Cons x xs)
  let ?s = "AList.update path (AList.update (nm x) True (names_of s path)) s"
  have n: "map_of (names_of ?s path) y \<noteq> Some True \<longleftrightarrow> y \<noteq> nm x \<and> map_of (names_of s path) y \<noteq> Some True" for y
    by (simp add: names_of_update update_conv')
  show ?case
  proof (cases "map_of (names_of s path) (nm x) = Some True \<or> chk (at_index path i) x \<noteq> []")
    case True
    then show ?thesis by (auto simp: checkDuplicateName_def split: list.split)
  next
    case False
    then show ?thesis using Cons.IH [of "Suc i" ?s] n by (simp add: checkDuplicateName_def) (metis (no_types, lifting) imageE imageI)
  qed
qed simp

lemma validate_kind_other:
  "validate_kind path nm chk i xs s = Inr s' \<Longrightarrow> q \<noteq> path \<Longrightarrow> names_of s' q = names_of s q"
proof (induction xs arbitrary: i s)
  case (Cons x xs)
  then obtain s1 where s1: "checkDuplicateName path (nm x) s = Inr s1" "validate_kind path nm chk (Suc i) xs s1 = Inr s'"
    by (auto split: sum.splits list.splits)
  then have "names_of s' q = names_of s1 q" using Cons by blast
  with s1(1) Cons.prems(2) show ?case by (auto simp: checkDuplicateName_def names_of_update split: if_splits)
qed simp

lemma validate_kind_decides: "decides path (validate_kind path nm chk 0 xs) (kind_ok nm path chk xs)"
proof -
  have "(\<exists>s'. validate_kind path nm chk 0 xs s = Inr s') = kind_ok nm path chk xs" if "names_of s path = []" for s
    using validate_kind_Inr [of path nm chk 0 xs s] that by (simp add: kind_ok_def indexed_def)
  then show ?thesis
    unfolding decides_def using validate_kind_other [of path nm chk 0 xs]
    by (smt (verit, best) old.sum.exhaust sum.inject(2))
qed

lemma in_turn_decides:
  assumes "list_all2 (\<lambda>(path, ok) f. decides path f ok) ps fs" and "distinct (map fst ps)" and "\<forall>p \<in> fst ` set ps. names_of s p = []"
  shows "(\<exists>s'. in_turn fs s = Inr s') \<longleftrightarrow> (\<forall>p \<in> set ps. snd p)"
  using assms
proof (induction ps fs arbitrary: s rule: list_all2_induct)
  case (Cons p ps f fs)
  obtain path ok where p: "p = (path, ok)" by (cases p)
  with Cons have d: "decides path f ok" "names_of s path = []" "path \<notin> fst ` set ps" "distinct (map fst ps)" by auto
  show ?case
  proof (cases ok)
    case True
    with d obtain s1 where s1: "f s = Inr s1" "\<forall>q. q \<noteq> path \<longrightarrow> names_of s1 q = names_of s q" by (auto simp: decides_def)
    then have "\<forall>q \<in> fst ` set ps. names_of s1 q = []" using Cons.prems(2) d(3) by (metis image_insert insertCI list.simps(15))
    with Cons.IH d(4) s1(1) True p show ?thesis by simp
  next
    case False
    with d have "\<exists>e. f s = Inl e" by (auto simp: decides_def)
    with False p show ?thesis by auto
  qed
qed simp

text \<open>The kinds of instances that loading looks at, each with its verdict.\<close>

definition checked_kinds :: "Checkers \<Rightarrow> Config \<Rightarrow> (string \<times> bool) list" where
  "checked_kinds ck c =
     [(''scm.github'', kind_ok gh_Name ''scm.github'' (validateGitHubInstance ck) (scm_GitHub (cf_SCM c))),
      (''scm.gitlab'', kind_ok gl_Name ''scm.gitlab'' (validateGitLabInstance ck) (scm_GitLab (cf_SCM c))),
      (''scm.gitea'', kind_ok gt_Name ''scm.gitea'' (validateGiteaInstance ck) (scm_Gitea (cf_SCM c))),
      (''scm.bitbucket'', kind_ok bb_Name ''scm.bitbucket'' (validateBitbucketInstance ck) (scm_Bitbucket (cf_SCM c))),
      (''scm.azure_devops'', kind_ok az_Name ''scm.azure_devops'' (validateAzureInstance ck) (scm_Azure (cf_SCM c))),
      (''scm.sourcehut'', kind_ok sh_Name ''scm.sourcehut'' (validateSourceHutInstance ck) (scm_SourceHut (cf_SCM c))),
      (''notifiers.slack'', kind_ok sla_Name ''notifiers.slack'' (validateSlackInstance ck) (nc_Slack (cf_Notifiers c))),
      (''notifiers.teams'', kind_ok tea_Name ''notifiers.teams'' (validateTeamsInstance ck) (nc_Teams (cf_Notifiers c))),
      (''notifiers.email'', kind_ok em_Name ''notifiers.email'' (validateEmailInstance ck) (nc_Email (cf_Notifiers c))),
      (''notifiers.discord'', kind_ok dis_Name ''notifiers.discord'' (validateDiscordInstance ck) (nc_Discord (cf_Notifiers c))),
      (''notifiers.pagerduty'', kind_ok pag_Name ''notifiers.pagerduty'' (validatePagerDutyInstance ck) (nc_PagerDuty (cf_Notifiers c))),
      (''notifiers.datadog'', kind_ok dat_Name ''notifiers.datadog'' (validateDatadogInstance ck) (nc_Datadog (cf_Notifiers c))),
      (''notifiers.webhook'', kind_ok wh_Name ''notifiers.webhook'' (validateWebhookInstance ck) (nc_Webhook (cf_Notifiers c))),
      (''notifiers.grafana'', kind_ok gra_Name ''notifiers.grafana'' (validateGrafanaInstance ck) (nc_Grafana (cf_Notifiers c))),
      (''notifiers.sentry'', kind_ok sen_Name ''notifiers.sentry'' (validateSentryInstance ck) (nc_Sentry (cf_Notifiers c))),
      (''notifiers.mattermost'', kind_ok mat_Name ''notifiers.mattermost'' (validateMattermostInstance ck) (nc_Mattermost (cf_Notifiers c))),
      (''notifiers.opsgenie'', kind_ok ops_Name ''notifiers.opsgenie'' (validateOpsgenieInstance ck) (nc_Opsgenie (cf_Notifiers c))),
      (''notifiers.incidentio'', kind_ok inc_Name ''notifiers.incidentio'' (validateIncidentIOInstance ck) (nc_IncidentIO (cf_Notifiers c))),
      (''notifiers.honeycomb'', kind_ok hon_Name ''notifiers.honeycomb'' (validateHoneycombInstance ck) (nc_Honeycomb (cf_Notifiers c))),
      (''jira'', kind_ok ji_Name ''jira'' (validateJiraInstance ck) (cf_Jira c))]"

text \<open>The loops that loading runs, one after the other.\<close>

definition checked_loops :: "Checkers \<Rightarrow> Config \<Rightarrow> (NameTable \<Rightarrow> NameTable result) list" where
  "checked_loops ck c =
     [validate_kind ''scm.github'' gh_Name (validateGitHubInstance ck) 0 (scm_GitHub (cf_SCM c)),
      validate_kind ''scm.gitlab'' gl_Name (validateGitLabInstance ck) 0 (scm_GitLab (cf_SCM c)),
      validate_kind ''scm.gitea'' gt_Name (validateGiteaInstance ck) 0 (scm_Gitea (cf_SCM c)),
      validate_kind ''scm.bitbucket'' bb_Name (validateBitbucketInstance ck) 0 (scm_Bitbucket (cf_SCM c)),
      validate_kind ''scm.azure_devops'' az_Name (validateAzureInstance ck) 0 (scm_Azure (cf_SCM c)),
      validate_kind ''scm.sourcehut'' sh_Name (validateSourceHutInstance ck) 0 (scm_SourceHut (cf_SCM c)),
      validate_kind ''notifiers.slack'' sla_Name (validateSlackInstance ck) 0 (nc_Slack (cf_Notifiers c)),
      validate_kind ''notifiers.teams'' tea_Name (validateTeamsInstance ck) 0 (nc_Teams (cf_Notifiers c)),
      validate_kind ''notifiers.email'' em_Name (validateEmailInstance ck) 0 (nc_Email (cf_Notifiers c)),
      validate_kind ''notifiers.discord'' dis_Name (validateDiscordInstance ck) 0 (nc_Discord (cf_Notifiers c)),
      validate_kind ''notifiers.pagerduty'' pag_Name (validatePagerDutyInstance ck) 0 (nc_PagerDuty (cf_Notifiers c)),
      validate_kind ''notifiers.datadog'' dat_Name (validateDatadogInstance ck) 0 (nc_Datadog (cf_Notifiers c)),
      validate_kind ''notifiers.webhook'' wh_Name (validateWebhookInstance ck) 0 (nc_Webhook (cf_Notifiers c)),
      validate_kind ''notifiers.grafana'' gra_Name (validateGrafanaInstance ck) 0 (nc_Grafana (cf_Notifiers c)),
      validate_kind ''notifiers.sentry'' sen_Name (validateSentryInstance ck) 0 (nc_Sentry (cf_Notifiers c)),
      validate_kind ''notifiers.mattermost'' mat_Name (validateMattermostInstance ck) 0 (nc_Mattermost (cf_Notifiers c)),
      validate_kind ''notifiers.opsgenie'' ops_Name (validateOpsgenieInstance ck) 0 (nc_Opsgenie (cf_Notifiers c)),
      validate_kind ''notifiers.incidentio'' inc_Name (validateIncidentIOInstance ck) 0 (nc_IncidentIO (cf_Notifiers c)),
      validate_kind ''notifiers.honeycomb'' hon_Name (validateHoneycombInstance ck) 0 (nc_Honeycomb (cf_Notifiers c)),
      validate_kind ''jira'' ji_Name (validateJiraInstance ck) 0 (cf_Jira c)]"

definition sections_ok :: "Checkers \<Rightarrow> Config \<Rightarrow> bool" where
  "sections_ok ck c \<longleftrightarrow> (\<forall>r \<in> {validateLogging c, validateServer c, validateStore c, validateRetry c, validateLimits c,
     validateTracing ck c, validateTLS c}. r = None)"

lemma Validate_None: "Validate ck c = None \<longleftrightarrow> sections_ok ck c \<and> (\<forall>k \<in> set (checked_kinds ck c). snd k)"
proof -
  let ?fs = "[validateSCM ck c, validateNotifiers ck c, validateJira ck c]"
  have fs: "in_turn ?fs [] = in_turn (checked_loops ck c) []"
  proof -
    have "checked_loops ck c = take 6 (checked_loops ck c) @ take 13 (drop 6 (checked_loops ck c)) @ drop 19 (checked_loops ck c)"
      by (simp add: checked_loops_def)
    moreover have "validateSCM ck c = in_turn (take 6 (checked_loops ck c))"
        "validateNotifiers ck c = in_turn (take 13 (drop 6 (checked_loops ck c)))"
        "validateJira ck c = in_turn (drop 19 (checked_loops ck c))"
      by (simp_all add: fun_eq_iff checked_loops_def validateSCM_def validateNotifiers_def validateJira_def Let_def in_turn_single del: in_turn.simps)
    ultimately show ?thesis by (metis in_turn_flat)
  qed
  have all: "list_all2 (\<lambda>(path, ok) f. decides path f ok) (checked_kinds ck c) (checked_loops ck c)"
    unfolding checked_kinds_def checked_loops_def
    by (simp only: list.rel_inject list.rel_intros prod.case validate_kind_decides simp_thms)
  have "(\<exists>s'. in_turn (checked_loops ck c) [] = Inr s') \<longleftrightarrow> (\<forall>k \<in> set (checked_kinds ck c). snd k)"
    by (rule in_turn_decides [OF all]) (simp_all add: checked_kinds_def names_of_def)
  moreover define r where "r = first_err [validateLogging c, validateServer c, validateStore c, validateRetry c, validateLimits c,
      validateTracing ck c, validateTLS c]"
  moreover have "r = None \<longleftrightarrow> sections_ok ck c" by (simp add: sections_ok_def r_def)
  ultimately show ?thesis
    unfolding Validate_def fs r_def [symmetric] by (cases r) (auto split: sum.splits)
qed

section \<open>Credentials of a webhook\<close>

text \<open>The files and the header that are set, and those a kind of credentials needs, in one order.\<close>

definition credentials_set :: "WebhookAuthConfig \<Rightarrow> string list" where
  "credentials_set a = map fst (filter (\<lambda>(f, v). v \<noteq> '''') [(''token_file'', whA_TokenFile a), (''username_file'', whA_UsernameFile a),
     (''password_file'', whA_PasswordFile a), (''secret_file'', whA_SecretFile a), (''header'', whA_Header a)])"

fun credentials_needed :: "(string \<times> string list) list \<Rightarrow> string \<Rightarrow> string list option" where
  "credentials_needed [] t = None"
| "credentials_needed ((k, fs) # ks) t = (if k = t then Some fs else credentials_needed ks t)"

definition credential_kinds :: "(string \<times> string list) list" where
  "credential_kinds = [(''bearer'', [''token_file'']), (''basic'', [''username_file'', ''password_file'']),
     (''apikey'', [''token_file'', ''header'']), (''hmac'', [''secret_file'']), (''oauth2'', [])]"

lemmas webhook_auth_defs = validateWebhookBearerAuth_def validateWebhookBasicAuth_def validateWebhookAPIKeyAuth_def
  validateWebhookHMACAuth_def validateWebhookOAuth2Auth_def

section \<open>Properties\<close>

text \<open>
  C34 The two checks agree: on a configuration that loading accepts, the complete check reports nothing but a
  negative handler timeout or deduplication size, the violations of the struct tags, and the problems of
  the five kinds of notifiers loading never looks at (Telegram, New Relic, NATS, RabbitMQ and Redis).
\<close>

theorem ValidateAll_after_Validate:
  assumes "Validate ck c = None"
  shows "ValidateAll ck tags c =
    err_if (cf_HandlerTimeout c < 0) ''handler_timeout'' (''must be non-negative, got '' @ Duration_String (cf_HandlerTimeout c)) @
    err_if (cf_DedupeSize c < 0) ''dedupe_size'' (''must be non-negative, got '' @ Itoa (cf_DedupeSize c)) @
    map fieldErrorToValidationError (tags c) @
    indexed ''notifiers.telegram'' (validateTelegramInstance ck) (nc_Telegram (cf_Notifiers c)) @
    indexed ''notifiers.newrelic'' (validateNewRelicInstance ck) (nc_NewRelic (cf_Notifiers c)) @
    indexed ''notifiers.nats'' (validateNATSInstance ck) (nc_NATS (cf_Notifiers c)) @
    indexed ''notifiers.rabbitmq'' (validateRabbitMQInstance ck) (nc_RabbitMQ (cf_Notifiers c)) @
    indexed ''notifiers.redispubsub'' (validateRedisPubSubInstance ck) (nc_RedisPubSub (cf_Notifiers c))"
proof -
  have sec: "sections_ok ck c" and kinds: "\<forall>k \<in> set (checked_kinds ck c). snd k" using assms by (simp_all add: Validate_None)
  have "\<not> cf_MaxConcurrency c < 0" using sec by (auto simp: sections_ok_def validateServer_def Let_def)
  moreover have "\<not> rt_MaxAttempts (cf_Retry c) < 0" using sec by (auto simp: sections_ok_def validateRetry_def Let_def)
  ultimately show ?thesis
    using kinds by (simp add: checked_kinds_def kind_ok_def ValidateAll_def validateNotifierInstances_def Let_def err_if_def)
qed

text \<open>Checkers that find nothing to object to, and the configuration of an empty file.\<close>

definition no_objection :: Checkers where
  "no_objection = \<lparr>ckCEL = \<lambda>_. None, ckCELString = \<lambda>_. None, ckTemplate = \<lambda>_ _. None, ckURI = \<lambda>_. None, ckJqParse = \<lambda>_. None,
     ckJqCompile = \<lambda>_. None, ckFormatG = \<lambda>_. ''''\<rparr>"

definition demo_telegram :: TelegramInstance where
  "demo_telegram = \<lparr>tel_Name = ''ops'', tel_Enabled = True, tel_Auth = None, tel_ChatID = ''-100'', tel_When = '''', tel_Template = '''',
     tel_Dedupe = False, tel_RetryOverride = None\<rparr>"

lemma no_kinds_ok:
  "kind_ok nm path chk []"
  by (simp add: kind_ok_def indexed_def)

definition demo_Config :: Config where
  "demo_Config = zero_Config\<lparr>cf_Notifiers := (cf_Notifiers zero_Config)\<lparr>nc_Telegram := [demo_telegram]\<rparr>\<rparr>"

lemma demo_Config_accepted: "Validate no_objection (applyDefaults demo_Config) = None"
proof -
  have "checked_kinds no_objection (applyDefaults demo_Config) = map (\<lambda>k. (fst k, True)) (checked_kinds no_objection (applyDefaults demo_Config))"
    by (simp add: checked_kinds_def demo_Config_def zero_Config_def applyDefaults_def no_kinds_ok)
  then have "\<forall>k \<in> set (checked_kinds no_objection (applyDefaults demo_Config)). snd k" by (metis (no_types, lifting) imageE list.set_map snd_conv)
  moreover have "sections_ok no_objection (applyDefaults demo_Config)"
    by (simp add: sections_ok_def validateLogging_def validateServer_def validateStore_def validateRetry_def validateLimits_def
        validateTracing_def validateTLS_def demo_Config_def zero_Config_def defaults_defs defaults_filter_def defaults_tracing_def
        or_default_def nsPerSec_def wrap64_def Let_def)
  ultimately show ?thesis by (simp add: Validate_None)
qed

lemma demo_Config_fields:
  "cf_HandlerTimeout (applyDefaults demo_Config) = 10 * nsPerSec" "cf_DedupeSize (applyDefaults demo_Config) = 10000"
  "nc_Telegram (cf_Notifiers (applyDefaults demo_Config)) = [demo_telegram]" "nc_NewRelic (cf_Notifiers (applyDefaults demo_Config)) = []"
  "nc_NATS (cf_Notifiers (applyDefaults demo_Config)) = []" "nc_RabbitMQ (cf_Notifiers (applyDefaults demo_Config)) = []"
  "nc_RedisPubSub (cf_Notifiers (applyDefaults demo_Config)) = []" "\<not> nsPerSec < 0"
  by (simp_all add: applyDefaults_def demo_Config_def zero_Config_def or_default_def nsPerSec_def)

theorem ValidateAll_after_Validate_witness:
  "let c = applyDefaults demo_Config
   in Validate no_objection c = None \<and>
      map ValidationError_Error (ValidateAll no_objection (\<lambda>_. []) c) =
        [''notifiers.telegram[0].auth: enabled instance missing required field '' @ quoted ''auth'']"
  using demo_Config_accepted
  by (simp add: ValidateAll_after_Validate [OF demo_Config_accepted] demo_Config_fields err_if_def indexed_def
      validateTelegramInstance_def validateCELWhen_def validateTemplate_def auth_required_def missing_def demo_telegram_def
      ValidationError_Error_def ve_def at_index_def Itoa_def nat_digits.simps [of 0] char_of_eq_iff
      take_bit_eq_mod)

text \<open>
  A webhook's credentials are exactly those of its kind: for an enabled webhook with credentials of some
  kind the check reports nothing exactly when the kind is known, the files and the header that are
  set are those the kind needs, and for OAuth2 its block is there and in order.
\<close>

theorem webhook_credentials_exact:
  assumes "wh_Enabled w" and "wh_Auth w = Some a" and "whA_Type a \<noteq> ''''"
  shows "(validateWebhookAuth p w = []) =
    (credentials_needed credential_kinds (whA_Type a) = Some (credentials_set a) \<and>
     (whA_Type a = ''oauth2'' \<longrightarrow> whA_OAuth2 a \<noteq> None \<and> validateOAuth2 (p @ ''.auth'') (whA_OAuth2 a) = []))"
  using assms by (simp add: validateWebhookAuth_def webhook_auth_defs credential_kinds_def credentials_set_def)

definition demo_webhook :: "string \<Rightarrow> WebhookInstance" where
  "demo_webhook hdr = \<lparr>wh_Name = ''hook'', wh_Enabled = True, wh_URLFile = ''/u'', wh_URLKey = '''',
     wh_Auth = Some \<lparr>whA_Type = ''apikey'', whA_TokenFile = ''/t'', whA_UsernameFile = '''', whA_PasswordFile = '''', whA_Header = hdr,
       whA_SecretFile = '''', whA_OAuth2 = None\<rparr>,
     wh_Transform = '''', wh_Headers = [], wh_When = '''', wh_Dedupe = False, wh_Batch = None, wh_RetryOverride = None\<rparr>"

theorem webhook_credentials_exact_witness:
  "validateWebhookAuth ''notifiers.webhook[0]'' (demo_webhook ''X-API-Key'') = [] \<and>
   validateWebhookAuth ''notifiers.webhook[0]'' (demo_webhook '''') \<noteq> []"
  using webhook_credentials_exact [of "demo_webhook ''X-API-Key''" _ "''notifiers.webhook[0]''"]
    webhook_credentials_exact [of "demo_webhook ''''" _ "''notifiers.webhook[0]''"]
  by (simp add: demo_webhook_def credential_kinds_def credentials_set_def)

text \<open>
  Some expressions are never compiled: what the checks of a Grafana or a Sentry instance report does not depend
  on the compilers at all, and what the check of a Telegram instance reports does not depend on the
  compiler of templates, so a condition or template that does not compile is accepted.
\<close>

theorem expressions_never_compiled:
  "validateGrafanaInstance ck p g = validateGrafanaInstance ck' p g \<and> validateSentryInstance ck p s = validateSentryInstance ck' p s \<and>
   validateTelegramInstance (ck\<lparr>ckTemplate := f\<rparr>) p t = validateTelegramInstance ck p t"
  by (simp add: validateGrafanaInstance_def validateSentryInstance_def validateTelegramInstance_def validateCELWhen_def validateTemplate_def)

text \<open>The thread mode of a Discord instance is not looked at, whatever mode it is combined with.\<close>

lemma discord_thread_mode_unchecked:
  "validateDiscordInstance ck p (d\<lparr>dis_ThreadMode := tm, dis_Mode := m\<rparr>) = validateDiscordInstance ck p d"
  by (simp add: validateDiscordInstance_def)

text \<open>
  Defaults can contradict each other: a configuration that sets only a write timeout shorter than ten seconds,
  or only a longest backoff shorter than 250 milliseconds, is rejected, because the value filled in for
  the handler timeout or for the first backoff is larger.
\<close>

theorem defaults_contradict:
  assumes "cf_HandlerTimeout c = 0 \<and> 0 < srv_WriteTimeoutSec (cf_Server c) \<and> srv_WriteTimeoutSec (cf_Server c) < 10 \<or>
    rt_InitialBackoff (cf_Retry c) = 0 \<and> 0 < rt_MaxBackoff (cf_Retry c) \<and> rt_MaxBackoff (cf_Retry c) < 250 * 10 ^ 6"
  shows "\<exists>e. Load ck (\<lambda>_. Inr c) (Inr file) = Inl e"
proof -
  have "validateLimits (applyDefaults c) \<noteq> None \<or> validateRetry (applyDefaults c) \<noteq> None"
    using assms
  proof
    assume a: "cf_HandlerTimeout c = 0 \<and> 0 < srv_WriteTimeoutSec (cf_Server c) \<and> srv_WriteTimeoutSec (cf_Server c) < 10"
    then have "wrap64 (srv_WriteTimeoutSec (cf_Server c) * nsPerSec) = srv_WriteTimeoutSec (cf_Server c) * nsPerSec"
      by (intro wrap64_id) (auto simp: nsPerSec_def)
    with a show ?thesis
      by (auto simp: validateLimits_def applyDefaults_def defaults_server_def or_default_def nsPerSec_def Let_def)
  qed (auto simp: validateRetry_def applyDefaults_def defaults_retry_def or_default_def Let_def)
  then have "Validate ck (applyDefaults c) \<noteq> None" by (auto simp: Validate_None sections_ok_def)
  then show ?thesis by (auto simp: Load_def Let_def)
qed

theorem defaults_contradict_witness:
  "let c = zero_Config\<lparr>cf_Server := (cf_Server zero_Config)\<lparr>srv_WriteTimeoutSec := 5\<rparr>\<rparr>
   in (\<exists>e. Load no_objection (\<lambda>_. Inr c) (Inr ''server: {write_timeout_sec: 5}'') = Inl e) \<and>
      (\<exists>c'. Load no_objection (\<lambda>_. Inr demo_Config) (Inr '''') = Inr c')"
  using defaults_contradict [of "zero_Config\<lparr>cf_Server := (cf_Server zero_Config)\<lparr>srv_WriteTimeoutSec := 5\<rparr>\<rparr>" no_objection
      "''server: {write_timeout_sec: 5}''"] demo_Config_accepted
  by (simp add: Load_def Let_def zero_Config_def)

end
