(* ===== verification/Relay_Accumulator.thy ===== *)
theory Relay_Accumulator
  imports Relay_Notifier Go_Time
begin

text \<open>
  Package \<^verbatim>\<open>internal/accumulator\<close>: the handler that collects the TaskRun events of a PipelineRun (or of
  a group of them) and posts one summary when the run ends; its two buffers, in memory
  (\<^verbatim>\<open>buffer.go\<close>) and over a run buffer of the store (\<^verbatim>\<open>storebuffer.go\<close>); and the summary's markdown.

  A buffer is a record of operations. What the handler needs of it is the locale
  \<open>summary_buffer\<close>, interpreted on both buffers. The time at which an operation runs is an argument;
  the order in which a Go map is iterated is one as well where the result depends on it.
\<close>

section \<open>The buffer in memory\<close>

record RunState =
  rsUID :: string
  rsTasks :: TaskMap
  rsLastUpdate :: Time

record GroupState =
  gsGroupID :: string
  gsMembers :: "(string, bool) gomap"

record 'c LRUBuffer =
  bufCache :: 'c
  bufGroups :: "(string, GroupState) gomap"

definition isTerminalState :: "State \<Rightarrow> bool" where
  "isTerminalState s = (s = StateSuccess \<or> s = StateFailure \<or> s = StateCanceled \<or> s = StateError)"

definition NewLRUBuffer :: "('c, string, RunState) xlru_ops \<Rightarrow> int \<Rightarrow> int \<Rightarrow> 'c LRUBuffer" where
  "NewLRUBuffer ops ttl maxSize =
     (let size = (if maxSize \<le> 0 then 1000 else nat maxSize);
          ttl' = (if ttl \<le> 0 then 30 * nsPerSec else ttl)
      in \<lparr>bufCache = xlru_new ops size ttl', bufGroups = []\<rparr>)"

text \<open>What both additions do with the entry of a key.\<close>

definition add_event ::
  "('c, string, RunState) xlru_ops \<Rightarrow> Time \<Rightarrow> string \<Rightarrow> string \<Rightarrow> Event \<Rightarrow> 'c \<Rightarrow> 'c" where
  "add_event ops now key uid ev c =
     (case xlru_get ops now key c of
        (r, c1) \<Rightarrow>
          (let state = (case r of None \<Rightarrow> \<lparr>rsUID = uid, rsTasks = [], rsLastUpdate = 0\<rparr> | Some st \<Rightarrow> st);
               state1 = (if ResourceOf ev = ResourceTaskRun
                         then state\<lparr>rsTasks := AList.update (RunName ev) ev (rsTasks state)\<rparr> else state)
           in xlru_add ops now key (state1\<lparr>rsLastUpdate := now\<rparr>) c1))"

definition LRUBuffer_Add ::
  "('c, string, RunState) xlru_ops \<Rightarrow> Time \<Rightarrow> string \<Rightarrow> Event \<Rightarrow> 'c LRUBuffer \<Rightarrow> 'c LRUBuffer" where
  "LRUBuffer_Add ops now uid ev b = b\<lparr>bufCache := add_event ops now uid uid ev (bufCache b)\<rparr>"

definition LRUBuffer_Get ::
  "('c, string, RunState) xlru_ops \<Rightarrow> Time \<Rightarrow> string \<Rightarrow> 'c LRUBuffer \<Rightarrow> RunState option \<times> 'c LRUBuffer" where
  "LRUBuffer_Get ops now uid b =
     (case xlru_get ops now uid (bufCache b) of (r, c) \<Rightarrow> (r, b\<lparr>bufCache := c\<rparr>))"

definition LRUBuffer_Flush ::
  "('c, string, RunState) xlru_ops \<Rightarrow> Time \<Rightarrow> string \<Rightarrow> 'c LRUBuffer \<Rightarrow> RunState option \<times> 'c LRUBuffer" where
  "LRUBuffer_Flush ops now uid b =
     (case xlru_get ops now uid (bufCache b) of
        (None, c) \<Rightarrow> (None, b\<lparr>bufCache := c\<rparr>)
      | (Some st, c) \<Rightarrow> (Some st, b\<lparr>bufCache := xlru_remove ops uid c\<rparr>))"

definition LRUBuffer_Close :: "('c, string, RunState) xlru_ops \<Rightarrow> 'c LRUBuffer \<Rightarrow> 'c LRUBuffer" where
  "LRUBuffer_Close ops b = \<lparr>bufCache = xlru_purge ops (bufCache b), bufGroups = []\<rparr>"

definition group_key :: "string \<Rightarrow> string \<Rightarrow> string" where
  "group_key groupID uid = (if groupID = '''' then uid else groupID @ '':'' @ uid)"

definition mark_member :: "string \<Rightarrow> string \<Rightarrow> Event \<Rightarrow> (string, GroupState) gomap \<Rightarrow> (string, GroupState) gomap" where
  "mark_member groupID uid ev groups =
     (let gs = (case map_of groups groupID of None \<Rightarrow> \<lparr>gsGroupID = groupID, gsMembers = []\<rparr> | Some gs \<Rightarrow> gs);
          ms = (case map_of (gsMembers gs) uid of None \<Rightarrow> AList.update uid False (gsMembers gs) | Some _ \<Rightarrow> gsMembers gs);
          ms1 = (if ResourceOf ev = ResourcePipelineRun \<and> isTerminalState (StateOf ev) then AList.update uid True ms else ms)
      in AList.update groupID (gs\<lparr>gsMembers := ms1\<rparr>) groups)"

definition LRUBuffer_AddWithGroup ::
  "('c, string, RunState) xlru_ops \<Rightarrow> Time \<Rightarrow> string \<Rightarrow> string \<Rightarrow> Event \<Rightarrow> 'c LRUBuffer \<Rightarrow> 'c LRUBuffer" where
  "LRUBuffer_AddWithGroup ops now groupID uid ev b =
     \<lparr>bufCache = add_event ops now (group_key groupID uid) uid ev (bufCache b),
      bufGroups = mark_member groupID uid ev (bufGroups b)\<rparr>"

definition LRUBuffer_IsGroupComplete :: "string \<Rightarrow> 'c LRUBuffer \<Rightarrow> bool" where
  "LRUBuffer_IsGroupComplete groupID b =
     (case map_of (bufGroups b) groupID of
        None \<Rightarrow> False
      | Some gs \<Rightarrow> gsMembers gs \<noteq> [] \<and> list_all snd (gsMembers gs))"

text \<open>One member's tasks merged into the result; the time of the result is compared before it changes.\<close>

definition merge_member :: "RunState \<Rightarrow> RunState \<Rightarrow> RunState" where
  "merge_member state merged =
     (let tasks = fold (\<lambda>(name, ev) ts.
                    if map_of ts name = None \<or> rsLastUpdate merged < rsLastUpdate state then AList.update name ev ts else ts)
                  (rsTasks state) (rsTasks merged)
      in merged\<lparr>rsTasks := tasks, rsLastUpdate := max (rsLastUpdate merged) (rsLastUpdate state)\<rparr>)"

definition flush_member ::
  "('c, string, RunState) xlru_ops \<Rightarrow> Time \<Rightarrow> string \<Rightarrow> string \<Rightarrow> RunState \<times> 'c \<Rightarrow> RunState \<times> 'c" where
  "flush_member ops now groupID uid st =
     (case st of (merged, c) \<Rightarrow>
       (case xlru_get ops now (group_key groupID uid) c of
          (None, c1) \<Rightarrow> (merged, c1)
        | (Some state, c1) \<Rightarrow> (merge_member state merged, xlru_remove ops (group_key groupID uid) c1)))"

text \<open>\<open>iter\<close> is the order in which the members of the group are visited.\<close>

definition LRUBuffer_FlushGroup ::
  "(string list \<Rightarrow> string list) \<Rightarrow> ('c, string, RunState) xlru_ops \<Rightarrow> Time \<Rightarrow> string \<Rightarrow> 'c LRUBuffer \<Rightarrow>
   RunState option \<times> 'c LRUBuffer" where
  "LRUBuffer_FlushGroup iter ops now groupID b =
     (case map_of (bufGroups b) groupID of
        None \<Rightarrow> (None, b)
      | Some gs \<Rightarrow>
          (case fold (flush_member ops now groupID) (iter (map fst (gsMembers gs)))
                  (\<lparr>rsUID = groupID, rsTasks = [], rsLastUpdate = 0\<rparr>, bufCache b) of
             (merged, c) \<Rightarrow>
               (if rsTasks merged = [] then None else Some merged,
                \<lparr>bufCache = c, bufGroups = AList.delete groupID (bufGroups b)\<rparr>)))"

section \<open>The buffer over a store\<close>

text \<open>
  \<^verbatim>\<open>StoreBuffer\<close>: an error of the store is counted and the operation degrades. Groups are not supported.
\<close>

record 's StoreBuffer =
  sbStore :: 's
  sbCollectors :: "Collectors option"

definition StoreBuffer_observeError :: "string \<Rightarrow> string \<Rightarrow> 's StoreBuffer \<Rightarrow> 's StoreBuffer" where
  "StoreBuffer_observeError backend op b = b\<lparr>sbCollectors := IncIf [''StoreErrors'', backend, op] (sbCollectors b)\<rparr>"

definition StoreBuffer_Add ::
  "(Time \<Rightarrow> string \<Rightarrow> string \<Rightarrow> Event \<Rightarrow> 's \<Rightarrow> err option \<times> 's) \<Rightarrow> string \<Rightarrow> Time \<Rightarrow> string \<Rightarrow> Event \<Rightarrow>
   's StoreBuffer \<Rightarrow> 's StoreBuffer" where
  "StoreBuffer_Add add backend now uid ev b =
     (if ResourceOf ev \<noteq> ResourceTaskRun then b
      else case add now uid (RunName ev) ev (sbStore b) of
        (None, s) \<Rightarrow> b\<lparr>sbStore := s\<rparr>
      | (Some e, s) \<Rightarrow> StoreBuffer_observeError backend ''add'' (b\<lparr>sbStore := s\<rparr>))"

definition StoreBuffer_Flush ::
  "(Time \<Rightarrow> string \<Rightarrow> 's \<Rightarrow> TaskMap option result \<times> 's) \<Rightarrow> string \<Rightarrow> Time \<Rightarrow> string \<Rightarrow>
   's StoreBuffer \<Rightarrow> RunState option \<times> 's StoreBuffer" where
  "StoreBuffer_Flush flush backend now uid b =
     (case flush now uid (sbStore b) of
        (Inl e, s) \<Rightarrow> (None, StoreBuffer_observeError backend ''flush'' (b\<lparr>sbStore := s\<rparr>))
      | (Inr None, s) \<Rightarrow> (None, b\<lparr>sbStore := s\<rparr>)
      | (Inr (Some tasks), s) \<Rightarrow> (Some \<lparr>rsUID = uid, rsTasks = tasks, rsLastUpdate = now\<rparr>, b\<lparr>sbStore := s\<rparr>))"

section \<open>The interface and the two implementations\<close>

record 'b Buffer =
  bAdd :: "Time \<Rightarrow> string \<Rightarrow> Event \<Rightarrow> 'b \<Rightarrow> 'b"
  bGet :: "Time \<Rightarrow> string \<Rightarrow> 'b \<Rightarrow> RunState option \<times> 'b"
  bFlush :: "Time \<Rightarrow> string \<Rightarrow> 'b \<Rightarrow> RunState option \<times> 'b"
  bClose :: "'b \<Rightarrow> 'b"
  bAddWithGroup :: "Time \<Rightarrow> string \<Rightarrow> string \<Rightarrow> Event \<Rightarrow> 'b \<Rightarrow> 'b"
  bIsGroupComplete :: "string \<Rightarrow> 'b \<Rightarrow> bool"
  bFlushGroup :: "Time \<Rightarrow> string \<Rightarrow> 'b \<Rightarrow> RunState option \<times> 'b"

definition lru_buffer :: "(string list \<Rightarrow> string list) \<Rightarrow> ('c, string, RunState) xlru_ops \<Rightarrow> 'c LRUBuffer Buffer" where
  "lru_buffer iter ops = \<lparr>bAdd = LRUBuffer_Add ops, bGet = LRUBuffer_Get ops, bFlush = LRUBuffer_Flush ops,
     bClose = LRUBuffer_Close ops, bAddWithGroup = LRUBuffer_AddWithGroup ops,
     bIsGroupComplete = LRUBuffer_IsGroupComplete, bFlushGroup = LRUBuffer_FlushGroup iter ops\<rparr>"

definition NewStoreBuffer ::
  "(Time \<Rightarrow> string \<Rightarrow> string \<Rightarrow> Event \<Rightarrow> 's \<Rightarrow> err option \<times> 's) \<Rightarrow>
   (Time \<Rightarrow> string \<Rightarrow> 's \<Rightarrow> TaskMap option result \<times> 's) \<Rightarrow> string \<Rightarrow> 's StoreBuffer Buffer" where
  "NewStoreBuffer add flush backend = \<lparr>bAdd = StoreBuffer_Add add backend, bGet = (\<lambda>now uid b. (None, b)),
     bFlush = StoreBuffer_Flush flush backend, bClose = (\<lambda>b. b),
     bAddWithGroup = (\<lambda>now groupID uid ev b. b), bIsGroupComplete = (\<lambda>groupID b. False),
     bFlushGroup = (\<lambda>now groupID b. (None, b))\<rparr>"

section \<open>The summary\<close>

definition stateEmoji :: "State \<Rightarrow> string" where
  "stateEmoji s =
     (if s = StateSuccess then [CHR 0xE2, CHR 0x9C, CHR 0x85]
      else if s = StateFailure then [CHR 0xE2, CHR 0x9D, CHR 0x8C]
      else if s = StateError then [CHR 0xE2, CHR 0x9A, CHR 0xA0, CHR 0xEF, CHR 0xB8, CHR 0x8F]
      else if s = StateCanceled then [CHR 0xF0, CHR 0x9F, CHR 0x9A, CHR 0xAB]
      else if s = StateRunning then [CHR 0xF0, CHR 0x9F, CHR 0x94, CHR 0x84]
      else [CHR 0xE2, CHR 0x8F, CHR 0xB3])"

definition formatDuration :: "Time \<Rightarrow> Time \<Rightarrow> string" where
  "formatDuration start finish =
     (if start = 0 \<or> finish = 0 then ''N/A'' else duration_string (truncate_seconds (time_Sub finish start)))"

record TaskSummary =
  tsName :: string
  tsState :: string
  tsEmoji :: string
  tsDuration :: string

record SummaryData =
  sdPipelineName :: string
  sdRunName :: string
  sdState :: string
  sdTasks :: "TaskSummary list"

text \<open>The tasks in the order of their names; an event that is not there cannot be asked for.\<close>

definition task_summaries :: "TaskMap \<Rightarrow> TaskSummary list" where
  "task_summaries tasks =
     map (\<lambda>n. case map_of tasks n of
                Some e \<Rightarrow> \<lparr>tsName = n, tsState = StateOf e, tsEmoji = stateEmoji (StateOf e),
                           tsDuration = formatDuration (StartedAt e) (FinishedAt e)\<rparr>
              | None \<Rightarrow> \<lparr>tsName = n, tsState = '''', tsEmoji = '''', tsDuration = ''''\<rparr>)
       (sort (map fst tasks))"

definition markdown_row :: "TaskSummary \<Rightarrow> string" where
  "markdown_row t = ''| '' @ tsName t @ '' | '' @ tsEmoji t @ '' '' @ tsState t @ '' | '' @ tsDuration t @ '' |'' @ [CHR 0x0A]"

definition generateMarkdown :: "RunState \<Rightarrow> string" where
  "generateMarkdown state =
     ''## Pipeline Summary'' @ [CHR 0x0A, CHR 0x0A] @
     ''| Task | Status | Duration |'' @ [CHR 0x0A] @
     ''|------|--------|----------|'' @ [CHR 0x0A] @
     concat (map markdown_row (task_summaries (rsTasks state)))"

text \<open>A template is a function of the data; None stands for an error while it is executed.\<close>

type_synonym summary_template = "SummaryData \<Rightarrow> string option"

definition renderWithTemplate :: "summary_template \<Rightarrow> RunState \<Rightarrow> Event \<Rightarrow> string" where
  "renderWithTemplate tmpl state finalEvent =
     (case tmpl \<lparr>sdPipelineName = PipelineName finalEvent, sdRunName = RunName finalEvent,
                 sdState = StateOf finalEvent, sdTasks = task_summaries (rsTasks state)\<rparr> of
        Some s \<Rightarrow> s
      | None \<Rightarrow> generateMarkdown state)"

definition aggregateEvent :: "summary_template option \<Rightarrow> RunState \<Rightarrow> string \<Rightarrow> Event \<Rightarrow> Event" where
  "aggregateEvent tmpl state runID finalEvent = zero_event\<lparr>Provider := Provider finalEvent,
     ResourceOf := ResourcePipelineRun, RunName := RunName finalEvent, RunID := runID,
     Namespace := Namespace finalEvent, StateOf := StateOf finalEvent, Context := ''tekton/pipeline-summary'',
     Description := (case tmpl of Some t \<Rightarrow> renderWithTemplate t state finalEvent | None \<Rightarrow> generateMarkdown state),
     CommitSHA := CommitSHA finalEvent, RepoOf := RepoOf finalEvent, PRNumber := PRNumber finalEvent\<rparr>"

section \<open>The handler\<close>

record ('b, 'w) Accumulator =
  acName :: string
  acBuffer :: "'b Buffer"
  acProvider :: "'w ActionHandler"
  acTemplate :: "summary_template option"

text \<open>The state is the buffer and the world of the wrapped handler.\<close>

definition flushAndPost ::
  "('b, 'w) Accumulator \<Rightarrow> Time \<Rightarrow> Ctx \<Rightarrow> string \<Rightarrow> Event \<Rightarrow> 'b \<times> 'w \<Rightarrow> err option \<times> 'b \<times> 'w" where
  "flushAndPost a now ctx uid finalEvent s =
     (case bFlush (acBuffer a) now uid (fst s) of
        (None, b) \<Rightarrow> (None, b, snd s)
      | (Some state, b) \<Rightarrow>
          (if length (rsTasks state) = 0 then (None, b, snd s)
           else case hHandle (acProvider a) ctx (aggregateEvent (acTemplate a) state uid finalEvent) (snd s) of
             (er, w) \<Rightarrow> (er, b, w)))"

definition flushGroupAndPost ::
  "('b, 'w) Accumulator \<Rightarrow> Time \<Rightarrow> Ctx \<Rightarrow> string \<Rightarrow> Event \<Rightarrow> 'b \<times> 'w \<Rightarrow> err option \<times> 'b \<times> 'w" where
  "flushGroupAndPost a now ctx groupID finalEvent s =
     (case bFlushGroup (acBuffer a) now groupID (fst s) of
        (None, b) \<Rightarrow> (None, b, snd s)
      | (Some state, b) \<Rightarrow>
          (if length (rsTasks state) = 0 then (None, b, snd s)
           else case hHandle (acProvider a) ctx (aggregateEvent (acTemplate a) state (RunID finalEvent) finalEvent) (snd s) of
             (er, w) \<Rightarrow> (er, b, w)))"

definition run_event :: "Event \<Rightarrow> bool" where
  "run_event e = (ResourceOf e = ResourceTaskRun \<or> ResourceOf e = ResourcePipelineRun)"

definition run_ended :: "Event \<Rightarrow> bool" where
  "run_ended e = (ResourceOf e = ResourcePipelineRun \<and> isTerminalState (StateOf e))"

definition handleSingle ::
  "('b, 'w) Accumulator \<Rightarrow> Time \<Rightarrow> Ctx \<Rightarrow> Event \<Rightarrow> string \<Rightarrow> 'b \<times> 'w \<Rightarrow> err option \<times> 'b \<times> 'w" where
  "handleSingle a now ctx e uid s =
     (let b = (if run_event e then bAdd (acBuffer a) now uid e (fst s) else fst s)
      in if run_ended e then flushAndPost a now ctx uid e (b, snd s) else (None, b, snd s))"

definition handleGrouped ::
  "('b, 'w) Accumulator \<Rightarrow> Time \<Rightarrow> Ctx \<Rightarrow> Event \<Rightarrow> string \<Rightarrow> string \<Rightarrow> 'b \<times> 'w \<Rightarrow> err option \<times> 'b \<times> 'w" where
  "handleGrouped a now ctx e groupID uid s =
     (let b = (if run_event e then bAddWithGroup (acBuffer a) now groupID uid e (fst s) else fst s)
      in if run_ended e \<and> bIsGroupComplete (acBuffer a) groupID b
         then flushGroupAndPost a now ctx groupID e (b, snd s) else (None, b, snd s))"

definition Accumulator_Handle ::
  "('b, 'w) Accumulator \<Rightarrow> Time \<Rightarrow> Ctx \<Rightarrow> Event \<Rightarrow> 'b \<times> 'w \<Rightarrow> err option \<times> 'b \<times> 'w" where
  "Accumulator_Handle a now ctx e s =
     (let uid = RunID e; groupID = AccumulatorGroupID e
      in if uid = '''' then (None, s)
         else if groupID \<noteq> '''' then handleGrouped a now ctx e groupID uid s
         else handleSingle a now ctx e uid s)"

text \<open>As an action handler of the registry; \<open>clock\<close> reads the time.\<close>

definition accumulator_handler :: "('b \<times> 'w \<Rightarrow> Time) \<Rightarrow> ('b, 'w) Accumulator \<Rightarrow> ('b \<times> 'w) ActionHandler" where
  "accumulator_handler clock a = \<lparr>hName = acName a, hProvider = ''accumulator'', hType = ActionNotify,
     hHandle = (\<lambda>ctx e s. Accumulator_Handle a (clock s) ctx e s),
     hClose = (\<lambda>s. (None, bClose (acBuffer a) (fst s), snd s))\<rparr>"

text \<open>A sequence of events with the times at which they are handled; errors of the provider are passed on to no one here.\<close>

fun handle_events ::
  "('b, 'w) Accumulator \<Rightarrow> Ctx \<Rightarrow> (Time \<times> Event) list \<Rightarrow> 'b \<times> 'w \<Rightarrow> 'b \<times> 'w" where
  "handle_events a ctx [] s = s"
| "handle_events a ctx ((t, e) # es) s = handle_events a ctx es (snd (Accumulator_Handle a t ctx e s))"

section \<open>What the handler relies on\<close>

text \<open>
  \<open>tasks_at t b u\<close> are the tasks a flush of run \<open>u\<close> finds at time \<open>t\<close>. A TaskRun event is found for the
  time to live after it was added; nothing appears that was not added under the run's own identifier.
\<close>

locale summary_buffer =
  fixes ops :: "'b Buffer"
    and tasks_at :: "Time \<Rightarrow> 'b \<Rightarrow> string \<Rightarrow> TaskMap"
    and ttl :: int
  assumes add_task: "ResourceOf e = ResourceTaskRun \<Longrightarrow> t \<le> t' \<Longrightarrow> t' \<le> t + ttl \<Longrightarrow>
      tasks_at t' (bAdd ops t u e b) u = AList.update (RunName e) e (tasks_at t b u)"
    and add_run: "ResourceOf e \<noteq> ResourceTaskRun \<Longrightarrow> 0 \<le> ttl \<Longrightarrow> tasks_at t (bAdd ops t u e b) u = tasks_at t b u"
    and add_nothing_else: "tasks_at t' (bAdd ops t v e b) u \<noteq> [] \<Longrightarrow> ResourceOf e \<noteq> ResourceTaskRun \<or> v \<noteq> u \<Longrightarrow>
      \<exists>s. tasks_at s b u \<noteq> []"
    and flush_finds: "tasks_at t b u = (case fst (bFlush ops t u b) of None \<Rightarrow> [] | Some st \<Rightarrow> rsTasks st)"
    and flush_adds_nothing: "tasks_at t' (snd (bFlush ops t v b)) u \<noteq> [] \<Longrightarrow> \<exists>s. tasks_at s b u \<noteq> []"

text \<open>Events of one run, outside any group.\<close>

definition task_event :: "string \<Rightarrow> Event \<Rightarrow> bool" where
  "task_event u e = (ResourceOf e = ResourceTaskRun \<and> RunID e = u \<and> AccumulatorGroupID e = '''')"

definition task_times :: "(Time \<times> Event) list \<Rightarrow> (Time \<times> string \<times> Event) list" where
  "task_times xs = map (\<lambda>(t, e). (t, RunName e, e)) xs"

lemma task_times_simps [simp]: "task_times [] = []" "task_times ((t, e) # xs) = (t, RunName e, e) # task_times xs"
  by (simp_all add: task_times_def)

definition no_tasks :: "(Time \<Rightarrow> 'b \<Rightarrow> string \<Rightarrow> TaskMap) \<Rightarrow> string \<Rightarrow> 'b \<Rightarrow> bool" where
  "no_tasks tasks_at u b \<longleftrightarrow> (\<forall>t. tasks_at t b u = [])"

context summary_buffer
begin

lemma handle_task:
  assumes "acBuffer a = ops" and "task_event u e" and "u \<noteq> ''''"
  shows "Accumulator_Handle a t ctx e s = (None, bAdd ops t u e (fst s), snd s)"
  using assms by (simp add: Accumulator_Handle_def task_event_def handleSingle_def run_event_def run_ended_def)

lemma handle_tasks:
  assumes "acBuffer a = ops" and "u \<noteq> ''''" and "\<forall>x \<in> set xs. task_event u (snd x)"
    and "xs \<noteq> []" and "within_ttl ttl (map fst xs @ [t'])" and "handle_events a ctx xs (b, w) = (b', w')"
  shows "w' = w \<and> tasks_at t' b' u = collect (task_times xs) (tasks_at (fst (hd xs)) b u)"
  using assms(3-6)
proof (induction xs arbitrary: b)
  case (Cons x xs)
  obtain t e where x: "x = (t, e)" by (cases x)
  then have e: "task_event u e" using Cons.prems(1) by simp
  have rest: "handle_events a ctx xs (bAdd ops t u e b, w) = (b', w')"
    using Cons.prems(4) x handle_task [OF assms(1) e assms(2), of t ctx "(b, w)"] by simp
  have tr: "ResourceOf e = ResourceTaskRun" using e by (simp add: task_event_def)
  show ?case
  proof (cases xs)
    case Nil
    then have "t \<le> t'" "t' \<le> t + ttl" using Cons.prems(3) x by simp_all
    from add_task [OF tr this, of u b] rest Nil x show ?thesis by auto
  next
    case (Cons y ys)
    then have y: "t \<le> fst y" "fst y \<le> t + ttl" "within_ttl ttl (map fst xs @ [t'])"
      using Cons.prems(3) x by auto
    from Cons.IH [OF _ _ y(3) rest] Cons.prems(1) Cons add_task [OF tr y(1,2)] x show ?thesis by simp
  qed
qed simp

lemma summary_posted:
  assumes "acBuffer a = ops" and "u \<noteq> ''''" and "0 \<le> ttl" and "\<forall>x \<in> set xs. task_event u (snd x)" and "xs \<noteq> []"
    and "tasks_at (fst (hd xs)) b u = []" and "within_ttl ttl (map fst xs @ [t'])"
    and "run_ended fin" and "RunID fin = u" and "AccumulatorGroupID fin = ''''"
  shows "\<exists>st b''. rsTasks st = collect (task_times xs) [] \<and>
    Accumulator_Handle a t' ctx fin (handle_events a ctx xs (b, w)) =
      (case hHandle (acProvider a) ctx (aggregateEvent (acTemplate a) st u fin) w of (er, w') \<Rightarrow> (er, b'', w'))"
proof -
  obtain b' w' where h: "handle_events a ctx xs (b, w) = (b', w')" by fastforce
  note T = handle_tasks [OF assms(1,2,4,5,7) h]
  have fin: "ResourceOf fin \<noteq> ResourceTaskRun" "run_event fin" using assms(8) by (auto simp: run_ended_def run_event_def)
  have found: "tasks_at t' (bAdd ops t' u fin b') u = collect (task_times xs) []"
    using add_run [OF fin(1) assms(3)] T assms(6) by simp
  have ne: "collect (task_times xs) [] \<noteq> []"
  proof -
    have keep: "collect ys m \<noteq> []" if "m \<noteq> []" for ys :: "(Time \<times> string \<times> Event) list" and m
      using that
    proof (induction ys arbitrary: m)
      case (Cons y ys)
      then show ?case by (cases y; cases m) (auto split: if_splits)
    qed simp
    show ?thesis using assms(5) keep by (cases xs) auto
  qed
  obtain r b'' where fl: "bFlush ops t' u (bAdd ops t' u fin b') = (r, b'')" by fastforce
  obtain st where st: "r = Some st" "rsTasks st = collect (task_times xs) []"
    using flush_finds [of t' "bAdd ops t' u fin b'" u] found ne fl by (cases r) auto
  have "Accumulator_Handle a t' ctx fin (b', w') =
      (case hHandle (acProvider a) ctx (aggregateEvent (acTemplate a) st u fin) w' of (er, w'') \<Rightarrow> (er, b'', w''))"
    using assms(1,2,8-10) fin fl st ne by (simp add: Accumulator_Handle_def handleSingle_def flushAndPost_def)
  with h T st show ?thesis by auto
qed

text \<open>A run under whose identifier no TaskRun event was added has no summary.\<close>

lemma no_tasks_handle:
  assumes "acBuffer a = ops" and "no_tasks tasks_at u b" and "AccumulatorGroupID e = ''''"
    and "ResourceOf e = ResourceTaskRun \<longrightarrow> RunID e \<noteq> u"
  shows "no_tasks tasks_at u (fst (snd (Accumulator_Handle a t ctx e (b, w))))"
proof -
  define b1 where "b1 = (if run_event e then bAdd ops t (RunID e) e b else b)"
  have 1: "no_tasks tasks_at u b1"
    using assms(2,4) add_nothing_else [of _ t "RunID e" e b u] by (auto simp: b1_def no_tasks_def)
  have 2: "no_tasks tasks_at u (snd (bFlush ops t (RunID e) b1))"
    using 1 flush_adds_nothing [of _ t "RunID e" b1 u] by (auto simp: no_tasks_def)
  show ?thesis
    using 1 2 assms(1-3)
    by (auto simp: Accumulator_Handle_def handleSingle_def flushAndPost_def Let_def b1_def split: prod.split option.split)
qed

lemma no_summary:
  assumes "acBuffer a = ops" and "no_tasks tasks_at u b" and "\<forall>x \<in> set xs. AccumulatorGroupID (snd x) = '''' \<and>
      (ResourceOf (snd x) = ResourceTaskRun \<longrightarrow> RunID (snd x) \<noteq> u)"
    and "RunID fin = u" and "AccumulatorGroupID fin = ''''" and "ResourceOf fin = ResourcePipelineRun"
    and "handle_events a ctx xs (b, w) = (b', w')"
  shows "fst (Accumulator_Handle a t ctx fin (b', w')) = None \<and> snd (snd (Accumulator_Handle a t ctx fin (b', w'))) = w'"
proof -
  have "no_tasks tasks_at u b'"
    using assms(2,3,7)
  proof (induction xs arbitrary: b w)
    case (Cons x xs)
    obtain t e where x: "x = (t, e)" by (cases x)
    obtain b1 w1 where s: "snd (Accumulator_Handle a t ctx e (b, w)) = (b1, w1)" by fastforce
    then have "no_tasks tasks_at u b1"
      using no_tasks_handle [OF assms(1) Cons.prems(1), of e t ctx w] Cons.prems(2) x by simp
    with Cons.IH [of b1 w1] Cons.prems(2,3) x s show ?case by simp
  qed simp
  then have "no_tasks tasks_at u (bAdd ops t u fin b')"
    using add_nothing_else [of _ t u fin b' u] assms(6) by (auto simp: no_tasks_def)
  then have "(case fst (bFlush ops t u (bAdd ops t u fin b')) of None \<Rightarrow> [] | Some st \<Rightarrow> rsTasks st) = []"
    using flush_finds [of t "bAdd ops t u fin b'" u] by (simp add: no_tasks_def)
  then show ?thesis
    using assms(1,4-6)
    by (auto simp: Accumulator_Handle_def handleSingle_def flushAndPost_def Let_def run_event_def split: prod.split option.splits)
qed

end

section \<open>The two buffers keep the contract\<close>

locale lru_summary = expirable_cache ops live cap ttl
  for ops :: "('c, string, RunState) xlru_ops" and live and cap and ttl +
  fixes iter :: "string list \<Rightarrow> string list"

definition lru_tasks :: "(Time \<Rightarrow> 'c \<Rightarrow> string \<Rightarrow> RunState option) \<Rightarrow> Time \<Rightarrow> 'c LRUBuffer \<Rightarrow> string \<Rightarrow> TaskMap" where
  "lru_tasks live t b u = (case live t (bufCache b) u of None \<Rightarrow> [] | Some st \<Rightarrow> rsTasks st)"

sublocale lru_summary \<subseteq> summary_buffer "lru_buffer iter ops" "lru_tasks live" ttl
proof
  fix e :: Event and t t' :: Time and u v :: string and b :: "'c LRUBuffer"
  have found: "fst (xlru_get ops t v (bufCache b)) = live t (bufCache b) v" by (rule get_result)
  show "ResourceOf e = ResourceTaskRun \<Longrightarrow> t \<le> t' \<Longrightarrow> t' \<le> t + ttl \<Longrightarrow>
      lru_tasks live t' (bAdd (lru_buffer iter ops) t u e b) u = AList.update (RunName e) e (lru_tasks live t b u)"
    using get_result [of t u "bufCache b"] add_same
    by (auto simp: lru_tasks_def lru_buffer_def LRUBuffer_Add_def add_event_def Let_def split: prod.split option.splits)
  show "ResourceOf e \<noteq> ResourceTaskRun \<Longrightarrow> 0 \<le> ttl \<Longrightarrow>
      lru_tasks live t (bAdd (lru_buffer iter ops) t u e b) u = lru_tasks live t b u"
    using get_result [of t u "bufCache b"] add_same [of t t]
    by (auto simp: lru_tasks_def lru_buffer_def LRUBuffer_Add_def add_event_def Let_def split: prod.split option.splits)
  show "lru_tasks live t' (bAdd (lru_buffer iter ops) t v e b) u \<noteq> [] \<Longrightarrow> ResourceOf e \<noteq> ResourceTaskRun \<or> v \<noteq> u \<Longrightarrow>
      \<exists>s. lru_tasks live s b u \<noteq> []"
  proof -
    assume n: "lru_tasks live t' (bAdd (lru_buffer iter ops) t v e b) u \<noteq> []" "ResourceOf e \<noteq> ResourceTaskRun \<or> v \<noteq> u"
    obtain r c1 where g: "xlru_get ops t v (bufCache b) = (r, c1)" by fastforce
    have l1: "live t' c1 u = live t' (bufCache b) u" using get_live [of t' t v "bufCache b" u] g by simp
    obtain st where a: "add_event ops t v v e (bufCache b) = xlru_add ops t v st c1"
        "ResourceOf e \<noteq> ResourceTaskRun \<longrightarrow> rsTasks st = (case r of None \<Rightarrow> [] | Some x \<Rightarrow> rsTasks x)"
      using g by (auto simp: add_event_def Let_def split: option.split)
    obtain x where x: "live t' (xlru_add ops t v st c1) u = Some x" "rsTasks x \<noteq> []"
      using n(1) a(1) by (auto simp: lru_tasks_def lru_buffer_def LRUBuffer_Add_def split: option.splits)
    show "\<exists>s. lru_tasks live s b u \<noteq> []"
    proof (cases "v = u")
      case True
      then have "x = st" using add_same_le x(1) by blast
      with n(2) True a(2) x(2) g found have "lru_tasks live t b u \<noteq> []" by (auto simp: lru_tasks_def split: option.splits)
      then show ?thesis by blast
    next
      case False
      then have "live t' (bufCache b) u = Some x" using add_other_le [OF _ x(1)] l1 by auto
      with x(2) show ?thesis by (auto simp: lru_tasks_def intro: exI [of _ t'])
    qed
  qed
  show "lru_tasks live t b u = (case fst (bFlush (lru_buffer iter ops) t u b) of None \<Rightarrow> [] | Some st \<Rightarrow> rsTasks st)"
    using get_result [of t u "bufCache b"]
    by (auto simp: lru_tasks_def lru_buffer_def LRUBuffer_Flush_def split: prod.split option.splits)
  show "lru_tasks live t' (snd (bFlush (lru_buffer iter ops) t v b)) u \<noteq> [] \<Longrightarrow> \<exists>s. lru_tasks live s b u \<noteq> []"
  proof -
    assume n: "lru_tasks live t' (snd (bFlush (lru_buffer iter ops) t v b)) u \<noteq> []"
    have "live t' (snd (xlru_get ops t v (bufCache b))) u = live t' (bufCache b) u" by (rule get_live)
    with n have "lru_tasks live t' b u \<noteq> []"
      by (cases "live t' (bufCache b) u")
        (auto simp: lru_tasks_def lru_buffer_def LRUBuffer_Flush_def remove_live split: prod.splits option.splits if_splits)
    then show ?thesis by blast
  qed
qed

context lru_summary
begin

lemmas lru_posts_summary = summary_posted
lemmas lru_no_summary = no_summary

end

locale memory_summary = expirable_cache ops live cap ttl
  for ops :: "('c, string, TaskMap) xlru_ops" and live and cap and ttl +
  fixes backend :: string

definition store_tasks :: "(Time \<Rightarrow> 'c \<Rightarrow> string \<Rightarrow> TaskMap option) \<Rightarrow> Time \<Rightarrow> 'c StoreBuffer \<Rightarrow> string \<Rightarrow> TaskMap" where
  "store_tasks live t b u = (case live t (sbStore b) u of None \<Rightarrow> [] | Some m \<Rightarrow> m)"

sublocale memory_summary \<subseteq> summary_buffer "NewStoreBuffer (memoryRunBuffer_Add ops) (memoryRunBuffer_Flush ops) backend"
  "store_tasks live" ttl
proof
  fix e :: Event and t t' :: Time and u v :: string and b :: "'c StoreBuffer"
  let ?B = "NewStoreBuffer (memoryRunBuffer_Add ops) (memoryRunBuffer_Flush ops) backend"
  show "ResourceOf e = ResourceTaskRun \<Longrightarrow> t \<le> t' \<Longrightarrow> t' \<le> t + ttl \<Longrightarrow>
      store_tasks live t' (bAdd ?B t u e b) u = AList.update (RunName e) e (store_tasks live t b u)"
    using get_result [of t u "sbStore b"] add_same
    by (auto simp: store_tasks_def NewStoreBuffer_def StoreBuffer_Add_def memoryRunBuffer_Add_def Let_def split: prod.split option.splits)
  show "ResourceOf e \<noteq> ResourceTaskRun \<Longrightarrow> 0 \<le> ttl \<Longrightarrow> store_tasks live t (bAdd ?B t u e b) u = store_tasks live t b u"
    by (simp add: NewStoreBuffer_def StoreBuffer_Add_def)
  show "store_tasks live t' (bAdd ?B t v e b) u \<noteq> [] \<Longrightarrow> ResourceOf e \<noteq> ResourceTaskRun \<or> v \<noteq> u \<Longrightarrow>
      \<exists>s. store_tasks live s b u \<noteq> []"
  proof (cases "ResourceOf e = ResourceTaskRun")
    case True
    assume n: "store_tasks live t' (bAdd ?B t v e b) u \<noteq> []" "ResourceOf e \<noteq> ResourceTaskRun \<or> v \<noteq> u"
    then have uv: "u \<noteq> v" using True by auto
    obtain r c1 where g: "xlru_get ops t v (sbStore b) = (r, c1)" by fastforce
    obtain m where "bAdd ?B t v e b = b\<lparr>sbStore := xlru_add ops t v m c1\<rparr>"
      using True g by (auto simp: NewStoreBuffer_def StoreBuffer_Add_def memoryRunBuffer_Add_def Let_def)
    with n(1) obtain x where x: "live t' (xlru_add ops t v m c1) u = Some x" "x \<noteq> []"
      by (auto simp: store_tasks_def split: option.splits)
    have "live t' (sbStore b) u = Some x"
      using add_other_le [OF uv x(1)] get_live [of t' t v "sbStore b" u] g by simp
    with x(2) show "\<exists>s. store_tasks live s b u \<noteq> []" by (auto simp: store_tasks_def intro: exI [of _ t'])
  next
    case False
    assume "store_tasks live t' (bAdd ?B t v e b) u \<noteq> []"
    with False show "\<exists>s. store_tasks live s b u \<noteq> []" by (auto simp: NewStoreBuffer_def StoreBuffer_Add_def)
  qed
  show "store_tasks live t b u = (case fst (bFlush ?B t u b) of None \<Rightarrow> [] | Some st \<Rightarrow> rsTasks st)"
    using get_result [of t u "sbStore b"]
    by (auto simp: store_tasks_def NewStoreBuffer_def StoreBuffer_Flush_def memoryRunBuffer_Flush_def split: prod.split option.splits)
  show "store_tasks live t' (snd (bFlush ?B t v b)) u \<noteq> [] \<Longrightarrow> \<exists>s. store_tasks live s b u \<noteq> []"
  proof -
    assume n: "store_tasks live t' (snd (bFlush ?B t v b)) u \<noteq> []"
    have "live t' (snd (xlru_get ops t v (sbStore b))) u = live t' (sbStore b) u" by (rule get_live)
    with n have "store_tasks live t' b u \<noteq> []"
      by (cases "live t' (sbStore b) u")
        (auto simp: store_tasks_def NewStoreBuffer_def StoreBuffer_Flush_def memoryRunBuffer_Flush_def remove_live
          split: prod.splits option.splits if_splits)
    then show ?thesis by blast
  qed
qed

interpretation lru_summary_1000: lru_summary "list_xlru 1000 30000000000" list_live 1000 30000000000 id
  by unfold_locales

interpretation memory_summary_1000: memory_summary "list_xlru 1000 30000000000" list_live 1000 30000000000 "''memory''"
  by unfold_locales

section \<open>Groups\<close>

definition member_waits :: "string \<Rightarrow> string \<Rightarrow> 'c LRUBuffer \<Rightarrow> bool" where
  "member_waits g u b = (case map_of (bufGroups b) g of None \<Rightarrow> False | Some gs \<Rightarrow> map_of (gsMembers gs) u = Some False)"

lemma member_waits_incomplete: "member_waits g u b \<Longrightarrow> \<not> LRUBuffer_IsGroupComplete g b"
  by (fastforce simp: member_waits_def LRUBuffer_IsGroupComplete_def list_all_iff dest: map_of_SomeD split: option.splits)

lemma member_waits_add:
  assumes "member_waits g u b" and "\<not> (g' = g \<and> v = u \<and> run_ended e)"
  shows "member_waits g u (LRUBuffer_AddWithGroup ops t g' v e b)"
  using assms
  by (auto simp: member_waits_def LRUBuffer_AddWithGroup_def mark_member_def Let_def run_ended_def split: option.splits)

lemma member_waits_frame:
  "member_waits g u (LRUBuffer_Add ops t v e b) = member_waits g u b"
  "member_waits g u (snd (LRUBuffer_Flush ops t v b)) = member_waits g u b"
  "g' \<noteq> g \<Longrightarrow> member_waits g u (snd (LRUBuffer_FlushGroup iter ops t g' b)) = member_waits g u b"
  by (auto simp: member_waits_def LRUBuffer_Add_def LRUBuffer_Flush_def LRUBuffer_FlushGroup_def split: prod.split option.split)

lemma handleSingle_buffer:
  "fst (snd (handleSingle a t ctx e uid s)) =
     (let b = (if run_event e then bAdd (acBuffer a) t uid e (fst s) else fst s)
      in if run_ended e then snd (bFlush (acBuffer a) t uid b) else b)"
  by (simp add: handleSingle_def flushAndPost_def Let_def split: prod.split option.split)

lemma handleGrouped_buffer:
  "fst (snd (handleGrouped a t ctx e g uid s)) =
     (let b = (if run_event e then bAddWithGroup (acBuffer a) t g uid e (fst s) else fst s)
      in if run_ended e \<and> bIsGroupComplete (acBuffer a) g b then snd (bFlushGroup (acBuffer a) t g b) else b)"
  by (simp add: handleGrouped_def flushGroupAndPost_def Let_def split: prod.split option.split)

lemma member_waits_handle:
  assumes "acBuffer a = lru_buffer iter ops" and "member_waits g u (fst s)"
    and "\<not> (AccumulatorGroupID e = g \<and> RunID e = u \<and> run_ended e)"
  shows "member_waits g u (fst (snd (Accumulator_Handle a t ctx e s))) \<and>
    (AccumulatorGroupID e = g \<and> g \<noteq> '''' \<longrightarrow>
      fst (Accumulator_Handle a t ctx e s) = None \<and> snd (snd (Accumulator_Handle a t ctx e s)) = snd s)"
proof -
  let ?g = "AccumulatorGroupID e"
  define b where "b = (if run_event e then LRUBuffer_AddWithGroup ops t ?g (RunID e) e (fst s) else fst s)"
  define c where "c = (if run_event e then LRUBuffer_Add ops t (RunID e) e (fst s) else fst s)"
  have b: "member_waits g u b" using assms(2,3) member_waits_add [OF assms(2), of ?g "RunID e" e ops t] by (auto simp: b_def)
  have c: "member_waits g u c" using assms(2) by (simp add: c_def member_waits_frame)
  have ops: "bAdd (acBuffer a) = LRUBuffer_Add ops" "bAddWithGroup (acBuffer a) = LRUBuffer_AddWithGroup ops"
      "bFlush (acBuffer a) = LRUBuffer_Flush ops" "bFlushGroup (acBuffer a) = LRUBuffer_FlushGroup iter ops"
      "bIsGroupComplete (acBuffer a) = LRUBuffer_IsGroupComplete"
    using assms(1) by (simp_all add: lru_buffer_def)
  have single: "member_waits g u (fst (snd (handleSingle a t ctx e (RunID e) s)))"
    unfolding handleSingle_buffer ops Let_def c_def [symmetric] using c by (simp add: member_waits_frame)
  have grouped: "member_waits g u (fst (snd (handleGrouped a t ctx e ?g (RunID e) s)))"
    unfolding handleGrouped_buffer ops Let_def b_def [symmetric]
    using b member_waits_incomplete [OF b] member_waits_frame(3) [of ?g g u iter ops t b] by auto
  have "handleGrouped a t ctx e ?g (RunID e) s = (None, b, snd s)" if "?g = g"
  proof -
    have "\<not> LRUBuffer_IsGroupComplete ?g b" using member_waits_incomplete [OF b] that by simp
    then show ?thesis unfolding handleGrouped_def ops Let_def b_def [symmetric] by simp
  qed
  with single grouped assms(2) show ?thesis by (auto simp: Accumulator_Handle_def Let_def)
qed

section \<open>Properties\<close>


text \<open>A wrapped handler that records the descriptions it is given, and a run of two tasks.\<close>

definition demo_poster :: "string list ActionHandler" where
  "demo_poster = \<lparr>hName = ''gh'', hProvider = ''github'', hType = ''pr_comment'',
     hHandle = \<lambda>c e w. (None, Description e # w), hClose = \<lambda>w. (None, w)\<rparr>"

definition demo_accumulator :: "((string, RunState \<times> Time) gomap LRUBuffer, string list) Accumulator" where
  "demo_accumulator = \<lparr>acName = ''summary'', acBuffer = lru_buffer id (list_xlru 10 (30 * nsPerSec)), acProvider = demo_poster,
     acTemplate = None\<rparr>"

definition demo_task :: "string \<Rightarrow> State \<Rightarrow> Event" where
  "demo_task n st = zero_event\<lparr>ResourceOf := ResourceTaskRun, RunID := ''uid-p'', RunName := n, StateOf := st\<rparr>"

definition demo_end :: Event where
  "demo_end = zero_event\<lparr>ResourceOf := ResourcePipelineRun, RunID := ''uid-p'', RunName := ''run'', StateOf := StateSuccess\<rparr>"


text \<open>
  Events that carry another identifier do not count: when none of the TaskRun events handled before
  carries the identifier of the PipelineRun, because each carries the one of its TaskRun, no summary is
  posted when the PipelineRun ends, whatever state it ends in and however many tasks were collected.
\<close>

theorem accumulator_ignores_foreign_uids:
  assumes "expirable_cache ops live cap ttl" and "acBuffer a = lru_buffer iter ops"
    and "\<forall>t. lru_tasks live t b u = []"
    and "\<forall>x \<in> set xs. AccumulatorGroupID (snd x) = '''' \<and> (ResourceOf (snd x) = ResourceTaskRun \<longrightarrow> RunID (snd x) \<noteq> u)"
    and "RunID fin = u" and "AccumulatorGroupID fin = ''''" and "ResourceOf fin = ResourcePipelineRun"
    and "handle_events a ctx xs (b, w) = (b', w')"
  shows "fst (Accumulator_Handle a t ctx fin (b', w')) = None \<and> snd (snd (Accumulator_Handle a t ctx fin (b', w'))) = w'"
  using lru_summary.lru_no_summary [OF lru_summary.intro [OF assms(1)] assms(2) assms(3) [folded no_tasks_def] assms(4-8)] .

theorem accumulator_ignores_foreign_uids_witness:
  "let ctx = \<lparr>CloudEventIDKey = None, CtxTimeout = None\<rparr>; b = \<lparr>bufCache = [], bufGroups = []\<rparr>;
       xs = [(1, (demo_task ''build'' StateSuccess)\<lparr>RunID := ''uid-t1''\<rparr>), (2, (demo_task ''test'' StateFailure)\<lparr>RunID := ''uid-t2''\<rparr>)]
   in snd (snd (Accumulator_Handle demo_accumulator 3 ctx demo_end (handle_events demo_accumulator ctx xs (b, [])))) = []"
proof -
  let ?xs = "[(1 :: Time, (demo_task ''build'' StateSuccess)\<lparr>RunID := ''uid-t1''\<rparr>), (2, (demo_task ''test'' StateFailure)\<lparr>RunID := ''uid-t2''\<rparr>)]"
  let ?b = "\<lparr>bufCache = [], bufGroups = []\<rparr> :: (string, RunState \<times> Time) gomap LRUBuffer"
  let ?ctx = "\<lparr>CloudEventIDKey = None, CtxTimeout = None\<rparr>"
  obtain b' w' where h: "handle_events demo_accumulator ?ctx ?xs (?b, []) = (b', w')" by fastforce
  have w: "w' = []"
    using h by (auto simp: demo_task_def Accumulator_Handle_def handleSingle_def run_event_def run_ended_def zero_event_def Let_def)
  have law: "expirable_cache (list_xlru 10 (30 * nsPerSec)) list_live 10 (30 * nsPerSec)" by (rule list_xlru_laws) simp
  have "snd (snd (Accumulator_Handle demo_accumulator 3 ?ctx demo_end (b', w'))) = w'"
    by (rule accumulator_ignores_foreign_uids [OF law _ _ _ _ _ _ h, THEN conjunct2])
      (auto simp: demo_accumulator_def demo_task_def demo_end_def lru_tasks_def list_live_def zero_event_def)
  with h w show ?thesis by (simp add: Let_def)
qed

text \<open>
  A group with a TaskRun never completes: once a TaskRun event of a group was handled under its own
  identifier, as long as no PipelineRun of that identifier ends in the group, no event of the group
  makes the handler post anything, however many of its PipelineRuns have ended.
\<close>

theorem group_with_taskrun_never_completes:
  assumes "acBuffer a = lru_buffer iter ops" and "g \<noteq> ''''" and "u \<noteq> ''''"
    and "ResourceOf e = ResourceTaskRun" and "AccumulatorGroupID e = g" and "RunID e = u"
    and "map_of (bufGroups b) g = None"
    and "\<forall>x \<in> set xs. \<not> (AccumulatorGroupID (snd x) = g \<and> RunID (snd x) = u \<and> run_ended (snd x))"
    and "handle_events a ctx ((t, e) # xs) (b, w) = (b', w')"
    and "AccumulatorGroupID fin = g" and "RunID fin \<noteq> u"
  shows "fst (Accumulator_Handle a t' ctx fin (b', w')) = None \<and> snd (snd (Accumulator_Handle a t' ctx fin (b', w'))) = w'"
proof -
  obtain b1 w1 where 1: "snd (Accumulator_Handle a t ctx e (b, w)) = (b1, w1)" by fastforce
  then have "member_waits g u b1"
    using assms(1-7)
    by (auto simp: Accumulator_Handle_def handleGrouped_def run_event_def run_ended_def lru_buffer_def LRUBuffer_AddWithGroup_def
        mark_member_def member_waits_def Let_def)
  moreover have "handle_events a ctx xs (b1, w1) = (b', w')" using assms(9) 1 by simp
  ultimately have "member_waits g u b'"
    using assms(8)
  proof (induction xs arbitrary: b1 w1)
    case (Cons x xs)
    obtain tx ex where x: "x = (tx, ex)" by (cases x)
    obtain b2 w2 where 2: "snd (Accumulator_Handle a tx ctx ex (b1, w1)) = (b2, w2)" by fastforce
    have "member_waits g u b2"
      using member_waits_handle [OF assms(1), of g u "(b1, w1)" ex tx ctx] Cons.prems(1,3) x 2 by auto
    with Cons.IH [of b2 w2] Cons.prems(2,3) x 2 show ?case by simp
  qed simp
  then show ?thesis
    using member_waits_handle [OF assms(1), of g u "(b', w')" fin t' ctx] assms(2,10,11) by auto
qed

theorem group_with_taskrun_never_completes_witness:
  "let ctx = \<lparr>CloudEventIDKey = None, CtxTimeout = None\<rparr>; b = \<lparr>bufCache = [], bufGroups = []\<rparr>;
       e = (demo_task ''build'' StateSuccess)\<lparr>RunID := ''uid-t1'', AccumulatorGroupID := ''g''\<rparr>;
       fin = demo_end\<lparr>AccumulatorGroupID := ''g''\<rparr>
   in snd (snd (Accumulator_Handle demo_accumulator 3 ctx fin (handle_events demo_accumulator ctx [(1, e)] (b, [])))) = []"
proof -
  let ?e = "(demo_task ''build'' StateSuccess)\<lparr>RunID := ''uid-t1'', AccumulatorGroupID := ''g''\<rparr>"
  let ?b = "\<lparr>bufCache = [], bufGroups = []\<rparr> :: (string, RunState \<times> Time) gomap LRUBuffer"
  let ?ctx = "\<lparr>CloudEventIDKey = None, CtxTimeout = None\<rparr>"
  obtain b' w' where h: "handle_events demo_accumulator ?ctx ((1, ?e) # []) (?b, []) = (b', w')" by fastforce
  have w: "w' = []"
    using h by (auto simp: demo_task_def Accumulator_Handle_def handleGrouped_def run_event_def run_ended_def zero_event_def Let_def)
  have "snd (snd (Accumulator_Handle demo_accumulator 3 ?ctx (demo_end\<lparr>AccumulatorGroupID := ''g''\<rparr>) (b', w'))) = w'"
    by (rule group_with_taskrun_never_completes [where iter = id and g = "''g''" and u = "''uid-t1''", OF _ _ _ _ _ _ _ _ h, THEN conjunct2])
      (auto simp: demo_accumulator_def demo_task_def demo_end_def zero_event_def)
  with h w show ?thesis by (simp add: Let_def)
qed

text \<open>
  The summary of a group depends on the order in which Go iterates over the group's members: of two
  states of one task that two PipelineRuns of a group reported, one run after the other, one order of
  the same three members keeps the newer and another the older.
\<close>

theorem group_summary_depends_on_map_order:
  "let old = demo_task ''build'' StateRunning; new = demo_task ''build'' StateSuccess; other = demo_task ''lint'' StateSuccess;
       ops = list_xlru 10 (30 * nsPerSec);
       b = LRUBuffer_AddWithGroup ops 3 ''g'' ''u3'' other
             (LRUBuffer_AddWithGroup ops 2 ''g'' ''u2'' new
               (LRUBuffer_AddWithGroup ops 1 ''g'' ''u1'' old \<lparr>bufCache = [], bufGroups = []\<rparr>))
   in map_option (\<lambda>st. map_of (rsTasks st) ''build'') (fst (LRUBuffer_FlushGroup id ops 4 ''g'' b)) = Some (Some new) \<and>
      map_option (\<lambda>st. map_of (rsTasks st) ''build'') (fst (LRUBuffer_FlushGroup (\<lambda>us. [''u3'', ''u1'', ''u2'']) ops 4 ''g'' b)) = Some (Some old)"
  by (simp add: Let_def LRUBuffer_AddWithGroup_def LRUBuffer_FlushGroup_def add_event_def mark_member_def list_xlru_def
      flush_member_def merge_member_def group_key_def demo_task_def front_def nsPerSec_def isTerminalState_def zero_event_def)

end
