(* ===== verification/Relay_Factory.thy ===== *)
theory Relay_Factory
  imports Relay_Validate Relay_Accumulator
begin

text \<open>
  Packages \<^verbatim>\<open>internal/factory\<close> and \<^verbatim>\<open>internal/secrets\<close>: where the secret of an instance is found, and how the
  handlers of all configured instances come into the registry. The factory that builds the handlers
  of one instance of a provider is an argument.
\<close>

section \<open>Secrets\<close>

definition sanitizePath :: "string \<Rightarrow> err option" where
  "sanitizePath component =
     (if Contains component ''..'' then Some (Err (''path component contains '..': '' @ strconv_Quote component))
      else if Contains component ''/'' then Some (Err (''path component contains '/': '' @ strconv_Quote component))
      else None)"

definition BuildPath :: "string \<Rightarrow> string \<Rightarrow> string \<Rightarrow> string" where
  "BuildPath provider inst key = ''/etc/secrets/'' @ provider @ ''/'' @ inst @ ''/'' @ key"

definition InferPath :: "string \<Rightarrow> string \<Rightarrow> string \<Rightarrow> string \<Rightarrow> string \<Rightarrow> string result" where
  "InferPath explicitPath provider inst defaultKey customKey =
     (if explicitPath \<noteq> '''' then Inr explicitPath
      else
        (let key = (if customKey \<noteq> '''' then customKey else defaultKey)
         in case sanitizePath inst of
              Some e \<Rightarrow> Inl (Wrap ''invalid secret instance: '' e)
            | None \<Rightarrow> Inr (BuildPath provider inst key)))"

text \<open>The files are an argument: the content of a path or an error.\<close>

type_synonym FileReader = "string \<Rightarrow> string result"

definition ResolveWithReader :: "FileReader \<Rightarrow> string \<Rightarrow> string result" where
  "ResolveWithReader reader filePath =
     (if filePath = '''' then Inl (Err ''secret file path is empty'')
      else case reader filePath of
        Inl e \<Rightarrow> Inl (Wrap (''read secret from '' @ filePath @ '': '') e)
      | Inr data \<Rightarrow> Inr (TrimSpace data))"

definition ResolveOrInfer :: "FileReader \<Rightarrow> string \<Rightarrow> string \<Rightarrow> string \<Rightarrow> string \<Rightarrow> string \<Rightarrow> string result" where
  "ResolveOrInfer reader explicitPath provider inst defaultKey customKey =
     (case InferPath explicitPath provider inst defaultKey customKey of
        Inl e \<Rightarrow> Inl e
      | Inr path \<Rightarrow> ResolveWithReader reader path)"

text \<open>A source that reads its file again on every call; it is made only for a file that can be read now.\<close>

definition resolveFileRefresher :: "FileReader \<Rightarrow> string \<Rightarrow> string \<Rightarrow> string \<Rightarrow> string \<Rightarrow> (FileReader \<Rightarrow> string result) result" where
  "resolveFileRefresher reader explicitFile key provider inst =
     (case InferPath explicitFile provider inst ''token'' key of
        Inl e \<Rightarrow> Inl e
      | Inr path \<Rightarrow> (case ResolveWithReader reader path of Inl e \<Rightarrow> Inl e | Inr _ \<Rightarrow> Inr (\<lambda>later. ResolveWithReader later path)))"

section \<open>Registering the handlers of the instances\<close>

fun BuildAndRegister :: "('c \<Rightarrow> 'w ActionHandler list result) \<Rightarrow> 'c list \<Rightarrow> 'w Registry \<Rightarrow> 'w Registry result" where
  "BuildAndRegister build [] reg = Inr reg"
| "BuildAndRegister build (i # is) reg =
     (case build i of Inl e \<Rightarrow> Inl e | Inr hs \<Rightarrow> BuildAndRegister build is (register_all hs reg))"

definition wrap_dedupe :: "'w DedupeStore option \<Rightarrow> bool \<Rightarrow> 'w ActionHandler \<Rightarrow> 'w ActionHandler" where
  "wrap_dedupe store dedupe h = (if dedupe \<and> store \<noteq> None then WrapWithDedupe store h else h)"

fun buildAndRegisterWithDedupe ::
  "'w DedupeStore option \<Rightarrow> ('c \<Rightarrow> 'w ActionHandler list result) \<Rightarrow> ('c \<Rightarrow> bool) \<Rightarrow> 'c list \<Rightarrow> 'w Registry \<Rightarrow> 'w Registry result" where
  "buildAndRegisterWithDedupe store build getDedupe [] reg = Inr reg"
| "buildAndRegisterWithDedupe store build getDedupe (i # is) reg =
     (case build i of
        Inl e \<Rightarrow> Inl e
      | Inr hs \<Rightarrow> buildAndRegisterWithDedupe store build getDedupe is (register_all (map (wrap_dedupe store (getDedupe i)) hs) reg))"

text \<open>The factories, one for each kind of instance.\<close>

record 'w Factories =
  fac_GitHub :: "GitHubInstance \<Rightarrow> 'w ActionHandler list result"
  fac_GitLab :: "GitLabInstance \<Rightarrow> 'w ActionHandler list result"
  fac_Bitbucket :: "BitbucketInstance \<Rightarrow> 'w ActionHandler list result"
  fac_Azure :: "AzureInstance \<Rightarrow> 'w ActionHandler list result"
  fac_Gitea :: "GiteaInstance \<Rightarrow> 'w ActionHandler list result"
  fac_SourceHut :: "SourceHutInstance \<Rightarrow> 'w ActionHandler list result"
  fac_Slack :: "SlackInstance \<Rightarrow> 'w ActionHandler list result"
  fac_Teams :: "TeamsInstance \<Rightarrow> 'w ActionHandler list result"
  fac_Discord :: "DiscordInstance \<Rightarrow> 'w ActionHandler list result"
  fac_PagerDuty :: "PagerDutyInstance \<Rightarrow> 'w ActionHandler list result"
  fac_Datadog :: "DatadogInstance \<Rightarrow> 'w ActionHandler list result"
  fac_Webhook :: "WebhookInstance \<Rightarrow> 'w ActionHandler list result"
  fac_Grafana :: "GrafanaInstance \<Rightarrow> 'w ActionHandler list result"
  fac_Sentry :: "SentryInstance \<Rightarrow> 'w ActionHandler list result"
  fac_Email :: "EmailInstance \<Rightarrow> 'w ActionHandler list result"
  fac_Mattermost :: "MattermostInstance \<Rightarrow> 'w ActionHandler list result"
  fac_Telegram :: "TelegramInstance \<Rightarrow> 'w ActionHandler list result"
  fac_IncidentIO :: "IncidentIOInstance \<Rightarrow> 'w ActionHandler list result"
  fac_NewRelic :: "NewRelicInstance \<Rightarrow> 'w ActionHandler list result"
  fac_Opsgenie :: "OpsgenieInstance \<Rightarrow> 'w ActionHandler list result"
  fac_Honeycomb :: "HoneycombInstance \<Rightarrow> 'w ActionHandler list result"
  fac_Kafka :: "KafkaInstance \<Rightarrow> 'w ActionHandler list result"
  fac_NATS :: "NATSInstance \<Rightarrow> 'w ActionHandler list result"
  fac_RabbitMQ :: "RabbitMQInstance \<Rightarrow> 'w ActionHandler list result"
  fac_RedisPubSub :: "RedisPubSubInstance \<Rightarrow> 'w ActionHandler list result"
  fac_Jira :: "JiraInstance \<Rightarrow> 'w ActionHandler list result"

definition buildSCMHandlers :: "'w Factories \<Rightarrow> Config \<Rightarrow> 'w Registry \<Rightarrow> 'w Registry result" where
  "buildSCMHandlers fs cfg = in_turn
     [BuildAndRegister (fac_GitHub fs) (scm_GitHub (cf_SCM cfg)),
      BuildAndRegister (fac_GitLab fs) (scm_GitLab (cf_SCM cfg)),
      BuildAndRegister (fac_Bitbucket fs) (scm_Bitbucket (cf_SCM cfg)),
      BuildAndRegister (fac_Azure fs) (scm_Azure (cf_SCM cfg)),
      BuildAndRegister (fac_Gitea fs) (scm_Gitea (cf_SCM cfg)),
      BuildAndRegister (fac_SourceHut fs) (scm_SourceHut (cf_SCM cfg))]"

definition buildNotifierHandlers :: "'w DedupeStore option \<Rightarrow> 'w Factories \<Rightarrow> Config \<Rightarrow> 'w Registry \<Rightarrow> 'w Registry result" where
  "buildNotifierHandlers store fs cfg = in_turn
     [buildAndRegisterWithDedupe store (fac_Slack fs) sla_Dedupe (nc_Slack (cf_Notifiers cfg)),
      buildAndRegisterWithDedupe store (fac_Teams fs) tea_Dedupe (nc_Teams (cf_Notifiers cfg)),
      buildAndRegisterWithDedupe store (fac_Discord fs) dis_Dedupe (nc_Discord (cf_Notifiers cfg)),
      buildAndRegisterWithDedupe store (fac_PagerDuty fs) pag_Dedupe (nc_PagerDuty (cf_Notifiers cfg)),
      buildAndRegisterWithDedupe store (fac_Datadog fs) dat_Dedupe (nc_Datadog (cf_Notifiers cfg)),
      buildAndRegisterWithDedupe store (fac_Webhook fs) wh_Dedupe (nc_Webhook (cf_Notifiers cfg)),
      buildAndRegisterWithDedupe store (fac_Grafana fs) gra_Dedupe (nc_Grafana (cf_Notifiers cfg)),
      buildAndRegisterWithDedupe store (fac_Sentry fs) sen_Dedupe (nc_Sentry (cf_Notifiers cfg)),
      buildAndRegisterWithDedupe store (fac_Email fs) em_Dedupe (nc_Email (cf_Notifiers cfg)),
      buildAndRegisterWithDedupe store (fac_Mattermost fs) mat_Dedupe (nc_Mattermost (cf_Notifiers cfg)),
      buildAndRegisterWithDedupe store (fac_Telegram fs) tel_Dedupe (nc_Telegram (cf_Notifiers cfg)),
      buildAndRegisterWithDedupe store (fac_IncidentIO fs) inc_Dedupe (nc_IncidentIO (cf_Notifiers cfg)),
      buildAndRegisterWithDedupe store (fac_NewRelic fs) nr_Dedupe (nc_NewRelic (cf_Notifiers cfg)),
      buildAndRegisterWithDedupe store (fac_Opsgenie fs) ops_Dedupe (nc_Opsgenie (cf_Notifiers cfg)),
      buildAndRegisterWithDedupe store (fac_Honeycomb fs) hon_Dedupe (nc_Honeycomb (cf_Notifiers cfg)),
      buildAndRegisterWithDedupe store (fac_Kafka fs) kaf_Dedupe (nc_Kafka (cf_Notifiers cfg)),
      buildAndRegisterWithDedupe store (fac_NATS fs) nat_Dedupe (nc_NATS (cf_Notifiers cfg)),
      buildAndRegisterWithDedupe store (fac_RabbitMQ fs) rab_Dedupe (nc_RabbitMQ (cf_Notifiers cfg)),
      buildAndRegisterWithDedupe store (fac_RedisPubSub fs) rps_Dedupe (nc_RedisPubSub (cf_Notifiers cfg))]"

fun buildJiraHandlers :: "'w DedupeStore option \<Rightarrow> (JiraInstance \<Rightarrow> 'w ActionHandler list result) \<Rightarrow> JiraInstance list \<Rightarrow>
    'w Registry \<Rightarrow> 'w Registry result" where
  "buildJiraHandlers store build [] reg = Inr reg"
| "buildJiraHandlers store build (i # is) reg =
     (if \<not> ji_Enabled i then buildJiraHandlers store build is reg
      else case build i of
        Inl e \<Rightarrow> Inl e
      | Inr hs \<Rightarrow> buildJiraHandlers store build is (register_all (map (wrap_dedupe store (ji_Dedupe i)) hs) reg))"

section \<open>The accumulator\<close>

text \<open>The provider that only writes to the log.\<close>

definition logOnlyProvider :: "'w ActionHandler" where
  "logOnlyProvider = \<lparr>hName = ''log-only-provider'', hProvider = ''log-only-provider'', hType = ''pr_comment'',
     hHandle = (\<lambda>ctx e w. (None, w)), hClose = (\<lambda>w. (None, w))\<rparr>"

text \<open>
  The accumulator as a handler among the others: its buffer is a part of the world they all act on, and
  its provider is one of them.
\<close>

definition in_world :: "('w \<Rightarrow> 'b) \<Rightarrow> ('b \<Rightarrow> 'w \<Rightarrow> 'w) \<Rightarrow> ('b \<times> 'w) ActionHandler \<Rightarrow> 'w ActionHandler" where
  "in_world get put h = \<lparr>hName = hName h, hProvider = hProvider h, hType = hType h,
     hHandle = (\<lambda>ctx e w. case hHandle h ctx e (get w, w) of (er, b, w') \<Rightarrow> (er, put b w')),
     hClose = (\<lambda>w. case hClose h (get w, w) of (er, b, w') \<Rightarrow> (er, put b w'))\<rparr>"

record ('b, 'w) AccEnv =
  aeGet :: "'w \<Rightarrow> 'b"
  aePut :: "'b \<Rightarrow> 'w \<Rightarrow> 'w"
  aeClock :: "'b \<times> 'w \<Rightarrow> Time"
  aeNewBuffer :: "int \<Rightarrow> int \<Rightarrow> 'b Buffer"
  aeCompile :: "string \<Rightarrow> summary_template result"

definition BuildAccumulator ::
  "('b, 'w) AccEnv \<Rightarrow> AccumulatorConfig \<Rightarrow> 'w Registry \<Rightarrow> 'b Buffer option \<Rightarrow> 'w ActionHandler option result" where
  "BuildAccumulator env cfg reg buf =
     (if \<not> acc_Enabled cfg then Inr None
      else
        (let ttl = (if acc_TTL cfg = 0 then 30 * nsPerSec else acc_TTL cfg);
             maxSize = (if acc_MaxSize cfg = 0 then 100 else acc_MaxSize cfg);
             provider = (case acc_Provider cfg of
                           None \<Rightarrow> Inr logOnlyProvider
                         | Some p \<Rightarrow>
                             (case Lookup reg (ap_Name p) of
                                None \<Rightarrow> Inl (Err (''accumulator: provider '' @ strconv_Quote (ap_Name p) @ '' not found in registry''))
                              | Some h \<Rightarrow> Inr h))
         in case provider of
              Inl e \<Rightarrow> Inl e
            | Inr h \<Rightarrow>
                (let b = (case buf of None \<Rightarrow> aeNewBuffer env ttl maxSize | Some b \<Rightarrow> b);
                     mk = (\<lambda>tmpl. in_world (aeGet env) (aePut env) (accumulator_handler (aeClock env)
                             \<lparr>acName = ''accumulator'', acBuffer = b, acProvider = h, acTemplate = tmpl\<rparr>))
                 in if acc_Template cfg = '''' then Inr (Some (mk None))
                    else (case aeCompile env (acc_Template cfg) of
                            Inl e \<Rightarrow> Inl (Wrap ''accumulator: compile template: '' e)
                          | Inr tmpl \<Rightarrow> Inr (Some (mk (Some tmpl)))))))"

section \<open>All handlers\<close>

definition register_accumulator ::
  "('b, 'w) AccEnv \<Rightarrow> AccumulatorConfig \<Rightarrow> 'b Buffer option \<Rightarrow> 'w Registry \<Rightarrow> 'w Registry result" where
  "register_accumulator env cfg buf reg =
     (if \<not> acc_Enabled cfg then Inr reg
      else case BuildAccumulator env cfg reg buf of
        Inl e \<Rightarrow> Inl (Wrap ''build accumulator: '' e)
      | Inr None \<Rightarrow> Inr reg
      | Inr (Some h) \<Rightarrow> Inr (Register reg h))"

text \<open>\<open>store\<close> is the deduplication behind \<^verbatim>\<open>currentDedupeStore\<close>, if the options give one.\<close>

definition BuildAll ::
  "('b, 'w) AccEnv \<Rightarrow> 'w Factories \<Rightarrow> 'w DedupeStore option \<Rightarrow> 'b Buffer option \<Rightarrow> Config \<Rightarrow> 'w Registry result" where
  "BuildAll env fs store buf cfg = in_turn
     [buildSCMHandlers fs cfg, buildNotifierHandlers store fs cfg, buildJiraHandlers store (fac_Jira fs) (cf_Jira cfg),
      register_accumulator env (cf_Accumulator cfg) buf] NewRegistry"

section \<open>What is registered\<close>

text \<open>
  The handlers of each instance, or the error of its factory, in the order in which the instances are
  built; Jira instances that are not enabled are passed over.
\<close>

definition guarded :: "'w DedupeStore option \<Rightarrow> bool \<Rightarrow> 'w ActionHandler list result \<Rightarrow> 'w ActionHandler list result" where
  "guarded store dedupe r = (case r of Inl e \<Rightarrow> Inl e | Inr hs \<Rightarrow> Inr (map (wrap_dedupe store dedupe) hs))"

definition built_scm :: "'w Factories \<Rightarrow> Config \<Rightarrow> 'w ActionHandler list result list" where
  "built_scm fs cfg =
     map (fac_GitHub fs) (scm_GitHub (cf_SCM cfg)) @
     map (fac_GitLab fs) (scm_GitLab (cf_SCM cfg)) @
     map (fac_Bitbucket fs) (scm_Bitbucket (cf_SCM cfg)) @
     map (fac_Azure fs) (scm_Azure (cf_SCM cfg)) @
     map (fac_Gitea fs) (scm_Gitea (cf_SCM cfg)) @
     map (fac_SourceHut fs) (scm_SourceHut (cf_SCM cfg))"

definition built_notifiers :: "'w DedupeStore option \<Rightarrow> 'w Factories \<Rightarrow> Config \<Rightarrow> 'w ActionHandler list result list" where
  "built_notifiers store fs cfg =
     map (\<lambda>i. guarded store (sla_Dedupe i) (fac_Slack fs i)) (nc_Slack (cf_Notifiers cfg)) @
     map (\<lambda>i. guarded store (tea_Dedupe i) (fac_Teams fs i)) (nc_Teams (cf_Notifiers cfg)) @
     map (\<lambda>i. guarded store (dis_Dedupe i) (fac_Discord fs i)) (nc_Discord (cf_Notifiers cfg)) @
     map (\<lambda>i. guarded store (pag_Dedupe i) (fac_PagerDuty fs i)) (nc_PagerDuty (cf_Notifiers cfg)) @
     map (\<lambda>i. guarded store (dat_Dedupe i) (fac_Datadog fs i)) (nc_Datadog (cf_Notifiers cfg)) @
     map (\<lambda>i. guarded store (wh_Dedupe i) (fac_Webhook fs i)) (nc_Webhook (cf_Notifiers cfg)) @
     map (\<lambda>i. guarded store (gra_Dedupe i) (fac_Grafana fs i)) (nc_Grafana (cf_Notifiers cfg)) @
     map (\<lambda>i. guarded store (sen_Dedupe i) (fac_Sentry fs i)) (nc_Sentry (cf_Notifiers cfg)) @
     map (\<lambda>i. guarded store (em_Dedupe i) (fac_Email fs i)) (nc_Email (cf_Notifiers cfg)) @
     map (\<lambda>i. guarded store (mat_Dedupe i) (fac_Mattermost fs i)) (nc_Mattermost (cf_Notifiers cfg)) @
     map (\<lambda>i. guarded store (tel_Dedupe i) (fac_Telegram fs i)) (nc_Telegram (cf_Notifiers cfg)) @
     map (\<lambda>i. guarded store (inc_Dedupe i) (fac_IncidentIO fs i)) (nc_IncidentIO (cf_Notifiers cfg)) @
     map (\<lambda>i. guarded store (nr_Dedupe i) (fac_NewRelic fs i)) (nc_NewRelic (cf_Notifiers cfg)) @
     map (\<lambda>i. guarded store (ops_Dedupe i) (fac_Opsgenie fs i)) (nc_Opsgenie (cf_Notifiers cfg)) @
     map (\<lambda>i. guarded store (hon_Dedupe i) (fac_Honeycomb fs i)) (nc_Honeycomb (cf_Notifiers cfg)) @
     map (\<lambda>i. guarded store (kaf_Dedupe i) (fac_Kafka fs i)) (nc_Kafka (cf_Notifiers cfg)) @
     map (\<lambda>i. guarded store (nat_Dedupe i) (fac_NATS fs i)) (nc_NATS (cf_Notifiers cfg)) @
     map (\<lambda>i. guarded store (rab_Dedupe i) (fac_RabbitMQ fs i)) (nc_RabbitMQ (cf_Notifiers cfg)) @
     map (\<lambda>i. guarded store (rps_Dedupe i) (fac_RedisPubSub fs i)) (nc_RedisPubSub (cf_Notifiers cfg))"

definition built_jira :: "'w DedupeStore option \<Rightarrow> 'w Factories \<Rightarrow> Config \<Rightarrow> 'w ActionHandler list result list" where
  "built_jira store fs cfg =
     map (\<lambda>i. guarded store (ji_Dedupe i) (fac_Jira fs i)) (filter ji_Enabled (cf_Jira cfg))"

text \<open>The handlers of all, or the first error.\<close>

fun all_built :: "'w ActionHandler list result list \<Rightarrow> 'w ActionHandler list result" where
  "all_built [] = Inr []"
| "all_built (r # rs) =
     (case r of Inl e \<Rightarrow> Inl e | Inr hs \<Rightarrow> (case all_built rs of Inl e \<Rightarrow> Inl e | Inr hs' \<Rightarrow> Inr (hs @ hs')))"

text \<open>A step that registers what was built.\<close>

definition registers :: "('w Registry \<Rightarrow> 'w Registry result) \<Rightarrow> 'w ActionHandler list result list \<Rightarrow> bool" where
  "registers f rs \<longleftrightarrow> (\<forall>reg. f reg = (case all_built rs of Inl e \<Rightarrow> Inl e | Inr hs \<Rightarrow> Inr (register_all hs reg)))"

lemma all_built_append:
  "all_built (xs @ ys) = (case all_built xs of Inl e \<Rightarrow> Inl e | Inr hs \<Rightarrow>
     (case all_built ys of Inl e \<Rightarrow> Inl e | Inr hs' \<Rightarrow> Inr (hs @ hs')))"
  by (induction xs) (auto split: sum.split)

lemma register_all_append: "register_all (xs @ ys) reg = register_all ys (register_all xs reg)"
  by (simp add: register_all_def)

lemma registers_BuildAndRegister: "registers (BuildAndRegister build is) (map build is)"
proof -
  have "BuildAndRegister build is reg = (case all_built (map build is) of Inl e \<Rightarrow> Inl e | Inr hs \<Rightarrow> Inr (register_all hs reg))" for reg
    by (induction "is" arbitrary: reg) (auto simp: register_all_append split: sum.split)
  then show ?thesis by (simp add: registers_def)
qed

lemma registers_WithDedupe:
  "registers (buildAndRegisterWithDedupe store build d is) (map (\<lambda>i. guarded store (d i) (build i)) is)"
proof -
  have "buildAndRegisterWithDedupe store build d is reg =
      (case all_built (map (\<lambda>i. guarded store (d i) (build i)) is) of Inl e \<Rightarrow> Inl e | Inr hs \<Rightarrow> Inr (register_all hs reg))" for reg
    by (induction "is" arbitrary: reg) (auto simp: guarded_def register_all_append split: sum.split)
  then show ?thesis by (simp add: registers_def)
qed

lemma registers_Jira:
  "registers (buildJiraHandlers store build is) (map (\<lambda>i. guarded store (ji_Dedupe i) (build i)) (filter ji_Enabled is))"
proof -
  have "buildJiraHandlers store build is reg =
      (case all_built (map (\<lambda>i. guarded store (ji_Dedupe i) (build i)) (filter ji_Enabled is)) of Inl e \<Rightarrow> Inl e | Inr hs \<Rightarrow> Inr (register_all hs reg))" for reg
    by (induction "is" arbitrary: reg) (auto simp: guarded_def register_all_append split: sum.split)
  then show ?thesis by (simp add: registers_def)
qed

lemma registers_Nil: "registers (in_turn []) []"
  by (simp add: registers_def)

lemma registers_Cons:
  "registers f rs \<Longrightarrow> registers (in_turn fs) rss \<Longrightarrow> registers (in_turn (f # fs)) (rs @ rss)"
  by (auto simp: registers_def all_built_append register_all_append split: sum.split)

lemmas registers_rules = registers_Cons registers_Nil registers_BuildAndRegister registers_WithDedupe

lemma registers_scm: "registers (buildSCMHandlers fs cfg) (built_scm fs cfg @ [])"
  unfolding buildSCMHandlers_def built_scm_def append_assoc by (intro registers_rules)

lemma registers_notifiers: "registers (buildNotifierHandlers store fs cfg) (built_notifiers store fs cfg @ [])"
  unfolding buildNotifierHandlers_def built_notifiers_def append_assoc by (intro registers_rules)

lemma BuildAll_eq:
  "BuildAll env fs store buf cfg =
     (case all_built (built_scm fs cfg @ built_notifiers store fs cfg @ built_jira store fs cfg) of
        Inl e \<Rightarrow> Inl e
      | Inr hs \<Rightarrow> register_accumulator env (cf_Accumulator cfg) buf (register_all hs NewRegistry))"
  using registers_scm [of fs cfg] registers_notifiers [of store fs cfg] registers_Jira [of store "fac_Jira fs" "cf_Jira cfg"]
  by (auto simp: BuildAll_def registers_def built_jira_def all_built_append register_all_append split: sum.split)

lemma handlers_New: "handlers NewRegistry = []" and handlers_Register: "handlers (Register r h) = handlers r @ [h]"
  by (simp_all add: NewRegistry_def Register_def)

lemma register_accumulator_Inr:
  assumes "register_accumulator env cfg buf reg = Inr reg'"
  shows "reg' = reg \<and> \<not> acc_Enabled cfg \<or>
    acc_Enabled cfg \<and> (\<exists>h. BuildAccumulator env cfg reg buf = Inr (Some h) \<and> reg' = Register reg h)"
proof (cases "acc_Enabled cfg")
  case True
  then have "BuildAccumulator env cfg reg buf \<noteq> Inr None"
    by (auto simp: BuildAccumulator_def Let_def split: sum.splits)
  with True assms show ?thesis by (auto simp: register_accumulator_def split: sum.splits option.splits)
qed (use assms in \<open>simp add: register_accumulator_def\<close>)

text \<open>
  The provider of the accumulator is the first handler that was registered under its name, whatever
  its type: of an instance with several actions, the first.
\<close>

lemma accumulator_provider_is_first:
  assumes "BuildAccumulator env cfg reg buf = Inr (Some acc)" and "acc_Provider cfg = Some p" and "registry_inv reg"
    and "acc_Template cfg = ''''"
  shows "\<exists>h b. List.find (\<lambda>h. hName h = ap_Name p) (All reg) = Some h \<and>
    acc = in_world (aeGet env) (aePut env) (accumulator_handler (aeClock env)
      \<lparr>acName = ''accumulator'', acBuffer = b, acProvider = h, acTemplate = None\<rparr>)"
  using assms by (auto simp: BuildAccumulator_def Let_def Lookup_first All_def split: sum.splits option.splits if_splits)

section \<open>Where secrets are looked for\<close>

lemma SplitByte_split: "SplitByte c (s @ c # t) = SplitByte c s @ SplitByte c t"
  by (induction s) (auto split: list.split simp: Cons_eq_append_conv)

lemma SplitByte_id: "c \<notin> set s \<Longrightarrow> SplitByte c s = [s]"
  by (induction s) auto

lemma Contains_byte: "c \<in> set s \<Longrightarrow> Contains s [c]"
  by (auto simp: in_set_conv_decomp Contains_iff)

text \<open>
  A path inferred for an instance has the instance as one segment that is not \<^verbatim>\<open>..\<close>; the key is taken as
  it is, so one with separators or \<^verbatim>\<open>..\<close> leads elsewhere.
\<close>

lemma InferPath_segments:
  assumes "InferPath '''' provider inst defaultKey customKey = Inr p"
  shows "SplitByte (CHR ''/'') p = ['''', ''etc'', ''secrets''] @ SplitByte (CHR ''/'') provider @ [inst] @
      SplitByte (CHR ''/'') (if customKey \<noteq> '''' then customKey else defaultKey)" and "inst \<noteq> ''..''"
proof -
  let ?key = "if customKey \<noteq> '''' then customKey else defaultKey"
  have san: "sanitizePath inst = None" and p: "p = BuildPath provider inst ?key"
    using assms by (auto simp: InferPath_def Let_def split: option.splits)
  then have "\<not> Contains inst ''/''" "\<not> Contains inst ''..''" by (auto simp: sanitizePath_def split: if_splits)
  moreover have "Contains ''..'' ''..''" by (simp add: Contains_def)
  ultimately have s: "SplitByte (CHR ''/'') inst = [inst]" and "inst \<noteq> ''..''"
    using Contains_byte [of "CHR ''/''" inst] by (blast intro: SplitByte_id)+
  then show "inst \<noteq> ''..''" by simp
  have e: "SplitByte (CHR ''/'') (''/etc/secrets/'' @ t) = ['''', ''etc'', ''secrets''] @ SplitByte (CHR ''/'') t" for t
    using SplitByte_split [of "CHR ''/''" "''/etc/secrets''" t] by simp
  show "SplitByte (CHR ''/'') p = ['''', ''etc'', ''secrets''] @ SplitByte (CHR ''/'') provider @ [inst] @ SplitByte (CHR ''/'') ?key"
    unfolding p BuildPath_def e
    using SplitByte_split [of "CHR ''/''" provider "inst @ ''/'' @ ?key"] SplitByte_split [of "CHR ''/''" inst ?key] s by simp
qed

lemma InferPath_key_unchecked:
  "InferPath '''' ''slack'' ''prod'' ''token'' ''../../github/prod/token'' = Inr ''/etc/secrets/slack/prod/../../github/prod/token''"
  by (simp add: InferPath_def sanitizePath_def BuildPath_def Contains_def)

section \<open>Properties\<close>

text \<open>
  The registry holds exactly what was configured: when all factories succeed, the handlers in the registry are
  those of the SCM instances, then of the notifiers, then of the enabled Jira instances, each kind in
  its order and each notifier or Jira handler guarded when its instance asks for it, with the
  accumulator last when it is enabled; the indexes agree with that list, a lookup finds the first
  handler of a name, and if a factory fails so does the whole, with the first error.
\<close>

theorem BuildAll_collects:
  "case all_built (built_scm fs cfg @ built_notifiers store fs cfg @ built_jira store fs cfg) of
      Inl e \<Rightarrow> BuildAll env fs store buf cfg = Inl e
    | Inr hs \<Rightarrow> \<forall>reg. BuildAll env fs store buf cfg = Inr reg \<longrightarrow>
        (\<exists>acc. All reg = hs @ acc \<and> length acc = (if acc_Enabled (cf_Accumulator cfg) then 1 else 0)) \<and>
        (\<forall>n. FindByName reg n = filter (\<lambda>h. hName h = n) (All reg) \<and> Lookup reg n = List.find (\<lambda>h. hName h = n) (All reg)) \<and>
        (\<forall>t. FindByType reg t = filter (\<lambda>h. hType h = t) (All reg))"
proof (cases "all_built (built_scm fs cfg @ built_notifiers store fs cfg @ built_jira store fs cfg)")
  case (Inl e)
  then show ?thesis by (simp add: BuildAll_eq)
next
  case (Inr hs)
  have inv: "registry_inv (register_all hs NewRegistry)" by (intro registry_inv_register_all registry_inv_New)
  show ?thesis
    unfolding Inr sum.case
  proof (intro allI impI)
    fix reg assume "BuildAll env fs store buf cfg = Inr reg"
    then have "register_accumulator env (cf_Accumulator cfg) buf (register_all hs NewRegistry) = Inr reg"
      using Inr by (simp add: BuildAll_eq)
    from register_accumulator_Inr [OF this]
    have "(\<exists>acc. All reg = hs @ acc \<and> length acc = (if acc_Enabled (cf_Accumulator cfg) then 1 else 0)) \<and> registry_inv reg"
      using inv by (auto simp: All_def handlers_register_all handlers_New handlers_Register registry_inv_Register)
    then show "(\<exists>acc. All reg = hs @ acc \<and> length acc = (if acc_Enabled (cf_Accumulator cfg) then 1 else 0)) \<and>
        (\<forall>n. FindByName reg n = filter (\<lambda>h. hName h = n) (All reg) \<and> Lookup reg n = List.find (\<lambda>h. hName h = n) (All reg)) \<and>
        (\<forall>t. FindByType reg t = filter (\<lambda>h. hType h = t) (All reg))"
      by (auto simp: Lookup_first All_def FindByName_def FindByType_def registry_inv_def)
  qed
qed

text \<open>Factories that build one handler for a Telegram instance and none for the others.\<close>

definition telegram_handler :: "TelegramInstance \<Rightarrow> 'w ActionHandler" where
  "telegram_handler i = \<lparr>hName = tel_Name i, hProvider = ''telegram'', hType = ActionNotify, hHandle = (\<lambda>ctx e w. (None, w)),
     hClose = (\<lambda>w. (None, w))\<rparr>"

definition demo_factories :: "'w Factories" where
  "demo_factories = \<lparr>fac_GitHub = \<lambda>_. Inr [], fac_GitLab = \<lambda>_. Inr [], fac_Bitbucket = \<lambda>_. Inr [], fac_Azure = \<lambda>_. Inr [],
     fac_Gitea = \<lambda>_. Inr [], fac_SourceHut = \<lambda>_. Inr [], fac_Slack = \<lambda>_. Inr [], fac_Teams = \<lambda>_. Inr [],
     fac_Discord = \<lambda>_. Inr [], fac_PagerDuty = \<lambda>_. Inr [], fac_Datadog = \<lambda>_. Inr [], fac_Webhook = \<lambda>_. Inr [],
     fac_Grafana = \<lambda>_. Inr [], fac_Sentry = \<lambda>_. Inr [], fac_Email = \<lambda>_. Inr [], fac_Mattermost = \<lambda>_. Inr [],
     fac_Telegram = \<lambda>i. Inr [telegram_handler i], fac_IncidentIO = \<lambda>_. Inr [], fac_NewRelic = \<lambda>_. Inr [], fac_Opsgenie =
     \<lambda>_. Inr [], fac_Honeycomb = \<lambda>_. Inr [], fac_Kafka = \<lambda>_. Inr [], fac_NATS = \<lambda>_. Inr [], fac_RabbitMQ =
     \<lambda>_. Inr [], fac_RedisPubSub = \<lambda>_. Inr [], fac_Jira = \<lambda>_. Inr []\<rparr>"

lemma demo_built:
  "all_built (built_scm demo_factories demo_Config @ built_notifiers None demo_factories demo_Config @
     built_jira None demo_factories demo_Config) = Inr [telegram_handler demo_telegram]"
  by (simp add: built_scm_def built_notifiers_def built_jira_def demo_factories_def demo_Config_def zero_Config_def guarded_def
      wrap_dedupe_def)

theorem BuildAll_collects_witness:
  "\<forall>env :: ('b, 'w) AccEnv. \<exists>reg. BuildAll env demo_factories None None demo_Config = Inr reg \<and>
     All reg = [telegram_handler demo_telegram] \<and> Lookup reg ''ops'' = Some (telegram_handler demo_telegram)"
proof
  fix env :: "('b, 'w) AccEnv"
  have off: "\<not> acc_Enabled (cf_Accumulator demo_Config)" by (simp add: demo_Config_def zero_Config_def)
  then obtain reg where reg: "BuildAll env demo_factories None None demo_Config = Inr reg"
    by (simp add: BuildAll_eq demo_built register_accumulator_def)
  with BuildAll_collects [where fs = demo_factories and cfg = demo_Config and store = None and env = env and buf = None] off
  have "All reg = [telegram_handler demo_telegram] \<and>
      Lookup reg ''ops'' = List.find (\<lambda>h. hName h = ''ops'') [telegram_handler demo_telegram]"
    by (simp add: demo_built)
  with reg show "\<exists>reg. BuildAll env demo_factories None None demo_Config = Inr reg \<and>
     All reg = [telegram_handler demo_telegram] \<and> Lookup reg ''ops'' = Some (telegram_handler demo_telegram)"
    by (simp add: telegram_handler_def demo_telegram_def)
qed

end
