(* ===== verification/Relay_Server.thy ===== *)
theory Relay_Server
  imports Relay_HTTP Relay_Factory
begin

text \<open>
  The HTTP server (\<^verbatim>\<open>internal/http/server.go\<close>): the probes, the middleware stacks that \<^verbatim>\<open>BuildServer\<close> puts
  around the endpoints, and the routes. The remaining middleware of \<^verbatim>\<open>internal/http/middleware\<close> (panic
  recovery, body limit, request logging) and the event counter of \<^verbatim>\<open>internal/metrics\<close> are here too.

  The token bucket, the digest function, the CloudEvents parser and the file system are arguments.
  Requests reach the routes with their whole body; only the body limit cuts it.
\<close>

section \<open>Requests and answers\<close>

text \<open>
  What accompanies a request: its path and query, whether reading past the body fails, the clock and
  the random bytes for a request identifier. An answer without a status is a panic.
\<close>

record Arrival =
  Path :: string
  Query :: "(string, string) gomap"
  ReadFails :: bool
  Clock :: Time
  RandomID :: "string option"

record ready_body =
  rbStatus :: string
  rbReason :: "string option"
  rbHandlers :: "(string, HandlerStatus) gomap option"
  rbDegraded :: "(string, rat) gomap option"
  rbStore :: "(string \<times> string) option"

datatype body = Plain | Redirected string | MetricsText | ReadyBody ready_body | ListBody list_page
  | ReplayBody dlqReplayResult | StatsBody "dlqAnalytics \<times> (string \<times> nat) list"

record reply =
  rpStatus :: http_status
  rpHeader :: "(string, string) gomap"
  rpBody :: body

definition plain :: "http_status \<Rightarrow> reply" where
  "plain c = \<lparr>rpStatus = c, rpHeader = [], rpBody = Plain\<rparr>"

type_synonym 's Handler = "Arrival \<Rightarrow> Request \<Rightarrow> 's \<Rightarrow> reply \<times> 's"

text \<open>
  The state the endpoints share: the pipeline and the queue, the tables of the two rate limiters, and
  what the request log has recorded.
\<close>

datatype access = Started string | Completed string string int

record ('w, 'q, 'l) HttpServer =
  hsServer :: "('w, 'q) Server"
  hsEvents :: "'l RateLimiter"
  hsReplay :: "'l RateLimiter"
  hsLog :: "access list"

section \<open>Middleware\<close>

definition PanicRecovery :: "'s Handler \<Rightarrow> 's Handler" where
  "PanicRecovery next a r s =
     (case next a r s of (rp, s') \<Rightarrow>
        (if rpStatus rp = None then (rp\<lparr>rpStatus := Some 500, rpBody := Plain\<rparr>, s') else (rp, s')))"

text \<open>\<^verbatim>\<open>http.MaxBytesReader\<close>: a negative limit is 0, and reading beyond the limit fails.\<close>

definition BodyLimitMiddleware :: "int \<Rightarrow> 's Handler \<Rightarrow> 's Handler" where
  "BodyLimitMiddleware maxBytes next a r s =
     (let n = nat maxBytes in
      if length (Body r) \<le> n then next a r s else next (a\<lparr>ReadFails := True\<rparr>) (r\<lparr>Body := take n (Body r)\<rparr>) s)"

text \<open>The argument \<open>stamp\<close> formats the clock when there are no random bytes.\<close>

definition generateRequestID :: "(Time \<Rightarrow> string) \<Rightarrow> Arrival \<Rightarrow> string" where
  "generateRequestID stamp a =
     (case RandomID a of None \<Rightarrow> ''req_'' @ stamp (Clock a) | Some b \<Rightarrow> ''req_'' @ EncodeToString b)"

definition log_level :: "int \<Rightarrow> string" where
  "log_level code = (if code \<ge> 500 then ''error'' else if code \<ge> 400 then ''warn'' else ''info'')"

definition log_access :: "access \<Rightarrow> ('w, 'q, 'l) HttpServer \<Rightarrow> ('w, 'q, 'l) HttpServer" where
  "log_access x s = s\<lparr>hsLog := hsLog s @ [x]\<rparr>"

text \<open>A panic passes through without a record of the completion; the header is set by then.\<close>

definition RequestLogging ::
  "(Time \<Rightarrow> string) \<Rightarrow> ('w, 'q, 'l) HttpServer Handler \<Rightarrow> ('w, 'q, 'l) HttpServer Handler" where
  "RequestLogging stamp next a r s =
     (let given = header r ''X-Request-Id'';
          i = (if given = '''' then generateRequestID stamp a else given)
      in case next a r (log_access (Started i) s) of (rp, s') \<Rightarrow>
           (rp\<lparr>rpHeader := AList.update ''X-Request-Id'' i (rpHeader rp)\<rparr>,
            (case rpStatus rp of None \<Rightarrow> s' | Some c \<Rightarrow> log_access (Completed i (log_level c) c) s')))"

definition count_received :: "('w, 'q, 'l) HttpServer Handler \<Rightarrow> ('w, 'q, 'l) HttpServer Handler" where
  "count_received next a r s =
     next a r (s\<lparr>hsServer := scount [''EventsReceived'', header r ''Ce-Type'', header r ''Ce-Source''] (hsServer s)\<rparr>)"

text \<open>The answers with which \<^verbatim>\<open>AuthMiddleware\<close> and \<^verbatim>\<open>RateLimiter.Middleware\<close> refuse.\<close>

definition refusal :: "int \<Rightarrow> reply" where
  "refusal c = \<lparr>rpStatus = Some c, rpHeader = (if c = 429 then [(''Retry-After'', ''1'')] else []), rpBody = Plain\<rparr>"

type_synonym 's auth_mw =
  "Time \<Rightarrow> (Request \<Rightarrow> ('s \<Rightarrow> reply \<times> 's) response) \<Rightarrow> Request \<Rightarrow> ('s \<Rightarrow> reply \<times> 's) response"

definition with_auth :: "'s auth_mw \<Rightarrow> 's Handler \<Rightarrow> 's Handler" where
  "with_auth mw next a r s =
     (case mw (Clock a) (\<lambda>r'. Served (next a r')) r of Refused c \<Rightarrow> (refusal c, s) | Served f \<Rightarrow> f s)"

definition with_limiter ::
  "'l limiter_ops \<Rightarrow> ('s \<Rightarrow> 'l RateLimiter) \<Rightarrow> ('l RateLimiter \<Rightarrow> 's \<Rightarrow> 's) \<Rightarrow> 's Handler \<Rightarrow> 's Handler" where
  "with_limiter ops get put next a r s =
     (case RateLimit_Middleware ops (Clock a) (\<lambda>r'. Served (next a r')) r (get s) of
        (Refused c, rl) \<Rightarrow> (refusal c, put rl s)
      | (Served f, rl) \<Rightarrow> f (put rl s))"

section \<open>Probes\<close>

record 's store_health =
  shBackend :: string
  shPing :: "'s \<Rightarrow> err option"

record 's healthHandler =
  hhChecks :: "('s \<Rightarrow> err option) list"
  hhStatus :: "'s \<Rightarrow> StatusTracker option"
  hhStore :: "'s store_health option"

definition addCheck :: "('s \<Rightarrow> err option) \<Rightarrow> 's healthHandler \<Rightarrow> 's healthHandler" where
  "addCheck f h = h\<lparr>hhChecks := hhChecks h @ [f]\<rparr>"

definition liveEndpoint :: "'s healthHandler \<Rightarrow> 's Handler" where
  "liveEndpoint h a r s = (plain (Some 200), s)"

text \<open>The loop over the checks stops at the first that fails.\<close>

fun first_failure :: "('s \<Rightarrow> err option) list \<Rightarrow> 's \<Rightarrow> err option" where
  "first_failure [] s = None"
| "first_failure (f # fs) s = (case f s of Some e \<Rightarrow> Some e | None \<Rightarrow> first_failure fs s)"

definition ready_report :: "'s healthHandler \<Rightarrow> 's \<Rightarrow> ready_body" where
  "ready_report h s =
     \<lparr>rbStatus = (case first_failure (hhChecks h) s of None \<Rightarrow> ''ok'' | Some _ \<Rightarrow> ''unavailable''),
      rbReason = map_option error_text (first_failure (hhChecks h) s),
      rbHandlers = (case hhStatus h s of None \<Rightarrow> None | Some t \<Rightarrow> Some (Snapshot (Some t))),
      rbDegraded = (case hhStatus h s of None \<Rightarrow> None | Some t \<Rightarrow> DegradedHandlers (Some t)),
      rbStore = (case hhStore h of None \<Rightarrow> None
                 | Some st \<Rightarrow> Some ((if shPing st s = None then ''healthy'' else ''degraded''), shBackend st))\<rparr>"

definition readyEndpoint :: "'s healthHandler \<Rightarrow> 's Handler" where
  "readyEndpoint h a r s =
     (\<lparr>rpStatus = Some (if first_failure (hhChecks h) s = None then 200 else 503),
       rpHeader = [(''Content-Type'', ''application/json'')], rpBody = ReadyBody (ready_report h s)\<rparr>, s)"

definition buildHealthHandler ::
  "('s \<Rightarrow> string list) \<Rightarrow> ('s \<Rightarrow> string list) \<Rightarrow> ('s \<Rightarrow> StatusTracker option) \<Rightarrow> 's store_health option \<Rightarrow> 's healthHandler" where
  "buildHealthHandler regNames decNames status st =
     addCheck (\<lambda>s. if length (decNames s) = 0 then Some (Err ''no decoders registered'') else None)
       (addCheck (\<lambda>s. if length (regNames s) = 0 then Some (Err ''no handlers registered'') else None)
         \<lparr>hhChecks = [], hhStatus = status, hhStore = st\<rparr>)"

definition metricsEndpoint :: "'s Handler" where
  "metricsEndpoint a r s = (\<lparr>rpStatus = Some 200, rpHeader = [], rpBody = MetricsText\<rparr>, s)"

section \<open>Routes\<close>

text \<open>\<^verbatim>\<open>path.Clean\<close> of a rooted path, and \<^verbatim>\<open>cleanPath\<close> of \<^verbatim>\<open>net/http\<close>.\<close>

fun clean_elems :: "string list \<Rightarrow> string list \<Rightarrow> string list" where
  "clean_elems acc [] = rev acc"
| "clean_elems acc (e # es) =
     (if e = '''' \<or> e = ''.'' then clean_elems acc es
      else if e = ''..'' then clean_elems (tl acc) es
      else clean_elems (e # acc) es)"

definition path_Clean :: "string \<Rightarrow> string" where
  "path_Clean p =
     (case clean_elems [] (SplitByte (CHR ''/'') p) of [] \<Rightarrow> ''/'' | es \<Rightarrow> concat (map (\<lambda>e. CHR ''/'' # e) es))"

definition cleanPath :: "string \<Rightarrow> string" where
  "cleanPath p0 =
     (if p0 = '''' then ''/''
      else
        (let p = (if hd p0 \<noteq> CHR ''/'' then CHR ''/'' # p0 else p0);
             np = path_Clean p
         in if last p = CHR ''/'' \<and> np \<noteq> ''/'' then np @ ''/'' else np))"

text \<open>
  \<^verbatim>\<open>http.ServeMux\<close>: a path that is not clean is redirected (with the status \<open>redirect\<close>, which depends on
  the version of Go), a pattern matches its own path, and the pattern of the root every path.
\<close>

definition mux_serve :: "int \<Rightarrow> (string \<times> 's Handler) list \<Rightarrow> 's Handler" where
  "mux_serve redirect routes a r s =
     (let p = (if Method r = ''CONNECT'' then Path a else cleanPath (Path a)) in
      if p \<noteq> Path a then (\<lparr>rpStatus = Some redirect, rpHeader = [], rpBody = Redirected p\<rparr>, s)
      else case map_of routes p of
        Some h \<Rightarrow> h a r s
      | None \<Rightarrow> (case map_of routes ''/'' of Some h \<Rightarrow> h a r s | None \<Rightarrow> (plain (Some 404), s)))"

section \<open>The servers\<close>

definition BuildMetricsServer :: "int \<Rightarrow> 's store_health option \<Rightarrow> 's Handler" where
  "BuildMetricsServer redirect st =
     (let health = \<lparr>hhChecks = [], hhStatus = \<lambda>s. None, hhStore = st\<rparr>
      in mux_serve redirect [(''/metrics'', metricsEndpoint), (''/readyz'', readyEndpoint health), (''/healthz'', liveEndpoint health)])"

text \<open>
  What \<^verbatim>\<open>BuildServer\<close> is given besides the configuration. The names of the handlers depend on the state
  because the registry is replaced on a reload. \<open>seBucket\<close> makes the token buckets of a rate and a burst,
  \<open>seFromRequest\<close> is the parser of CloudEvents, told whether the reader of the body fails.
\<close>

record ('w, 'q, 'l) ServerEnv =
  seDecoders :: DecoderRegistry
  seChain :: "'w HandleFn"
  seNames :: "('w, 'q, 'l) HttpServer \<Rightarrow> string list"
  seQueue :: "'q QueueOps option"
  seStore :: "('w, 'q, 'l) HttpServer store_health option"
  seFiles :: FileReader
  seHmac :: "string \<Rightarrow> string \<Rightarrow> string"
  seFromRequest :: "bool \<Rightarrow> Request \<Rightarrow> RawEvent result"
  seBucket :: "go_float \<Rightarrow> int \<Rightarrow> 'l limiter_ops"
  seStamp :: "Time \<Rightarrow> string"
  seFloat :: "string \<Rightarrow> string"
  seOrder :: "DeadEvent list \<Rightarrow> DeadEvent list"
  seIter :: "(string, nat) gomap \<Rightarrow> (string, nat) gomap"
  seRedirect :: int

definition events_endpoint :: "('w, 'q, 'l) ServerEnv \<Rightarrow> ('w, 'q, 'l) HttpServer Handler" where
  "events_endpoint env a r s =
     (case CloudEventsHandler (seFromRequest env (ReadFails a)) (seDecoders env) (seChain env) (seQueue env) (Clock a) r
             (hsServer s) of
        (c, sv) \<Rightarrow> (plain c, s\<lparr>hsServer := sv\<rparr>))"

definition json_reply :: "int \<Rightarrow> body \<Rightarrow> reply" where
  "json_reply c b = \<lparr>rpStatus = Some c, rpHeader = [(''Content-Type'', ''application/json'')], rpBody = b\<rparr>"

definition list_endpoint :: "'q QueueOps \<Rightarrow> ('w, 'q, 'l) HttpServer Handler" where
  "list_endpoint ops a r s =
     ((case dlqListHandler ops (Method r) (gomap_str (Query a) ''limit'') (gomap_str (Query a) ''offset'')
              (DeadLetters (hsServer s)) of
         MethodNotAllowed \<Rightarrow> plain (Some 405)
       | ListUnavailable \<Rightarrow> plain (Some 500)
       | ListPanic \<Rightarrow> plain None
       | ListPage p \<Rightarrow> json_reply 200 (ListBody p)), s)"

definition replay_endpoint :: "('w, 'q, 'l) ServerEnv \<Rightarrow> 'q QueueOps \<Rightarrow> ('w, 'q, 'l) HttpServer Handler" where
  "replay_endpoint env ops a r s =
     (case dlqReplayHandler ops (seChain env) (seFloat env) (seOrder env) (Method r) (Body r) (hsServer s) of
        (ans, sv) \<Rightarrow>
          ((case ans of
              ReplayMethodNotAllowed \<Rightarrow> plain (Some 405)
            | ReplayBadRequest \<Rightarrow> plain (Some 400)
            | ReplayUnavailable \<Rightarrow> plain (Some 500)
            | ReplayRemoveError \<Rightarrow> json_reply 500 Plain
            | ReplayDone res \<Rightarrow> json_reply 200 (ReplayBody res)), s\<lparr>hsServer := sv\<rparr>))"

definition analytics_endpoint :: "('w, 'q, 'l) ServerEnv \<Rightarrow> 'q QueueOps \<Rightarrow> ('w, 'q, 'l) HttpServer Handler" where
  "analytics_endpoint env ops a r s =
     ((case dlqAnalyticsHandler ops (seIter env) (Method r) (Clock a) (DeadLetters (hsServer s)) of
         Inl c \<Rightarrow> plain (Some c)
       | Inr x \<Rightarrow> json_reply 200 (StatsBody x)), s)"

definition dlqReplayRPS :: go_float where "dlqReplayRPS = Finite 10"
definition dlqReplayBurst :: int where "dlqReplayBurst = 20"

text \<open>The authentication shared by the events endpoint and the endpoints of the queue, when it is on.\<close>

definition server_auth ::
  "('w, 'q, 'l) ServerEnv \<Rightarrow> ServerAuthConfig \<Rightarrow> ('w, 'q, 'l) HttpServer auth_mw option result" where
  "server_auth env sa =
     (if \<not> sa_Enabled sa then Inr None
      else case ResolveWithReader (seFiles env) (sa_SecretFile sa) of
        Inl e \<Rightarrow> Inl (Wrap ''resolve auth secret: '' e)
      | Inr secret \<Rightarrow>
          (case AuthMiddleware (seHmac env) \<lparr>AuthTypeOf = sa_Type sa, Secret = secret, ValidateTimestamp = sa_ValidateTimestamp sa,
                  TimestampTolerance = sa_TimestampTolerance sa\<rparr> of
             Inl e \<Rightarrow> Inl (Wrap ''build auth middleware: '' e)
           | Inr mw \<Rightarrow> Inr (Some mw)))"

definition auth_guarded :: "'s auth_mw option \<Rightarrow> 's Handler \<Rightarrow> 's Handler" where
  "auth_guarded mw h = (case mw of None \<Rightarrow> h | Some m \<Rightarrow> with_auth m h)"

definition dlq_routes ::
  "('w, 'q, 'l) ServerEnv \<Rightarrow> ('w, 'q, 'l) HttpServer auth_mw option \<Rightarrow>
   (string \<times> ('w, 'q, 'l) HttpServer Handler) list" where
  "dlq_routes env mw =
     (case seQueue env of
        None \<Rightarrow> []
      | Some ops \<Rightarrow>
          [(''/api/v1/dlq'', auth_guarded mw (PanicRecovery (list_endpoint ops))),
           (''/api/v1/dlq/replay'', auth_guarded mw
              (with_limiter (seBucket env dlqReplayRPS dlqReplayBurst) hsReplay (\<lambda>rl. hsReplay_update (\<lambda>_. rl))
                (PanicRecovery (replay_endpoint env ops)))),
           (''/api/v1/dlq/analytics'', auth_guarded mw (PanicRecovery (analytics_endpoint env ops)))])"

definition max_body :: "ServerConfig \<Rightarrow> int" where
  "max_body c = (if srv_MaxBodySize c = 0 then DefaultMaxBodySize else srv_MaxBodySize c)"

definition rate_limited ::
  "('w, 'q, 'l) ServerEnv \<Rightarrow> RateLimitConfig \<Rightarrow> ('w, 'q, 'l) HttpServer Handler \<Rightarrow> ('w, 'q, 'l) HttpServer Handler" where
  "rate_limited env rl h =
     (if \<not> rl_Enabled rl then h
      else
        (let rps = (if flt_eq (rl_RequestsPerSecond rl) (Finite 0) then DefaultRateLimitRPS else rl_RequestsPerSecond rl);
             burst = (if rl_Burst rl = 0 then DefaultRateLimitBurst else rl_Burst rl)
         in with_limiter (seBucket env rps burst) hsEvents (\<lambda>x. hsEvents_update (\<lambda>_. x)) h))"

definition events_route ::
  "('w, 'q, 'l) ServerEnv \<Rightarrow> ServerConfig \<Rightarrow> ('w, 'q, 'l) HttpServer auth_mw option \<Rightarrow> ('w, 'q, 'l) HttpServer Handler" where
  "events_route env c mw =
     count_received (auth_guarded mw (rate_limited env (srv_RateLimit c) (PanicRecovery (BodyLimitMiddleware (max_body c)
       (RequestLogging (seStamp env) (events_endpoint env))))))"

definition BuildServer :: "('w, 'q, 'l) ServerEnv \<Rightarrow> ServerConfig \<Rightarrow> ('w, 'q, 'l) HttpServer Handler result" where
  "BuildServer env c =
     (let health = buildHealthHandler (seNames env) (\<lambda>_. DecoderNames (seDecoders env))
                     (\<lambda>s. Relay.Status (Pipe (hsServer s))) (seStore env)
      in case server_auth env (srv_Auth c) of
           Inl e \<Rightarrow> Inl e
         | Inr mw \<Rightarrow> Inr (mux_serve (seRedirect env)
             ([(''/readyz'', readyEndpoint health), (''/healthz'', liveEndpoint health), (''/metrics'', metricsEndpoint)]
              @ dlq_routes env mw @ [(''/'', events_route env c mw)])))"

section \<open>Who may pass\<close>

text \<open>The request passes the authentication of the configuration with this secret.\<close>

definition authentic :: "('w, 'q, 'l) ServerEnv \<Rightarrow> ServerAuthConfig \<Rightarrow> string \<Rightarrow> Time \<Rightarrow> Request \<Rightarrow> bool" where
  "authentic env sa secret now r \<longleftrightarrow>
     (sa_ValidateTimestamp sa \<longrightarrow> timestampFresh now r
        (if sa_TimestampTolerance sa \<le> 0 then DefaultTimestampTolerance else sa_TimestampTolerance sa)) \<and>
     (if sa_Type sa = ''hmac-sha256'' then validateHMAC (seHmac env) r secret else validateBearer r secret)"

lemma server_auth_off: "\<not> sa_Enabled sa \<Longrightarrow> server_auth env sa = Inr None"
  by (simp add: server_auth_def)

lemma server_auth_on:
  assumes "sa_Enabled sa" and "server_auth env sa = Inr mw"
  obtains secret m where "mw = Some m" and "ResolveWithReader (seFiles env) (sa_SecretFile sa) = Inr secret"
    and "sa_Type sa \<in> {''hmac-sha256'', ''bearer''}"
    and "\<And>now next r. m now next r = (if authentic env sa secret now r then next r else Refused 401)"
proof -
  from assms obtain secret m where sec: "ResolveWithReader (seFiles env) (sa_SecretFile sa) = Inr secret"
    and m: "AuthMiddleware (seHmac env) \<lparr>AuthTypeOf = sa_Type sa, Secret = secret,
        ValidateTimestamp = sa_ValidateTimestamp sa, TimestampTolerance = sa_TimestampTolerance sa\<rparr> = Inr m"
    and mw: "mw = Some m"
    by (auto simp: server_auth_def split: sum.splits)
  have t: "sa_Type sa \<in> {''hmac-sha256'', ''bearer''}"
    using m by (auto simp: AuthMiddleware_def Let_def split: if_splits)
  have "m now nx r = (if authentic env sa secret now r then nx r else Refused 401)" for now nx r
    using m t by (auto simp: AuthMiddleware_def Let_def authentic_def split: if_splits)
  with mw sec t show thesis by (rule that)
qed

text \<open>A handler behind the shared authentication.\<close>

lemma guarded_refuses:
  assumes "sa_Enabled sa" and "server_auth env sa = Inr mw"
    and "ResolveWithReader (seFiles env) (sa_SecretFile sa) = Inr secret" and "\<not> authentic env sa secret (Clock a) r"
  shows "auth_guarded mw h a r s = (refusal 401, s)"
proof -
  from server_auth_on [OF assms(1,2)] assms(3) obtain m where "mw = Some m"
    and "\<And>now next r. m now next r = (if authentic env sa secret now r then next r else Refused 401)"
    by (metis Inr_inject)
  with assms(4) show ?thesis by (simp add: auth_guarded_def with_auth_def)
qed

lemma guarded_passes:
  assumes "server_auth env sa = Inr mw"
    and "sa_Enabled sa \<Longrightarrow> ResolveWithReader (seFiles env) (sa_SecretFile sa) = Inr secret \<and>
      authentic env sa secret (Clock a) r"
  shows "auth_guarded mw h a r s = h a r s"
proof (cases "sa_Enabled sa")
  case True
  from server_auth_on [OF True assms(1)] assms(2) [OF True] obtain m where "mw = Some m"
    and "\<And>now next r. m now next r = (if authentic env sa secret now r then next r else Refused 401)"
    by (metis Inr_inject)
  with assms(2) [OF True] show ?thesis by (simp add: auth_guarded_def with_auth_def)
next
  case False
  with assms(1) show ?thesis by (simp add: server_auth_off auth_guarded_def)
qed

text \<open>The endpoints that are open to everyone, and the path a request is routed by.\<close>

definition probe_paths :: "string list" where
  "probe_paths = [''/readyz'', ''/healthz'', ''/metrics'']"

definition route_path :: "Arrival \<Rightarrow> Request \<Rightarrow> string" where
  "route_path a r = (if Method r = ''CONNECT'' then Path a else cleanPath (Path a))"

lemma BuildServer_serves:
  assumes "BuildServer env c = Inr srv"
  obtains mw where "server_auth env (srv_Auth c) = Inr mw"
    and "\<And>a r s. route_path a r \<noteq> Path a \<Longrightarrow>
      srv a r s = (\<lparr>rpStatus = Some (seRedirect env), rpHeader = [], rpBody = Redirected (route_path a r)\<rparr>, s)"
    and "\<And>a r s. route_path a r = Path a \<Longrightarrow> Path a \<notin> set probe_paths \<Longrightarrow>
      srv a r s = (case map_of (dlq_routes env mw) (Path a) of Some h \<Rightarrow> h a r s | None \<Rightarrow> events_route env c mw a r s)"
    and "\<And>a r s. route_path a r = Path a \<Longrightarrow> Path a \<in> set probe_paths \<Longrightarrow>
      snd (srv a r s) = s \<and> (Path a = ''/readyz'' \<longrightarrow> srv a r s = readyEndpoint (buildHealthHandler (seNames env)
        (\<lambda>_. DecoderNames (seDecoders env)) (\<lambda>s. Relay.Status (Pipe (hsServer s))) (seStore env)) a r s) \<and>
        (Path a \<noteq> ''/readyz'' \<longrightarrow> rpStatus (fst (srv a r s)) = Some 200)"
proof -
  define health where "health = buildHealthHandler (seNames env)
    (\<lambda>_. DecoderNames (seDecoders env)) (\<lambda>s. Relay.Status (Pipe (hsServer s))) (seStore env)"
  from assms obtain mw where mw: "server_auth env (srv_Auth c) = Inr mw"
    and srv: "srv = mux_serve (seRedirect env)
      ([(''/readyz'', readyEndpoint health), (''/healthz'', liveEndpoint health), (''/metrics'', metricsEndpoint)]
        @ dlq_routes env mw @ [(''/'', events_route env c mw)])"
    by (auto simp: BuildServer_def Let_def health_def split: sum.splits)
  have dlq: "map_of (dlq_routes env mw) p = None" if "p = ''/''" for p
    using that by (simp add: dlq_routes_def split: option.split)
  show thesis
  proof (rule that [OF mw])
    fix a r s
    show "srv a r s = (\<lparr>rpStatus = Some (seRedirect env), rpHeader = [], rpBody = Redirected (route_path a r)\<rparr>, s)"
      if "route_path a r \<noteq> Path a"
      using that by (simp add: srv mux_serve_def Let_def route_path_def split: if_splits)
    show "srv a r s = (case map_of (dlq_routes env mw) (Path a) of Some h \<Rightarrow> h a r s | None \<Rightarrow> events_route env c mw a r s)"
      if "route_path a r = Path a" and "Path a \<notin> set probe_paths"
      using that by (simp add: srv mux_serve_def Let_def route_path_def [symmetric] probe_paths_def dlq map_add_def
          split: option.split)
    show "snd (srv a r s) = s \<and> (Path a = ''/readyz'' \<longrightarrow> srv a r s = readyEndpoint (buildHealthHandler (seNames env)
        (\<lambda>_. DecoderNames (seDecoders env)) (\<lambda>s. Relay.Status (Pipe (hsServer s))) (seStore env)) a r s) \<and>
        (Path a \<noteq> ''/readyz'' \<longrightarrow> rpStatus (fst (srv a r s)) = Some 200)"
      if "route_path a r = Path a" and "Path a \<in> set probe_paths"
      using that by (auto simp: srv mux_serve_def Let_def route_path_def [symmetric] probe_paths_def health_def
          readyEndpoint_def liveEndpoint_def metricsEndpoint_def plain_def)
  qed
qed

text \<open>The counter that every request to the events endpoint passes first.\<close>

definition received :: "Request \<Rightarrow> ('w, 'q, 'l) HttpServer \<Rightarrow> ('w, 'q, 'l) HttpServer" where
  "received r s = s\<lparr>hsServer := scount [''EventsReceived'', header r ''Ce-Type'', header r ''Ce-Source''] (hsServer s)\<rparr>"

lemma received_frame [simp]:
  "hsEvents (received r s) = hsEvents s" "hsReplay (received r s) = hsReplay s" "hsLog (received r s) = hsLog s"
  "DeadLetters (hsServer (received r s)) = DeadLetters (hsServer s)"
  "World (Pipe (hsServer (received r s))) = World (Pipe (hsServer s))"
  by (simp_all add: received_def)

lemma events_route_received: "events_route env c mw a r s = auth_guarded mw (rate_limited env (srv_RateLimit c)
    (PanicRecovery (BodyLimitMiddleware (max_body c) (RequestLogging (seStamp env) (events_endpoint env))))) a r (received r s)"
  by (simp add: events_route_def count_received_def received_def)

text \<open>Every endpoint of the queue is guarded.\<close>

lemma dlq_route_guarded:
  assumes "map_of (dlq_routes env mw) p = Some h"
  obtains h' where "h = auth_guarded mw (PanicRecovery h')"
  | h' where "h = auth_guarded mw (with_limiter (seBucket env dlqReplayRPS dlqReplayBurst) hsReplay
      (\<lambda>rl. hsReplay_update (\<lambda>_. rl)) (PanicRecovery h'))"
  using assms by (auto simp: dlq_routes_def split: option.splits if_splits)

text \<open>
  C1 Authentication fails closed. With authentication on a server exists only when its secret can be read
  and its type is known. Then a request that does not pass it and is not a probe gets 401 (or the redirect
  of an unclean path) on every route, and nothing changes but the counter of received events: no
  handler runs, no event is remembered, neither the queue nor a rate limiter is touched.
\<close>

theorem unauthenticated_refused:
  assumes "BuildServer env c = Inr srv" and "sa_Enabled (srv_Auth c)"
  shows "\<exists>secret. ResolveWithReader (seFiles env) (sa_SecretFile (srv_Auth c)) = Inr secret \<and>
    sa_Type (srv_Auth c) \<in> {''hmac-sha256'', ''bearer''} \<and>
    (\<forall>a r s. Path a \<notin> set probe_paths \<longrightarrow> \<not> authentic env (srv_Auth c) secret (Clock a) r \<longrightarrow>
      rpStatus (fst (srv a r s)) = Some (if route_path a r = Path a then 401 else seRedirect env) \<and>
      (snd (srv a r s) = s \<or> snd (srv a r s) = received r s))"
proof -
  from BuildServer_serves [OF assms(1)] obtain mw where mw: "server_auth env (srv_Auth c) = Inr mw"
    and redirect: "\<And>a r s. route_path a r \<noteq> Path a \<Longrightarrow>
      srv a r s = (\<lparr>rpStatus = Some (seRedirect env), rpHeader = [], rpBody = Redirected (route_path a r)\<rparr>, s)"
    and serve: "\<And>a r s. route_path a r = Path a \<Longrightarrow> Path a \<notin> set probe_paths \<Longrightarrow>
      srv a r s = (case map_of (dlq_routes env mw) (Path a) of Some h \<Rightarrow> h a r s | None \<Rightarrow> events_route env c mw a r s)"
    by metis
  from server_auth_on [OF assms(2) mw] obtain secret
    where sec: "ResolveWithReader (seFiles env) (sa_SecretFile (srv_Auth c)) = Inr secret"
      and t: "sa_Type (srv_Auth c) \<in> {''hmac-sha256'', ''bearer''}" by metis
  note ref = guarded_refuses [OF assms(2) mw sec]
  have "rpStatus (fst (srv a r s)) = Some (if route_path a r = Path a then 401 else seRedirect env) \<and>
      (snd (srv a r s) = s \<or> snd (srv a r s) = received r s)"
    if "Path a \<notin> set probe_paths" and no: "\<not> authentic env (srv_Auth c) secret (Clock a) r" for a r s
  proof (cases "route_path a r = Path a")
    case True
    show ?thesis
    proof (cases "map_of (dlq_routes env mw) (Path a)")
      case None
      with serve [OF True that(1)] True show ?thesis by (simp add: events_route_received ref [OF no] refusal_def)
    next
      case (Some h)
      with serve [OF True that(1)] have "srv a r s = h a r s" by simp
      with Some True show ?thesis by (auto simp: ref [OF no] refusal_def elim: dlq_route_guarded)
    qed
  qed (simp add: redirect)
  with sec t show ?thesis by blast
qed

subsection \<open>No panic leaves the server\<close>

definition answering :: "'s Handler \<Rightarrow> bool" where
  "answering h \<longleftrightarrow> (\<forall>a r s. rpStatus (fst (h a r s)) \<noteq> None)"

lemma answering_recovery: "answering (PanicRecovery h)"
  by (auto simp: answering_def PanicRecovery_def split: prod.split)

lemma answering_limiter: "answering h \<Longrightarrow> answering (with_limiter ops get put h)"
  by (auto simp: answering_def with_limiter_def RateLimit_Middleware_def refusal_def split: prod.split bool.split)

lemma answering_guarded:
  assumes "server_auth env sa = Inr mw" and "answering h"
  shows "answering (auth_guarded mw h)"
proof (cases "sa_Enabled sa")
  case True
  from server_auth_on [OF True assms(1)] obtain secret m where "mw = Some m"
    and "\<And>now next r. m now next r = (if authentic env sa secret now r then next r else Refused 401)" by metis
  with assms(2) show ?thesis by (auto simp: answering_def auth_guarded_def with_auth_def refusal_def)
next
  case False
  with assms show ?thesis by (simp add: server_auth_off auth_guarded_def)
qed

lemmas answering_intros = answering_recovery answering_limiter answering_guarded

lemma answering_routes:
  assumes "server_auth env sa = Inr mw"
  shows "map_of (dlq_routes env mw) p = Some h \<Longrightarrow> answering h" and "answering (events_route env c mw)"
proof -
  show "answering h" if "map_of (dlq_routes env mw) p = Some h"
    using that by (auto elim!: dlq_route_guarded intro!: answering_guarded [OF assms] answering_intros(1,2))
  have "answering (auth_guarded mw (rate_limited env (srv_RateLimit c) (PanicRecovery (BodyLimitMiddleware (max_body c)
      (RequestLogging (seStamp env) (events_endpoint env))))))"
    by (auto simp: rate_limited_def Let_def intro!: answering_intros(1,2) answering_guarded [OF assms])
  then show "answering (events_route env c mw)" by (simp add: answering_def events_route_received)
qed

text \<open>
  C3 Every request is answered: on every route the answer has a status, although the page of the
  queue can run out of its slice and the events endpoint uses the collectors without a check; both
  panics are caught inside the rate limiter and the authentication, which cannot panic.
\<close>

theorem every_request_answered:
  assumes "BuildServer env c = Inr srv"
  shows "rpStatus (fst (srv a r s)) \<noteq> None"
  using BuildServer_serves [OF assms]
proof cases
  case (1 mw)
  show ?thesis
  proof (cases "route_path a r = Path a")
    case False
    with 1(2) show ?thesis by simp
  next
    case True
    show ?thesis
    proof (cases "Path a \<in> set probe_paths")
      case probe: True
      with 1(4) [OF True probe, of s] show ?thesis by (cases "Path a = ''/readyz''") (simp_all add: readyEndpoint_def)
    next
      case False
      with 1(3) [OF True False, of s] answering_routes [OF 1(1)] show ?thesis
        by (auto simp: answering_def split: option.splits)
    qed
  qed
qed

section \<open>What an admitted request gets\<close>

definition dlq_paths :: "string list" where
  "dlq_paths = [''/api/v1/dlq'', ''/api/v1/dlq/replay'', ''/api/v1/dlq/analytics'']"

text \<open>The verdict of the rate limiter of the events endpoint, and its table afterwards.\<close>

definition events_verdict ::
  "('w, 'q, 'l) ServerEnv \<Rightarrow> RateLimitConfig \<Rightarrow> Arrival \<Rightarrow> Request \<Rightarrow> 'l RateLimiter \<Rightarrow> bool \<times> 'l RateLimiter" where
  "events_verdict env rl a r t =
     (if \<not> rl_Enabled rl then (True, t)
      else allow_request (seBucket env
             (if flt_eq (rl_RequestsPerSecond rl) (Finite 0) then DefaultRateLimitRPS else rl_RequestsPerSecond rl)
             (if rl_Burst rl = 0 then DefaultRateLimitBurst else rl_Burst rl)) (Clock a) (rateLimitIdentity r) t)"

lemma rate_limited_verdict:
  "rate_limited env rl h a r s =
     (case events_verdict env rl a r (hsEvents s) of
        (ok, t) \<Rightarrow> (if ok then h a r (s\<lparr>hsEvents := t\<rparr>) else (refusal 429, s\<lparr>hsEvents := t\<rparr>)))"
  by (auto simp: rate_limited_def events_verdict_def with_limiter_def RateLimit_Middleware_def Let_def
      split: prod.split bool.split)

lemma dlq_routes_other: "p \<notin> set dlq_paths \<Longrightarrow> map_of (dlq_routes env mw) p = None"
  by (auto simp: dlq_routes_def dlq_paths_def split: option.split)

text \<open>The request as the events endpoint reads it.\<close>

definition readable :: "ServerConfig \<Rightarrow> Request \<Rightarrow> Request" where
  "readable c r = r\<lparr>Body := take (nat (max_body c)) (Body r)\<rparr>"

definition oversized :: "ServerConfig \<Rightarrow> Request \<Rightarrow> bool" where
  "oversized c r \<longleftrightarrow> nat (max_body c) < length (Body r)"

definition request_id :: "('w, 'q, 'l) ServerEnv \<Rightarrow> Arrival \<Rightarrow> Request \<Rightarrow> string" where
  "request_id env a r =
     (if header r ''X-Request-Id'' = '''' then generateRequestID (seStamp env) a else header r ''X-Request-Id'')"

lemma header_Body [simp]: "header (r\<lparr>Body := b\<rparr>) k = header r k"
  by (simp add: header_def)

lemma request_id_readable [simp]: "request_id env a (readable c r) = request_id env a r"
  by (simp add: request_id_def readable_def)

lemma request_id_nonempty: "request_id env a r \<noteq> ''''"
  by (auto simp: request_id_def generateRequestID_def split: option.split)

lemma inner_stack:
  assumes "\<not> ReadFails a" and "CloudEventsHandler (seFromRequest env (oversized c r)) (seDecoders env) (seChain env) (seQueue env)
      (Clock a) (readable c r) (hsServer s) = (code, sv)"
  shows "PanicRecovery (BodyLimitMiddleware (max_body c) (RequestLogging (seStamp env) (events_endpoint env))) a r s =
    (\<lparr>rpStatus = Some (case code of None \<Rightarrow> 500 | Some k \<Rightarrow> k), rpHeader = [(''X-Request-Id'', request_id env a r)], rpBody = Plain\<rparr>,
     s\<lparr>hsServer := sv, hsLog := hsLog s @ [Started (request_id env a r)] @
       (case code of None \<Rightarrow> [] | Some k \<Rightarrow> [Completed (request_id env a r) (log_level k) k])\<rparr>)"
proof -
  have log: "RequestLogging (seStamp env) (events_endpoint env) a' (readable c r) s =
      (\<lparr>rpStatus = code, rpHeader = [(''X-Request-Id'', request_id env a r)], rpBody = Plain\<rparr>,
       s\<lparr>hsServer := sv, hsLog := hsLog s @ [Started (request_id env a r)] @
         (case code of None \<Rightarrow> [] | Some k \<Rightarrow> [Completed (request_id env a r) (log_level k) k])\<rparr>)"
    if "a' = a\<lparr>ReadFails := oversized c r\<rparr>" for a'
    using assms(2) that by (simp add: RequestLogging_def events_endpoint_def log_access_def plain_def Let_def readable_def
        request_id_def generateRequestID_def split: option.split)
  have "BodyLimitMiddleware (max_body c) h a r s = h (a\<lparr>ReadFails := oversized c r\<rparr>) (readable c r) s" for h :: "('a, 'b, 'c) HttpServer Handler"
    using assms(1) by (cases a; cases r) (simp add: BodyLimitMiddleware_def oversized_def readable_def Let_def)
  with log show ?thesis by (simp add: PanicRecovery_def split: option.split)
qed

section \<open>Properties of the server\<close>

text \<open>
  C2 What a request to the events endpoint gets when it passes the authentication: over the rate it gets
  429 with Retry-After and nothing runs; otherwise the answer and the effects are those of
  \<^verbatim>\<open>CloudEventsHandler\<close> on the body as far as the limit lets it be read, a panic is answered 500, the answer
  names the request, and both ends of the request are logged (only the start when it panicked). A body
  beyond the limit is answered 400 without any effect when the parser fails on a reader that fails.
\<close>

theorem events_request_outcome:
  assumes "BuildServer env c = Inr srv" and "route_path a r = Path a"
    and "Path a \<notin> set probe_paths" and "Path a \<notin> set dlq_paths" and "\<not> ReadFails a"
    and "sa_Enabled (srv_Auth c) \<Longrightarrow> ResolveWithReader (seFiles env) (sa_SecretFile (srv_Auth c)) = Inr secret \<and>
      authentic env (srv_Auth c) secret (Clock a) r"
    and "events_verdict env (srv_RateLimit c) a r (hsEvents s) = (ok, t)"
    and "CloudEventsHandler (seFromRequest env (oversized c r)) (seDecoders env) (seChain env) (seQueue env)
      (Clock a) (readable c r) (hsServer (received r s)) = (code, sv)"
  shows "srv a r s =
    (if \<not> ok then (refusal 429, (received r s)\<lparr>hsEvents := t\<rparr>)
     else (\<lparr>rpStatus = Some (case code of None \<Rightarrow> 500 | Some k \<Rightarrow> k), rpHeader = [(''X-Request-Id'', request_id env a r)],
             rpBody = Plain\<rparr>,
           s\<lparr>hsEvents := t, hsServer := sv, hsLog := hsLog s @ [Started (request_id env a r)] @
             (case code of None \<Rightarrow> [] | Some k \<Rightarrow> [Completed (request_id env a r) (log_level k) k])\<rparr>)) \<and>
    (oversized c r \<and> seFromRequest env True (readable c r) = Inl e \<longrightarrow> code = Some 400 \<and> sv = hsServer (received r s))"
proof -
  from BuildServer_serves [OF assms(1)] obtain mw where mw: "server_auth env (srv_Auth c) = Inr mw"
    and serve: "\<And>a r s. route_path a r = Path a \<Longrightarrow> Path a \<notin> set probe_paths \<Longrightarrow>
      srv a r s = (case map_of (dlq_routes env mw) (Path a) of Some h \<Rightarrow> h a r s | None \<Rightarrow> events_route env c mw a r s)"
    by metis
  let ?stack = "PanicRecovery (BodyLimitMiddleware (max_body c) (RequestLogging (seStamp env) (events_endpoint env)))"
  have "srv a r s = rate_limited env (srv_RateLimit c) ?stack a r (received r s)"
    using serve [OF assms(2,3)] by (simp add: dlq_routes_other assms(4) events_route_received guarded_passes [OF mw assms(6)])
  also have "\<dots> = (if ok then ?stack a r ((received r s)\<lparr>hsEvents := t\<rparr>) else (refusal 429, (received r s)\<lparr>hsEvents := t\<rparr>))"
    using assms(7) by (simp add: rate_limited_verdict)
  also have "?stack a r ((received r s)\<lparr>hsEvents := t\<rparr>) =
      (\<lparr>rpStatus = Some (case code of None \<Rightarrow> 500 | Some k \<Rightarrow> k), rpHeader = [(''X-Request-Id'', request_id env a r)],
         rpBody = Plain\<rparr>,
       s\<lparr>hsEvents := t, hsServer := sv, hsLog := hsLog s @ [Started (request_id env a r)] @
         (case code of None \<Rightarrow> [] | Some k \<Rightarrow> [Completed (request_id env a r) (log_level k) k])\<rparr>)"
    using inner_stack [OF assms(5), of env c r "(received r s)\<lparr>hsEvents := t\<rparr>" code sv] assms(8) by (simp add: received_def)
  finally have "srv a r s = (if \<not> ok then (refusal 429, (received r s)\<lparr>hsEvents := t\<rparr>)
     else (\<lparr>rpStatus = Some (case code of None \<Rightarrow> 500 | Some k \<Rightarrow> k), rpHeader = [(''X-Request-Id'', request_id env a r)],
             rpBody = Plain\<rparr>,
           s\<lparr>hsEvents := t, hsServer := sv, hsLog := hsLog s @ [Started (request_id env a r)] @
             (case code of None \<Rightarrow> [] | Some k \<Rightarrow> [Completed (request_id env a r) (log_level k) k])\<rparr>))"
    by simp
  moreover have "oversized c r \<and> seFromRequest env True (readable c r) = Inl e \<longrightarrow> code = Some 400 \<and> sv = hsServer (received r s)"
    using assms(8) by (auto simp: CloudEventsHandler_def)
  ultimately show ?thesis by blast
qed

text \<open>
  Readiness: the server reports 200 exactly when a handler and a decoder are registered, else 503 with
  the first reason; the store and failing handlers are only reported. The probe of the metrics server
  has no checks: it reports 200 even then.
\<close>

theorem readiness_probes:
  assumes "BuildServer env c = Inr srv" and "Path a = ''/readyz''" and "Method r \<noteq> ''CONNECT''"
  shows "let ready = seNames env s \<noteq> [] \<and> DecoderNames (seDecoders env) \<noteq> [] in
    (\<exists>rep. srv a r s = (json_reply (if ready then 200 else 503) (ReadyBody rep), s) \<and>
      rbReason rep = (if ready then None else if seNames env s = [] then Some ''no handlers registered''
        else Some ''no decoders registered'') \<and>
      (\<forall>st. seStore env = Some st \<longrightarrow>
        rbStore rep = Some ((if shPing st s = None then ''healthy'' else ''degraded''), shBackend st))) \<and>
    rpStatus (fst (BuildMetricsServer redirect (seStore env) a r s)) = Some 200"
proof -
  have clean: "route_path a r = Path a" using assms(2,3) by (simp add: route_path_def) code_simp
  from BuildServer_serves [OF assms(1)] clean assms(2) have srv: "srv a r s =
      readyEndpoint (buildHealthHandler (seNames env) (\<lambda>_. DecoderNames (seDecoders env))
        (\<lambda>s. Relay.Status (Pipe (hsServer s))) (seStore env)) a r s"
    by (metis list.set_intros(1) probe_paths_def)
  have "rpStatus (fst (BuildMetricsServer redirect (seStore env) a r s)) = Some 200"
    using clean assms(2,3) by (simp add: BuildMetricsServer_def Let_def mux_serve_def route_path_def readyEndpoint_def)
  then show ?thesis
    by (simp add: Let_def srv readyEndpoint_def json_reply_def buildHealthHandler_def addCheck_def ready_report_def)
qed

text \<open>
  The limit on the body protects the events endpoint only: the replay of the dead letter queue reads
  the whole body of an admitted request, whatever the configured limit. And with signatures the digest is
  computed of the whole body before any limit applies.
\<close>

theorem replay_body_unlimited:
  assumes "BuildServer env c = Inr srv" and "seQueue env = Some ops"
    and "Path a = ''/api/v1/dlq/replay''" and "Method r = ''POST''"
    and "sa_Enabled (srv_Auth c) \<Longrightarrow> ResolveWithReader (seFiles env) (sa_SecretFile (srv_Auth c)) = Inr secret \<and>
      authentic env (srv_Auth c) secret (Clock a) r"
    and "allow_request (seBucket env dlqReplayRPS dlqReplayBurst) (Clock a) (rateLimitIdentity r) (hsReplay s) = (True, t)"
    and "dlqReplayHandler ops (seChain env) (seFloat env) (seOrder env) ''POST'' (Body r) (hsServer s) = (ReplayDone res, sv)"
  shows "srv a r s = (json_reply 200 (ReplayBody res), s\<lparr>hsReplay := t, hsServer := sv\<rparr>) \<and>
    (BuildServer env (c\<lparr>srv_MaxBodySize := n\<rparr>) = Inr srv' \<longrightarrow> srv' a r s = srv a r s)"
proof -
  have clean: "route_path a r = Path a" using assms(3,4) by (simp add: route_path_def) code_simp
  have np: "Path a \<notin> set probe_paths" using assms(3) by (simp add: probe_paths_def)
  have served: "srv0 a r s = (json_reply 200 (ReplayBody res), s\<lparr>hsReplay := t, hsServer := sv\<rparr>)"
    if b: "BuildServer env c' = Inr srv0" and auth: "srv_Auth c' = srv_Auth c" for c' srv0
  proof -
    from BuildServer_serves [OF b] obtain mw where mw: "server_auth env (srv_Auth c') = Inr mw"
      and "srv0 a r s = (case map_of (dlq_routes env mw) (Path a) of Some h \<Rightarrow> h a r s | None \<Rightarrow> events_route env c' mw a r s)"
      using clean np by metis
    moreover have "map_of (dlq_routes env mw) (Path a) = Some (auth_guarded mw (with_limiter (seBucket env dlqReplayRPS dlqReplayBurst)
        hsReplay (\<lambda>rl. hsReplay_update (\<lambda>_. rl)) (PanicRecovery (replay_endpoint env ops))))"
      by (simp add: dlq_routes_def assms(2,3))
    ultimately have "srv0 a r s = with_limiter (seBucket env dlqReplayRPS dlqReplayBurst)
        hsReplay (\<lambda>rl. hsReplay_update (\<lambda>_. rl)) (PanicRecovery (replay_endpoint env ops)) a r s"
      using guarded_passes [OF mw, of secret a r] assms(5) auth by simp
    then show ?thesis
      by (simp add: with_limiter_def RateLimit_Middleware_def assms(4,6,7) PanicRecovery_def replay_endpoint_def json_reply_def)
  qed
  show ?thesis using served [OF assms(1)] served [of "c\<lparr>srv_MaxBodySize := n\<rparr>" srv'] by simp
qed

section \<open>Witnesses\<close>

definition demo_arrival :: "string \<Rightarrow> Arrival" where
  "demo_arrival p = \<lparr>Path = p, Query = [], ReadFails = False, Clock = demo_now, RandomID = Some ''relaytst''\<rparr>"

definition demo_server_env :: "(unit, FileQueue, nat) ServerEnv" where
  "demo_server_env = \<lparr>seDecoders = [], seChain = \<lambda>env p. (None, env, p), seNames = \<lambda>s. [''github''],
     seQueue = Some (file_queue_ops dead_codec default_queue_config NoFault),
     seStore = Some \<lparr>shBackend = ''valkey'', shPing = \<lambda>s. Some (Err ''connection refused'')\<rparr>,
     seFiles = \<lambda>p. Inr (''s3cret'' @ [CHR 10]), seHmac = \<lambda>k m. k @ m,
     seFromRequest = \<lambda>fails r. if fails then Inl (Err ''http: request body too large'')
       else Inr \<lparr>RawID = ''1'', RawType = ''t'', RawSource = '''', RawData = Body r\<rparr>,
     seBucket = \<lambda>rps burst. \<lparr>NewLimiter = nat burst, AllowAt = \<lambda>t n. (0 < n, n - 1)\<rparr>,
     seStamp = \<lambda>t. ''20231115221320'', seFloat = id, seOrder = id, seIter = id, seRedirect = 301\<rparr>"

definition demo_server_config :: ServerConfig where
  "demo_server_config = \<lparr>srv_Addr = '':8080'', srv_MetricsAddr = '''', srv_ReadTimeoutSec = 10, srv_WriteTimeoutSec = 10,
     srv_ShutdownTimeoutSec = 15, srv_MaxBodySize = 1,
     srv_RateLimit = \<lparr>rl_Enabled = True, rl_RequestsPerSecond = Finite 0, rl_Burst = 0\<rparr>,
     srv_Auth = \<lparr>sa_Enabled = True, sa_Type = ''bearer'', sa_SecretFile = ''/etc/secrets/auth'', sa_ValidateTimestamp = False,
       sa_TimestampTolerance = 0\<rparr>,
     srv_TLS = \<lparr>tls_CertFile = '''', tls_KeyFile = ''''\<rparr>\<rparr>"

definition demo_call :: "string \<Rightarrow> string \<Rightarrow> string \<Rightarrow> Request" where
  "demo_call mthd auth body = \<lparr>Method = mthd, RemoteAddr = ''10.0.0.1:4711'', Header = [(''Authorization'', auth)], Body = body\<rparr>"

definition demo_server_state :: "(unit, FileQueue, nat) HttpServer" where
  "demo_server_state = \<lparr>hsServer = \<lparr>Pipe = \<lparr>World = (), Coll = None, Status = None\<rparr>, DeadLetters = \<lparr>queueFile = None, tmpFile = None\<rparr>\<rparr>,
     hsEvents = [], hsReplay = [], hsLog = []\<rparr>"

lemma demo_builds: "\<exists>srv. BuildServer demo_server_env demo_server_config = Inr srv"
  by (simp add: BuildServer_def Let_def server_auth_def demo_server_config_def demo_server_env_def ResolveWithReader_def AuthMiddleware_def)

lemma demo_secret: "ResolveWithReader (seFiles demo_server_env) (sa_SecretFile (srv_Auth demo_server_config)) = Inr ''s3cret''"
  by (simp add: demo_server_env_def demo_server_config_def ResolveWithReader_def TrimSpace_def trim_left.simps runes.simps decode_rune_def
      is_space_def)

lemma demo_authentic:
  "authentic demo_server_env (srv_Auth demo_server_config) ''s3cret'' now (demo_call m a b) \<longleftrightarrow> validateBearer (demo_call m a b) ''s3cret''"
  by (simp add: authentic_def demo_server_config_def)

lemma bearer_lower: "map ascii_lower ''Bearer'' = ''bearer''"
  by code_simp

lemma demo_bearer: "validateBearer (demo_call m ''Bearer s3cret'' b) ''s3cret''" "\<not> validateBearer (demo_call m ''Bearer guess'' b) ''s3cret''"
  using bearer_lower by (simp_all add: validateBearer_def demo_call_def header_def gomap_str_def split_space_def Let_def)

theorem unauthenticated_refused_witness:
  "\<exists>srv. BuildServer demo_server_env demo_server_config = Inr srv \<and>
    rpStatus (fst (srv (demo_arrival ''/api/v1/dlq'') (demo_call ''GET'' ''Bearer guess'' '''') demo_server_state)) = Some 401 \<and>
    rpStatus (fst (srv (demo_arrival ''//events'') (demo_call ''POST'' ''Bearer guess'' '''') demo_server_state)) = Some 301"
proof -
  from demo_builds obtain srv where srv: "BuildServer demo_server_env demo_server_config = Inr srv" by blast
  have on: "sa_Enabled (srv_Auth demo_server_config)" by (simp add: demo_server_config_def)
  have p: "route_path (demo_arrival ''/api/v1/dlq'') (demo_call ''GET'' ''Bearer guess'' '''') = ''/api/v1/dlq''"
    "route_path (demo_arrival ''//events'') (demo_call ''POST'' ''Bearer guess'' '''') = ''/events''"
    by code_simp+
  from unauthenticated_refused [OF srv on] demo_secret
  have "Path a \<notin> set probe_paths \<longrightarrow> \<not> authentic demo_server_env (srv_Auth demo_server_config) ''s3cret'' (Clock a) r \<longrightarrow>
      rpStatus (fst (srv a r s)) = Some (if route_path a r = Path a then 401 else seRedirect demo_server_env)" for a r s
    by (metis Inr_inject)
  from this [of "demo_arrival ''/api/v1/dlq''" "demo_call ''GET'' ''Bearer guess'' ''''" demo_server_state]
    this [of "demo_arrival ''//events''" "demo_call ''POST'' ''Bearer guess'' ''''" demo_server_state]
  show ?thesis using srv demo_bearer(2) unfolding p demo_authentic
    by (simp add: demo_arrival_def probe_paths_def demo_server_env_def)
qed

theorem every_request_answered_witness:
  "\<exists>srv. BuildServer demo_server_env demo_server_config = Inr srv \<and>
    rpStatus (fst (srv (demo_arrival ''/'') (demo_call ''POST'' '''' ''x'') demo_server_state)) \<noteq> None"
  using demo_builds every_request_answered by blast

theorem readiness_probes_witness:
  "\<exists>srv. BuildServer demo_server_env demo_server_config = Inr srv \<and>
    rpStatus (fst (srv (demo_arrival ''/readyz'') (demo_call ''GET'' '''' '''') demo_server_state)) = Some 503"
proof -
  from demo_builds obtain srv where srv: "BuildServer demo_server_env demo_server_config = Inr srv" by blast
  have "DecoderNames (seDecoders demo_server_env) = []" by (simp add: demo_server_env_def DecoderNames_def)
  with readiness_probes [OF srv, of "demo_arrival ''/readyz''" "demo_call ''GET'' '''' ''''" demo_server_state 301] srv
  show ?thesis by (auto simp: demo_arrival_def demo_call_def json_reply_def Let_def)
qed

lemma demo_admits: "sa_Enabled (srv_Auth demo_server_config) \<Longrightarrow>
    ResolveWithReader (seFiles demo_server_env) (sa_SecretFile (srv_Auth demo_server_config)) = Inr ''s3cret'' \<and>
      authentic demo_server_env (srv_Auth demo_server_config) ''s3cret'' now (demo_call m ''Bearer s3cret'' b)"
  using demo_secret demo_authentic demo_bearer by blast

lemma demo_bucket: "0 < burst \<Longrightarrow> \<exists>t. allow_request (seBucket demo_server_env rps burst) now key [] = (True, t)"
  by (simp add: allow_request_def demo_server_env_def Let_def maxRateLimiterEntries_def)

theorem events_request_outcome_witness:
  "\<exists>srv. BuildServer demo_server_env demo_server_config = Inr srv \<and>
    rpStatus (fst (srv (demo_arrival ''/events'') (demo_call ''POST'' ''Bearer s3cret'' ''{}'') demo_server_state)) = Some 400"
proof -
  let ?a = "demo_arrival ''/events''" and ?r = "demo_call ''POST'' ''Bearer s3cret'' ''{}''"
  from demo_builds obtain srv where srv: "BuildServer demo_server_env demo_server_config = Inr srv" by blast
  have clean: "route_path ?a ?r = Path ?a" by code_simp
  have big: "oversized demo_server_config ?r" by (simp add: oversized_def max_body_def demo_server_config_def demo_call_def)
  obtain t where t: "events_verdict demo_server_env (srv_RateLimit demo_server_config) ?a ?r (hsEvents demo_server_state) = (True, t)"
    using demo_bucket [of 200 DefaultRateLimitRPS "Clock ?a" "rateLimitIdentity ?r"]
    by (auto simp: events_verdict_def demo_server_config_def demo_server_state_def DefaultRateLimitBurst_def)
  obtain code sv where h: "CloudEventsHandler (seFromRequest demo_server_env (oversized demo_server_config ?r)) (seDecoders demo_server_env)
      (seChain demo_server_env) (seQueue demo_server_env) (Clock ?a) (readable demo_server_config ?r) (hsServer (received ?r demo_server_state)) = (code, sv)"
    by fastforce
  have p: "Path ?a \<notin> set probe_paths" "Path ?a \<notin> set dlq_paths" "\<not> ReadFails ?a"
    by (simp_all add: demo_arrival_def probe_paths_def dlq_paths_def)
  have e: "seFromRequest demo_server_env True (readable demo_server_config ?r) = Inl (Err ''http: request body too large'')"
    by (simp add: demo_server_env_def)
  from events_request_outcome [OF srv clean p demo_admits t h, of "Err ''http: request body too large''"] big e srv
  show ?thesis by auto
qed

theorem replay_body_unlimited_witness:
  "\<exists>srv. BuildServer demo_server_env demo_server_config = Inr srv \<and> srv_MaxBodySize demo_server_config < int (length ''  '') \<and>
    rpStatus (fst (srv (demo_arrival ''/api/v1/dlq/replay'') (demo_call ''POST'' ''Bearer s3cret'' ''  '') demo_server_state)) = Some 200"
proof -
  let ?a = "demo_arrival ''/api/v1/dlq/replay''" and ?r = "demo_call ''POST'' ''Bearer s3cret'' ''  ''"
  let ?ops = "file_queue_ops dead_codec default_queue_config NoFault"
  from demo_builds obtain srv where srv: "BuildServer demo_server_env demo_server_config = Inr srv" by blast
  obtain t where t: "allow_request (seBucket demo_server_env dlqReplayRPS dlqReplayBurst) (Clock ?a) (rateLimitIdentity ?r)
      (hsReplay demo_server_state) = (True, t)"
    using demo_bucket [of dlqReplayBurst dlqReplayRPS "Clock ?a" "rateLimitIdentity ?r"]
    by (auto simp: demo_server_state_def dlqReplayBurst_def)
  have b: "replay_request id ''  '' = Some (None, None)"
    by (simp add: replay_request_def TrimSpace_def trim_left.simps decode_rune_def is_space_def)
  have "\<exists>res sv. dlqReplayHandler ?ops (seChain demo_server_env) (seFloat demo_server_env) (seOrder demo_server_env) ''POST'' (Body ?r)
      (hsServer demo_server_state) = (ReplayDone res, sv)"
    by (simp add: dlqReplayHandler_def collectReplayEntries_def b demo_server_env_def demo_call_def demo_server_state_def Let_def
        file_queue_ops_def List_entries_def readAll_def recordDlqReplayMetrics_def)
  then obtain res sv where h: "dlqReplayHandler ?ops (seChain demo_server_env) (seFloat demo_server_env) (seOrder demo_server_env) ''POST'' (Body ?r)
      (hsServer demo_server_state) = (ReplayDone res, sv)" by blast
  have p: "seQueue demo_server_env = Some ?ops" "Path ?a = ''/api/v1/dlq/replay''" "Method ?r = ''POST''"
    by (simp_all add: demo_server_env_def demo_arrival_def demo_call_def)
  from replay_body_unlimited [OF srv p demo_admits t h] srv
  show ?thesis by (auto simp: json_reply_def demo_server_config_def)
qed

text \<open>
  An empty secret file is no error: the server is built with the empty key, and every request signed
  with it passes.
\<close>

theorem empty_secret_accepted:
  assumes "sa_Enabled (srv_Auth c)" and "sa_Type (srv_Auth c) = ''hmac-sha256''" and "\<not> sa_ValidateTimestamp (srv_Auth c)"
    and "sa_SecretFile (srv_Auth c) \<noteq> ''''" and "seFiles env (sa_SecretFile (srv_Auth c)) = Inr ''''"
    and "header r ''X-Hub-Signature-256'' = ''sha256='' @ EncodeToString (seHmac env '''' (Body r))"
  shows "\<exists>srv. BuildServer env c = Inr srv \<and>
    ResolveWithReader (seFiles env) (sa_SecretFile (srv_Auth c)) = Inr '''' \<and> authentic env (srv_Auth c) '''' now r"
  using assms by (simp add: BuildServer_def Let_def server_auth_def ResolveWithReader_def AuthMiddleware_def authentic_def validateHMAC_def)

end
