(* ===== verification/Relay_CEL.thy ===== *)
theory Relay_CEL
  imports Relay_Notifier Go_Time
begin

text \<open>
  Package \<^verbatim>\<open>internal/cel\<close>: the macros and functions that conditions may use, the activation made of an
  event, the caches of compiled programs, and evaluation, which several goroutines do at once.

  Parsing, checking and running an expression is done by the package \<^verbatim>\<open>cel-go\<close> and is an argument. A
  program is a computation over the activation that may call the functions registered here; these
  read two global variables that every evaluation sets.
\<close>

section \<open>Values and expressions\<close>

datatype cval = VBool bool | VInt int | VStr string | VTime Time | VList "cval list" | VMap "(string \<times> cval) list"

datatype operator = Equals | NotEquals | LogicalAnd | In

datatype cexpr = Ident string | Select cexpr string | Literal cval | Call operator cexpr cexpr | NewList "cexpr list"

type_synonym activation = "(string \<times> cval) list"

section \<open>Macros\<close>

type_synonym expander = "cexpr list \<Rightarrow> cexpr result"

definition event_field :: "string \<Rightarrow> cexpr" where
  "event_field f = Select (Ident ''event'') f"

definition buildNotEqualZeroMacro :: "string \<Rightarrow> expander" where
  "buildNotEqualZeroMacro field args = Inr (Call NotEquals (event_field field) (Literal (VInt 0)))"

definition buildResourceEqualityMacro :: "string \<Rightarrow> expander" where
  "buildResourceEqualityMacro v args = Inr (Call Equals (event_field ''Resource'') (Literal (VStr v)))"

definition buildBoolFieldMacro :: "string \<Rightarrow> expander" where
  "buildBoolFieldMacro field args = Inr (Call Equals (event_field field) (Literal (VBool True)))"

definition buildSCMEventTypeMacro :: "string \<Rightarrow> expander" where
  "buildSCMEventTypeMacro v args = Inr (Call Equals (event_field ''SCMEventType'') (Literal (VStr v)))"

definition isIssueMacroExpander :: expander where
  "isIssueMacroExpander args =
     (let zero = Literal (VInt 0);
          issueCheck = Call NotEquals (event_field ''IssueNumber'') zero;
          prCheck = Call Equals (event_field ''PRNumber'') zero;
          discussionCheck = Call Equals (event_field ''DiscussionNumber'') zero
      in Inr (Call LogicalAnd (Call LogicalAnd issueCheck prCheck) discussionCheck))"

definition stateInMacroExpander :: expander where
  "stateInMacroExpander args =
     (if length args = 0 then Inl (Err ''stateIn() requires at least one argument'')
      else Inr (Call In (event_field ''State'') (NewList args)))"

text \<open>The name, the number of arguments (None for any) and the expander of each macro.\<close>

definition domainMacros :: "(string \<times> nat option \<times> expander) list" where
  "domainMacros = [
     (''isPR'', Some 0, buildNotEqualZeroMacro ''PRNumber''),
     (''isDiscussion'', Some 0, buildNotEqualZeroMacro ''DiscussionNumber''),
     (''isIssue'', Some 0, isIssueMacroExpander),
     (''isTaskRun'', Some 0, buildResourceEqualityMacro ''taskrun''),
     (''isPipelineRun'', Some 0, buildResourceEqualityMacro ''pipelinerun''),
     (''isCustomRun'', Some 0, buildResourceEqualityMacro ''customrun''),
     (''isEventListener'', Some 0, buildResourceEqualityMacro ''eventlistener''),
     (''isFinallyTask'', Some 0, buildBoolFieldMacro ''IsFinallyTask''),
     (''isIssueEvent'', Some 0, buildSCMEventTypeMacro ''issues''),
     (''isPREvent'', Some 0, buildSCMEventTypeMacro ''pull_request''),
     (''isCommentEvent'', Some 0, buildSCMEventTypeMacro ''issue_comment''),
     (''isPushEvent'', Some 0, buildSCMEventTypeMacro ''push''),
     (''stateIn'', None, stateInMacroExpander)]"

text \<open>How the parser expands a call of a macro.\<close>

definition expand_macro :: "string \<Rightarrow> expander" where
  "expand_macro name args =
     (case map_of domainMacros name of
        Some (n, ex) \<Rightarrow> (if n = None \<or> n = Some (length args) then ex args else Inl (Err ''undeclared reference''))
      | None \<Rightarrow> Inl (Err ''undeclared reference''))"

section \<open>The activation\<close>

definition number_of :: "int option \<Rightarrow> int" where
  "number_of n = (case n of None \<Rightarrow> 0 | Some i \<Rightarrow> i)"

text \<open>Later results of a name replace earlier ones.\<close>

definition results_map :: "Event \<Rightarrow> (string, string) gomap" where
  "results_map e = fold (\<lambda>r m. AList.update (ResultName r) (ResultValue r) m) (Results e) []"

text \<open>\<^verbatim>\<open>Duration.Milliseconds\<close> truncates towards zero.\<close>

definition Milliseconds :: "int \<Rightarrow> int" where
  "Milliseconds d = (if 0 \<le> d then d div 10 ^ 6 else - ((- d) div 10 ^ 6))"

definition duration_ms :: "Event \<Rightarrow> int" where
  "duration_ms e =
     (if StartedAt e \<noteq> 0 \<and> FinishedAt e \<noteq> 0 then Milliseconds (time_Sub (FinishedAt e) (StartedAt e)) else 0)"

definition event_map :: "Event \<Rightarrow> (string \<times> cval) list" where
  "event_map e = [
     (''Resource'', VStr (ResourceOf e)), (''State'', VStr (StateOf e)), (''RunName'', VStr (RunName e)),
     (''RunID'', VStr (RunID e)), (''Namespace'', VStr (Namespace e)), (''Context'', VStr (Context e)),
     (''JiraIssueKey'', VStr (JiraIssueKey e)), (''Description'', VStr (Description e)),
     (''CommitSHA'', VStr (CommitSHA e)), (''Provider'', VStr (Provider e)), (''APIBaseURL'', VStr (APIBaseURL e)),
     (''TaskName'', VStr (TaskName e)), (''PipelineName'', VStr (PipelineName e)),
     (''PipelineTaskName'', VStr (PipelineTaskName e)), (''EventListenerName'', VStr (EventListenerName e)),
     (''TriggerName'', VStr (TriggerName e)), (''TaskDisplayName'', VStr (TaskDisplayName e)),
     (''PipelineDisplayName'', VStr (PipelineDisplayName e)), (''TaskCount'', VInt (TaskCount e)),
     (''TargetURL'', VStr (TargetURL e)), (''Results'', VMap (map (\<lambda>(k, v). (k, VStr v)) (results_map e))),
     (''StartedAt'', VTime (StartedAt e)), (''FinishedAt'', VTime (FinishedAt e)),
     (''Repo'', VMap [(''Owner'', VStr (Owner (RepoOf e))), (''Name'', VStr (RepoName (RepoOf e))),
        (''ID'', VStr (RepoID (RepoOf e))), (''Workspace'', VStr (Workspace (RepoOf e))),
        (''Project'', VStr (Project (RepoOf e))), (''Org'', VStr (Org (RepoOf e)))]),
     (''IssueNumber'', VInt (number_of (IssueNumber e))), (''PRNumber'', VInt (number_of (PRNumber e))),
     (''DiscussionNumber'', VInt (number_of (DiscussionNumber e))), (''IsFinallyTask'', VBool (IsFinallyTask e)),
     (''SCMEventType'', VStr (SCMEventType e))]"

text \<open>
  \<^verbatim>\<open>populateActivation\<close> sets the map of the evaluation and the two global variables; the map comes empty
  from the pool, since \<^verbatim>\<open>Eval\<close> clears it before it gives it back.
\<close>

record globals =
  currentBuildDurationMs :: int
  currentResults :: "(string, string) gomap"

definition populateActivation :: "Event \<Rightarrow> activation \<Rightarrow> activation" where
  "populateActivation e act = AList.update ''event'' (VMap (event_map e)) act"

definition globals_of :: "Event \<Rightarrow> globals" where
  "globals_of e = \<lparr>currentBuildDurationMs = duration_ms e, currentResults = results_map e\<rparr>"

section \<open>Programs\<close>

text \<open>
  A run of a compiled program: a value or an error, or a call of one of the registered functions whose
  answer decides how the run goes on.
\<close>

datatype celrun = Return "cval result" | BuildTimeExceeds int "bool \<Rightarrow> celrun"
  | HasResult string "bool \<Rightarrow> celrun" | ResultOf string "string \<Rightarrow> celrun"

definition intToDurationExceeds :: "globals \<Rightarrow> int \<Rightarrow> bool" where
  "intToDurationExceeds g ms \<longleftrightarrow> currentBuildDurationMs g > ms"

definition resultHasValue :: "globals \<Rightarrow> string \<Rightarrow> bool" where
  "resultHasValue g name = (case map_of (currentResults g) name of None \<Rightarrow> False | Some v \<Rightarrow> v \<noteq> '''')"

definition resultGetValue :: "globals \<Rightarrow> string \<Rightarrow> string" where
  "resultGetValue g name = gomap_str (currentResults g) name"

record Program =
  celProg :: "activation \<Rightarrow> celrun"
  celExpr :: string

text \<open>The run when the global variables do not change.\<close>

primrec run_celrun :: "globals \<Rightarrow> celrun \<Rightarrow> cval result" where
  "run_celrun g (Return v) = v"
| "run_celrun g (BuildTimeExceeds ms k) = run_celrun g (k (intToDurationExceeds g ms))"
| "run_celrun g (HasResult n k) = run_celrun g (k (resultHasValue g n))"
| "run_celrun g (ResultOf n k) = run_celrun g (k (resultGetValue g n))"

definition bool_result :: "cval result \<Rightarrow> bool result" where
  "bool_result out =
     (case out of
        Inl e \<Rightarrow> Inl (Wrap ''cel: eval error: '' e)
      | Inr (VBool b) \<Rightarrow> Inr b
      | Inr _ \<Rightarrow> Inl (Err ''cel: unexpected result type''))"

lemma bool_result_VBool [simp]: "bool_result (Inr (VBool b)) = Inr b"
  by (simp add: bool_result_def)

definition string_result :: "cval result \<Rightarrow> string result" where
  "string_result out =
     (case out of
        Inl e \<Rightarrow> Inl (Wrap ''cel: eval error: '' e)
      | Inr (VStr s) \<Rightarrow> Inr s
      | Inr _ \<Rightarrow> Inl (Err ''cel: unexpected result type''))"

text \<open>The name of the Go type in the last error is left out. \<^verbatim>\<open>Eval\<close> and \<^verbatim>\<open>EvalString\<close> when no other evaluation comes between.\<close>

definition Eval :: "Program \<Rightarrow> Event \<Rightarrow> bool result" where
  "Eval p e = bool_result (run_celrun (globals_of e) (celProg p (populateActivation e [])))"

definition EvalString :: "Program \<Rightarrow> Event \<Rightarrow> string result" where
  "EvalString p e = string_result (run_celrun (globals_of e) (celProg p (populateActivation e [])))"

section \<open>Compilation\<close>

datatype celtype = BoolType | StringType | OtherType string

fun type_text :: "celtype \<Rightarrow> string" where
  "type_text BoolType = ''bool''"
| "type_text StringType = ''string''"
| "type_text (OtherType t) = t"

text \<open>The operations of \<^verbatim>\<open>cel-go\<close>: an environment with the macros, checking, and making a program.\<close>

record 'a CelLib =
  clNewEnv :: "(string \<times> nat option \<times> expander) list \<Rightarrow> err option"
  clCompile :: "(string \<times> nat option \<times> expander) list \<Rightarrow> string \<Rightarrow> ('a \<times> celtype) result"
  clProgram :: "'a \<Rightarrow> (activation \<Rightarrow> celrun) result"

text \<open>The common part of \<^verbatim>\<open>Compile\<close> and \<^verbatim>\<open>CompileString\<close>: the expected type, and how it is named in the error.\<close>

definition compile_fresh :: "celtype \<Rightarrow> 'a CelLib \<Rightarrow> string \<Rightarrow> Program result" where
  "compile_fresh ty lib x =
     (case clNewEnv lib domainMacros of
        Some e \<Rightarrow> Inl (Wrap ''cel: environment error: '' e)
      | None \<Rightarrow>
     (case clCompile lib domainMacros x of
        Inl e \<Rightarrow> Inl (Wrap ''cel: compile error: '' e)
      | Inr (ast, t) \<Rightarrow>
          if t \<noteq> ty then Inl (Err (''cel: expression must return '' @ type_text ty @ '', got '' @ type_text t))
          else case clProgram lib ast of
            Inl e \<Rightarrow> Inl (Wrap ''cel: program error: '' e)
          | Inr p \<Rightarrow> Inr \<lparr>celProg = p, celExpr = x\<rparr>))"

type_synonym program_cache = "(string, Program) gomap"

definition compile_cached :: "celtype \<Rightarrow> 'a CelLib \<Rightarrow> string \<Rightarrow> program_cache \<Rightarrow> Program result \<times> program_cache" where
  "compile_cached ty lib x cache =
     (if x = '''' then (Inl (Err ''cel: empty expression''), cache)
      else case map_of cache x of
        Some p \<Rightarrow> (Inr p, cache)
      | None \<Rightarrow>
          (case compile_fresh ty lib x of
             Inl e \<Rightarrow> (Inl e, cache)
           | Inr p \<Rightarrow> (Inr p, AList.update x p cache)))"

definition Compile :: "'a CelLib \<Rightarrow> string \<Rightarrow> program_cache \<Rightarrow> Program result \<times> program_cache" where
  "Compile = compile_cached BoolType"

definition CompileString :: "'a CelLib \<Rightarrow> string \<Rightarrow> program_cache \<Rightarrow> Program result \<times> program_cache" where
  "CompileString = compile_cached StringType"

section \<open>Evaluations at once\<close>

text \<open>
  An evaluation sets the two variables one after the other and then runs its program, whose calls read
  them whenever they happen. Evaluations of different goroutines interleave at every step.
\<close>

datatype eval_phase = Begun | DurationSet | Running celrun | Ended "cval result"

type_synonym evaluation = "Program \<times> Event \<times> eval_phase"

inductive eval_step :: "globals \<times> evaluation list \<Rightarrow> globals \<times> evaluation list \<Rightarrow> bool" where
  set_duration: "i < length evs \<Longrightarrow> evs ! i = (p, e, Begun) \<Longrightarrow>
    eval_step (g, evs) (g\<lparr>currentBuildDurationMs := duration_ms e\<rparr>, evs[i := (p, e, DurationSet)])"
| set_results: "i < length evs \<Longrightarrow> evs ! i = (p, e, DurationSet) \<Longrightarrow>
    eval_step (g, evs) (g\<lparr>currentResults := results_map e\<rparr>, evs[i := (p, e, Running (celProg p (populateActivation e [])))])"
| call_exceeds: "i < length evs \<Longrightarrow> evs ! i = (p, e, Running (BuildTimeExceeds ms k)) \<Longrightarrow>
    eval_step (g, evs) (g, evs[i := (p, e, Running (k (intToDurationExceeds g ms)))])"
| call_has: "i < length evs \<Longrightarrow> evs ! i = (p, e, Running (HasResult n k)) \<Longrightarrow>
    eval_step (g, evs) (g, evs[i := (p, e, Running (k (resultHasValue g n)))])"
| call_value: "i < length evs \<Longrightarrow> evs ! i = (p, e, Running (ResultOf n k)) \<Longrightarrow>
    eval_step (g, evs) (g, evs[i := (p, e, Running (k (resultGetValue g n)))])"
| return: "i < length evs \<Longrightarrow> evs ! i = (p, e, Running (Return v)) \<Longrightarrow>
    eval_step (g, evs) (g, evs[i := (p, e, Ended v)])"

abbreviation eval_steps :: "globals \<times> evaluation list \<Rightarrow> globals \<times> evaluation list \<Rightarrow> bool" where
  "eval_steps \<equiv> eval_step\<^sup>*\<^sup>*"

text \<open>What has begun is what the caller asked for.\<close>

definition begun :: "(Program \<times> Event) list \<Rightarrow> evaluation list" where
  "begun calls = map (\<lambda>(p, e). (p, e, Begun)) calls"

inductive_cases eval_stepE: "eval_step (g, evs) (g', evs')"

text \<open>The value of a program on an event, evaluated alone.\<close>

definition own_value :: "Program \<Rightarrow> Event \<Rightarrow> cval result" where
  "own_value p e = run_celrun (globals_of e) (celProg p (populateActivation e []))"

lemma Eval_own_value: "Eval p e = bool_result (own_value p e)"
  by (simp add: Eval_def own_value_def)

text \<open>Programs that call none of the functions.\<close>

definition calls_nothing :: "Program \<Rightarrow> bool" where
  "calls_nothing p \<longleftrightarrow> (\<forall>act. \<exists>v. celProg p act = Return v)"

section \<open>What holds in every interleaving\<close>

text \<open>
  The flag says that all evaluations are of events with the same duration and results; then a running
  evaluation sees the variables of its own event.
\<close>

fun eval_ok :: "bool \<Rightarrow> globals \<Rightarrow> evaluation \<Rightarrow> bool" where
  "eval_ok agree g (p, e, Begun) \<longleftrightarrow> True"
| "eval_ok agree g (p, e, DurationSet) \<longleftrightarrow> (agree \<longrightarrow> currentBuildDurationMs g = duration_ms e)"
| "eval_ok agree g (p, e, Running c) \<longleftrightarrow> (agree \<longrightarrow> g = globals_of e \<and> run_celrun g c = own_value p e) \<and>
     (calls_nothing p \<longrightarrow> c = Return (own_value p e))"
| "eval_ok agree g (p, e, Ended v) \<longleftrightarrow> (agree \<or> calls_nothing p \<longrightarrow> v = own_value p e)"

definition same_globals :: "evaluation list \<Rightarrow> bool" where
  "same_globals evs \<longleftrightarrow> (\<forall>(p, e, x) \<in> set evs. \<forall>(p', e', x') \<in> set evs. globals_of e = globals_of e')"

definition eval_inv :: "globals \<times> evaluation list \<Rightarrow> bool" where
  "eval_inv s \<longleftrightarrow> (\<forall>ev \<in> set (snd s). eval_ok (same_globals (snd s)) (fst s) ev)"

lemma same_globals_update:
  assumes "i < length evs" and "evs ! i = (p, e, x)"
  shows "same_globals (evs[i := (p, e, y)]) = same_globals evs"
proof -
  have "map (\<lambda>(p, e, x). globals_of e) (evs[i := (p, e, y)]) = map (\<lambda>(p, e, x). globals_of e) evs"
    using assms by (simp add: map_update) (metis (no_types, lifting) case_prod_conv length_map list_update_id nth_map)
  then have "(\<lambda>(p, e, x). globals_of e) ` set (evs[i := (p, e, y)]) = (\<lambda>(p, e, x). globals_of e) ` set evs"
    by (metis set_map)
  moreover have "same_globals xs \<longleftrightarrow> (\<forall>a \<in> (\<lambda>(p, e, x). globals_of e) ` set xs. \<forall>b \<in> (\<lambda>(p, e, x). globals_of e) ` set xs. a = b)"
    for xs :: "evaluation list"
    by (auto simp: same_globals_def split_beta)
  ultimately show ?thesis by metis
qed

lemma eval_inv_step:
  assumes "i < length evs" and "evs ! i = (p, e, x)" and "eval_inv (g, evs)"
    and "eval_ok (same_globals evs) g' (p, e, y)"
    and "\<And>ev. ev \<in> set evs \<Longrightarrow> eval_ok (same_globals evs) g ev \<Longrightarrow> eval_ok (same_globals evs) g' ev"
  shows "eval_inv (g', evs[i := (p, e, y)])"
  using assms set_update_subset_insert [of evs i "(p, e, y)"]
  by (auto simp: eval_inv_def same_globals_update [OF assms(1,2)])

lemma same_globalsD:
  assumes "same_globals evs" and "(p, e, x) \<in> set evs" and "(p', e', x') \<in> set evs"
  shows "duration_ms e = duration_ms e'" and "results_map e = results_map e'"
  using assms by (force simp: same_globals_def globals_of_def)+

text \<open>An evaluation that sets a variable leaves the others as they were, when all agree.\<close>

lemma eval_ok_set:
  assumes "(p', e', x') \<in> set evs" and "ev \<in> set evs" and "eval_ok (same_globals evs) g ev"
  shows "eval_ok (same_globals evs) (g\<lparr>currentBuildDurationMs := duration_ms e'\<rparr>) ev"
    and "eval_ok (same_globals evs) (g\<lparr>currentResults := results_map e'\<rparr>) ev"
proof -
  obtain p e x where ev: "ev = (p, e, x)" by (cases ev)
  have eq: "same_globals evs \<Longrightarrow> duration_ms e' = duration_ms e \<and> results_map e' = results_map e"
    using same_globalsD [OF _ assms(1)] assms(2) ev by blast
  show "eval_ok (same_globals evs) (g\<lparr>currentBuildDurationMs := duration_ms e'\<rparr>) ev"
    and "eval_ok (same_globals evs) (g\<lparr>currentResults := results_map e'\<rparr>) ev"
    using assms(3) eq unfolding ev by (cases x; auto simp: globals_of_def)+
qed

lemma calls_nothing_own: "calls_nothing p \<Longrightarrow> celProg p (populateActivation e []) = Return (own_value p e)"
  unfolding calls_nothing_def own_value_def by (metis run_celrun.simps(1))

lemma eval_step_inv:
  assumes "eval_step s s'" and "eval_inv s"
  shows "eval_inv s'"
  using assms
proof (induction rule: eval_step.induct)
  case (set_duration i evs p e g)
  then have "(p, e, Begun) \<in> set evs" by (metis nth_mem)
  with set_duration show ?case
    by (intro eval_inv_step [OF set_duration(1,2,3)]) (auto intro: eval_ok_set)
next
  case (set_results i evs p e g)
  then have m: "(p, e, DurationSet) \<in> set evs" by (metis nth_mem)
  with set_results have "eval_ok (same_globals evs) g (p, e, DurationSet)" by (auto simp: eval_inv_def)
  then have "eval_ok (same_globals evs) (g\<lparr>currentResults := results_map e\<rparr>)
      (p, e, Running (celProg p (populateActivation e [])))"
    by (cases g) (simp add: calls_nothing_own, simp add: own_value_def globals_of_def)
  with set_results m show ?case
    by (intro eval_inv_step [OF set_results(1,2,3)]) (auto intro: eval_ok_set)
next
  case (call_exceeds i evs p e ms k g)
  then have "(p, e, Running (BuildTimeExceeds ms k)) \<in> set evs" by (metis nth_mem)
  with call_exceeds show ?case
    by (intro eval_inv_step [OF call_exceeds(1,2,3)]) (auto simp: eval_inv_def)
next
  case (call_has i evs p e n k g)
  then have "(p, e, Running (HasResult n k)) \<in> set evs" by (metis nth_mem)
  with call_has show ?case
    by (intro eval_inv_step [OF call_has(1,2,3)]) (auto simp: eval_inv_def)
next
  case (call_value i evs p e n k g)
  then have "(p, e, Running (ResultOf n k)) \<in> set evs" by (metis nth_mem)
  with call_value show ?case
    by (intro eval_inv_step [OF call_value(1,2,3)]) (auto simp: eval_inv_def)
next
  case (return i evs p e v g)
  then have "(p, e, Running (Return v)) \<in> set evs" by (metis nth_mem)
  with return show ?case
    by (intro eval_inv_step [OF return(1,2,3)]) (auto simp: eval_inv_def)
qed

lemma eval_steps_inv: "eval_steps s s' \<Longrightarrow> eval_inv s \<Longrightarrow> eval_inv s'"
  by (induction rule: rtranclp_induct) (auto intro: eval_step_inv)

text \<open>The calls stay the same while the phases change.\<close>

definition calls_of :: "evaluation list \<Rightarrow> (Program \<times> Event) list" where
  "calls_of evs = map (\<lambda>(p, e, x). (p, e)) evs"

lemma calls_of_update: "i < length evs \<Longrightarrow> evs ! i = (p, e, x) \<Longrightarrow> calls_of (evs[i := (p, e, y)]) = calls_of evs"
  by (simp add: calls_of_def map_update) (metis (no_types, lifting) case_prod_conv length_map list_update_id nth_map)

lemma eval_step_calls: "eval_step s s' \<Longrightarrow> calls_of (snd s') = calls_of (snd s)"
  by (induction rule: eval_step.induct) (auto simp: calls_of_update)

lemma eval_steps_calls: "eval_steps s s' \<Longrightarrow> calls_of (snd s') = calls_of (snd s)"
  by (induction rule: rtranclp_induct) (auto dest: eval_step_calls)

lemma calls_of_begun: "calls_of (begun calls) = calls"
  by (induction calls) (auto simp: calls_of_def begun_def)

lemma same_globals_calls:
  "same_globals evs \<longleftrightarrow> (\<forall>(p, e) \<in> set (calls_of evs). \<forall>(p', e') \<in> set (calls_of evs). globals_of e = globals_of e')"
  by (fastforce simp: same_globals_def calls_of_def)

section \<open>Macros under the semantics of CEL\<close>

text \<open>
  What the language definition of CEL says of the constructs the macros use, for the types they use them
  with; \<open>ev\<close> evaluates an expression under an activation.
\<close>

definition cel_semantics :: "(cexpr \<Rightarrow> activation \<Rightarrow> cval result) \<Rightarrow> bool" where
  "cel_semantics ev \<longleftrightarrow> (\<forall>act.
     (\<forall>x v. map_of act x = Some v \<longrightarrow> ev (Ident x) act = Inr v) \<and>
     (\<forall>x f m v. ev x act = Inr (VMap m) \<and> map_of m f = Some v \<longrightarrow> ev (Select x f) act = Inr v) \<and>
     (\<forall>v. ev (Literal v) act = Inr v) \<and>
     (\<forall>x y a b. ev x act = Inr (VInt a) \<and> ev y act = Inr (VInt b) \<longrightarrow>
        ev (Call Equals x y) act = Inr (VBool (a = b)) \<and> ev (Call NotEquals x y) act = Inr (VBool (a \<noteq> b))) \<and>
     (\<forall>x y a b. ev x act = Inr (VStr a) \<and> ev y act = Inr (VStr b) \<longrightarrow> ev (Call Equals x y) act = Inr (VBool (a = b))) \<and>
     (\<forall>x y a b. ev x act = Inr (VBool a) \<and> ev y act = Inr (VBool b) \<longrightarrow>
        ev (Call Equals x y) act = Inr (VBool (a = b)) \<and> ev (Call LogicalAnd x y) act = Inr (VBool (a \<and> b))) \<and>
     (\<forall>xs vs. list_all2 (\<lambda>x v. ev x act = Inr v) xs vs \<longrightarrow> ev (NewList xs) act = Inr (VList vs)) \<and>
     (\<forall>x y a vs. ev x act = Inr (VStr a) \<and> ev y act = Inr (VList vs) \<longrightarrow>
        ev (Call In x y) act = Inr (VBool (VStr a \<in> set vs))))"

text \<open>The value of a macro call on an event.\<close>

definition macro_value :: "(cexpr \<Rightarrow> activation \<Rightarrow> cval result) \<Rightarrow> Event \<Rightarrow> string \<Rightarrow> cexpr list \<Rightarrow> cval result" where
  "macro_value ev e name args =
     (case expand_macro name args of Inl er \<Rightarrow> Inl er | Inr x \<Rightarrow> ev x (populateActivation e []))"

lemma cel_semD:
  assumes "cel_semantics ev"
  shows "map_of act x = Some v \<Longrightarrow> ev (Ident x) act = Inr v"
    and "ev y act = Inr (VMap m) \<and> map_of m f = Some v \<Longrightarrow> ev (Select y f) act = Inr v"
    and "ev (Literal v) act = Inr v"
    and "ev y act = Inr (VInt a) \<and> ev z act = Inr (VInt b) \<Longrightarrow>
      ev (Call Equals y z) act = Inr (VBool (a = b)) \<and> ev (Call NotEquals y z) act = Inr (VBool (a \<noteq> b))"
    and "ev y act = Inr (VStr s) \<and> ev z act = Inr (VStr t) \<Longrightarrow> ev (Call Equals y z) act = Inr (VBool (s = t))"
    and "ev y act = Inr (VBool p) \<and> ev z act = Inr (VBool q) \<Longrightarrow>
      ev (Call Equals y z) act = Inr (VBool (p = q)) \<and> ev (Call LogicalAnd y z) act = Inr (VBool (p \<and> q))"
    and "list_all2 (\<lambda>x v. ev x act = Inr v) xs vs \<Longrightarrow> ev (NewList xs) act = Inr (VList vs)"
    and "ev y act = Inr (VStr s) \<and> ev z act = Inr (VList vs) \<Longrightarrow> ev (Call In y z) act = Inr (VBool (VStr s \<in> set vs))"
proof -
  note c1 = assms [unfolded cel_semantics_def, THEN spec, of act]
  note c2 = c1 [THEN conjunct2] note c3 = c2 [THEN conjunct2] note c4 = c3 [THEN conjunct2]
  note c5 = c4 [THEN conjunct2] note c6 = c5 [THEN conjunct2] note c7 = c6 [THEN conjunct2]
  show "map_of act x = Some v \<Longrightarrow> ev (Ident x) act = Inr v" by (rule c1 [THEN conjunct1, rule_format])
  show "ev y act = Inr (VMap m) \<and> map_of m f = Some v \<Longrightarrow> ev (Select y f) act = Inr v"
    by (rule c2 [THEN conjunct1, rule_format])
  show "ev (Literal v) act = Inr v" by (rule c3 [THEN conjunct1, rule_format])
  show "ev y act = Inr (VInt a) \<and> ev z act = Inr (VInt b) \<Longrightarrow>
      ev (Call Equals y z) act = Inr (VBool (a = b)) \<and> ev (Call NotEquals y z) act = Inr (VBool (a \<noteq> b))"
    by (rule c4 [THEN conjunct1, THEN spec, THEN spec, THEN spec, THEN spec, THEN mp])
  show "ev y act = Inr (VStr s) \<and> ev z act = Inr (VStr t) \<Longrightarrow> ev (Call Equals y z) act = Inr (VBool (s = t))"
    by (rule c5 [THEN conjunct1, rule_format])
  show "ev y act = Inr (VBool p) \<and> ev z act = Inr (VBool q) \<Longrightarrow>
      ev (Call Equals y z) act = Inr (VBool (p = q)) \<and> ev (Call LogicalAnd y z) act = Inr (VBool (p \<and> q))"
    by (rule c6 [THEN conjunct1, THEN spec, THEN spec, THEN spec, THEN spec, THEN mp])
  show "list_all2 (\<lambda>x v. ev x act = Inr v) xs vs \<Longrightarrow> ev (NewList xs) act = Inr (VList vs)"
    by (rule c7 [THEN conjunct1, rule_format])
  show "ev y act = Inr (VStr s) \<and> ev z act = Inr (VList vs) \<Longrightarrow> ev (Call In y z) act = Inr (VBool (VStr s \<in> set vs))"
    by (rule c7 [THEN conjunct2, rule_format])
qed

lemma event_field_value:
  assumes "cel_semantics ev" and "map_of (event_map e) f = Some v"
  shows "ev (event_field f) (populateActivation e []) = Inr v"
  unfolding event_field_def
  by (rule cel_semD(2) [OF assms(1), where m = "event_map e"]) (simp add: assms(2) cel_semD(1) [OF assms(1), of _ _ "VMap (event_map e)"] populateActivation_def)

lemma cel_ops:
  assumes "cel_semantics ev"
  shows "ev x act = Inr (VInt a) \<Longrightarrow> ev (Call Equals x (Literal (VInt b))) act = Inr (VBool (a = b))"
    and "ev x act = Inr (VInt a) \<Longrightarrow> ev (Call NotEquals x (Literal (VInt b))) act = Inr (VBool (a \<noteq> b))"
    and "ev x act = Inr (VStr s) \<Longrightarrow> ev (Call Equals x (Literal (VStr t))) act = Inr (VBool (s = t))"
    and "ev x act = Inr (VBool p) \<Longrightarrow> ev (Call Equals x (Literal (VBool q))) act = Inr (VBool (p = q))"
    and "ev x act = Inr (VBool p) \<Longrightarrow> ev y act = Inr (VBool q) \<Longrightarrow> ev (Call LogicalAnd x y) act = Inr (VBool (p \<and> q))"
    and "ev x act = Inr (VStr s) \<Longrightarrow> ev (Call In x (NewList (map (\<lambda>t. Literal (VStr t)) ts))) act = Inr (VBool (s \<in> set ts))"
proof -
  note lit = cel_semD(3) [OF assms]
  show "ev x act = Inr (VInt a) \<Longrightarrow> ev (Call Equals x (Literal (VInt b))) act = Inr (VBool (a = b))"
    and "ev x act = Inr (VInt a) \<Longrightarrow> ev (Call NotEquals x (Literal (VInt b))) act = Inr (VBool (a \<noteq> b))"
    by (simp_all add: cel_semD(4) [OF assms] lit)
  show "ev x act = Inr (VStr s) \<Longrightarrow> ev (Call Equals x (Literal (VStr t))) act = Inr (VBool (s = t))"
    by (simp add: cel_semD(5) [OF assms] lit)
  show "ev x act = Inr (VBool p) \<Longrightarrow> ev (Call Equals x (Literal (VBool q))) act = Inr (VBool (p = q))"
    and "ev x act = Inr (VBool p) \<Longrightarrow> ev y act = Inr (VBool q) \<Longrightarrow> ev (Call LogicalAnd x y) act = Inr (VBool (p \<and> q))"
    by (simp_all add: cel_semD(6) [OF assms] lit)
  assume "ev x act = Inr (VStr s)"
  moreover have "ev (NewList (map (\<lambda>t. Literal (VStr t)) ts)) act = Inr (VList (map VStr ts))"
    by (rule cel_semD(7) [OF assms]) (simp add: list_all2_conv_all_nth lit)
  ultimately show "ev (Call In x (NewList (map (\<lambda>t. Literal (VStr t)) ts))) act = Inr (VBool (s \<in> set ts))"
    by (simp add: cel_semD(8) [OF assms] image_iff)
qed

lemma field_values:
  assumes "cel_semantics ev"
  shows "ev (event_field ''Resource'') (populateActivation e []) = Inr (VStr (ResourceOf e))"
    and "ev (event_field ''State'') (populateActivation e []) = Inr (VStr (StateOf e))"
    and "ev (event_field ''SCMEventType'') (populateActivation e []) = Inr (VStr (SCMEventType e))"
    and "ev (event_field ''IsFinallyTask'') (populateActivation e []) = Inr (VBool (IsFinallyTask e))"
    and "ev (event_field ''IssueNumber'') (populateActivation e []) = Inr (VInt (number_of (IssueNumber e)))"
    and "ev (event_field ''PRNumber'') (populateActivation e []) = Inr (VInt (number_of (PRNumber e)))"
    and "ev (event_field ''DiscussionNumber'') (populateActivation e []) = Inr (VInt (number_of (DiscussionNumber e)))"
  by (rule event_field_value [OF assms], simp add: event_map_def)+

lemma macro_resource:
  assumes "cel_semantics ev" and "expand_macro name [] = buildResourceEqualityMacro v []"
  shows "macro_value ev e name [] = Inr (VBool (ResourceOf e = v))"
  using cel_ops(3) [OF assms(1) field_values(1) [OF assms(1)]] assms(2)
  by (simp add: macro_value_def buildResourceEqualityMacro_def)

lemma macro_scm_event:
  assumes "cel_semantics ev" and "expand_macro name [] = buildSCMEventTypeMacro v []"
  shows "macro_value ev e name [] = Inr (VBool (SCMEventType e = v))"
  using cel_ops(3) [OF assms(1) field_values(3) [OF assms(1)]] assms(2)
  by (simp add: macro_value_def buildSCMEventTypeMacro_def)

section \<open>Properties\<close>

text \<open>
  C5 The macros of conditions mean what their names say, on every event and under the semantics of CEL:
  the resource and webhook macros compare the field exactly, a missing number counts as zero, an issue
  is one that is neither a pull request nor a discussion, and \<^verbatim>\<open>stateIn\<close> is membership, an error without
  arguments.
\<close>

theorem macros_decide:
  assumes "cel_semantics ev"
  shows "macro_value ev e ''isPR'' [] = Inr (VBool (number_of (PRNumber e) \<noteq> 0)) \<and>
    macro_value ev e ''isDiscussion'' [] = Inr (VBool (number_of (DiscussionNumber e) \<noteq> 0)) \<and>
    macro_value ev e ''isIssue'' [] = Inr (VBool (number_of (IssueNumber e) \<noteq> 0 \<and> number_of (PRNumber e) = 0 \<and>
      number_of (DiscussionNumber e) = 0)) \<and>
    macro_value ev e ''isTaskRun'' [] = Inr (VBool (ResourceOf e = ResourceTaskRun)) \<and>
    macro_value ev e ''isPipelineRun'' [] = Inr (VBool (ResourceOf e = ResourcePipelineRun)) \<and>
    macro_value ev e ''isCustomRun'' [] = Inr (VBool (ResourceOf e = ResourceCustomRun)) \<and>
    macro_value ev e ''isEventListener'' [] = Inr (VBool (ResourceOf e = ResourceEventListener)) \<and>
    macro_value ev e ''isFinallyTask'' [] = Inr (VBool (IsFinallyTask e)) \<and>
    macro_value ev e ''isIssueEvent'' [] = Inr (VBool (SCMEventType e = ''issues'')) \<and>
    macro_value ev e ''isPREvent'' [] = Inr (VBool (SCMEventType e = ''pull_request'')) \<and>
    macro_value ev e ''isCommentEvent'' [] = Inr (VBool (SCMEventType e = ''issue_comment'')) \<and>
    macro_value ev e ''isPushEvent'' [] = Inr (VBool (SCMEventType e = ''push'')) \<and>
    macro_value ev e ''stateIn'' (map (\<lambda>t. Literal (VStr t)) states) =
      (if states = [] then Inl (Err ''stateIn() requires at least one argument'')
       else Inr (VBool (StateOf e \<in> set states)))"
proof (intro conjI)
  note f = field_values [OF assms, of e] and op = cel_ops [OF assms]
  show "macro_value ev e ''isPR'' [] = Inr (VBool (number_of (PRNumber e) \<noteq> 0))"
    using op(2) [OF f(6)] by (simp add: macro_value_def expand_macro_def domainMacros_def buildNotEqualZeroMacro_def)
  show "macro_value ev e ''isDiscussion'' [] = Inr (VBool (number_of (DiscussionNumber e) \<noteq> 0))"
    using op(2) [OF f(7)] by (simp add: macro_value_def expand_macro_def domainMacros_def buildNotEqualZeroMacro_def)
  show "macro_value ev e ''isIssue'' [] = Inr (VBool (number_of (IssueNumber e) \<noteq> 0 \<and> number_of (PRNumber e) = 0 \<and>
      number_of (DiscussionNumber e) = 0))"
    using op(5) [OF op(5) [OF op(2) [OF f(5)] op(1) [OF f(6)]] op(1) [OF f(7)]]
    by (simp add: macro_value_def expand_macro_def domainMacros_def isIssueMacroExpander_def Let_def)
  show "macro_value ev e ''isFinallyTask'' [] = Inr (VBool (IsFinallyTask e))"
    using op(4) [OF f(4), of True] by (simp add: macro_value_def expand_macro_def domainMacros_def buildBoolFieldMacro_def)
  show "macro_value ev e ''stateIn'' (map (\<lambda>t. Literal (VStr t)) states) =
      (if states = [] then Inl (Err ''stateIn() requires at least one argument'')
       else Inr (VBool (StateOf e \<in> set states)))"
    using op(6) [OF f(2)] by (simp add: macro_value_def expand_macro_def domainMacros_def stateInMacroExpander_def)
qed (rule macro_resource [OF assms] macro_scm_event [OF assms], simp add: expand_macro_def domainMacros_def)+

text \<open>An evaluator for the witness, with the short cut of the conjunction.\<close>

fun ref_ev :: "cexpr \<Rightarrow> activation \<Rightarrow> cval result" and ref_list :: "cexpr list \<Rightarrow> activation \<Rightarrow> cval list result" where
  "ref_ev (Ident x) act = (case map_of act x of Some v \<Rightarrow> Inr v | None \<Rightarrow> Inl (Err ''no such attribute''))"
| "ref_ev (Select x f) act =
     (case ref_ev x act of
        Inr (VMap m) \<Rightarrow> (case map_of m f of Some v \<Rightarrow> Inr v | None \<Rightarrow> Inl (Err ''no such key''))
      | Inr _ \<Rightarrow> Inl (Err ''no such overload'')
      | Inl e \<Rightarrow> Inl e)"
| "ref_ev (Literal v) act = Inr v"
| "ref_ev (NewList xs) act = (case ref_list xs act of Inl e \<Rightarrow> Inl e | Inr vs \<Rightarrow> Inr (VList vs))"
| "ref_ev (Call op x y) act =
     (case (ref_ev x act, ref_ev y act) of
        (Inr a, Inr b) \<Rightarrow>
          (case op of
             Equals \<Rightarrow> Inr (VBool (a = b))
           | NotEquals \<Rightarrow> Inr (VBool (a \<noteq> b))
           | LogicalAnd \<Rightarrow> (case (a, b) of (VBool p, VBool q) \<Rightarrow> Inr (VBool (p \<and> q)) | _ \<Rightarrow> Inl (Err ''no such overload''))
           | In \<Rightarrow> (case b of VList vs \<Rightarrow> Inr (VBool (a \<in> set vs)) | _ \<Rightarrow> Inl (Err ''no such overload'')))
      | _ \<Rightarrow> Inl (Err ''no such overload''))"
| "ref_list [] act = Inr []"
| "ref_list (x # xs) act =
     (case (ref_ev x act, ref_list xs act) of (Inr v, Inr vs) \<Rightarrow> Inr (v # vs) | _ \<Rightarrow> Inl (Err ''no such overload''))"

lemma ref_list_values: "list_all2 (\<lambda>x v. ref_ev x act = Inr v) xs vs \<Longrightarrow> ref_list xs act = Inr vs"
  by (induction rule: list_all2_induct) simp_all

lemma ref_semantics: "cel_semantics ref_ev"
  unfolding cel_semantics_def by (auto simp: ref_list_values)

definition demo_pr :: Event where
  "demo_pr = zero_event\<lparr>ResourceOf := ''taskrun'', StateOf := ''failure'', PRNumber := Some 7, IssueNumber := Some 7,
     Results := [\<lparr>ResultName = ''approved'', ResultValue = ''yes''\<rparr>]\<rparr>"

theorem macros_decide_witness:
  "macro_value ref_ev demo_pr ''isPR'' [] = Inr (VBool True) \<and> macro_value ref_ev demo_pr ''isIssue'' [] = Inr (VBool False) \<and>
   macro_value ref_ev demo_pr ''stateIn'' [Literal (VStr ''failure''), Literal (VStr ''error'')] = Inr (VBool True)"
  using macros_decide [OF ref_semantics, of demo_pr "[''failure'', ''error'']"]
  by (simp add: demo_pr_def number_of_def)

text \<open>
  C6 The cache of compiled programs is transparent: when every program in it is what compiling its
  expression gives, \<^verbatim>\<open>Compile\<close> answers what compiling afresh would answer, for every expression and
  whatever was compiled before, and the cache stays so; programs that return something else than a
  bool are refused and never cached.
\<close>

definition cache_ok :: "celtype \<Rightarrow> 'a CelLib \<Rightarrow> program_cache \<Rightarrow> bool" where
  "cache_ok ty lib cache \<longleftrightarrow> (\<forall>x p. map_of cache x = Some p \<longrightarrow> compile_fresh ty lib x = Inr p \<and> celExpr p = x)"

lemma compile_fresh_expr: "compile_fresh ty lib x = Inr p \<Longrightarrow> celExpr p = x"
  by (auto simp: compile_fresh_def split: option.splits sum.splits if_splits)

lemma compile_cached_ok:
  assumes "cache_ok ty lib cache"
  shows "fst (compile_cached ty lib x cache) = (if x = '''' then Inl (Err ''cel: empty expression'') else compile_fresh ty lib x)"
    and "cache_ok ty lib (snd (compile_cached ty lib x cache))"
  using assms by (auto simp: compile_cached_def cache_ok_def update_conv' compile_fresh_expr split: option.splits sum.splits if_splits)

fun compile_all :: "celtype \<Rightarrow> 'a CelLib \<Rightarrow> string list \<Rightarrow> program_cache \<Rightarrow> Program result list \<times> program_cache" where
  "compile_all ty lib [] cache = ([], cache)"
| "compile_all ty lib (x # xs) cache =
     (case compile_cached ty lib x cache of (r, cache') \<Rightarrow>
        (case compile_all ty lib xs cache' of (rs, cache'') \<Rightarrow> (r # rs, cache'')))"

lemma compile_all_ok:
  "cache_ok ty lib cache \<Longrightarrow> compile_all ty lib xs cache = (rs, cache') \<Longrightarrow>
     rs = map (\<lambda>x. if x = '''' then Inl (Err ''cel: empty expression'') else compile_fresh ty lib x) xs \<and> cache_ok ty lib cache'"
proof (induction xs arbitrary: cache rs)
  case (Cons x xs)
  then show ?case using compile_cached_ok [OF Cons.prems(1), of x] by (auto split: prod.splits)
qed simp

theorem compile_cache_transparent:
  assumes "compile_all BoolType lib xs [] = (rs, cache)"
  shows "fst (Compile lib x cache) = fst (Compile lib x []) \<and>
    rs = map (\<lambda>x. fst (Compile lib x [])) xs \<and>
    (\<forall>p. fst (Compile lib x cache) = Inr p \<longrightarrow> celExpr p = x \<and> (\<exists>a. clCompile lib domainMacros x = Inr (a, BoolType)))"
proof -
  have e: "cache_ok BoolType lib []" by (simp add: cache_ok_def)
  note c = compile_all_ok [OF e assms]
  have fresh: "fst (Compile lib x []) = (if x = '''' then Inl (Err ''cel: empty expression'') else compile_fresh BoolType lib x)" for x
    using compile_cached_ok(1) [OF e] by (simp add: Compile_def)
  moreover have "fst (Compile lib x cache) = fst (Compile lib x [])"
    using compile_cached_ok(1) [OF conjunct2 [OF c]] fresh by (simp add: Compile_def)
  moreover have "compile_fresh BoolType lib x = Inr p \<Longrightarrow> celExpr p = x \<and> (\<exists>a. clCompile lib domainMacros x = Inr (a, BoolType))" for p
    by (auto simp: compile_fresh_def split: option.splits sum.splits if_splits)
  ultimately show ?thesis using c by (auto split: if_splits)
qed

definition demo_lib :: "unit CelLib" where
  "demo_lib = \<lparr>clNewEnv = \<lambda>_. None,
     clCompile = \<lambda>_ x. if x = ''true'' then Inr ((), BoolType) else if x = ''1'' then Inr ((), OtherType ''int'') else Inl (Err ''syntax''),
     clProgram = \<lambda>_. Inr (\<lambda>act. Return (Inr (VBool True)))\<rparr>"

theorem compile_cache_transparent_witness:
  "let (rs, cache) = compile_all BoolType demo_lib [''true'', ''1'', ''true''] [] in
     length cache = 1 \<and> rs ! 1 = Inl (Err ''cel: expression must return bool, got int'') \<and>
     fst (Compile demo_lib ''true'' cache) = fst (Compile demo_lib ''true'' [])"
proof -
  obtain rs cache where r: "compile_all BoolType demo_lib [''true'', ''1'', ''true''] [] = (rs, cache)" by fastforce
  have "length cache = 1 \<and> rs ! 1 = Inl (Err ''cel: expression must return bool, got int'')"
    using r by (auto simp: compile_cached_def compile_fresh_def demo_lib_def)
  with compile_cache_transparent [OF r, of "''true''"] r show ?thesis by simp
qed

text \<open>
  C4 Evaluations at once: in every interleaving an evaluation ends with the value its program has on its
  own event, provided that the program calls none of the functions over duration and results, or that
  all evaluations are of events with the same duration and results (the handlers of one event).
\<close>

theorem evaluations_undisturbed:
  assumes "eval_steps (g0, begun calls) (g, evs)" and "(p, e, Ended v) \<in> set evs"
    and "calls_nothing p \<or> (\<forall>(p, e) \<in> set calls. \<forall>(p', e') \<in> set calls. globals_of e = globals_of e')"
  shows "bool_result v = Eval p e \<and> string_result v = EvalString p e"
proof -
  have "eval_inv (g0, begun calls)" by (auto simp: eval_inv_def begun_def)
  from eval_steps_inv [OF assms(1) this] have "eval_ok (same_globals evs) g (p, e, Ended v)"
    using assms(2) by (auto simp: eval_inv_def)
  moreover have "calls_of evs = calls"
    using eval_steps_calls [OF assms(1)] by (simp add: calls_of_begun)
  ultimately have "v = own_value p e" using assms(3) by (auto simp: same_globals_calls)
  then show ?thesis by (simp add: Eval_own_value EvalString_def own_value_def)
qed

definition has_approved :: Program where
  "has_approved = \<lparr>celProg = \<lambda>act. HasResult ''approved'' (\<lambda>b. Return (Inr (VBool b))), celExpr = ''hasResult(\"approved\")''\<rparr>"

lemma celProg_approved: "celProg has_approved act = HasResult ''approved'' (\<lambda>b. Return (Inr (VBool b)))"
  by (simp add: has_approved_def)

definition no_globals :: globals where
  "no_globals = \<lparr>currentBuildDurationMs = 0, currentResults = []\<rparr>"

text \<open>The steps of one evaluation that is not interrupted, for a program of one call.\<close>

lemma eval_run_has:
  assumes "i < length evs" and "evs ! i = (has_approved, e, Running (celProg has_approved act))"
  shows "eval_steps (g, evs) (g, evs[i := (has_approved, e, Ended (Inr (VBool (resultHasValue g ''approved''))))])"
proof -
  have "eval_step (g, evs) (g, evs[i := (has_approved, e, Running (Return (Inr (VBool (resultHasValue g ''approved'')))))])"
    using call_has [OF assms(1), of has_approved e "''approved''" "\<lambda>b. Return (Inr (VBool b))"] assms(2)
    by (simp add: celProg_approved)
  moreover have "eval_step \<dots> (g, evs[i := (has_approved, e, Ended (Inr (VBool (resultHasValue g ''approved''))))])"
    using return [of i "evs[i := (has_approved, e, Running (Return (Inr (VBool (resultHasValue g ''approved'')))))]"] assms(1)
    by simp
  ultimately show ?thesis by (meson r_into_rtranclp rtranclp.rtrancl_into_rtrancl)
qed

lemma eval_setup:
  assumes "i < length evs" and "evs ! i = (p, e, Begun)"
  shows "eval_steps (g, evs) (globals_of e, evs[i := (p, e, Running (celProg p (populateActivation e [])))])"
proof -
  have "eval_step (g, evs) (g\<lparr>currentBuildDurationMs := duration_ms e\<rparr>, evs[i := (p, e, DurationSet)])"
    using assms by (rule set_duration)
  moreover have "eval_step \<dots> (globals_of e, evs[i := (p, e, Running (celProg p (populateActivation e [])))])"
    using set_results [of i "evs[i := (p, e, DurationSet)]" p e "g\<lparr>currentBuildDurationMs := duration_ms e\<rparr>"] assms(1)
    by (cases g) (simp add: globals_of_def)
  ultimately show ?thesis by (meson r_into_rtranclp rtranclp.rtrancl_into_rtrancl)
qed

text \<open>
  C5 Evaluations of different events disturb each other: the condition \<^verbatim>\<open>hasResult("approved")\<close> of an event
  without that result ends with true when another event that has it is evaluated in between, so an
  action guarded by it runs for the wrong event; and the other way round it is skipped.
\<close>

theorem evaluations_mix_events:
  assumes "resultHasValue (globals_of e) ''approved'' \<noteq> resultHasValue (globals_of e') ''approved''"
  shows "\<exists>g evs v. eval_steps (g0, begun [(has_approved, e), (p, e')]) (g, evs) \<and> evs ! 0 = (has_approved, e, Ended v) \<and>
    bool_result v = Eval has_approved e' \<and> bool_result v \<noteq> Eval has_approved e"
proof -
  let ?r = "\<lambda>p e. Running (celProg p (populateActivation e []))"
  let ?s1 = "(globals_of e, [(has_approved, e, ?r has_approved e), (p, e', Begun)])"
  let ?s2 = "(globals_of e', [(has_approved, e, ?r has_approved e), (p, e', ?r p e')])"
  let ?v = "Inr (VBool (resultHasValue (globals_of e') ''approved''))"
  let ?s3 = "(globals_of e', [(has_approved, e, Ended ?v), (p, e', ?r p e')])"
  have "eval_steps (g0, begun [(has_approved, e), (p, e')]) ?s1"
    using eval_setup [of 0 "begun [(has_approved, e), (p, e')]" has_approved e g0] by (simp add: begun_def)
  moreover have "eval_steps ?s1 ?s2"
    using eval_setup [of 1 "[(has_approved, e, ?r has_approved e), (p, e', Begun)]" p e' "globals_of e"] by simp
  moreover have "eval_steps ?s2 ?s3"
    using eval_run_has [of 0 "[(has_approved, e, ?r has_approved e), (p, e', ?r p e')]" e _ "globals_of e'"] by simp
  ultimately have steps: "eval_steps (g0, begun [(has_approved, e), (p, e')]) ?s3"
    by (meson rtranclp_trans)
  have "Eval has_approved x = Inr (resultHasValue (globals_of x) ''approved'')" for x
    by (simp add: Eval_def celProg_approved)
  with assms have "bool_result ?v = Eval has_approved e' \<and> bool_result ?v \<noteq> Eval has_approved e" by simp
  moreover have "snd ?s3 ! 0 = (has_approved, e, Ended ?v)" by simp
  ultimately show ?thesis using steps by (metis snd_conv)
qed

theorem evaluations_mix_events_witness:
  "\<exists>g evs v. eval_steps (no_globals, begun [(has_approved, zero_event), (has_approved, demo_pr)]) (g, evs) \<and>
    evs ! 0 = (has_approved, zero_event, Ended v) \<and> bool_result v = Inr True"
proof -
  have no: "\<not> resultHasValue (globals_of zero_event) ''approved''" and yes: "resultHasValue (globals_of demo_pr) ''approved''"
    by (simp_all add: resultHasValue_def globals_of_def results_map_def zero_event_def demo_pr_def)
  then have "Eval has_approved demo_pr = Inr True" by (simp add: Eval_def celProg_approved)
  with evaluations_mix_events [of zero_event demo_pr no_globals has_approved] no yes show ?thesis by metis
qed

theorem evaluations_undisturbed_witness:
  "\<exists>g evs v. eval_steps (no_globals, begun [(has_approved, demo_pr)]) (g, evs) \<and> (has_approved, demo_pr, Ended v) \<in> set evs \<and>
    bool_result v = Eval has_approved demo_pr"
proof -
  let ?r = "Running (celProg has_approved (populateActivation demo_pr []))"
  let ?v = "Inr (VBool (resultHasValue (globals_of demo_pr) ''approved''))"
  have "eval_steps (no_globals, begun [(has_approved, demo_pr)]) (globals_of demo_pr, [(has_approved, demo_pr, ?r)])"
    using eval_setup [of 0 "begun [(has_approved, demo_pr)]" has_approved demo_pr no_globals] by (simp add: begun_def)
  moreover have "eval_steps (globals_of demo_pr, [(has_approved, demo_pr, ?r)]) (globals_of demo_pr, [(has_approved, demo_pr, Ended ?v)])"
    using eval_run_has [of 0 "[(has_approved, demo_pr, ?r)]"] by simp
  ultimately have "eval_steps (no_globals, begun [(has_approved, demo_pr)]) (globals_of demo_pr, [(has_approved, demo_pr, Ended ?v)])"
    by (rule rtranclp_trans)
  from evaluations_undisturbed [OF this, of has_approved demo_pr ?v] this show ?thesis by force
qed

end
