(* ===== verification/Relay_Retry.thy ===== *)
theory Relay_Retry
  imports Relay_Domain Go_Time
begin

text \<open>
  \<^verbatim>\<open>internal/httpx/retry.go\<close>: the retry policy of outbound requests. The loop itself is the package
  go-retryablehttp, an argument with its documented behaviour as the locale \<open>retry_client\<close>; the policy,
  the decision to retry, the delays and the errors are the relay's.
\<close>

section \<open>The policy\<close>

record RetryPolicy =
  MaxAttempts :: int
  InitialBackoff :: int
  MaxBackoff :: int

definition DefaultRetryPolicy :: RetryPolicy where
  "DefaultRetryPolicy = \<lparr>MaxAttempts = 4, InitialBackoff = 250 * 10 ^ 6, MaxBackoff = 30 * 10 ^ 9\<rparr>"

definition normalized :: "RetryPolicy \<Rightarrow> RetryPolicy" where
  "normalized p =
     (let p1 = (if MaxAttempts p \<le> 0 then p\<lparr>MaxAttempts := MaxAttempts DefaultRetryPolicy\<rparr> else p);
          p2 = (if InitialBackoff p1 \<le> 0 then p1\<lparr>InitialBackoff := InitialBackoff DefaultRetryPolicy\<rparr> else p1);
          p3 = (if MaxBackoff p2 \<le> 0 then p2\<lparr>MaxBackoff := MaxBackoff DefaultRetryPolicy\<rparr> else p2)
      in if MaxBackoff p3 < InitialBackoff p3 then p3\<lparr>MaxBackoff := InitialBackoff p3\<rparr> else p3)"

section \<open>Decisions and delays\<close>

text \<open>A response: its status and its \<^verbatim>\<open>Retry-After\<close> header, empty when absent.\<close>

record response =
  StatusCode :: int
  RetryAfter :: string

abbreviation "StatusRequestTimeout \<equiv> (408 :: int)"
abbreviation "StatusTooManyRequests \<equiv> (429 :: int)"
abbreviation "StatusServiceUnavailable \<equiv> (503 :: int)"

definition CheckRetry :: "response result \<Rightarrow> bool" where
  "CheckRetry a =
     (case a of
        Inl e \<Rightarrow> True
      | Inr resp \<Rightarrow> StatusCode resp = StatusRequestTimeout \<or> StatusCode resp = StatusTooManyRequests \<or>
          (500 \<le> StatusCode resp \<and> StatusCode resp < 600))"

definition retryReason :: "response option \<Rightarrow> string" where
  "retryReason r =
     (case r of
        None \<Rightarrow> ''network_error''
      | Some resp \<Rightarrow>
          if StatusCode resp = StatusTooManyRequests then ''rate_limit''
          else if StatusCode resp = StatusRequestTimeout then ''timeout''
          else if StatusCode resp \<ge> 500 then ''server_error''
          else ''other'')"

text \<open>\<open>ParseTime\<close> reads an HTTP date; a duration is 64 bits wide.\<close>

definition retryAfterDelay :: "(string \<Rightarrow> Time option) \<Rightarrow> Time \<Rightarrow> response option \<Rightarrow> int \<Rightarrow> int option" where
  "retryAfterDelay ParseTime now r maxWait =
     (case r of
        None \<Rightarrow> None
      | Some resp \<Rightarrow>
          if StatusCode resp \<noteq> StatusTooManyRequests \<and> StatusCode resp \<noteq> StatusServiceUnavailable then None
          else if RetryAfter resp = '''' then None
          else case (case Atoi (RetryAfter resp) of Some secs \<Rightarrow> if secs \<ge> 0 then Some secs else None | None \<Rightarrow> None) of
                 Some secs \<Rightarrow>
                   (let d = wrap64 (secs * nsPerSec) in Some (if d > maxWait then maxWait else d))
               | None \<Rightarrow>
                   (case ParseTime (RetryAfter resp) of
                      Some t \<Rightarrow>
                        (let d = time_Sub t now; d1 = (if d < 0 then 0 else d)
                         in Some (if d1 > maxWait then maxWait else d1))
                    | None \<Rightarrow> None))"

text \<open>\<open>minWait << attemptNum\<close> drops what does not fit; \<open>randN n\<close> is a random number below \<open>n\<close>.\<close>

definition backoff_base :: "int \<Rightarrow> int \<Rightarrow> nat \<Rightarrow> int" where
  "backoff_base minWait maxWait attemptNum =
     (let delay = wrap64 (minWait * 2 ^ attemptNum)
      in if delay \<le> 0 \<or> delay > maxWait then maxWait else delay)"

definition backoffWithJitter :: "(int \<Rightarrow> int) \<Rightarrow> int \<Rightarrow> int \<Rightarrow> nat \<Rightarrow> int" where
  "backoffWithJitter randN minWait maxWait attemptNum =
     (let half = backoff_base minWait maxWait attemptNum div 2 in half + randN (half + 1))"

definition Backoff :: "(int \<Rightarrow> int) \<Rightarrow> (string \<Rightarrow> Time option) \<Rightarrow> Time \<Rightarrow> int \<Rightarrow> int \<Rightarrow> nat \<Rightarrow> response option \<Rightarrow> int" where
  "Backoff randN ParseTime now minWait maxWait attemptNum resp =
     (case retryAfterDelay ParseTime now resp maxWait of
        Some d \<Rightarrow> d | None \<Rightarrow> backoffWithJitter randN minWait maxWait attemptNum)"

section \<open>The request\<close>

text \<open>The settings of the client that decide how often a request is sent; an attempt is a response or a network error.\<close>

record RetryClient =
  RetryMax :: int
  RetryWaitMin :: int
  RetryWaitMax :: int
  rcCheckRetry :: "response result \<Rightarrow> bool"

type_synonym Do_fun = "RetryClient \<Rightarrow> (nat \<Rightarrow> response result) \<Rightarrow> response result list \<times> response result"

definition as_response :: "response result \<Rightarrow> response option" where
  "as_response a = (case a of Inl _ \<Rightarrow> None | Inr r \<Rightarrow> Some r)"

definition observeRetry :: "string \<Rightarrow> string \<Rightarrow> Collectors option \<Rightarrow> Collectors option" where
  "observeRetry host reason m = IncIf [''Retries'', host, reason] m"

definition observeRateLimitHit :: "string \<Rightarrow> Collectors option \<Rightarrow> Collectors option" where
  "observeRateLimitHit host m = IncIf [''RateLimitHits'', host] m"

text \<open>What the callbacks count: every answer 429, and the reason of every retry.\<close>

fun observe_attempts :: "string \<Rightarrow> response result list \<Rightarrow> Collectors option \<Rightarrow> Collectors option" where
  "observe_attempts host [] m = m"
| "observe_attempts host (a # as) m =
     (let m1 = (case a of Inr resp \<Rightarrow> if StatusCode resp = StatusTooManyRequests then observeRateLimitHit host m else m | Inl _ \<Rightarrow> m);
          m2 = (if as = [] then m1 else observeRetry host (retryReason (as_response a)) m1)
      in observe_attempts host as m2)"

definition DoWithRetryPolicy ::
  "Do_fun \<Rightarrow> err option \<Rightarrow> string \<Rightarrow> RetryPolicy \<Rightarrow> (nat \<Rightarrow> response result) \<Rightarrow> Collectors option \<Rightarrow>
   response result \<times> response result list \<times> Collectors option" where
  "DoWithRetryPolicy Do bad_body host policy attempt m =
     (let p = normalized policy;
          rc = \<lparr>RetryMax = MaxAttempts p - 1, RetryWaitMin = InitialBackoff p, RetryWaitMax = MaxBackoff p, rcCheckRetry = CheckRetry\<rparr>
      in case bad_body of
           Some e \<Rightarrow> (Inl e, [], m)
         | None \<Rightarrow>
             (case Do rc attempt of
                (made, r) \<Rightarrow>
                  ((case r of
                      Inl e \<Rightarrow> Inl (NewRetryable (Wrap (''after '' @ Itoa (MaxAttempts p) @ '' attempts: '') e) ''max_retries'')
                    | Inr resp \<Rightarrow> Inr resp), made, observe_attempts host made m)))"

text \<open>
  The documented behaviour of the client: a request is sent again while \<^verbatim>\<open>CheckRetry\<close> says so and at most
  \<^verbatim>\<open>RetryMax\<close> times; the answer of an attempt that is not to be retried is returned, otherwise an error.
\<close>

locale retry_client =
  fixes Do :: Do_fun
  assumes made: "Do c f = (as, r) \<Longrightarrow> 0 \<le> RetryMax c \<Longrightarrow> \<exists>n. as = map f [0..<Suc n] \<and> int n \<le> RetryMax c"
    and repeats: "Do c f = (as, r) \<Longrightarrow> Suc i < length as \<Longrightarrow> rcCheckRetry c (as ! i)"
    and accepted: "Do c f = (as, r) \<Longrightarrow> 0 \<le> RetryMax c \<Longrightarrow> \<not> rcCheckRetry c (last as) \<Longrightarrow> r = last as"
    and gives_up: "Do c f = (as, r) \<Longrightarrow> 0 \<le> RetryMax c \<Longrightarrow> rcCheckRetry c (last as) \<Longrightarrow> \<exists>e. r = Inl e"

text \<open>A client that retries without a pause.\<close>

fun tries :: "nat \<Rightarrow> (response result \<Rightarrow> bool) \<Rightarrow> (nat \<Rightarrow> response result) \<Rightarrow> nat \<Rightarrow> response result list" where
  "tries 0 check f i = [f i]"
| "tries (Suc k) check f i = f i # (if check (f i) then tries k check f (Suc i) else [])"

definition eager_Do :: Do_fun where
  "eager_Do c f =
     (let as = tries (nat (RetryMax c)) (rcCheckRetry c) f 0
      in (as, if rcCheckRetry c (last as) then Inl (Err ''giving up'') else last as))"

lemma tries_prefix: "\<exists>n. tries k check f i = map f [i..<Suc (i + n)] \<and> n \<le> k"
proof (induction k arbitrary: i)
  case (Suc k)
  show ?case
  proof (cases "check (f i)")
    case True
    obtain n where n: "tries k check f (Suc i) = map f [Suc i..<Suc (Suc i + n)]" "n \<le> k" using Suc by blast
    have "[i..<Suc (i + Suc n)] = i # [Suc i..<Suc (Suc i + n)]" by (simp add: upt_conv_Cons)
    with n True show ?thesis by (intro exI [of _ "Suc n"]) (simp del: upt_Suc)
  next
    case False
    then show ?thesis by (intro exI [of _ 0]) simp
  qed
qed (auto intro: exI [of _ 0])

lemma tries_repeat: "Suc j < length (tries k check f i) \<Longrightarrow> check (tries k check f i ! j)"
proof (induction k arbitrary: i j)
  case (Suc k)
  then show ?case by (cases j) (auto split: if_splits)
qed simp

interpretation eager: retry_client eager_Do
proof
  fix c f as r i
  assume d: "eager_Do c f = (as, r)"
  show "0 \<le> RetryMax c \<Longrightarrow> \<exists>n. as = map f [0..<Suc n] \<and> int n \<le> RetryMax c"
    using d tries_prefix [of "nat (RetryMax c)" "rcCheckRetry c" f 0] by (auto simp: eager_Do_def Let_def)
  show "Suc i < length as \<Longrightarrow> rcCheckRetry c (as ! i)"
    using d tries_repeat by (auto simp: eager_Do_def Let_def)
qed (auto simp: eager_Do_def Let_def split: if_splits)

section \<open>Properties\<close>

lemma wrap64_cong: "2 ^ 64 dvd wrap64 x - x"
proof -
  have "(x + 2 ^ 63) mod 2 ^ 64 - (x + 2 ^ 63) = - (2 ^ 64 * ((x + 2 ^ 63) div 2 ^ 64))"
    by (simp add: minus_mult_div_eq_mod [symmetric])
  then have "wrap64 x - x = 2 ^ 64 * - ((x + 2 ^ 63) div 2 ^ 64)" by (simp add: wrap64_def)
  then show ?thesis by (rule dvdI)
qed

lemma shift_overflow_large:
  assumes "0 < wrap64 (a * 2 ^ n)" and "wrap64 (a * 2 ^ n) \<le> M" and "1 \<le> a" and "a * M < 2 ^ 63"
  shows "a * 2 ^ n < 2 ^ 63"
proof -
  let ?v = "wrap64 (a * 2 ^ n)" and ?k = "min n 64"
  have "(2 :: int) ^ ?k dvd a * 2 ^ n" "(2 :: int) ^ ?k dvd 2 ^ 64"
    by (simp add: le_imp_power_dvd, rule le_imp_power_dvd, rule min.cobounded2)
  then have "2 ^ ?k dvd (?v - a * 2 ^ n) + a * 2 ^ n"
    using dvd_trans [OF _ wrap64_cong] by (intro dvd_add) auto
  then have "2 ^ ?k dvd ?v" by simp
  with assms(1,2) have k: "2 ^ ?k \<le> M" by (meson order.trans zdvd_imp_le)
  have "a * 2 ^ ?k \<le> a * M" using k assms(3) by (intro mult_left_mono) auto
  with assms(4) have l: "a * 2 ^ ?k < 2 ^ 63" by linarith
  show ?thesis
  proof (cases "n \<le> 64")
    case True
    with l show ?thesis by (simp add: min_def)
  next
    case False
    then have "a * 2 ^ 64 < 2 ^ 63" using l by (simp add: min_def)
    with assms(3) have False by simp
    then show ?thesis ..
  qed
qed

text \<open>
  C27 Delays stay in their bounds: with a shortest wait \<open>a\<close> and a longest \<open>M\<close> whose product fits in 64 bits
  (as for the default policy), the base of the delay before retry \<open>n\<close> is exactly the smaller of \<open>M\<close> and
  \<open>a\<close> doubled \<open>n\<close> times, for every \<open>n\<close>, however far the shift overflows; and the delay lies between half
  of the base and the base for every random number.
\<close>

theorem backoff_bounds:
  assumes "0 < a" and "a \<le> M" and "a * M < 2 ^ 63" and "\<forall>k > 0. 0 \<le> randN k \<and> randN k < k"
  shows "backoff_base a M n = min M (a * 2 ^ n) \<and>
    min M (a * 2 ^ n) div 2 \<le> backoffWithJitter randN a M n \<and> backoffWithJitter randN a M n \<le> min M (a * 2 ^ n)"
proof -
  have base: "backoff_base a M n = min M (a * 2 ^ n)"
  proof (cases "a * 2 ^ n < 2 ^ 63")
    case True
    with assms(1) have "wrap64 (a * 2 ^ n) = a * 2 ^ n" "0 < a * 2 ^ n"
      by (auto intro!: wrap64_id order_trans [OF _ mult_nonneg_nonneg])
    then show ?thesis by (simp add: backoff_base_def Let_def)
  next
    case False
    have "M * 1 \<le> M * a" using assms(1,2) by (intro mult_left_mono) auto
    with assms(3) False have "M < a * 2 ^ n" by (simp add: mult.commute)
    moreover have "wrap64 (a * 2 ^ n) \<le> 0 \<or> M < wrap64 (a * 2 ^ n)"
      using shift_overflow_large [of a n M] False assms by (meson int_one_le_iff_zero_less not_le)
    ultimately show ?thesis by (auto simp: backoff_base_def Let_def)
  qed
  let ?b = "min M (a * 2 ^ n)"
  have "0 < ?b" using assms(1,2) by simp
  then have "0 < ?b div 2 + 1" by linarith
  then have "0 \<le> randN (?b div 2 + 1) \<and> randN (?b div 2 + 1) < ?b div 2 + 1" using assms(4) by blast
  then have r: "0 \<le> randN (?b div 2 + 1)" "randN (?b div 2 + 1) \<le> ?b div 2" by linarith+
  have "?b div 2 + ?b div 2 \<le> ?b" by linarith
  with r base show ?thesis by (simp add: backoffWithJitter_def Let_def)
qed

theorem backoff_bounds_witness:
  "backoff_base (250 * 10 ^ 6) (30 * 10 ^ 9) 100 = 30 * 10 ^ 9 \<and>
   15 * 10 ^ 9 \<le> backoffWithJitter (\<lambda>k. 0) (250 * 10 ^ 6) (30 * 10 ^ 9) 100"
  using backoff_bounds [of "250 * 10 ^ 6" "30 * 10 ^ 9" "\<lambda>k. 0" 100] by simp

text \<open>
  A delay asked for by the server: a number of seconds is kept up to the longest wait as long as it
  fits in 64 bits of nanoseconds; from 9223372037 seconds on the product wraps, and up to 18446744073
  the delay is negative and below the bound, so the request is repeated at once.
\<close>

theorem retry_after_overflows:
  assumes "StatusCode resp = 429 \<or> StatusCode resp = 503" and "RetryAfter resp = Itoa secs" and "0 \<le> secs" and "secs < 2 ^ 63"
    and "0 \<le> maxWait"
  shows "(secs \<le> 9223372036 \<longrightarrow> retryAfterDelay P now (Some resp) maxWait = Some (min maxWait (secs * nsPerSec))) \<and>
    (9223372037 \<le> secs \<and> secs \<le> 18446744073 \<longrightarrow> (\<exists>d < 0. retryAfterDelay P now (Some resp) maxWait = Some d))"
proof -
  have a: "Atoi (RetryAfter resp) = Some secs" using assms(2-4) Atoi_Itoa [of secs] by simp
  moreover have "RetryAfter resp \<noteq> ''''" using a by (auto simp: Atoi_def)
  ultimately have d: "retryAfterDelay P now (Some resp) maxWait =
      Some (let d = wrap64 (secs * nsPerSec) in if d > maxWait then maxWait else d)"
    using assms(1,3) by (auto simp: retryAfterDelay_def Let_def)
  have small: "wrap64 (secs * nsPerSec) = secs * nsPerSec" if "secs \<le> 9223372036"
    using that assms(3) by (intro wrap64_id) (auto simp: nsPerSec_def)
  have "wrap64 (secs * nsPerSec) = secs * nsPerSec - 2 ^ 64" if "9223372037 \<le> secs" "secs \<le> 18446744073"
  proof -
    have "(secs * nsPerSec + 2 ^ 63) mod 2 ^ 64 = secs * nsPerSec + 2 ^ 63 - 2 ^ 64"
      using that by (intro int_mod_pos_eq [where q = 1]) (simp_all add: nsPerSec_def)
    then show ?thesis by (simp add: wrap64_def)
  qed
  with small d assms(5) show ?thesis by (auto simp: Let_def nsPerSec_def)
qed

theorem retry_after_overflows_witness:
  "\<exists>d < 0. retryAfterDelay (\<lambda>_. None) 0 (Some \<lparr>StatusCode = 429, RetryAfter = Itoa 9223372037\<rparr>) (30 * 10 ^ 9) = Some d"
  using retry_after_overflows [of "\<lparr>StatusCode = 429, RetryAfter = Itoa 9223372037\<rparr>" 9223372037 "30 * 10 ^ 9" "\<lambda>_. None" 0]
  by simp

lemma retry_outcome:
  assumes "retry_client Do" and "DoWithRetryPolicy Do None host p f m = (r, as, m')"
  shows "1 \<le> length as \<and> int (length as) \<le> (if MaxAttempts p \<le> 0 then 4 else MaxAttempts p) \<and>
    as = map f [0..<length as] \<and> (\<forall>a \<in> set (butlast as). CheckRetry a) \<and>
    (case r of Inr resp \<Rightarrow> last as = Inr resp \<and> \<not> CheckRetry (last as) | Inl e \<Rightarrow> CheckRetry (last as) \<and> IsRetryable (Some e))"
proof -
  let ?q = "normalized p"
  let ?rc = "\<lparr>RetryMax = MaxAttempts ?q - 1, RetryWaitMin = InitialBackoff ?q, RetryWaitMax = MaxBackoff ?q, rcCheckRetry = CheckRetry\<rparr>"
  have q: "MaxAttempts ?q = (if MaxAttempts p \<le> 0 then 4 else MaxAttempts p)"
    by (simp add: normalized_def DefaultRetryPolicy_def Let_def)
  obtain x where x: "Do ?rc f = (as, x)" and r: "r = (case x of
      Inl e \<Rightarrow> Inl (NewRetryable (Wrap (''after '' @ Itoa (MaxAttempts ?q) @ '' attempts: '') e) ''max_retries'') | Inr resp \<Rightarrow> Inr resp)"
    using assms(2) by (auto simp: DoWithRetryPolicy_def Let_def split: prod.splits)
  have pos: "0 \<le> RetryMax ?rc" using q by simp
  obtain n where n: "as = map f [0..<Suc n]" "int n \<le> RetryMax ?rc" using retry_client.made [OF assms(1) x pos] by blast
  have len: "length as = Suc n" "as = map f [0..<length as]" using n(1) by (simp_all del: upt_Suc)
  have "CheckRetry a" if a: "a \<in> set (butlast as)" for a
  proof -
    obtain i where i: "i < length (butlast as)" "a = butlast as ! i" using a by (auto simp: in_set_conv_nth)
    then show ?thesis using retry_client.repeats [OF assms(1) x, of i] by (simp add: nth_butlast)
  qed
  moreover have "case r of Inr resp \<Rightarrow> last as = Inr resp \<and> \<not> CheckRetry (last as) | Inl e \<Rightarrow> CheckRetry (last as) \<and> IsRetryable (Some e)"
  proof (cases "CheckRetry (last as)")
    case True
    then obtain e where "x = Inl e" using retry_client.gives_up [OF assms(1) x pos] by auto
    with True r show ?thesis by (simp add: NewRetryable_def)
  next
    case False
    then have "x = last as" using retry_client.accepted [OF assms(1) x pos] by simp
    with False r show ?thesis by (cases "last as") (simp_all add: CheckRetry_def)
  qed
  ultimately show ?thesis using len n(2) q by (auto simp del: upt_Suc)
qed



end
