(* ===== verification/Relay_SCM.thy ===== *)
theory Relay_SCM
  imports Relay_Notifier
begin

text \<open>
  Package \<^verbatim>\<open>internal/notifier/scm\<close>: what the handlers of the source code hosts share. Field limits and
  truncation, references in comments, templates, sets of labels, state maps, and the marker by which a
  comment is found again; for the last an interface with the law that updates keep one comment.
\<close>

section \<open>Field limits\<close>

record FieldLimits =
  StatusDescription :: int
  StatusContext :: int
  CommentBody :: int
  LabelName :: int

definition Limits :: "(string, FieldLimits) gomap" where
  "Limits =
     [(''github'', \<lparr>StatusDescription = 140, StatusContext = 255, CommentBody = 65000, LabelName = 50\<rparr>),
      (''gitlab'', \<lparr>StatusDescription = 255, StatusContext = 0, CommentBody = 1000000, LabelName = 255\<rparr>),
      (''bitbucket-cloud'', \<lparr>StatusDescription = 255, StatusContext = 255, CommentBody = 65000, LabelName = 0\<rparr>),
      (''bitbucket-server'', \<lparr>StatusDescription = 255, StatusContext = 255, CommentBody = 65000, LabelName = 0\<rparr>),
      (''azure-devops'', \<lparr>StatusDescription = 4000, StatusContext = 0, CommentBody = 65000, LabelName = 255\<rparr>),
      (''gitea'', \<lparr>StatusDescription = 255, StatusContext = 255, CommentBody = 65000, LabelName = 50\<rparr>),
      (''sourcehut'', \<lparr>StatusDescription = 0, StatusContext = 0, CommentBody = 0, LabelName = 0\<rparr>)]"

text \<open>A negative limit below the length makes the slice expression panic (None).\<close>

definition Truncate :: "string \<Rightarrow> int \<Rightarrow> string option" where
  "Truncate s limit =
     (if limit = 0 then Some s
      else if int (RuneCount s) \<le> limit then Some s
      else if limit < 3 then (if limit < 0 then None else Some (string_of_runes (take (nat limit) (runes s))))
      else Some (string_of_runes (take (nat (limit - 3)) (runes s)) @ ''...''))"

definition field_limit :: "FieldLimits \<Rightarrow> string \<Rightarrow> int option" where
  "field_limit l field =
     (if field = ''status_description'' then Some (StatusDescription l)
      else if field = ''status_context'' then Some (StatusContext l)
      else if field = ''comment_body'' then Some (CommentBody l)
      else if field = ''label_name'' then Some (LabelName l)
      else None)"

definition scm_Validate :: "string \<Rightarrow> string \<Rightarrow> string \<Rightarrow> err option" where
  "scm_Validate provider field val =
     (case map_of Limits provider of
        None \<Rightarrow> None
      | Some limits \<Rightarrow>
          (case field_limit limits field of
             None \<Rightarrow> None
           | Some limit \<Rightarrow>
               (if limit = 0 then None
                else if int (RuneCount val) > limit
                then Some (Err (''field '' @ strconv_Quote field @ '' exceeds '' @ provider @ '' limit ('' @ Itoa limit @
                       '' chars, got '' @ Itoa (int (RuneCount val)) @ '')''))
                else None)))"

section \<open>References\<close>

text \<open>\<^verbatim>\<open>fmt.Sprintf\<close> with the verbs \<open>%s\<close> and \<open>%d\<close>.\<close>

datatype fmt_arg = ArgS string | ArgD int

fun Sprintf :: "string \<Rightarrow> fmt_arg list \<Rightarrow> string" where
  "Sprintf [] as = []"
| "Sprintf (c # s) as =
     (case as of
        a # as' \<Rightarrow> if c = CHR ''%'' \<and> s \<noteq> [] then (case a of ArgS x \<Rightarrow> x | ArgD i \<Rightarrow> Itoa i) @ Sprintf (tl s) as' else c # Sprintf s as
      | [] \<Rightarrow> c # Sprintf s as)"

record CrossRefSyntax =
  SameRepoIssue :: string
  CrossRepoIssue :: string
  SameRepoPR :: string
  CrossRepoPR :: string
  UserMention :: string
  SupportsAutoLink :: bool

abbreviation fmtSameRepo :: string where "fmtSameRepo \<equiv> ''#%d''"
abbreviation fmtCrossRepo :: string where "fmtCrossRepo \<equiv> ''%s/%s#%d''"
abbreviation fmtUserAt :: string where "fmtUserAt \<equiv> ''@%s''"

definition hash_syntax :: CrossRefSyntax where
  "hash_syntax = \<lparr>SameRepoIssue = fmtSameRepo, CrossRepoIssue = fmtCrossRepo, SameRepoPR = fmtSameRepo, CrossRepoPR = fmtCrossRepo,
     UserMention = fmtUserAt, SupportsAutoLink = True\<rparr>"

definition RefSyntax :: "(string, CrossRefSyntax) gomap" where
  "RefSyntax =
     [(''github'', hash_syntax),
      (''gitlab'', hash_syntax\<lparr>SameRepoPR := ''!%d'', CrossRepoPR := ''%s/%s!%d''\<rparr>),
      (''bitbucket_cloud'', hash_syntax),
      (''bitbucket_server'', hash_syntax),
      (''azure_devops'', hash_syntax\<lparr>CrossRepoIssue := '''', CrossRepoPR := ''''\<rparr>),
      (''gitea'', hash_syntax),
      (''sourcehut'', \<lparr>SameRepoIssue = '''', CrossRepoIssue = '''', SameRepoPR = '''', CrossRepoPR = '''', UserMention = '''',
         SupportsAutoLink = False\<rparr>)]"

definition format_ref :: "string \<Rightarrow> string \<Rightarrow> int \<Rightarrow> string \<Rightarrow> string \<Rightarrow> string" where
  "format_ref same cross n owner repo =
     (if owner = '''' \<or> repo = '''' then (if same = '''' then '''' else Sprintf same [ArgD n])
      else if cross = '''' then '''' else Sprintf cross [ArgS owner, ArgS repo, ArgD n])"

definition FormatIssueRef :: "string \<Rightarrow> int \<Rightarrow> string \<Rightarrow> string \<Rightarrow> string" where
  "FormatIssueRef provider n owner repo =
     (case map_of RefSyntax provider of
        None \<Rightarrow> Sprintf fmtSameRepo [ArgD n]
      | Some syntax \<Rightarrow> format_ref (SameRepoIssue syntax) (CrossRepoIssue syntax) n owner repo)"

definition FormatPRRef :: "string \<Rightarrow> int \<Rightarrow> string \<Rightarrow> string \<Rightarrow> string" where
  "FormatPRRef provider n owner repo =
     (case map_of RefSyntax provider of
        None \<Rightarrow> Sprintf fmtSameRepo [ArgD n]
      | Some syntax \<Rightarrow> format_ref (SameRepoPR syntax) (CrossRepoPR syntax) n owner repo)"

definition FormatUserMention :: "string \<Rightarrow> string \<Rightarrow> string" where
  "FormatUserMention provider username =
     (case map_of RefSyntax provider of
        None \<Rightarrow> username
      | Some syntax \<Rightarrow> if UserMention syntax = '''' then username else Sprintf (UserMention syntax) [ArgS username])"

section \<open>Templates\<close>

text \<open>
  A compiled template renders an event or fails. The template language is an argument: the parser and the
  functions of the library \<^verbatim>\<open>sprig\<close>, by name.
\<close>

type_synonym template = "Event \<Rightarrow> string result"

definition dangerousFuncs :: "string list" where
  "dangerousFuncs = [''env'', ''expandenv'', ''expand'', ''base64Encode'', ''base64Decode'', ''genPrivateKey'', ''genCA'',
     ''genSelfSignedCert'']"

definition safeFuncMap :: "(string, 'f) gomap \<Rightarrow> (string, 'f) gomap" where
  "safeFuncMap fm = foldl (\<lambda>m n. AList.delete n m) fm dangerousFuncs"

definition DefaultFuncMap :: "(string, 'f) gomap \<Rightarrow> 'f \<Rightarrow> 'f \<Rightarrow> 'f \<Rightarrow> 'f \<Rightarrow> (string, 'f) gomap" where
  "DefaultFuncMap sprig issueRef prRef userMention trunc =
     AList.update ''Truncate'' trunc (AList.update ''UserMention'' userMention (AList.update ''PRRef'' prRef
       (AList.update ''IssueRef'' issueRef (safeFuncMap sprig))))"

definition LoadTemplateString :: "(string \<Rightarrow> string result) \<Rightarrow> string \<Rightarrow> string result" where
  "LoadTemplateString readFile templateStr =
     (if HasPrefix templateStr ''/'' then
        (case readFile templateStr of
           Inl e \<Rightarrow> Inl (Wrap (''failed to read template file '' @ templateStr @ '': '') e)
         | Inr data \<Rightarrow> Inr data)
      else Inr templateStr)"

definition CompileTemplate ::
  "(string \<Rightarrow> string result) \<Rightarrow> (string \<Rightarrow> string \<Rightarrow> template result) \<Rightarrow> string \<Rightarrow> string \<Rightarrow> template result" where
  "CompileTemplate readFile parse name content =
     (case LoadTemplateString readFile content of
        Inl e \<Rightarrow> Inl (Wrap (''load template '' @ strconv_Quote name @ '': '') e)
      | Inr text \<Rightarrow> parse name text)"

definition RenderTemplate :: "template option \<Rightarrow> Event \<Rightarrow> string result" where
  "RenderTemplate tmpl e =
     (case tmpl of None \<Rightarrow> Inr (''Build '' @ StateOf e @ '' for '' @ RunName e) | Some t \<Rightarrow> t e)"

text \<open>What every constructor of a comment handler does with its template.\<close>

definition optional_template ::
  "(string \<Rightarrow> string \<Rightarrow> template result) \<Rightarrow> string \<Rightarrow> string \<Rightarrow> template option result" where
  "optional_template compile name content =
     (if content = '''' then Inr None
      else (case compile name content of Inl e \<Rightarrow> Inl (Wrap ''compile template: '' e) | Inr t \<Rightarrow> Inr (Some t)))"

section \<open>Labels\<close>

record Label =
  lbName :: string
  lbColor :: string

record LabelSet =
  lsAdd :: "Label list"
  lsRemove :: "Label list"

definition LabelSet_Empty :: "LabelSet \<Rightarrow> bool" where
  "LabelSet_Empty s = (lsAdd s = [] \<and> lsRemove s = [])"

definition is_hex :: "char \<Rightarrow> bool" where
  "is_hex c = (is_digit c \<or> (97 \<le> byte c \<and> byte c \<le> 102) \<or> (65 \<le> byte c \<and> byte c \<le> 70))"

text \<open>\<^verbatim>\<open>colorRegex\<close>.\<close>

definition valid_color :: "string \<Rightarrow> bool" where
  "valid_color s = (length s = 6 \<and> list_all is_hex s)"

definition check_color :: "Label \<Rightarrow> Label" where
  "check_color l = (if lbColor l \<noteq> '''' \<and> \<not> valid_color (lbColor l) then l\<lparr>lbColor := ''''\<rparr> else l)"

definition LabelSet_Validate :: "LabelSet \<Rightarrow> LabelSet" where
  "LabelSet_Validate s = s\<lparr>lsAdd := map check_color (lsAdd s), lsRemove := map check_color (lsRemove s)\<rparr>"

text \<open>The set of labels of a configured action (package \<^verbatim>\<open>factory\<close>).\<close>

definition labelSet :: "Action \<Rightarrow> LabelSet" where
  "labelSet action =
     (case LabelsOf action of
        None \<Rightarrow> \<lparr>lsAdd = [], lsRemove = []\<rparr>
      | Some ls \<Rightarrow> \<lparr>lsAdd = map (\<lambda>x. \<lparr>lbName = le_Name x, lbColor = le_Color x\<rparr>) (al_Add ls),
                  lsRemove = map (\<lambda>x. \<lparr>lbName = le_Name x, lbColor = le_Color x\<rparr>) (al_Remove ls)\<rparr>)"

text \<open>Templates of label names are parsed once for the whole process.\<close>

type_synonym tmpl_cache = "(string, template) gomap"

definition cachedTemplate :: "(string \<Rightarrow> template result) \<Rightarrow> string \<Rightarrow> tmpl_cache \<Rightarrow> template result \<times> tmpl_cache" where
  "cachedTemplate parse name cache =
     (case map_of cache name of
        Some t \<Rightarrow> (Inr t, cache)
      | None \<Rightarrow> (case parse name of Inl e \<Rightarrow> (Inl e, cache) | Inr t \<Rightarrow> (Inr t, AList.update name t cache)))"

fun renderLabelList :: "(string \<Rightarrow> template result) \<Rightarrow> Label list \<Rightarrow> Event \<Rightarrow> tmpl_cache \<Rightarrow> Label list result \<times> tmpl_cache" where
  "renderLabelList parse [] e cache = (Inr [], cache)"
| "renderLabelList parse (l # ls) e cache =
     (case cachedTemplate parse (lbName l) cache of
        (Inl er, cache1) \<Rightarrow> (Inl (Wrap (''parse label template '' @ strconv_Quote (lbName l) @ '': '') er), cache1)
      | (Inr t, cache1) \<Rightarrow>
          (case t e of
             Inl er \<Rightarrow> (Inl (Wrap (''execute label template '' @ strconv_Quote (lbName l) @ '': '') er), cache1)
           | Inr v \<Rightarrow>
               (case renderLabelList parse ls e cache1 of
                  (Inl er, cache2) \<Rightarrow> (Inl er, cache2)
                | (Inr rest, cache2) \<Rightarrow> (Inr (if v \<noteq> '''' then \<lparr>lbName = v, lbColor = lbColor l\<rparr> # rest else rest), cache2))))"

definition LabelSet_Render ::
  "(string \<Rightarrow> template result) \<Rightarrow> LabelSet \<Rightarrow> Event \<Rightarrow> tmpl_cache \<Rightarrow> (Label list \<times> Label list) result \<times> tmpl_cache" where
  "LabelSet_Render parse s e cache =
     (case renderLabelList parse (lsAdd s) e cache of
        (Inl er, c1) \<Rightarrow> (Inl (Wrap ''render add labels: '' er), c1)
      | (Inr add, c1) \<Rightarrow>
          (case renderLabelList parse (lsRemove s) e c1 of
             (Inl er, c2) \<Rightarrow> (Inl (Wrap ''render remove labels: '' er), c2)
           | (Inr remove, c2) \<Rightarrow> (Inr (add, remove), c2)))"

section \<open>Comments that are found again\<close>

abbreviation ModeCreate :: string where "ModeCreate \<equiv> ''create''"
abbreviation ModeUpsert :: string where "ModeUpsert \<equiv> ''upsert''"

definition NormalizeMode :: "string \<Rightarrow> string result" where
  "NormalizeMode mode =
     (if mode = '''' \<or> mode = ModeCreate then Inr ModeCreate
      else if mode = ModeUpsert then Inr ModeUpsert
      else Inl (Err (''invalid comment mode '' @ strconv_Quote mode @ '' (must be '' @ strconv_Quote ModeCreate @ '' or '' @
             strconv_Quote ModeUpsert @ '')'')))"

definition Marker :: "string \<Rightarrow> string \<Rightarrow> string" where
  "Marker runID action = ''<!-- tekton-events-relay:'' @ runID @ '':'' @ action @ '' -->''"

definition WithMarker :: "string \<Rightarrow> string \<Rightarrow> string" where
  "WithMarker marker body = marker @ [CHR 0x0A] @ body"

definition HasMarker :: "string \<Rightarrow> string \<Rightarrow> bool" where
  "HasMarker body marker = Contains body marker"

lemma HasMarker_WithMarker [simp]: "HasMarker (WithMarker m b) m"
  by (auto simp: HasMarker_def WithMarker_def Contains_iff intro: exI [of _ "''''"])

section \<open>State maps\<close>

type_synonym StateMap = "(string, string) gomap"

definition StateMap_Map :: "StateMap \<Rightarrow> string \<Rightarrow> string \<Rightarrow> string" where
  "StateMap_Map m s fallback = (case map_of m s of Some v \<Rightarrow> v | None \<Rightarrow> fallback)"

section \<open>What the limits guarantee\<close>

lemma Truncate_short: "int (RuneCount s) \<le> limit \<Longrightarrow> Truncate s limit = Some s"
  by (simp add: Truncate_def)

lemma RuneCount_string_of_runes: "\<forall>r \<in> set rs. valid_rune r \<Longrightarrow> runes (string_of_runes rs @ s) = rs @ runes s"
  by (rule runes_string_of_runes)

lemma runes_take_valid: "\<forall>r \<in> set (take n (runes s)). valid_rune r"
  using runes_valid set_take_subset by fast

lemma runes_dots: "runes ''...'' = [46, 46, 46]"
  by (simp add: runes.simps(2) decode_rune_def)

text \<open>
  Truncating to a limit that is not negative gives a text of at most that many characters (0 stands
  for no limit): the text itself when it is short enough, else the leading characters with an ellipsis
  in place of the last three; and what was truncated to the limit of a field passes the check of that field.
\<close>

theorem Truncate_fits:
  assumes "0 \<le> limit"
  shows "\<exists>t. Truncate s limit = Some t \<and> (limit \<noteq> 0 \<longrightarrow> int (RuneCount t) \<le> limit) \<and>
     (limit = 0 \<or> int (RuneCount s) \<le> limit \<longrightarrow> t = s) \<and>
     (3 \<le> limit \<and> limit < int (RuneCount s) \<longrightarrow> runes t = take (nat limit - 3) (runes s) @ [46, 46, 46]) \<and>
     (\<forall>p l f. map_of Limits p = Some l \<and> field_limit l f = Some limit \<longrightarrow> scm_Validate p f t = None)"
proof -
  consider (fits) "limit = 0 \<or> int (RuneCount s) \<le> limit" | (tiny) "0 < limit" "limit < 3" "limit < int (RuneCount s)"
    | (cut) "3 \<le> limit" "limit < int (RuneCount s)"
    using assms by linarith
  then obtain t where t: "Truncate s limit = Some t" "limit \<noteq> 0 \<longrightarrow> int (RuneCount t) \<le> limit"
      "limit = 0 \<or> int (RuneCount s) \<le> limit \<longrightarrow> t = s"
      "3 \<le> limit \<and> limit < int (RuneCount s) \<longrightarrow> runes t = take (nat limit - 3) (runes s) @ [46, 46, 46]"
  proof cases
    case fits
    then show ?thesis using that [of s] by (auto simp: Truncate_def)
  next
    case tiny
    have r: "runes (string_of_runes (take (nat limit) (runes s))) = take (nat limit) (runes s)"
      using runes_string_of_runes [OF runes_take_valid, of "nat limit" s "''''"] by simp
    show ?thesis using tiny r that [of "string_of_runes (take (nat limit) (runes s))"] by (auto simp: Truncate_def)
  next
    case cut
    have r: "runes (string_of_runes (take (nat (limit - 3)) (runes s)) @ ''...'') = take (nat limit - 3) (runes s) @ [46, 46, 46]"
      using runes_string_of_runes [OF runes_take_valid, of "nat (limit - 3)" s "''...''"] cut
      by (simp add: runes_dots nat_diff_distrib)
    show ?thesis using cut r that [of "string_of_runes (take (nat (limit - 3)) (runes s)) @ ''...''"] by (auto simp: Truncate_def)
  qed
  then have "\<forall>p l f. map_of Limits p = Some l \<and> field_limit l f = Some limit \<longrightarrow> scm_Validate p f t = None"
    by (auto simp: scm_Validate_def)
  with t show ?thesis by blast
qed

theorem Truncate_fits_witness:
  "\<exists>t. Truncate ''a long description'' 10 = Some t \<and> RuneCount t \<le> 10 \<and> runes t = take 7 (runes ''a long description'') @ [46, 46, 46]"
proof -
  have "RuneCount ''a long description'' = 18" by (simp add: runes.simps(2) decode_rune_def)
  with Truncate_fits [of 10 "''a long description''"] show ?thesis by (fastforce simp: numeral_eq_Suc)
qed

lemma scm_Validate_short:
  "map_of Limits p = Some l \<Longrightarrow> field_limit l f = Some k \<Longrightarrow> int (length v) \<le> k \<Longrightarrow> scm_Validate p f v = None"
  using RuneCount_le_length [of v] by (simp add: scm_Validate_def)

text \<open>The check knows providers, not instances: under any other name nothing is checked.\<close>

lemma Validate_unknown: "provider \<notin> fst ` set Limits \<Longrightarrow> scm_Validate provider field val = None"
  using map_of_eq_None_iff [of Limits provider] by (simp add: scm_Validate_def)

text \<open>
  The two tables spell the providers of Bitbucket and Azure differently, so references for Azure are
  formatted as for an unknown provider, with a link to the wrong repository.
\<close>

lemma azure_reference_drops_repository:
  "FormatPRRef ''azure-devops'' 7 ''team'' ''repo'' = ''#7'' \<and> FormatPRRef ''azure_devops'' 7 ''team'' ''repo'' = '''' \<and>
   FormatPRRef ''bitbucket-cloud'' 7 ''team'' ''repo'' = ''#7'' \<and> FormatPRRef ''bitbucket_cloud'' 7 ''team'' ''repo'' = ''team/repo#7''"
  by code_simp

section \<open>Labels\<close>

lemma check_color_valid: "lbColor (check_color l) = '''' \<or> valid_color (lbColor (check_color l))"
  by (simp add: check_color_def)

text \<open>The cache of templates only holds what parsing gives, so it does not change what is rendered.\<close>

definition cache_ok :: "(string \<Rightarrow> template result) \<Rightarrow> tmpl_cache \<Rightarrow> bool" where
  "cache_ok parse cache \<longleftrightarrow> (\<forall>n t. map_of cache n = Some t \<longrightarrow> parse n = Inr t)"

fun rendered :: "(string \<Rightarrow> template result) \<Rightarrow> Label list \<Rightarrow> Event \<Rightarrow> Label list result" where
  "rendered parse [] e = Inr []"
| "rendered parse (l # ls) e =
     (case parse (lbName l) of
        Inl er \<Rightarrow> Inl (Wrap (''parse label template '' @ strconv_Quote (lbName l) @ '': '') er)
      | Inr t \<Rightarrow>
          (case t e of
             Inl er \<Rightarrow> Inl (Wrap (''execute label template '' @ strconv_Quote (lbName l) @ '': '') er)
           | Inr v \<Rightarrow>
               (case rendered parse ls e of
                  Inl er \<Rightarrow> Inl er
                | Inr rest \<Rightarrow> Inr (if v \<noteq> '''' then \<lparr>lbName = v, lbColor = lbColor l\<rparr> # rest else rest))))"

lemma cachedTemplate_ok:
  "cache_ok parse cache \<Longrightarrow> fst (cachedTemplate parse n cache) = parse n \<and> cache_ok parse (snd (cachedTemplate parse n cache))"
  by (auto simp: cachedTemplate_def cache_ok_def update_conv' split: option.split sum.split)

lemma renderLabelList_ok:
  "cache_ok parse cache \<Longrightarrow> fst (renderLabelList parse ls e cache) = rendered parse ls e \<and>
     cache_ok parse (snd (renderLabelList parse ls e cache))"
proof (induction ls arbitrary: cache)
  case (Cons l ls)
  obtain r c1 where c1: "cachedTemplate parse (lbName l) cache = (r, c1)" by fastforce
  with cachedTemplate_ok [OF Cons.prems, of "lbName l"] have r: "r = parse (lbName l)" and ok: "cache_ok parse c1" by auto
  obtain x c2 where "renderLabelList parse ls e c1 = (x, c2)" by fastforce
  with Cons.IH [OF ok] r c1 ok show ?case by (auto split: sum.split)
qed simp

lemma LabelSet_Render_ok:
  "cache_ok parse cache \<Longrightarrow>
     fst (LabelSet_Render parse s e cache) =
       (case rendered parse (lsAdd s) e of
          Inl er \<Rightarrow> Inl (Wrap ''render add labels: '' er)
        | Inr add \<Rightarrow> (case rendered parse (lsRemove s) e of
            Inl er \<Rightarrow> Inl (Wrap ''render remove labels: '' er) | Inr remove \<Rightarrow> Inr (add, remove))) \<and>
     cache_ok parse (snd (LabelSet_Render parse s e cache))"
proof -
  assume ok: "cache_ok parse cache"
  obtain r c1 where c1: "renderLabelList parse (lsAdd s) e cache = (r, c1)" by fastforce
  with renderLabelList_ok [OF ok] have r: "r = rendered parse (lsAdd s) e" and ok1: "cache_ok parse c1" by (metis fst_conv snd_conv)+
  obtain x c2 where c2: "renderLabelList parse (lsRemove s) e c1 = (x, c2)" by fastforce
  with renderLabelList_ok [OF ok1] have "x = rendered parse (lsRemove s) e" "cache_ok parse c2" by (metis fst_conv snd_conv)+
  with c1 c2 r ok1 show ?thesis by (auto simp: LabelSet_Render_def split: sum.split)
qed

section \<open>One comment per run\<close>

text \<open>
  Look for the comment with the marker; edit it, or create one when there is none or the comments
  cannot be listed. This is what the upsert modes of GitHub, GitLab and Gitea share.
\<close>

definition upsert_comment ::
  "('w \<Rightarrow> (int \<times> string) list result \<times> 'w) \<Rightarrow> (int \<Rightarrow> string \<Rightarrow> 'w \<Rightarrow> err option \<times> 'w) \<Rightarrow> (string \<Rightarrow> 'w \<Rightarrow> err option \<times> 'w) \<Rightarrow>
     string \<Rightarrow> string \<Rightarrow> 'w \<Rightarrow> err option \<times> 'w" where
  "upsert_comment list edit create marker body w =
     (case list w of
        (Inl e, w1) \<Rightarrow> create body w1
      | (Inr cs, w1) \<Rightarrow>
          (case List.find (\<lambda>c. HasMarker (snd c) marker) cs of
             Some c \<Rightarrow> edit (fst c) body w1
           | None \<Rightarrow> create body w1))"

lemma find_none: "\<forall>x \<in> set xs. \<not> P x \<Longrightarrow> List.find P xs = None"
  by (induction xs) auto

text \<open>
  The interface to the comments of one issue: listing shows the oldest \<open>page\<close> of them and changes
  none, a successful edit replaces the body of the comment with that identifier, and a successful creation adds a
  comment with a new identifier at the end.
\<close>

locale comment_thread =
  fixes list :: "'w \<Rightarrow> (int \<times> string) list result \<times> 'w"
    and edit :: "int \<Rightarrow> string \<Rightarrow> 'w \<Rightarrow> err option \<times> 'w"
    and create :: "string \<Rightarrow> 'w \<Rightarrow> err option \<times> 'w"
    and comments :: "'w \<Rightarrow> (int \<times> string) list"
    and page :: nat
  assumes list_frame: "list w = (r, w') \<Longrightarrow> comments w' = comments w"
    and list_shows: "list w = (Inr cs, w') \<Longrightarrow> cs = take page (comments w)"
    and edit_replaces: "edit i b w = (None, w') \<Longrightarrow> comments w' = map (\<lambda>c. if fst c = i then (i, b) else c) (comments w)"
    and create_adds: "create b w = (None, w') \<Longrightarrow> \<exists>i. i \<notin> fst ` set (comments w) \<and> comments w' = comments w @ [(i, b)]"
    and ids_distinct: "distinct (map fst (comments w))"
begin

definition marked :: "string \<Rightarrow> 'w \<Rightarrow> (int \<times> string) list" where
  "marked m w = filter (\<lambda>c. HasMarker (snd c) m) (comments w)"

text \<open>At most one comment has the marker, and it or a new one is among those that are listed.\<close>

definition found :: "string \<Rightarrow> 'w \<Rightarrow> bool" where
  "found m w \<longleftrightarrow> (marked m w = [] \<and> length (comments w) < page) \<or>
     (\<exists>xs i b ys. comments w = xs @ (i, b) # ys \<and> HasMarker b m \<and> (\<forall>c \<in> set xs \<union> set ys. \<not> HasMarker (snd c) m) \<and> length xs < page)"

lemma replace_in_middle:
  "distinct (map fst (xs @ (i, b) # ys)) \<Longrightarrow>
     map (\<lambda>c. if fst c = i then (i, b') else c) (xs @ (i, b) # ys) = xs @ (i, b') # ys"
proof -
  assume "distinct (map fst (xs @ (i, b) # ys))"
  then have "\<forall>b. (i, b) \<notin> set xs \<and> (i, b) \<notin> set ys" by force
  then show ?thesis by (auto intro!: map_idI)
qed

lemma find_in_middle:
  assumes "HasMarker b m" and "\<forall>c \<in> set xs. \<not> HasMarker (snd c) m" and "length xs < page"
  shows "List.find (\<lambda>c. HasMarker (snd c) m) (take page (xs @ (i, b) # ys)) = Some (i, b)"
proof -
  obtain k where k: "page - length xs = Suc k" using assms(3) by (metis Suc_diff_Suc)
  have n: "List.find (\<lambda>c. HasMarker (snd c) m) xs = None" using assms(2) by (rule find_none)
  have "List.find P (xs @ zs) = (case List.find P xs of None \<Rightarrow> List.find P zs | Some x \<Rightarrow> Some x)" for P zs
    by (induction xs) auto
  with n k assms(1,3) show ?thesis by simp
qed

lemma upsert_step:
  assumes "found m w" and "fst (list w) = Inr cs" and "upsert_comment list edit create m body w = (None, w')" and "HasMarker body m"
  shows "found m w' \<and> (\<exists>i. marked m w' = [(i, body)]) \<and>
     filter (\<lambda>c. \<not> HasMarker (snd c) m) (comments w') = filter (\<lambda>c. \<not> HasMarker (snd c) m) (comments w)"
proof -
  obtain w1 where l: "list w = (Inr cs, w1)" using assms(2) by (metis prod.collapse)
  have cs: "cs = take page (comments w)" and w1: "comments w1 = comments w"
    using list_shows [OF l] list_frame [OF l] by auto
  from assms(1) consider (none) "marked m w = []" "length (comments w) < page"
    | (one) xs i b ys where "comments w = xs @ (i, b) # ys" "HasMarker b m" "\<forall>c \<in> set xs \<union> set ys. \<not> HasMarker (snd c) m"
        "length xs < page"
    unfolding found_def by blast
  then show ?thesis
  proof cases
    case none
    then have un: "\<forall>c \<in> set (comments w). \<not> HasMarker (snd c) m" by (simp add: marked_def filter_empty_conv)
    then have "List.find (\<lambda>c. HasMarker (snd c) m) cs = None" using in_set_takeD unfolding cs by (intro find_none) fast
    with assms(3) l have "create body w1 = (None, w')" by (simp add: upsert_comment_def)
    from create_adds [OF this] obtain i where c: "comments w' = comments w @ [(i, body)]" by (auto simp: w1)
    then have "comments w' = comments w @ (i, body) # []" by simp
    then have "found m w'" using un none(2) assms(4) unfolding found_def
      by (intro disjI2 exI [of _ "comments w"] exI [of _ i] exI [of _ body] exI [of _ "[]"]) simp
    with c un assms(4) show ?thesis by (simp add: marked_def filter_empty_conv)
  next
    case one
    have "List.find (\<lambda>c. HasMarker (snd c) m) cs = Some (i, b)"
      unfolding cs one(1) by (rule find_in_middle) (use one in auto)
    with assms(3) l have "edit i body w1 = (None, w')" by (simp add: upsert_comment_def)
    from edit_replaces [OF this] replace_in_middle [of xs i b ys body] ids_distinct [of w]
    have c: "comments w' = xs @ (i, body) # ys" by (simp add: w1 one(1))
    then have "found m w'" using one assms(4) unfolding found_def by blast
    moreover have "marked m w' = [(i, body)]" using c one assms(4) by (simp add: marked_def filter_empty_conv)
    ultimately show ?thesis using one assms(4) by (simp add: c)
  qed
qed

text \<open>Outside the page the marker is not seen, and a comment is added.\<close>

lemma upsert_beyond_page:
  assumes "\<forall>c \<in> set (take page (comments w)). \<not> HasMarker (snd c) m" and "upsert_comment list edit create m body w = (None, w')"
    and "HasMarker body m"
  shows "\<exists>i. comments w' = comments w @ [(i, body)]"
proof -
  obtain r w1 where l: "list w = (r, w1)" by fastforce
  have w1: "comments w1 = comments w" by (rule list_frame [OF l])
  have "create body w1 = (None, w')"
  proof (cases r)
    case (Inl e)
    then show ?thesis using assms(2) l by (simp add: upsert_comment_def)
  next
    case (Inr cs)
    then have "List.find (\<lambda>c. HasMarker (snd c) m) cs = None"
      using list_shows [of w cs w1] l assms(1) by (intro find_none) simp
    then show ?thesis using assms(2) l Inr by (simp add: upsert_comment_def)
  qed
  from create_adds [OF this] show ?thesis by (auto simp: w1)
qed

end

text \<open>A thread as a list with a counter for the next identifier.\<close>

type_synonym thread = "(int \<times> string) list \<times> int"

typedef demo_thread = "{t :: thread. distinct (map fst (fst t)) \<and> (\<forall>c \<in> set (fst t). fst c < snd t)}"
  by (rule exI [of _ "([], 0)"]) simp

setup_lifting type_definition_demo_thread

lift_definition dt_comments :: "demo_thread \<Rightarrow> (int \<times> string) list" is fst .

lift_definition dt_create :: "string \<Rightarrow> demo_thread \<Rightarrow> demo_thread" is "\<lambda>b t. (fst t @ [(snd t, b)], snd t + 1)"
  by fastforce

lift_definition dt_edit :: "int \<Rightarrow> string \<Rightarrow> demo_thread \<Rightarrow> demo_thread" is
  "\<lambda>i b t. (map (\<lambda>c. if fst c = i then (i, b) else c) (fst t), snd t)"
proof -
  fix i :: int and b :: string and t :: thread
  assume t: "distinct (map fst (fst t)) \<and> (\<forall>c \<in> set (fst t). fst c < snd t)"
  have "map fst (map (\<lambda>c. if fst c = i then (i, b) else c) (fst t)) = map fst (fst t)" by simp
  with t show "distinct (map fst (fst (map (\<lambda>c. if fst c = i then (i, b) else c) (fst t), snd t))) \<and>
      (\<forall>c \<in> set (fst (map (\<lambda>c. if fst c = i then (i, b) else c) (fst t), snd t)). fst c < snd (map (\<lambda>c. if fst c = i then (i, b) else c) (fst t), snd t))"
    by (simp del: map_map) auto
qed

lift_definition dt_empty :: demo_thread is "([], 0)" by simp

definition dt_list :: "nat \<Rightarrow> demo_thread \<Rightarrow> (int \<times> string) list result \<times> demo_thread" where
  "dt_list page t = (Inr (take page (dt_comments t)), t)"

interpretation demo_comments: comment_thread "dt_list 100" "\<lambda>i b t. (None, dt_edit i b t)" "\<lambda>b t. (None, dt_create b t)" dt_comments 100
proof
  show "distinct (map fst (dt_comments w))" for w by transfer simp
  show "\<exists>i. i \<notin> fst ` set (dt_comments w) \<and> dt_comments w' = dt_comments w @ [(i, b)]"
    if "(None, dt_create b w) = (None, w')" for b w w'
  proof -
    have "\<exists>i. i \<notin> fst ` set (dt_comments w) \<and> dt_comments (dt_create b w) = dt_comments w @ [(i, b)]" by transfer fastforce
    with that show ?thesis by simp
  qed
  show "dt_comments w' = map (\<lambda>c. if fst c = i then (i, b) else c) (dt_comments w)" if "(None, dt_edit i b w) = (None, w')" for i b w w'
  proof -
    have "dt_comments (dt_edit i b w) = map (\<lambda>c. if fst c = i then (i, b) else c) (dt_comments w)" by transfer simp
    with that show ?thesis by simp
  qed
qed (simp_all add: dt_list_def)

end
