(* ===== verification/Relay_Chat.thy ===== *)
theory Relay_Chat
  imports Relay_Factory Relay_Retry Relay_SCM Go_Json
begin

text \<open>
  The notifiers of chat services: the common sending of \<^verbatim>\<open>internal/notifier/base.go\<close>, the store of message
  references (\<^verbatim>\<open>internal/notifier/msgstore\<close>), and the notifiers for Slack and Discord with their three ways
  to post (a new message, editing the message of the run, a thread of the run).

  The calls of the client libraries, compiled templates and conditions are arguments; what a notifier
  calls is returned beside its result.
\<close>

section \<open>Sending over HTTP\<close>

record HttpRequest =
  hrMethod :: string
  hrURL :: string
  hrHeader :: "(string, string) gomap"
  hrBody :: string

text \<open>The hooks of a notifier; \<open>bsAuth\<close> sets headers of the request.\<close>

record Base =
  bsPayload :: "Event \<Rightarrow> json result"
  bsURL :: "Event \<Rightarrow> string result"
  bsAuth :: "(HttpRequest \<Rightarrow> HttpRequest result) option"
  bsMethod :: "(Event \<Rightarrow> string) option"
  bsUserAgent :: string
  bsRetryPolicy :: "RetryPolicy option"

text \<open>
  The network and the library: checking method and URL, the attempts of a request, the text of the last
  response, and the retrying client. \<open>nwMarshal\<close> is None for a value that JSON cannot represent.
\<close>

record Network =
  nwMarshal :: "json \<Rightarrow> string result"
  nwNewRequest :: "string \<Rightarrow> string \<Rightarrow> err option"
  nwHost :: "string \<Rightarrow> string"
  nwAnswer :: "HttpRequest \<Rightarrow> nat \<Rightarrow> response result"
  nwText :: "HttpRequest \<Rightarrow> response \<Rightarrow> string"
  nwDo :: Do_fun

definition build_request :: "Network \<Rightarrow> Base \<Rightarrow> Event \<Rightarrow> HttpRequest result" where
  "build_request nw b e =
     (case bsURL b e of
        Inl er \<Rightarrow> Inl (Wrap ''build url: '' er)
      | Inr url \<Rightarrow>
     (case bsPayload b e of
        Inl er \<Rightarrow> Inl (Wrap ''build payload: '' er)
      | Inr payload \<Rightarrow>
     (case nwMarshal nw payload of
        Inl er \<Rightarrow> Inl (Wrap ''marshal payload: '' er)
      | Inr body \<Rightarrow>
          (let mthd = (case bsMethod b of None \<Rightarrow> ''POST'' | Some f \<Rightarrow> f e) in
           case nwNewRequest nw mthd url of
             Some er \<Rightarrow> Inl er
           | None \<Rightarrow>
               (let h1 = [(''Content-Type'', ''application/json''), (''Accept'', ''application/json'')];
                    h2 = (if bsUserAgent b \<noteq> '''' then h1 @ [(''User-Agent'', bsUserAgent b)] else h1);
                    req = \<lparr>hrMethod = mthd, hrURL = url, hrHeader = h2, hrBody = body\<rparr>
                in case bsAuth b of
                     None \<Rightarrow> Inr req
                   | Some f \<Rightarrow> (case f req of Inl er \<Rightarrow> Inl (Wrap ''apply auth: '' er) | Inr req' \<Rightarrow> Inr req'))))))"

text \<open>The result, the request sent with the answers of its attempts, and the metrics.\<close>

definition Send ::
  "Network \<Rightarrow> RetryPolicy \<Rightarrow> Base \<Rightarrow> Event \<Rightarrow> Collectors option \<Rightarrow>
   err option \<times> (HttpRequest \<times> response result list) option \<times> Collectors option" where
  "Send nw global b e m =
     (case build_request nw b e of
        Inl er \<Rightarrow> (Some er, None, m)
      | Inr req \<Rightarrow>
          (let rp = (case bsRetryPolicy b of None \<Rightarrow> global | Some p \<Rightarrow> p) in
           case DoWithRetryPolicy (nwDo nw) None (nwHost nw (hrURL req)) rp (nwAnswer nw req) m of
             (Inl er, as, m') \<Rightarrow> (Some (Wrap ''http request failed: '' er), Some (req, as), m')
           | (Inr resp, as, m') \<Rightarrow>
               ((if StatusCode resp \<ge> 300
                 then Some (Err (''responded '' @ Itoa (StatusCode resp) @ '': '' @ take 4096 (nwText nw req resp)))
                 else None), Some (req, as), m')))"

section \<open>Message references\<close>

text \<open>A store of one reference per run, over the cache with expiry.\<close>

record 's MsgStore =
  msLoad :: "Time \<Rightarrow> string \<Rightarrow> 's \<Rightarrow> string option \<times> 's"
  msSave :: "Time \<Rightarrow> string \<Rightarrow> string \<Rightarrow> 's \<Rightarrow> 's"

definition defaultCapacity :: nat where "defaultCapacity = 1000"
definition msgTTL :: int where "msgTTL = 30 * 60 * 10 ^ 9"

definition store_bounds :: "int \<Rightarrow> int \<Rightarrow> nat \<times> int" where
  "store_bounds ttl capacity =
     (if capacity \<le> 0 then defaultCapacity else nat capacity, if ttl \<le> 0 then msgTTL else ttl)"

definition NewMemoryStore :: "('s, string, string) xlru_ops \<Rightarrow> int \<Rightarrow> int \<Rightarrow> 's" where
  "NewMemoryStore ops ttl capacity = (case store_bounds ttl capacity of (n, d) \<Rightarrow> xlru_new ops n d)"

definition MemoryStore :: "('s, string, string) xlru_ops \<Rightarrow> 's MsgStore" where
  "MemoryStore ops = \<lparr>msLoad = xlru_get ops, msSave = xlru_add ops\<rparr>"

section \<open>Text helpers\<close>

text \<open>\<^verbatim>\<open>Duration.Round\<close>: half away from zero, kept in 64 bits.\<close>

definition Round :: "int \<Rightarrow> int \<Rightarrow> int" where
  "Round d u =
     (if u \<le> 0 then d
      else
        (let r = abs d mod u in
         if d < 0 then
           (if 2 * r < u then d + r else let d1 = d - u + r in if d1 < - (2 ^ 63) then - (2 ^ 63) else d1)
         else
           (if 2 * r < u then d - r else let d1 = d + u - r in if d1 > 2 ^ 63 - 1 then 2 ^ 63 - 1 else d1)))"

definition ascii_upper :: "char \<Rightarrow> char" where
  "ascii_upper c = (if 97 \<le> (of_char c :: nat) \<and> (of_char c :: nat) \<le> 122 then char_of ((of_char c :: nat) - 32) else c)"

definition ToUpper :: "(nat \<Rightarrow> nat) \<Rightarrow> string \<Rightarrow> string" where
  "ToUpper uup s =
     (if list_all (\<lambda>c. (of_char c :: nat) < 128) s then map ascii_upper s else string_of_runes (map uup (runes s)))"

fun strings_Join :: "string list \<Rightarrow> string \<Rightarrow> string" where
  "strings_Join [] sep = ''''"
| "strings_Join [x] sep = x"
| "strings_Join (x # y # xs) sep = x @ sep @ strings_Join (y # xs) sep"

text \<open>A JSON object made of a map: its members in the order of their names.\<close>

definition map_obj :: "(string \<times> json) list \<Rightarrow> json" where
  "map_obj ms = JObj (sort_key fst ms)"

section \<open>Slack\<close>

definition ModeCreate :: string where "ModeCreate = ''create''"
definition ModeUpsert :: string where "ModeUpsert = ''upsert''"
definition ThreadModeGrouped :: string where "ThreadModeGrouped = ''grouped''"

text \<open>
  The configuration of the notifier after \<^verbatim>\<open>New\<close>. \<open>scBot\<close> tells the transport, \<open>scStore\<close> whether there is a
  message store; the webhook URL is read when the factory builds the notifier.
\<close>

record SlackConfig =
  scBot :: bool
  scWebhookURL :: string
  scChannelID :: string
  scChannel :: string
  scChannelExpr :: "(Event \<Rightarrow> string result) option"
  scUsername :: string
  scIconEmoji :: string
  scTmpl :: "template option"
  scMode :: string
  scThreadMode :: string
  scThreadTS :: string
  scStore :: bool
  scRetryPolicy :: "RetryPolicy option"

definition slack_New ::
  "(string \<Rightarrow> string result) \<Rightarrow> (string \<Rightarrow> template result) \<Rightarrow> string \<Rightarrow> SlackConfig \<Rightarrow> SlackConfig result" where
  "slack_New readFile parse template cfg0 =
     (let cfg = cfg0\<lparr>scUsername := or_default '''' ''tekton-events-relay'' (scUsername cfg0),
                     scIconEmoji := or_default '''' '':rocket:'' (scIconEmoji cfg0),
                     scMode := or_default '''' ModeCreate (scMode cfg0)\<rparr>
      in case LoadTemplateString readFile template of
           Inl e \<Rightarrow> Inl (Wrap ''load template: '' e)
         | Inr content \<Rightarrow>
             (case (if content = '''' then Inr None
                    else case parse content of Inl e \<Rightarrow> Inl (Wrap ''invalid template: '' e) | Inr t \<Rightarrow> Inr (Some t)) of
                Inl e \<Rightarrow> Inl e
              | Inr t \<Rightarrow>
                  Inr (if scBot cfg \<and> scChannel cfg = '''' \<and> scChannelID cfg \<noteq> ''''
                       then cfg\<lparr>scTmpl := t, scChannel := scChannelID cfg\<rparr> else cfg\<lparr>scTmpl := t\<rparr>)))"

definition slack_color :: "State \<Rightarrow> string" where
  "slack_color s =
     (if s = StateSuccess then ''#36a64f'' else if s = StateFailure \<or> s = StateError then ''#e01e5a''
      else if s = StateRunning then ''#daa038'' else ''#aaaaaa'')"

definition slack_emoji :: "State \<Rightarrow> string" where
  "slack_emoji s =
     (if s = StateSuccess then '':white_check_mark:'' else if s = StateFailure \<or> s = StateError then '':x:''
      else if s = StateRunning then '':hourglass_flowing_sand:'' else '':grey_question:'')"

definition slack_defaultText :: "Event \<Rightarrow> string" where
  "slack_defaultText e =
     slack_emoji (StateOf e) @ '' *'' @ Context e @ ''* '' @ [CHR 0xE2, CHR 0x80, CHR 0x94] @ '' '' @ Description e @
     (if TargetURL e \<noteq> '''' then CHR 0x0A # ''<'' @ TargetURL e @ ''|View run>'' else '''')"

text \<open>The fields of a message: title, value, short.\<close>

definition attachmentFields :: "(nat \<Rightarrow> nat) \<Rightarrow> Event \<Rightarrow> (string \<times> string \<times> bool) list" where
  "attachmentFields uup e =
     [(''State'', ToUpper uup (StateOf e), True), (''Run'', RunName e, True)] @
     (if CommitSHA e \<noteq> '''' then [(''Commit'', take 7 (CommitSHA e), True)] else []) @
     (if StartedAt e \<noteq> 0 \<and> FinishedAt e \<noteq> 0
      then [(''Duration'', Duration_String (Round (time_Sub (FinishedAt e) (StartedAt e)) (10 ^ 9)), True)] else [])"

definition slack_fields :: "(nat \<Rightarrow> nat) \<Rightarrow> Event \<Rightarrow> json list" where
  "slack_fields uup e =
     map (\<lambda>(t, v, b). map_obj [(''title'', JStr t), (''value'', JStr v), (''short'', JBool b)]) (attachmentFields uup e)"

record Attachment =
  atColor :: string
  atText :: string
  atFooter :: string
  atMarkdownIn :: "string list"
  atFields :: "(string \<times> string \<times> bool) list"

definition slack_attachment :: "(nat \<Rightarrow> nat) \<Rightarrow> Event \<Rightarrow> Attachment" where
  "slack_attachment uup e =
     \<lparr>atColor = slack_color (StateOf e), atText = slack_defaultText e, atFooter = Namespace e @ ''/'' @ RunName e,
      atMarkdownIn = [''text''], atFields = attachmentFields uup e\<rparr>"

text \<open>The options of a message of the bot; the last \<^verbatim>\<open>MsgOptionTS\<close> counts, empty for none.\<close>

record SlackMsg =
  smText :: "string option"
  smAttachments :: "Attachment list"
  smUsername :: string
  smIconEmoji :: string
  smThreadTS :: string

definition resolveChannel :: "SlackConfig \<Rightarrow> Event \<Rightarrow> string" where
  "resolveChannel cfg e =
     (let static = (if scChannel cfg \<noteq> '''' then scChannel cfg else scChannelID cfg) in
      case scChannelExpr cfg of
        None \<Rightarrow> static
      | Some f \<Rightarrow> (case f e of Inr ch \<Rightarrow> if ch \<noteq> '''' then ch else static | Inl _ \<Rightarrow> static))"

definition messageOptions :: "(nat \<Rightarrow> nat) \<Rightarrow> SlackConfig \<Rightarrow> Event \<Rightarrow> SlackMsg result" where
  "messageOptions uup cfg e =
     (let msg = \<lparr>smText = None, smAttachments = [], smUsername = scUsername cfg, smIconEmoji = scIconEmoji cfg,
                 smThreadTS = scThreadTS cfg\<rparr>
      in case scTmpl cfg of
           Some t \<Rightarrow> (case t e of Inl er \<Rightarrow> Inl (Wrap ''template execution failed: '' er) | Inr text \<Rightarrow> Inr (msg\<lparr>smText := Some text\<rparr>))
         | None \<Rightarrow> Inr (msg\<lparr>smAttachments := [slack_attachment uup e]\<rparr>))"

text \<open>The client of Slack. A post answers the timestamp that names the message.\<close>

record 'w SlackAPI =
  saPost :: "string \<Rightarrow> SlackMsg \<Rightarrow> 'w \<Rightarrow> string result \<times> 'w"
  saUpdate :: "string \<Rightarrow> string \<Rightarrow> SlackMsg \<Rightarrow> 'w \<Rightarrow> err option \<times> 'w"

datatype slack_call = PostMessage string SlackMsg "string result" | UpdateMessage string string SlackMsg "err option"

definition slack_canUpsert :: "SlackConfig \<Rightarrow> bool" where
  "slack_canUpsert cfg \<longleftrightarrow> scMode cfg = ModeUpsert \<and> scStore cfg"

definition slack_canThreadGroup :: "SlackConfig \<Rightarrow> bool" where
  "slack_canThreadGroup cfg \<longleftrightarrow> scThreadMode cfg = ThreadModeGrouped \<and> scStore cfg"

text \<open>A reference that is not empty.\<close>

definition usable :: "string option \<Rightarrow> string option" where
  "usable r = (case r of None \<Rightarrow> None | Some ts \<Rightarrow> if ts = '''' then None else Some ts)"

text \<open>A post, and the reference it leaves when it is to be remembered.\<close>

definition slack_post ::
  "'w SlackAPI \<Rightarrow> 's MsgStore \<Rightarrow> Time \<Rightarrow> bool \<Rightarrow> string \<Rightarrow> string \<Rightarrow> SlackMsg \<Rightarrow> 's \<times> 'w \<Rightarrow> err option \<times> slack_call list \<times> 's \<times> 'w" where
  "slack_post api ms now remember run channel msg s =
     (case saPost api channel msg (snd s) of
        (Inl e, w) \<Rightarrow> (Some (Wrap ''slack post message: '' e), [PostMessage channel msg (Inl e)], fst s, w)
      | (Inr ts, w) \<Rightarrow>
          (None, [PostMessage channel msg (Inr ts)],
           if remember \<and> run \<noteq> '''' \<and> ts \<noteq> '''' then msSave ms now run ts (fst s) else fst s, w))"

definition slack_sendBot ::
  "(nat \<Rightarrow> nat) \<Rightarrow> SlackConfig \<Rightarrow> 'w SlackAPI \<Rightarrow> 's MsgStore \<Rightarrow> Time \<Rightarrow> Event \<Rightarrow> 's \<times> 'w \<Rightarrow>
   err option \<times> slack_call list \<times> 's \<times> 'w" where
  "slack_sendBot uup cfg api ms now e s =
     (case messageOptions uup cfg e of
        Inl er \<Rightarrow> (Some er, [], s)
      | Inr msg \<Rightarrow>
          (let channel = resolveChannel cfg e in
           if slack_canThreadGroup cfg then
             (case msLoad ms now (RunID e) (fst s) of (r, st) \<Rightarrow>
               (let msg' = (case usable r of Some ts \<Rightarrow> msg\<lparr>smThreadTS := ts\<rparr> | None \<Rightarrow> msg)
                in slack_post api ms now True (RunID e) channel msg' (st, snd s)))
           else if slack_canUpsert cfg then
             (case msLoad ms now (RunID e) (fst s) of (r, st) \<Rightarrow>
               (case usable r of
                  Some ts \<Rightarrow>
                    (case saUpdate api channel ts msg (snd s) of
                       (er, w) \<Rightarrow> (map_option (Wrap ''slack update message: '') er, [UpdateMessage channel ts msg er], st, w))
                | None \<Rightarrow> slack_post api ms now True (RunID e) channel msg (st, snd s)))
           else slack_post api ms now False (RunID e) channel msg s))"

text \<open>The payload of the webhook.\<close>

definition with_channel :: "string \<Rightarrow> (string \<times> json) list \<Rightarrow> (string \<times> json) list" where
  "with_channel ch ms = (if ch \<noteq> '''' then ms @ [(''channel'', JStr ch)] else ms)"

definition attachment_json :: "(nat \<Rightarrow> nat) \<Rightarrow> Event \<Rightarrow> json" where
  "attachment_json uup e = map_obj [(''color'', JStr (slack_color (StateOf e))), (''text'', JStr (slack_defaultText e)),
     (''footer'', JStr (Namespace e @ ''/'' @ RunName e)), (''mrkdwn_in'', JArr [JStr ''text'']), (''fields'', JArr (slack_fields uup e))]"

definition slack_payload :: "(nat \<Rightarrow> nat) \<Rightarrow> SlackConfig \<Rightarrow> Event \<Rightarrow> json result" where
  "slack_payload uup cfg e =
     (let ms = [(''username'', JStr (scUsername cfg)), (''icon_emoji'', JStr (scIconEmoji cfg))];
          ch = resolveChannel cfg e
      in case scTmpl cfg of
           Some t \<Rightarrow>
             (case t e of
                Inl er \<Rightarrow> Inl (Wrap ''template execution failed: '' er)
              | Inr text \<Rightarrow> Inr (map_obj (with_channel ch (ms @ [(''text'', JStr text)]))))
         | None \<Rightarrow> Inr (map_obj (with_channel ch (ms @ [(''attachments'', JArr [attachment_json uup e])]))))"

definition slack_base :: "(nat \<Rightarrow> nat) \<Rightarrow> SlackConfig \<Rightarrow> Base" where
  "slack_base uup cfg = \<lparr>bsPayload = slack_payload uup cfg, bsURL = \<lambda>_. Inr (scWebhookURL cfg), bsAuth = None,
     bsMethod = None, bsUserAgent = ''tekton-events-relay'', bsRetryPolicy = scRetryPolicy cfg\<rparr>"

text \<open>A batch is one message, in the channel of its first event.\<close>

definition slack_flushBot ::
  "(nat \<Rightarrow> nat) \<Rightarrow> SlackConfig \<Rightarrow> 'w SlackAPI \<Rightarrow> Event list \<Rightarrow> 'w \<Rightarrow> err option \<times> slack_call list \<times> 'w" where
  "slack_flushBot uup cfg api es w =
     (if es = [] then (None, [], w)
      else
        (let msg = \<lparr>smText = None, smAttachments = map (slack_attachment uup) es, smUsername = scUsername cfg,
                    smIconEmoji = scIconEmoji cfg, smThreadTS = ''''\<rparr>;
             channel = resolveChannel cfg (hd es)
         in case saPost api channel msg w of
              (Inl e, w') \<Rightarrow> (Some (Wrap ''slack batch post: '' e), [PostMessage channel msg (Inl e)], w')
            | (Inr ts, w') \<Rightarrow> (None, [PostMessage channel msg (Inr ts)], w')))"

definition slack_flush_payload :: "(nat \<Rightarrow> nat) \<Rightarrow> SlackConfig \<Rightarrow> Event list \<Rightarrow> json" where
  "slack_flush_payload uup cfg es =
     map_obj (with_channel (resolveChannel cfg (hd es))
       [(''username'', JStr (scUsername cfg)), (''icon_emoji'', JStr (scIconEmoji cfg)),
        (''attachments'', JArr (map (attachment_json uup) es))])"

definition slack_flushWebhook ::
  "(nat \<Rightarrow> nat) \<Rightarrow> Network \<Rightarrow> RetryPolicy \<Rightarrow> SlackConfig \<Rightarrow> Event list \<Rightarrow> Collectors option \<Rightarrow>
   err option \<times> (HttpRequest \<times> response result list) option \<times> Collectors option" where
  "slack_flushWebhook uup nw global cfg es m =
     (if es = [] then (None, None, m)
      else case nwMarshal nw (slack_flush_payload uup cfg es) of
        Inl er \<Rightarrow> (Some (Wrap ''marshal batch payload: '' er), None, m)
      | Inr body \<Rightarrow>
          (case nwNewRequest nw ''POST'' (scWebhookURL cfg) of
             Some er \<Rightarrow> (Some er, None, m)
           | None \<Rightarrow>
               (let req = \<lparr>hrMethod = ''POST'', hrURL = scWebhookURL cfg,
                      hrHeader = [(''Content-Type'', ''application/json''), (''Accept'', ''application/json''),
                        (''User-Agent'', ''tekton-events-relay'')], hrBody = body\<rparr>;
                    rp = (case scRetryPolicy cfg of None \<Rightarrow> global | Some p \<Rightarrow> p)
                in case DoWithRetryPolicy (nwDo nw) None (nwHost nw (hrURL req)) rp (nwAnswer nw req) m of
                     (Inl er, as, m') \<Rightarrow> (Some (Wrap ''slack batch webhook: '' er), Some (req, as), m')
                   | (Inr resp, as, m') \<Rightarrow>
                       ((if StatusCode resp \<ge> 300
                         then Some (Err (''slack batch webhook responded '' @ Itoa (StatusCode resp) @ '': '' @ take 4096 (nwText nw req resp)))
                         else None), Some (req, as), m'))))"

section \<open>Discord\<close>

record DiscordConfig =
  dcBot :: bool
  dcWebhookURL :: string
  dcChannelID :: string
  dcUsername :: string
  dcTmpl :: "template option"
  dcMentionRoles :: "string list"
  dcMode :: string
  dcThreadMode :: string
  dcStore :: bool
  dcWebhookID :: string
  dcWebhookToken :: string

definition trim_slashes :: "string \<Rightarrow> string" where
  "trim_slashes s = rev (dropWhile (\<lambda>c. c = CHR ''/'') (rev (dropWhile (\<lambda>c. c = CHR ''/'') s)))"

fun webhook_parts :: "string list \<Rightarrow> (string \<times> string) option" where
  "webhook_parts (a # b # c # rest) =
     (if a = ''webhooks'' \<and> b \<noteq> '''' \<and> c \<noteq> '''' then Some (b, c) else webhook_parts (b # c # rest))"
| "webhook_parts _ = None"

text \<open>\<open>url_path\<close> is the path of a parsed URL.\<close>

definition parseWebhookURL :: "(string \<Rightarrow> string result) \<Rightarrow> string \<Rightarrow> (string \<times> string) result" where
  "parseWebhookURL url_path raw =
     (if raw = '''' then Inl (Err ''discord webhook URL is empty'')
      else case url_path raw of
        Inl e \<Rightarrow> Inl (Wrap ''parse discord webhook URL: '' e)
      | Inr path \<Rightarrow>
          (case webhook_parts (SplitByte (CHR ''/'') (trim_slashes path)) of
             Some p \<Rightarrow> Inr p
           | None \<Rightarrow> Inl (Err (''invalid discord webhook URL: '' @ strconv_Quote raw @ '' (expected .../webhooks/{id}/{token})''))))"

definition discord_New ::
  "(string \<Rightarrow> string result) \<Rightarrow> (string \<Rightarrow> template result) \<Rightarrow> (string \<Rightarrow> string result) \<Rightarrow> string \<Rightarrow> DiscordConfig \<Rightarrow> DiscordConfig result" where
  "discord_New readFile parse url_path template cfg0 =
     (let cfg = cfg0\<lparr>dcUsername := or_default '''' ''tekton-events-relay'' (dcUsername cfg0),
                     dcMode := or_default '''' ModeCreate (dcMode cfg0)\<rparr>
      in case LoadTemplateString readFile template of
           Inl e \<Rightarrow> Inl (Wrap ''load template: '' e)
         | Inr content \<Rightarrow>
             (case (if content = '''' then Inr None
                    else case parse content of Inl e \<Rightarrow> Inl (Wrap ''invalid template: '' e) | Inr t \<Rightarrow> Inr (Some t)) of
                Inl e \<Rightarrow> Inl e
              | Inr t \<Rightarrow>
                  (if dcBot cfg then Inr (cfg\<lparr>dcTmpl := t\<rparr>)
                   else case parseWebhookURL url_path (dcWebhookURL cfg) of
                     Inl e \<Rightarrow> Inl e
                   | Inr (i, tok) \<Rightarrow> Inr (cfg\<lparr>dcTmpl := t, dcWebhookID := i, dcWebhookToken := tok\<rparr>))))"

record Embed =
  emTitle :: string
  emDescription :: string
  emColor :: int
  emFields :: "(string \<times> string \<times> bool) list"
  emFooter :: string
  emURL :: string

definition discord_color :: "State \<Rightarrow> int" where
  "discord_color s =
     (if s = StateSuccess then 0x36a64f else if s = StateFailure \<or> s = StateError then 0xe01e5a
      else if s = StateRunning then 0xdaa038 else 0xaaaaaa)"

definition code_span :: "string \<Rightarrow> string" where "code_span s = CHR 0x60 # s @ [CHR 0x60]"

definition discord_embed :: "Event \<Rightarrow> Embed" where
  "discord_embed e =
     \<lparr>emTitle = Context e, emDescription = Description e, emColor = discord_color (StateOf e),
      emFields = [(''State'', code_span (StateOf e), True), (''Run'', code_span (RunName e), True)] @
        (if CommitSHA e \<noteq> ''''
         then [(''Commit'', code_span (if length (CommitSHA e) > 7 then take 7 (CommitSHA e) else CommitSHA e), True)] else []),
      emFooter = Namespace e @ ''/'' @ RunName e, emURL = TargetURL e\<rparr>"

definition roleMentions :: "DiscordConfig \<Rightarrow> string" where
  "roleMentions cfg =
     (if length (dcMentionRoles cfg) = 0 then ''''
      else strings_Join (map (\<lambda>i. ''<@&'' @ i @ ''>'') (dcMentionRoles cfg)) '' '')"

definition discord_render :: "DiscordConfig \<Rightarrow> Event \<Rightarrow> (string \<times> Embed list) result" where
  "discord_render cfg e =
     (case (case dcTmpl cfg of None \<Rightarrow> Inr ''''
            | Some t \<Rightarrow> (case t e of Inl er \<Rightarrow> Inl (Wrap ''template execution failed: '' er) | Inr text \<Rightarrow> Inr text)) of
        Inl er \<Rightarrow> Inl er
      | Inr text \<Rightarrow>
          (let mentions = roleMentions cfg;
               content = (if mentions = '''' then text else if text \<noteq> '''' then mentions @ '' '' @ text else mentions)
           in Inr (content, if dcTmpl cfg = None then [discord_embed e] else [])))"

text \<open>
  The client of Discord; the identifier of a created message is empty when the answer has none. An edit
  changes the content or the embeds only when there are some. Messages go to the channel of the bot, or to
  the webhook of an identifier and a token.
\<close>

datatype discord_dest = BotChannel string | Webhook string string

record DiscordMsg =
  dmUsername :: string
  dmContent :: string
  dmEmbeds :: "Embed list"
  dmReference :: "string option"

record 'w DiscordAPI =
  daCreate :: "discord_dest \<Rightarrow> DiscordMsg \<Rightarrow> 'w \<Rightarrow> string result \<times> 'w"
  daEdit :: "discord_dest \<Rightarrow> string \<Rightarrow> string option \<Rightarrow> Embed list option \<Rightarrow> 'w \<Rightarrow> err option \<times> 'w"

datatype discord_call = CreateMessage discord_dest DiscordMsg "string result"
  | EditMessage discord_dest string "string option" "Embed list option" "err option"

definition discord_canUpsert :: "DiscordConfig \<Rightarrow> bool" where
  "discord_canUpsert cfg \<longleftrightarrow> dcMode cfg = ModeUpsert \<and> dcStore cfg"

definition discord_canThreadGroup :: "DiscordConfig \<Rightarrow> bool" where
  "discord_canThreadGroup cfg \<longleftrightarrow> dcThreadMode cfg = ThreadModeGrouped \<and> dcStore cfg"

definition discord_target :: "DiscordConfig \<Rightarrow> discord_dest" where
  "discord_target cfg = (if dcBot cfg then BotChannel (dcChannelID cfg) else Webhook (dcWebhookID cfg) (dcWebhookToken cfg))"

text \<open>Only a message of the webhook carries the user name.\<close>

definition discord_message :: "DiscordConfig \<Rightarrow> string \<Rightarrow> Embed list \<Rightarrow> DiscordMsg" where
  "discord_message cfg content embeds =
     \<lparr>dmUsername = (if dcBot cfg then '''' else dcUsername cfg), dmContent = content, dmEmbeds = embeds, dmReference = None\<rparr>"

definition discord_create ::
  "DiscordConfig \<Rightarrow> 'w DiscordAPI \<Rightarrow> 's MsgStore \<Rightarrow> Time \<Rightarrow> bool \<Rightarrow> string \<Rightarrow> DiscordMsg \<Rightarrow> 's \<times> 'w \<Rightarrow>
   err option \<times> discord_call list \<times> 's \<times> 'w" where
  "discord_create cfg api ms now remember run msg s =
     (case daCreate api (discord_target cfg) msg (snd s) of
        (Inl e, w) \<Rightarrow> (Some (Wrap (if dcBot cfg then ''discord send message: '' else ''discord webhook execute: '') e),
           [CreateMessage (discord_target cfg) msg (Inl e)], fst s, w)
      | (Inr i, w) \<Rightarrow>
          (None, [CreateMessage (discord_target cfg) msg (Inr i)],
           if remember \<and> run \<noteq> '''' \<and> i \<noteq> '''' then msSave ms now run i (fst s) else fst s, w))"

text \<open>\<^verbatim>\<open>sendBot\<close> and \<^verbatim>\<open>sendWebhook\<close>: only the bot groups a run in a thread; an edit that fails is followed by a new message.\<close>

definition discord_upsert ::
  "DiscordConfig \<Rightarrow> 'w DiscordAPI \<Rightarrow> 's MsgStore \<Rightarrow> Time \<Rightarrow> string \<Rightarrow> DiscordMsg \<Rightarrow> 's \<times> 'w \<Rightarrow>
   err option \<times> discord_call list \<times> 's \<times> 'w" where
  "discord_upsert cfg api ms now run msg s =
     (if discord_canUpsert cfg then
        (case msLoad ms now run (fst s) of (r, st) \<Rightarrow>
          (case usable r of
             None \<Rightarrow> discord_create cfg api ms now True run msg (st, snd s)
           | Some i \<Rightarrow>
               (let c = (if dmContent msg \<noteq> '''' then Some (dmContent msg) else None);
                    m = (if length (dmEmbeds msg) > 0 then Some (dmEmbeds msg) else None)
                in case daEdit api (discord_target cfg) i c m (snd s) of
                     (None, w) \<Rightarrow> (None, [EditMessage (discord_target cfg) i c m None], st, w)
                   | (Some e, w) \<Rightarrow>
                       (case discord_create cfg api ms now True run msg (st, w) of
                          (er, calls, s') \<Rightarrow> (er, EditMessage (discord_target cfg) i c m (Some e) # calls, s')))))
      else discord_create cfg api ms now False run msg s)"

definition discord_Handle ::
  "DiscordConfig \<Rightarrow> 'w DiscordAPI \<Rightarrow> 's MsgStore \<Rightarrow> Time \<Rightarrow> Event \<Rightarrow> 's \<times> 'w \<Rightarrow>
   err option \<times> discord_call list \<times> 's \<times> 'w" where
  "discord_Handle cfg api ms now e s =
     (case discord_render cfg e of
        Inl er \<Rightarrow> (Some er, [], s)
      | Inr (content, embeds) \<Rightarrow>
          (let msg = discord_message cfg content embeds in
           if dcBot cfg \<and> discord_canThreadGroup cfg then
             (case msLoad ms now (RunID e) (fst s) of (r, st) \<Rightarrow>
               discord_create cfg api ms now True (RunID e) (msg\<lparr>dmReference := usable r\<rparr>) (st, snd s))
           else discord_upsert cfg api ms now (RunID e) msg s))"

definition discord_Flush :: "DiscordConfig \<Rightarrow> 'w DiscordAPI \<Rightarrow> Event list \<Rightarrow> 'w \<Rightarrow> err option \<times> discord_call list \<times> 'w" where
  "discord_Flush cfg api es w =
     (if es = [] then (None, [], w)
      else
        (let msg = discord_message cfg '''' (map discord_embed es)
         in case daCreate api (discord_target cfg) msg w of
              (Inl e, w') \<Rightarrow> (Some (Wrap (if dcBot cfg then ''discord batch send: '' else ''discord batch webhook: '') e),
                [CreateMessage (discord_target cfg) msg (Inl e)], w')
            | (Inr i, w') \<Rightarrow> (None, [CreateMessage (discord_target cfg) msg (Inr i)], w')))"

section \<open>References keep a run together\<close>

text \<open>
  A notifier that handles events one after the other, at the given times: for each event the calls made
  for it; and the calls made for one key.
\<close>

fun handle_all :: "(Time \<Rightarrow> 'e \<Rightarrow> 's \<Rightarrow> 'i list \<times> 's) \<Rightarrow> (Time \<times> 'e) list \<Rightarrow> 's \<Rightarrow> ('e \<times> 'i list) list \<times> 's" where
  "handle_all step [] s = ([], s)"
| "handle_all step ((t, e) # evs) s =
     (case step t e s of (calls, s1) \<Rightarrow> (case handle_all step evs s1 of (outs, s2) \<Rightarrow> ((e, calls) # outs, s2)))"

definition calls_for :: "('e \<Rightarrow> string) \<Rightarrow> string \<Rightarrow> ('e \<times> 'i list) list \<Rightarrow> 'i list" where
  "calls_for key k outs = concat (map snd (filter (\<lambda>x. key (fst x) = k) outs))"

lemma calls_for_simps [simp]:
  "calls_for key k [] = []"
  "calls_for key k ((e, cs) # outs) = (if key e = k then cs @ calls_for key k outs else calls_for key k outs)"
  by (simp_all add: calls_for_def)

text \<open>The first call starts something that every further call continues, by its reference.\<close>

definition threaded :: "(string \<Rightarrow> 'i \<Rightarrow> bool) \<Rightarrow> (string \<Rightarrow> 'i \<Rightarrow> bool) \<Rightarrow> 'i list \<Rightarrow> bool" where
  "threaded starts continues cs \<longleftrightarrow> cs = [] \<or> (\<exists>r c us. cs = c # us \<and> starts r c \<and> (\<forall>u \<in> set us. continues r u))"

text \<open>
  What a notifier with a store of references promises: the calls for an event are decided by what is known
  for its key, a started reference is known for the time to live, and no other key is touched.
\<close>

locale reference_keeper =
  fixes step :: "Time \<Rightarrow> 'e \<Rightarrow> 's \<Rightarrow> 'i list \<times> 's"
    and key :: "'e \<Rightarrow> string"
    and known :: "Time \<Rightarrow> 's \<Rightarrow> string \<Rightarrow> string option"
    and used :: "'s \<Rightarrow> nat"
    and cap :: nat
    and ttl :: int
    and starts :: "string \<Rightarrow> 'i \<Rightarrow> bool"
    and continues :: "string \<Rightarrow> 'i \<Rightarrow> bool"
  assumes used: "step t e s = (cs, s') \<Longrightarrow> used s' \<le> Suc (used s)"
    and others: "step t e s = (cs, s') \<Longrightarrow> used s < cap \<Longrightarrow> k \<noteq> key e \<Longrightarrow> known u s' k = known u s k"
    and own: "step t e s = (cs, s') \<Longrightarrow> used s < cap \<Longrightarrow> key e \<noteq> '''' \<Longrightarrow> known t s (key e) \<noteq> Some '''' \<Longrightarrow>
      cs = [] \<and> (\<forall>u. known u s' (key e) = known u s (key e)) \<or>
      (\<exists>r c. known t s (key e) = Some r \<and> cs = [c] \<and> continues r c \<and> (\<forall>u. known u s' (key e) = known u s (key e))) \<or>
      (\<exists>r c. known t s (key e) = None \<and> cs = [c] \<and> starts r c \<and> r \<noteq> '''' \<and>
         (\<forall>u. t \<le> u \<and> u \<le> t + ttl \<longrightarrow> known u s' (key e) = Some r))"
begin

lemma continued:
  "handle_all step evs s = (outs, s') \<Longrightarrow> used s + length evs \<le> cap \<Longrightarrow> k \<noteq> '''' \<Longrightarrow> r \<noteq> '''' \<Longrightarrow>
    \<forall>(t, e) \<in> set evs. lo \<le> t \<and> t \<le> T \<Longrightarrow> \<forall>u. lo \<le> u \<and> u \<le> T \<longrightarrow> known u s k = Some r \<Longrightarrow>
    \<forall>c \<in> set (calls_for key k outs). continues r c"
proof (induction evs arbitrary: s outs)
  case (Cons x evs)
  obtain t e where x: "x = (t, e)" by fastforce
  obtain cs s1 where step: "step t e s = (cs, s1)" by fastforce
  obtain outs1 where rest: "handle_all step evs s1 = (outs1, s')" and outs: "outs = (e, cs) # outs1"
    using Cons.prems(1) by (auto simp: x step split: prod.splits)
  have room: "used s < cap" using Cons.prems(2) by simp
  have now: "known t s k = Some r" using Cons.prems(5,6) x by simp
  have keep: "(\<forall>u. lo \<le> u \<and> u \<le> T \<longrightarrow> known u s1 k = Some r) \<and> (key e = k \<longrightarrow> (\<forall>c \<in> set cs. continues r c))"
  proof (cases "key e = k")
    case True
    with own [OF step room] now Cons.prems(3,4,6) show ?thesis by auto
  next
    case False
    with others [OF step room, of k] Cons.prems(6) show ?thesis by simp
  qed
  have "\<forall>c \<in> set (calls_for key k outs1). continues r c"
    using used [OF step] Cons.prems(2-5) keep by (intro Cons.IH [OF rest]) auto
  with keep outs show ?case by auto
qed simp

lemma one_thread:
  "handle_all step evs s = (outs, s') \<Longrightarrow> used s + length evs \<le> cap \<Longrightarrow> \<forall>u. known u s k = None \<Longrightarrow> k \<noteq> '''' \<Longrightarrow>
    sorted (map fst evs) \<Longrightarrow> \<forall>(t, e) \<in> set evs. T \<le> t + ttl \<and> t \<le> T \<Longrightarrow> threaded starts continues (calls_for key k outs)"
proof (induction evs arbitrary: s outs)
  case (Cons x evs)
  obtain t e where x: "x = (t, e)" by fastforce
  obtain cs s1 where step: "step t e s = (cs, s1)" by fastforce
  obtain outs1 where rest: "handle_all step evs s1 = (outs1, s')" and outs: "outs = (e, cs) # outs1"
    using Cons.prems(1) by (auto simp: x step split: prod.splits)
  have room: "used s < cap" using Cons.prems(2) by simp
  have T: "T \<le> t + ttl" using Cons.prems(6) x by simp
  show ?case
  proof (cases "key e = k \<and> cs \<noteq> []")
    case False
    have "known u s1 k = None" for u
    proof (cases "key e = k")
      case True
      with False own [OF step room] Cons.prems(3,4) show ?thesis by auto
    qed (use others [OF step room, of k] Cons.prems(3) in auto)
    then have "threaded starts continues (calls_for key k outs1)"
      using used [OF step] Cons.prems(2,4-6) x by (intro Cons.IH [OF rest]) auto
    with False outs show ?thesis by auto
  next
    case True
    with own [OF step room] Cons.prems(3,4) obtain r c where c: "cs = [c]" "starts r c" "r \<noteq> ''''"
      and l: "\<forall>u. t \<le> u \<and> u \<le> t + ttl \<longrightarrow> known u s1 k = Some r" by auto
    have "\<forall>(t', e) \<in> set evs. t \<le> t' \<and> t' \<le> T" using Cons.prems(5,6) x by fastforce
    then have "\<forall>c \<in> set (calls_for key k outs1). continues r c"
      using used [OF step] Cons.prems(2,4) c(3) l T by (intro continued [OF rest, where lo = t and T = T]) auto
    with c True outs show ?thesis by (auto simp: threaded_def)
  qed
qed (simp add: threaded_def)

end

section \<open>A run has one message\<close>

text \<open>Every post is answered with a reference.\<close>

definition posts_succeed :: "'w SlackAPI \<Rightarrow> bool" where
  "posts_succeed api \<longleftrightarrow> (\<forall>ch msg w. \<exists>ts w'. saPost api ch msg w = (Inr ts, w') \<and> ts \<noteq> '''')"

definition is_post :: "string \<Rightarrow> slack_call \<Rightarrow> bool" where
  "is_post ts c \<longleftrightarrow> (\<exists>ch msg. c = PostMessage ch msg (Inr ts))"

definition is_update :: "string \<Rightarrow> slack_call \<Rightarrow> bool" where
  "is_update ts c \<longleftrightarrow> (\<exists>ch msg er. c = UpdateMessage ch ts msg er)"

text \<open>The calls for one event, and the events of a time.\<close>

definition slack_step :: "(nat \<Rightarrow> nat) \<Rightarrow> SlackConfig \<Rightarrow> 'w SlackAPI \<Rightarrow> 's MsgStore \<Rightarrow> Time \<Rightarrow> Event \<Rightarrow> 's \<times> 'w \<Rightarrow>
    slack_call list \<times> 's \<times> 'w" where
  "slack_step uup cfg api ms t e s = snd (slack_sendBot uup cfg api ms t e s)"

abbreviation slack_all :: "(nat \<Rightarrow> nat) \<Rightarrow> SlackConfig \<Rightarrow> 'w SlackAPI \<Rightarrow> 's MsgStore \<Rightarrow> (Time \<times> Event) list \<Rightarrow> 's \<times> 'w \<Rightarrow>
    (Event \<times> slack_call list) list \<times> 's \<times> 'w" where
  "slack_all uup cfg api ms \<equiv> handle_all (slack_step uup cfg api ms)"

lemma usable_Some: "usable r = Some ts \<longleftrightarrow> r = Some ts \<and> ts \<noteq> ''''"
  by (auto simp: usable_def split: option.splits)

text \<open>In upsert mode, over a cache that behaves as documented, the notifier keeps references.\<close>

lemma slack_keeper:
  assumes "expirable_cache ops live cap ttl" and "slack_canUpsert cfg" and "\<not> slack_canThreadGroup cfg" and "posts_succeed api"
  shows "reference_keeper (slack_step uup cfg api (MemoryStore ops)) RunID (\<lambda>t s. live t (fst s)) (\<lambda>s. xlru_len ops (fst s)) cap ttl
    is_post is_update"
proof
  note get = expirable_cache.get_result [OF assms(1)] expirable_cache.get_live [OF assms(1)] expirable_cache.get_len [OF assms(1)]
  note add = expirable_cache.add_same [OF assms(1)] expirable_cache.add_other [OF assms(1)] expirable_cache.add_len [OF assms(1)]
  fix t e s cs s' k u
  assume step: "slack_step uup cfg api (MemoryStore ops) t e s = (cs, s')"
  obtain st w where s: "s = (st, w)" by fastforce
  obtain r st1 where load: "xlru_get ops t (RunID e) st = (r, st1)" by fastforce
  have r: "r = live t st (RunID e)" and l1: "\<And>u j. live u st1 j = live u st j" and n1: "xlru_len ops st1 = xlru_len ops st"
    using get [where t = t and k = "RunID e" and c = st] load by auto
  note defs = slack_step_def slack_sendBot_def Let_def MemoryStore_def slack_post_def load s
  show "xlru_len ops (fst s') \<le> Suc (xlru_len ops (fst s))"
    using assms(2,3) step n1 add(3) [where t = t and k = "RunID e" and c = st1]
    by (auto simp: defs split: sum.splits option.splits prod.splits if_splits)
  assume room: "xlru_len ops (fst s) < cap"
  show "k \<noteq> RunID e \<Longrightarrow> live u (fst s') k = live u (fst s) k"
    using assms(2,3) step room n1 l1 add(2) [where j = k and k = "RunID e" and c = st1]
    by (auto simp: defs split: sum.splits option.splits prod.splits if_splits)
  assume run: "RunID e \<noteq> ''''" and ne: "live t (fst s) (RunID e) \<noteq> Some ''''"
  show "cs = [] \<and> (\<forall>u. live u (fst s') (RunID e) = live u (fst s) (RunID e)) \<or>
      (\<exists>r c. live t (fst s) (RunID e) = Some r \<and> cs = [c] \<and> is_update r c \<and>
         (\<forall>u. live u (fst s') (RunID e) = live u (fst s) (RunID e))) \<or>
      (\<exists>r c. live t (fst s) (RunID e) = None \<and> cs = [c] \<and> is_post r c \<and> r \<noteq> '''' \<and>
         (\<forall>u. t \<le> u \<and> u \<le> t + ttl \<longrightarrow> live u (fst s') (RunID e) = Some r))"
  proof (cases "messageOptions uup cfg e")
    case (Inl er')
    with step show ?thesis by (simp add: defs)
  next
    case (Inr msg)
    show ?thesis
    proof (cases "usable r")
      case None
      obtain ts w1 where p: "saPost api (resolveChannel cfg e) msg w = (Inr ts, w1)" "ts \<noteq> ''''"
        using assms(4) unfolding posts_succeed_def by blast
      with assms(2,3) step Inr None run have "cs = [PostMessage (resolveChannel cfg e) msg (Inr ts)]"
        and "fst s' = xlru_add ops t (RunID e) ts st1" by (auto simp: defs)
      with None p(2) r ne add(1) show ?thesis by (auto simp: usable_def is_post_def s split: option.splits if_splits)
    next
      case (Some ts)
      with assms(2,3) step Inr obtain er' where "cs = [UpdateMessage (resolveChannel cfg e) ts msg er']" "fst s' = st1"
        by (auto simp: defs split: prod.splits)
      with Some r l1 show ?thesis by (auto simp: usable_Some is_update_def s)
    qed
  qed
qed

text \<open>
  C7 In upsert mode a run has one message: handling the events of any runs in the order of their times,
  no more events than the cache holds and none later than its time to live after the first, the
  notifier posts at most one message for each run, and every further call for the run edits that message.
\<close>

theorem slack_upsert_one_message:
  assumes "expirable_cache ops live cap ttl" and "slack_canUpsert cfg" and "\<not> slack_canThreadGroup cfg" and "posts_succeed api"
    and "slack_all uup cfg api (MemoryStore ops) evs (st, w) = (outs, s')" and "xlru_len ops st + length evs \<le> cap"
    and "\<forall>u. live u st run = None" and "run \<noteq> ''''"
    and "sorted (map fst evs)" and "\<forall>(t, e) \<in> set evs. T \<le> t + ttl \<and> t \<le> T"
  shows "threaded is_post is_update (calls_for RunID run outs)"
  using reference_keeper.one_thread [OF slack_keeper [OF assms(1-4)] assms(5)] assms(6-10) by simp

text \<open>A client that numbers its messages, and a notifier in upsert mode, for the witnesses.\<close>

definition counting_api :: "nat SlackAPI" where
  "counting_api = \<lparr>saPost = \<lambda>ch msg n. (Inr (replicate (Suc n) (CHR ''1'')), Suc n), saUpdate = \<lambda>ch ts msg n. (None, n)\<rparr>"

definition demo_slack :: "string \<Rightarrow> string \<Rightarrow> SlackConfig" where
  "demo_slack mode thread = \<lparr>scBot = True, scWebhookURL = '''', scChannelID = ''C1'', scChannel = ''C1'', scChannelExpr = None,
     scUsername = ''relay'', scIconEmoji = '':rocket:'', scTmpl = None, scMode = mode, scThreadMode = thread, scThreadTS = '''',
     scStore = True, scRetryPolicy = None\<rparr>"

definition run_event :: "string \<Rightarrow> State \<Rightarrow> Event" where
  "run_event run st = zero_event\<lparr>RunID := run, StateOf := st\<rparr>"

lemma counting_posts: "posts_succeed counting_api"
  by (simp add: posts_succeed_def counting_api_def)

interpretation slack_listed: reference_keeper "slack_step id (demo_slack ''upsert'' '''') counting_api (MemoryStore (list_xlru 1000 msgTTL))"
    RunID "\<lambda>t s. list_live t (fst s)" "\<lambda>s. xlru_len (list_xlru 1000 msgTTL) (fst s)" 1000 msgTTL is_post is_update
  by (rule slack_keeper [OF list_xlru_laws _ _ counting_posts])
    (simp_all add: demo_slack_def slack_canUpsert_def slack_canThreadGroup_def ModeUpsert_def ThreadModeGrouped_def)

theorem slack_upsert_one_message_witness:
  "threaded is_post is_update (calls_for RunID ''r1'' (fst (slack_all id (demo_slack ''upsert'' '''') counting_api (MemoryStore (list_xlru 1000 msgTTL))
     [(5, run_event ''r1'' StateRunning), (6, run_event ''r2'' StateRunning), (7, run_event ''r1'' StateSuccess)] ([], 0))))"
proof -
  let ?evs = "[(5, run_event ''r1'' StateRunning), (6, run_event ''r2'' StateRunning), (7, run_event ''r1'' StateSuccess)]"
  obtain outs s' where a: "slack_all id (demo_slack ''upsert'' '''') counting_api (MemoryStore (list_xlru 1000 msgTTL)) ?evs ([], 0) = (outs, s')"
    by (metis surj_pair)
  have "threaded is_post is_update (calls_for RunID ''r1'' outs)"
    by (rule slack_upsert_one_message [OF list_xlru_laws _ _ counting_posts a, where T = 7])
      (simp_all add: demo_slack_def slack_canUpsert_def slack_canThreadGroup_def ModeUpsert_def ThreadModeGrouped_def
        list_xlru_def list_live_def msgTTL_def)
  with a show ?thesis by simp
qed

text \<open>
  The reference is forgotten a fixed time after the message was posted, however often the message was
  edited in between: an event of a run that lasts longer is posted as a new message.
\<close>

theorem slack_long_run_posts_again:
  assumes "slack_canUpsert cfg" and "\<not> slack_canThreadGroup cfg" and "scTmpl cfg = None" and "run \<noteq> ''''"
    and "t0 \<le> t1" and "t1 \<le> t0 + msgTTL" and "t0 + msgTTL < t2" and "RunID e0 = run" and "RunID e1 = run" and "RunID e2 = run"
  shows "\<exists>c0 c1 c2 s. slack_all uup cfg counting_api (MemoryStore (list_xlru 1000 msgTTL)) [(t0, e0), (t1, e1), (t2, e2)] ([], 0) =
      ([(e0, [PostMessage c0 (projr (messageOptions uup cfg e0)) (Inr ''1'')]),
        (e1, [UpdateMessage c1 ''1'' (projr (messageOptions uup cfg e1)) None]),
        (e2, [PostMessage c2 (projr (messageOptions uup cfg e2)) (Inr ''11'')])], s)"
  using assms by (simp add: slack_step_def slack_sendBot_def Let_def MemoryStore_def slack_post_def messageOptions_def counting_api_def
      list_xlru_def usable_def front_def)

text \<open>
  In a thread every reply is remembered in place of the message before it, so each reply is attached to
  the previous reply and only the second message to the one that started the thread.
\<close>

theorem slack_thread_follows_replies:
  assumes "slack_canThreadGroup cfg" and "scTmpl cfg = None" and "run \<noteq> ''''"
    and "t0 \<le> t1" and "t1 \<le> t0 + msgTTL" and "t1 \<le> t2" and "t2 \<le> t1 + msgTTL"
    and "RunID e0 = run" and "RunID e1 = run" and "RunID e2 = run"
  shows "\<exists>c0 c1 c2 m0 m1 m2 s. slack_all uup cfg counting_api (MemoryStore (list_xlru 1000 msgTTL)) [(t0, e0), (t1, e1), (t2, e2)] ([], 0) =
      ([(e0, [PostMessage c0 m0 (Inr ''1'')]), (e1, [PostMessage c1 m1 (Inr ''11'')]), (e2, [PostMessage c2 m2 (Inr ''111'')])], s) \<and>
    smThreadTS m0 = scThreadTS cfg \<and> smThreadTS m1 = ''1'' \<and> smThreadTS m2 = ''11''"
  using assms by (simp add: slack_step_def slack_sendBot_def Let_def MemoryStore_def slack_post_def messageOptions_def counting_api_def
      list_xlru_def usable_def front_def numeral_3_eq_3)

text \<open>A batch goes to the channel of its first event, whatever the channels of the others.\<close>

theorem slack_batch_one_channel:
  assumes "slack_flushBot uup cfg api (e # es) w = (er, calls, w')"
  shows "\<exists>msg r. calls = [PostMessage (resolveChannel cfg e) msg r] \<and> length (smAttachments msg) = Suc (length es)"
  using assms by (auto simp: slack_flushBot_def Let_def split: prod.splits sum.splits)

text \<open>
  C8 What becomes of a notification sent over HTTP, over any retrying client that behaves as documented:
  nothing is sent when the request cannot be built; otherwise every attempt is the same request, there
  are at most as many as the policy allows, and the event is delivered exactly when the last attempt was
  answered below 300. Without a final answer, or with one that asks for a retry, the error is worth a
  retry of the event; every other refusal is permanent.
\<close>

theorem Send_verdict:
  assumes "retry_client (nwDo nw)" and "Send nw global b e m = (er, sent, m')"
  shows "(\<forall>e0. build_request nw b e = Inl e0 \<longrightarrow> er = Some e0 \<and> sent = None \<and> m' = m) \<and>
    (\<forall>req. build_request nw b e = Inr req \<longrightarrow>
      (\<exists>as. sent = Some (req, as) \<and> as = map (nwAnswer nw req) [0..<length as] \<and> 1 \<le> length as \<and>
        (let p = (case bsRetryPolicy b of None \<Rightarrow> global | Some p \<Rightarrow> p)
         in int (length as) \<le> (if MaxAttempts p \<le> 0 then 4 else MaxAttempts p)) \<and>
        (er = None \<longleftrightarrow> (\<exists>resp. last as = Inr resp \<and> StatusCode resp < 300)) \<and>
        (IsRetryable er \<longleftrightarrow> CheckRetry (last as))))"
proof (cases "build_request nw b e")
  case (Inl e0)
  with assms(2) show ?thesis by (simp add: Send_def)
next
  case (Inr req)
  let ?p = "case bsRetryPolicy b of None \<Rightarrow> global | Some p \<Rightarrow> p"
  obtain r as m1 where d: "DoWithRetryPolicy (nwDo nw) None (nwHost nw (hrURL req)) ?p (nwAnswer nw req) m = (r, as, m1)"
    by (metis surj_pair)
  note out = retry_outcome [OF assms(1) d]
  have res: "m' = m1 \<and> sent = Some (req, as) \<and> er = (case r of
      Inl er \<Rightarrow> Some (Wrap ''http request failed: '' er)
    | Inr resp \<Rightarrow> if StatusCode resp \<ge> 300
        then Some (Err (''responded '' @ Itoa (StatusCode resp) @ '': '' @ take 4096 (nwText nw req resp))) else None)"
    using assms(2) d by (auto simp: Send_def Inr Let_def split: sum.splits)
  have "(er = None \<longleftrightarrow> (\<exists>resp. last as = Inr resp \<and> StatusCode resp < 300)) \<and> (IsRetryable er \<longleftrightarrow> CheckRetry (last as))"
  proof (cases r)
    case (Inl e0)
    with res out show ?thesis by (auto simp: CheckRetry_def split: sum.splits)
  next
    case (Inr resp)
    with res out show ?thesis by (auto simp: CheckRetry_def)
  qed
  with res out Inr show ?thesis by (simp add: Let_def)
qed

definition demo_network :: Network where
  "demo_network = \<lparr>nwMarshal = \<lambda>j. Inr (json_print j), nwNewRequest = \<lambda>_ _. None, nwHost = \<lambda>u. ''hooks.slack.com'',
     nwAnswer = \<lambda>req i. Inr \<lparr>StatusCode = (if i = 0 then 503 else 404), RetryAfter = ''''\<rparr>, nwText = \<lambda>_ _. ''no_service'', nwDo = eager_Do\<rparr>"

theorem Send_verdict_witness:
  "\<exists>er as. fst (Send demo_network \<lparr>MaxAttempts = 3, InitialBackoff = 0, MaxBackoff = 0\<rparr>
       (slack_base id (demo_slack '''' '''')) zero_event None) = Some er \<and> \<not> IsRetryable (Some er)"
proof -
  let ?p = "\<lparr>MaxAttempts = 3, InitialBackoff = 0, MaxBackoff = 0\<rparr>" and ?b = "slack_base id (demo_slack '''' '''')"
  obtain er sent m' where s: "Send demo_network ?p ?b zero_event None = (er, sent, m')" by (metis surj_pair)
  have "\<exists>req. build_request demo_network ?b zero_event = Inr req"
    by (simp add: build_request_def slack_base_def slack_payload_def demo_slack_def demo_network_def Let_def)
  with Send_verdict [OF _ s] obtain req as where as: "sent = Some (req, as)" "as = map (nwAnswer demo_network req) [0..<length as]"
    "1 \<le> length as" "er = None \<longleftrightarrow> (\<exists>resp. last as = Inr resp \<and> StatusCode resp < 300)" "IsRetryable er \<longleftrightarrow> CheckRetry (last as)"
    by (auto simp: demo_network_def eager.retry_client_axioms)
  have two: "as = [Inr \<lparr>StatusCode = 503, RetryAfter = ''''\<rparr>, Inr \<lparr>StatusCode = 404, RetryAfter = ''''\<rparr>]"
    using s as(1) by (auto simp: Send_def build_request_def slack_base_def slack_payload_def demo_slack_def demo_network_def Let_def
        DoWithRetryPolicy_def normalized_def DefaultRetryPolicy_def eager_Do_def numeral_2_eq_2 CheckRetry_def)
  then have "er \<noteq> None" "\<not> IsRetryable er" using as(4,5) by (auto simp: CheckRetry_def)
  then show ?thesis using s by auto
qed

text \<open>
  Discord: an edit that fails (the message was deleted) is followed by a new message, which takes the
  place of the old one; the event is delivered. Slack reports the failed edit instead.
\<close>

theorem discord_upsert_recovers:
  assumes "discord_canUpsert cfg" and "msLoad ms now run (fst s) = (Some i, st)" and "i \<noteq> ''''" and "run \<noteq> ''''"
    and "\<And>c m. daEdit api (discord_target cfg) i c m (snd s) = (Some e, w)"
    and "daCreate api (discord_target cfg) msg w = (Inr j, w')" and "j \<noteq> ''''"
  shows "\<exists>c m. discord_upsert cfg api ms now run msg s =
    (None, [EditMessage (discord_target cfg) i c m (Some e), CreateMessage (discord_target cfg) msg (Inr j)], msSave ms now run j st, w')"
  using assms by (simp add: discord_upsert_def discord_create_def usable_def Let_def)

lemma slack_upsert_keeps_failing:
  assumes "slack_canUpsert cfg" and "\<not> slack_canThreadGroup cfg" and "messageOptions uup cfg e = Inr msg"
    and "msLoad ms now (RunID e) (fst s) = (Some ts, st)" and "ts \<noteq> ''''"
    and "saUpdate api (resolveChannel cfg e) ts msg (snd s) = (Some er, w)"
  shows "slack_sendBot uup cfg api ms now e s =
    (Some (Wrap ''slack update message: '' er), [UpdateMessage (resolveChannel cfg e) ts msg (Some er)], st, w)"
  using assms by (simp add: slack_sendBot_def Let_def usable_def)

end
