(* ===== verification/Relay_Mail.thy ===== *)
theory Relay_Mail
  imports Relay_Chat
begin

text \<open>
  The email notifier (\<^verbatim>\<open>internal/notifier/email/notifier.go\<close>): its configuration, the message with its threading
  headers, the options of the client and the sending, and that the messages of a run form one thread.

  The checks of the mail library on addresses, its message identifiers, the client and the templates are
  arguments.
\<close>

section \<open>Configuration\<close>

abbreviation EncryptionSTARTTLS :: string where "EncryptionSTARTTLS \<equiv> ''starttls''"
abbreviation EncryptionTLS :: string where "EncryptionTLS \<equiv> ''tls''"
abbreviation EncryptionNone :: string where "EncryptionNone \<equiv> ''none''"

text \<open>\<open>ecToken\<close> is what the token source answers, None for no source.\<close>

record EmailConfig =
  ecName :: string
  ecHost :: string
  ecPort :: int
  ecEncryption :: string
  ecUsername :: string
  ecPassword :: string
  ecFrom :: string
  ecTo :: "string list"
  ecCc :: "string list"
  ecBcc :: "string list"
  ecReplyTo :: string
  ecSubject :: string
  ecTemplate :: string
  ecHTML :: bool
  ecTimeout :: int
  ecInsecureSkipVerify :: bool
  ecXOAuth2 :: bool
  ecToken :: "string result option"

definition validateEmailConfig :: "EmailConfig \<Rightarrow> err option" where
  "validateEmailConfig cfg =
     (let fail = (\<lambda>msg. Some (Err (''email '' @ ecName cfg @ '': '' @ msg))) in
      if ecHost cfg = '''' then fail ''host is required''
      else if ecFrom cfg = '''' then fail ''from is required''
      else if length (ecTo cfg) = 0 then fail ''at least one recipient is required''
      else if ecEncryption cfg \<notin> {EncryptionSTARTTLS, EncryptionTLS, EncryptionNone}
      then fail (''invalid encryption '' @ strconv_Quote (ecEncryption cfg) @ '' (starttls, tls or none)'')
      else if ecXOAuth2 cfg \<and> ecUsername cfg = '''' then fail ''username is required for xoauth2''
      else if ecXOAuth2 cfg \<and> ecToken cfg = None then fail ''token source is required for xoauth2''
      else None)"

definition compileEmailTemplates ::
  "(string \<Rightarrow> string result) \<Rightarrow> (string \<Rightarrow> template result) \<Rightarrow> EmailConfig \<Rightarrow> (template \<times> template) result" where
  "compileEmailTemplates readFile parse cfg =
     (let pre = ''email '' @ ecName cfg @ '': '' in
      case LoadTemplateString readFile (ecSubject cfg) of
        Inl e \<Rightarrow> Inl (Wrap (pre @ ''load subject template: '') e)
      | Inr subjectSrc \<Rightarrow>
     (if subjectSrc = '''' then Inl (Err (pre @ ''subject template is required (must be provided via ConfigMap)''))
      else case parse subjectSrc of
        Inl e \<Rightarrow> Inl (Wrap (pre @ ''invalid subject template: '') e)
      | Inr subjectTmpl \<Rightarrow>
     (case LoadTemplateString readFile (ecTemplate cfg) of
        Inl e \<Rightarrow> Inl (Wrap (pre @ ''load template: '') e)
      | Inr bodySrc \<Rightarrow>
     (if bodySrc = '''' then Inl (Err (pre @ ''body template is required (must be provided via ConfigMap)''))
      else case parse bodySrc of
        Inl e \<Rightarrow> Inl (Wrap (pre @ ''invalid template: '') e)
      | Inr bodyTmpl \<Rightarrow> Inr (subjectTmpl, bodyTmpl)))))"

record Notifier =
  nfCfg :: EmailConfig
  nfSubject :: template
  nfBody :: template

definition email_New ::
  "(string \<Rightarrow> string result) \<Rightarrow> (string \<Rightarrow> template result) \<Rightarrow> EmailConfig \<Rightarrow> Notifier result" where
  "email_New readFile parse cfg0 =
     (let cfg = cfg0\<lparr>ecPort := or_default 0 587 (ecPort cfg0),
                     ecEncryption := or_default '''' EncryptionSTARTTLS (ecEncryption cfg0),
                     ecTimeout := or_default 0 (15 * 10 ^ 9) (ecTimeout cfg0)\<rparr>
      in case validateEmailConfig cfg of
           Some e \<Rightarrow> Inl e
         | None \<Rightarrow>
             (case compileEmailTemplates readFile parse cfg of
                Inl e \<Rightarrow> Inl e
              | Inr (s, b) \<Rightarrow> Inr \<lparr>nfCfg = cfg, nfSubject = s, nfBody = b\<rparr>))"

section \<open>The message\<close>

definition space_for :: "char \<Rightarrow> string \<Rightarrow> string" where
  "space_for c = map (\<lambda>d. if d = c then CHR '' '' else d)"

definition sanitizeHeader :: "string \<Rightarrow> string" where
  "sanitizeHeader s = TrimSpace (space_for (CHR 0x0A) (space_for (CHR 0x0D) s))"

definition threadKey :: "Event \<Rightarrow> string" where
  "threadKey e = (if RunID e \<noteq> '''' then RunID e else RunName e)"

record MailMsg =
  mmFrom :: string
  mmTo :: "string list"
  mmCc :: "string list"
  mmBcc :: "string list"
  mmReplyTo :: string
  mmSubject :: string
  mmMessageID :: string
  mmInReplyTo :: "string option"
  mmReferences :: "string option"
  mmHTML :: bool
  mmBody :: string

text \<open>
  The library: the check of a list of addresses, the client for a host and options, and the submission of
  a message, which may change the world of type \<open>'w\<close>.
\<close>

datatype transport = ImplicitTLS | MandatoryStartTLS | ClearText

record MailOptions =
  moPort :: int
  moTimeout :: int
  moServerName :: string
  moSkipVerify :: bool
  moTransport :: "transport option"
  moAuth :: "(string \<times> string \<times> string) option"

record 'w MailLib =
  mlAddresses :: "string list \<Rightarrow> err option"
  mlNewClient :: "string \<Rightarrow> MailOptions \<Rightarrow> err option"
  mlSend :: "MailOptions \<Rightarrow> MailMsg \<Rightarrow> 'w \<Rightarrow> err option \<times> 'w"

text \<open>\<open>msgID\<close> is the identifier generated for this message; the store is asked for the root of the thread.\<close>

definition buildMessage ::
  "'w MailLib \<Rightarrow> EmailConfig \<Rightarrow> 's MsgStore \<Rightarrow> Time \<Rightarrow> string \<Rightarrow> string \<Rightarrow> string \<Rightarrow> Event \<Rightarrow> 's \<Rightarrow>
   (MailMsg \<times> string) result \<times> 's" where
  "buildMessage lib cfg ms now msgID subject body e st =
     (case mlAddresses lib [ecFrom cfg] of
        Some er \<Rightarrow> (Inl (Wrap (''from '' @ strconv_Quote (ecFrom cfg) @ '': '') er), st)
      | None \<Rightarrow>
     (case mlAddresses lib (ecTo cfg) of
        Some er \<Rightarrow> (Inl (Wrap ''to: '' er), st)
      | None \<Rightarrow>
     (case (if length (ecCc cfg) > 0 then mlAddresses lib (ecCc cfg) else None) of
        Some er \<Rightarrow> (Inl (Wrap ''cc: '' er), st)
      | None \<Rightarrow>
     (case (if length (ecBcc cfg) > 0 then mlAddresses lib (ecBcc cfg) else None) of
        Some er \<Rightarrow> (Inl (Wrap ''bcc: '' er), st)
      | None \<Rightarrow>
     (case (if ecReplyTo cfg \<noteq> '''' then mlAddresses lib [ecReplyTo cfg] else None) of
        Some er \<Rightarrow> (Inl (Wrap (''reply-to '' @ strconv_Quote (ecReplyTo cfg) @ '': '') er), st)
      | None \<Rightarrow>
          (let key = threadKey e;
               msg = \<lparr>mmFrom = ecFrom cfg, mmTo = ecTo cfg, mmCc = ecCc cfg, mmBcc = ecBcc cfg, mmReplyTo = ecReplyTo cfg,
                  mmSubject = subject, mmMessageID = msgID, mmInReplyTo = None, mmReferences = None,
                  mmHTML = ecHTML cfg, mmBody = body\<rparr>
           in if key = '''' then (Inr (msg, key), st)
              else (case msLoad ms now key st of
                      (r, st1) \<Rightarrow>
                        (case usable r of
                           Some parent \<Rightarrow> (Inr (msg\<lparr>mmInReplyTo := Some parent, mmReferences := Some parent\<rparr>, key), st1)
                         | None \<Rightarrow> (Inr (msg, key), st1)))))))))"

section \<open>Sending\<close>

definition clientOptions :: "EmailConfig \<Rightarrow> MailOptions result" where
  "clientOptions cfg =
     (let opts = \<lparr>moPort = ecPort cfg, moTimeout = ecTimeout cfg, moServerName = ecHost cfg, moSkipVerify = ecInsecureSkipVerify cfg,
            moTransport = (if ecEncryption cfg = EncryptionTLS then Some ImplicitTLS
              else if ecEncryption cfg = EncryptionSTARTTLS then Some MandatoryStartTLS
              else if ecEncryption cfg = EncryptionNone then Some ClearText else None),
            moAuth = None\<rparr>
      in if ecXOAuth2 cfg then
           (case the (ecToken cfg) of
              Inl e \<Rightarrow> Inl (Wrap ''xoauth2 token: '' e)
            | Inr token \<Rightarrow> Inr (opts\<lparr>moAuth := Some (''XOAUTH2'', ecUsername cfg, token)\<rparr>))
         else if ecUsername cfg \<noteq> '''' then Inr (opts\<lparr>moAuth := Some (''PLAIN'', ecUsername cfg, ecPassword cfg)\<rparr>)
         else Inr opts)"

definition email_send :: "'w MailLib \<Rightarrow> EmailConfig \<Rightarrow> MailMsg \<Rightarrow> 'w \<Rightarrow> err option \<times> 'w" where
  "email_send lib cfg msg w =
     (case clientOptions cfg of
        Inl e \<Rightarrow> (Some e, w)
      | Inr opts \<Rightarrow>
          (case mlNewClient lib (ecHost cfg) opts of
             Some e \<Rightarrow> (Some (Wrap ''smtp client: '' e), w)
           | None \<Rightarrow> (case mlSend lib opts msg w of (er, w') \<Rightarrow> (map_option (Wrap ''send: '') er, w'))))"

text \<open>The result, the message that was delivered, the store and the world.\<close>

definition email_Handle ::
  "'w MailLib \<Rightarrow> Notifier \<Rightarrow> 's MsgStore \<Rightarrow> Time \<Rightarrow> string \<Rightarrow> Event \<Rightarrow> 's \<times> 'w \<Rightarrow> err option \<times> MailMsg list \<times> 's \<times> 'w" where
  "email_Handle lib n ms now msgID e s =
     (let cfg = nfCfg n; pre = ''email '' @ ecName cfg @ '': '' in
      case nfSubject n e of
        Inl er \<Rightarrow> (Some (Wrap (pre @ ''render subject: '') er), [], s)
      | Inr subject \<Rightarrow>
     (case nfBody n e of
        Inl er \<Rightarrow> (Some (Wrap (pre @ ''render body: '') er), [], s)
      | Inr body \<Rightarrow>
     (case buildMessage lib cfg ms now msgID (sanitizeHeader subject) body e (fst s) of
        (Inl er, st) \<Rightarrow> (Some (Wrap pre er), [], st, snd s)
      | (Inr (msg, key), st) \<Rightarrow>
          (case email_send lib cfg msg (snd s) of
             (Some er, w) \<Rightarrow> (Some (Wrap pre er), [], st, w)
           | (None, w) \<Rightarrow>
               (None, [msg],
                if key \<noteq> '''' then
                  (case msLoad ms now key st of
                     (None, st1) \<Rightarrow> msSave ms now key msgID st1
                   | (Some _, st1) \<Rightarrow> st1)
                else st, w)))))"

section \<open>One thread for a run\<close>

definition starts_thread :: "string \<Rightarrow> MailMsg \<Rightarrow> bool" where
  "starts_thread r m \<longleftrightarrow> mmMessageID m = r \<and> mmInReplyTo m = None \<and> mmReferences m = None"

definition replies_to :: "string \<Rightarrow> MailMsg \<Rightarrow> bool" where
  "replies_to r m \<longleftrightarrow> mmInReplyTo m = Some r \<and> mmReferences m = Some r"

text \<open>An event with the identifier of its message, which the library puts into angle brackets.\<close>

definition email_step ::
  "'w MailLib \<Rightarrow> Notifier \<Rightarrow> 's MsgStore \<Rightarrow> Time \<Rightarrow> string \<times> Event \<Rightarrow> 's \<times> 'w \<Rightarrow> MailMsg list \<times> 's \<times> 'w" where
  "email_step lib n ms t x s = snd (email_Handle lib n ms t (''<'' @ fst x @ ''>'') (snd x) s)"

text \<open>What the first look into the store says about the message and leaves of the store.\<close>

definition first_look :: "'s MsgStore \<Rightarrow> Time \<Rightarrow> string \<Rightarrow> 's \<Rightarrow> string option \<times> 's" where
  "first_look ms now key st = (if key = '''' then (None, st) else msLoad ms now key st)"

lemma buildMessage_cases:
  assumes "buildMessage lib cfg ms now i subject body e st = (res, st1)"
  shows "case res of
      Inl er \<Rightarrow> st1 = st
    | Inr (msg, key) \<Rightarrow> key = threadKey e \<and> mmMessageID msg = i \<and> mmSubject msg = subject \<and> mmBody msg = body \<and>
        st1 = snd (first_look ms now key st) \<and> mmInReplyTo msg = usable (fst (first_look ms now key st)) \<and>
        mmReferences msg = usable (fst (first_look ms now key st))"
  using assms by (auto simp: buildMessage_def first_look_def usable_def Let_def split: option.splits prod.splits if_splits)

lemma email_Handle_cases:
  assumes "email_Handle lib n ms now i e s = (er, msgs, s')"
  shows "msgs = [] \<and> (fst s' = fst s \<or> fst s' = snd (first_look ms now (threadKey e) (fst s))) \<or>
    (\<exists>msg sub. msgs = [msg] \<and> er = None \<and> mmMessageID msg = i \<and> mmSubject msg = sanitizeHeader sub \<and>
       (case first_look ms now (threadKey e) (fst s) of (r, st1) \<Rightarrow>
          mmInReplyTo msg = usable r \<and> mmReferences msg = usable r \<and>
          fst s' = (if threadKey e \<noteq> '''' then
              (case msLoad ms now (threadKey e) st1 of (None, st2) \<Rightarrow> msSave ms now (threadKey e) i st2 | (Some _, st2) \<Rightarrow> st2)
            else st1)))"
proof (cases "nfSubject n e")
  case (Inl x)
  with assms show ?thesis by (auto simp: email_Handle_def Let_def)
next
  case sub: (Inr sub)
  show ?thesis
  proof (cases "nfBody n e")
    case (Inl x)
    with assms sub show ?thesis by (auto simp: email_Handle_def Let_def)
  next
    case (Inr body)
    obtain res st1 where b: "buildMessage lib (nfCfg n) ms now i (sanitizeHeader sub) body e (fst s) = (res, st1)" by fastforce
    note cases = buildMessage_cases [OF b]
    show ?thesis
    proof (cases res)
      case (Inl x)
      with assms sub \<open>nfBody n e = Inr body\<close> b cases show ?thesis by (auto simp: email_Handle_def Let_def)
    next
      case r: (Inr x)
      obtain msg key where x: "x = (msg, key)" by fastforce
      have key: "key = threadKey e" and st1: "st1 = snd (first_look ms now (threadKey e) (fst s))" using cases r x by auto
      obtain er1 w where snd: "email_send lib (nfCfg n) msg (snd s) = (er1, w)" by fastforce
      show ?thesis
      proof (cases er1)
        case None
        with assms sub Inr b r x snd cases key show ?thesis
          by (cases "msLoad ms now (threadKey e) st1"; cases "first_look ms now (threadKey e) (fst s)")
            (auto simp: email_Handle_def Let_def split: option.splits)
      next
        case (Some e1)
        with assms sub Inr b r x snd st1 show ?thesis by (auto simp: email_Handle_def Let_def)
      qed
    qed
  qed
qed

lemma email_keeper:
  assumes "expirable_cache ops live cap ttl"
  shows "reference_keeper (email_step lib n (MemoryStore ops)) (threadKey \<circ> snd) (\<lambda>t s. live t (fst s)) (\<lambda>s. xlru_len ops (fst s)) cap ttl
    starts_thread replies_to"
proof
  note get = expirable_cache.get_result [OF assms] expirable_cache.get_live [OF assms] expirable_cache.get_len [OF assms]
  note add = expirable_cache.add_same [OF assms] expirable_cache.add_other [OF assms] expirable_cache.add_len [OF assms]
  fix t x s cs s' k u
  assume step: "email_step lib n (MemoryStore ops) t x s = (cs, s')"
  let ?key = "threadKey (snd x)" and ?id = "''<'' @ fst x @ ''>''"
  obtain r st1 where look: "first_look (MemoryStore ops) t ?key (fst s) = (r, st1)" by fastforce
  have r: "r = (if ?key = '''' then None else live t (fst s) ?key)" and l1: "\<And>v j. live v st1 j = live v (fst s) j"
    and n1: "xlru_len ops st1 = xlru_len ops (fst s)"
    using look get [where t = t and k = ?key and c = "fst s"] by (auto simp: first_look_def MemoryStore_def split: if_splits)
  obtain r2 st2 where again: "xlru_get ops t ?key st1 = (r2, st2)" by fastforce
  have r2: "r2 = live t (fst s) ?key" and l2: "\<And>v j. live v st2 j = live v (fst s) j" and n2: "xlru_len ops st2 = xlru_len ops (fst s)"
    using again get [where t = t and k = ?key and c = st1] l1 n1 by auto
  obtain er where h: "email_Handle lib n (MemoryStore ops) t ?id (snd x) s = (er, cs, s')"
    using step by (cases "email_Handle lib n (MemoryStore ops) t ?id (snd x) s") (simp add: email_step_def)
  from email_Handle_cases [OF h] look again
  consider (none) "cs = []" "fst s' = fst s \<or> fst s' = st1"
    | (sent) msg where "cs = [msg]" "mmMessageID msg = ?id" "mmInReplyTo msg = usable r" "mmReferences msg = usable r"
      "fst s' = (if ?key = '''' then st1 else if r2 = None then xlru_add ops t ?key ?id st2 else st2)"
    by (auto simp: MemoryStore_def split: option.splits if_splits)
  note outcome = this
  show "xlru_len ops (fst s') \<le> Suc (xlru_len ops (fst s))"
    using outcome by cases (use n1 n2 add(3) [where t = t and k = ?key and c = st2 and v = ?id] in auto)
  assume room: "xlru_len ops (fst s) < cap"
  show "k \<noteq> (threadKey \<circ> snd) x \<Longrightarrow> live u (fst s') k = live u (fst s) k"
    using outcome by cases (use l1 l2 n2 room add(2) [where j = k and k = ?key and c = st2] in auto)
  assume "(threadKey \<circ> snd) x \<noteq> ''''" and "live t (fst s) ((threadKey \<circ> snd) x) \<noteq> Some ''''"
  then have ne: "?key \<noteq> ''''" "live t (fst s) ?key \<noteq> Some ''''" by simp_all
  show "cs = [] \<and> (\<forall>u. live u (fst s') ((threadKey \<circ> snd) x) = live u (fst s) ((threadKey \<circ> snd) x)) \<or>
      (\<exists>r c. live t (fst s) ((threadKey \<circ> snd) x) = Some r \<and> cs = [c] \<and> replies_to r c \<and>
         (\<forall>u. live u (fst s') ((threadKey \<circ> snd) x) = live u (fst s) ((threadKey \<circ> snd) x))) \<or>
      (\<exists>r c. live t (fst s) ((threadKey \<circ> snd) x) = None \<and> cs = [c] \<and> starts_thread r c \<and> r \<noteq> '''' \<and>
         (\<forall>u. t \<le> u \<and> u \<le> t + ttl \<longrightarrow> live u (fst s') ((threadKey \<circ> snd) x) = Some r))"
    using outcome
  proof cases
    case none
    with l1 show ?thesis by auto
  next
    case sent
    show ?thesis
    proof (cases "live t (fst s) ?key")
      case None
      with sent r r2 ne add(1) show ?thesis by (auto simp: starts_thread_def usable_def)
    next
      case (Some ref)
      with sent r r2 ne l2 show ?thesis by (auto simp: replies_to_def usable_def)
    qed
  qed
qed

text \<open>
  C12 The emails of a run form one thread: handling the events of any runs in the order of their times,
  with sends that fail in between, the first email delivered for a run starts a thread and every later one
  replies to it, as long as the events fit in the cache and into its time to live.
\<close>

theorem emails_one_thread:
  assumes "expirable_cache ops live cap ttl"
    and "handle_all (email_step lib n (MemoryStore ops)) evs (st, w) = (outs, s')" and "xlru_len ops st + length evs \<le> cap"
    and "\<forall>u. live u st key = None" and "key \<noteq> ''''" and "sorted (map fst evs)" and "\<forall>(t, e) \<in> set evs. T \<le> t + ttl \<and> t \<le> T"
  shows "threaded starts_thread replies_to (calls_for (threadKey \<circ> snd) key outs)"
  using reference_keeper.one_thread [OF email_keeper [OF assms(1)] assms(2)] assms(3-7) by simp

text \<open>A server that refuses the second message, for the witness.\<close>

definition demo_mail :: "nat MailLib" where
  "demo_mail = \<lparr>mlAddresses = \<lambda>_. None, mlNewClient = \<lambda>_ _. None,
     mlSend = \<lambda>_ _ i. (if i = 1 then Some (Err ''greylisted'') else None, Suc i)\<rparr>"

definition demo_email :: Notifier where
  "demo_email = \<lparr>nfCfg = \<lparr>ecName = ''ops'', ecHost = ''smtp'', ecPort = 587, ecEncryption = EncryptionSTARTTLS, ecUsername = '''',
       ecPassword = '''', ecFrom = ''relay@x'', ecTo = [''ops@x''], ecCc = [], ecBcc = [], ecReplyTo = '''', ecSubject = '''',
       ecTemplate = '''', ecHTML = False, ecTimeout = 15 * 10 ^ 9, ecInsecureSkipVerify = False, ecXOAuth2 = False, ecToken = None\<rparr>,
     nfSubject = \<lambda>e. Inr (StateOf e), nfBody = \<lambda>e. Inr (Description e)\<rparr>"

interpretation email_listed: reference_keeper "email_step demo_mail demo_email (MemoryStore (list_xlru 1000 msgTTL))" "threadKey \<circ> snd"
    "\<lambda>t s. list_live t (fst s)" "\<lambda>s. xlru_len (list_xlru 1000 msgTTL) (fst s)" 1000 msgTTL starts_thread replies_to
  by (rule email_keeper [OF list_xlru_laws]) simp

theorem emails_one_thread_witness:
  "threaded starts_thread replies_to (calls_for (threadKey \<circ> snd) ''r1'' (fst (handle_all
     (email_step demo_mail demo_email (MemoryStore (list_xlru 1000 msgTTL)))
     [(5, ''a'', run_event ''r1'' StateRunning), (6, ''b'', run_event ''r2'' StateRunning), (7, ''c'', run_event ''r1'' StateSuccess)] ([], 0))))"
proof -
  let ?evs = "[(5, ''a'', run_event ''r1'' StateRunning), (6, ''b'', run_event ''r2'' StateRunning), (7, ''c'', run_event ''r1'' StateSuccess)]"
  obtain outs s' where a: "handle_all (email_step demo_mail demo_email (MemoryStore (list_xlru 1000 msgTTL))) ?evs ([], 0) = (outs, s')"
    by (metis surj_pair)
  have "threaded starts_thread replies_to (calls_for (threadKey \<circ> snd) ''r1'' outs)"
    by (rule emails_one_thread [OF list_xlru_laws a, where T = 7]) (simp_all add: list_xlru_def list_live_def msgTTL_def)
  with a show ?thesis by simp
qed

text \<open>No text of an event can add a header: the subject of a message has no line break.\<close>

lemma set_TrimSpace: "set (TrimSpace s) \<subseteq> set s"
proof -
  have l: "set (trim_left s) \<subseteq> set s"
  proof (induction s rule: length_induct)
    case (1 s)
    show ?case
    proof (cases "s \<noteq> [] \<and> is_space (fst (decode_rune s))")
      case True
      with 1 have "set (trim_left (drop (max 1 (snd (decode_rune s))) s)) \<subseteq> set (drop (max 1 (snd (decode_rune s))) s)" by simp
      with True set_drop_subset show ?thesis by (subst trim_left.simps) fastforce
    qed (subst trim_left.simps, auto)
  qed
  have "set (trim_right u) \<subseteq> set u" for u by (induction u) auto
  with l show ?thesis unfolding TrimSpace_def by (meson order_trans)
qed

theorem email_subject_one_line:
  assumes "email_Handle lib n ms now i e s = (er, msgs, s')" and "msg \<in> set msgs"
  shows "CHR 0x0A \<notin> set (mmSubject msg) \<and> CHR 0x0D \<notin> set (mmSubject msg)"
proof -
  obtain sub where "mmSubject msg = sanitizeHeader sub"
    using email_Handle_cases [OF assms(1)] assms(2) by (cases "first_look ms now (threadKey e) (fst s)") auto
  moreover have "CHR 0x0A \<notin> set (space_for (CHR 0x0A) (space_for (CHR 0x0D) sub))"
    and "CHR 0x0D \<notin> set (space_for (CHR 0x0A) (space_for (CHR 0x0D) sub))"
    by (auto simp: space_for_def split: if_splits)
  ultimately show ?thesis using set_TrimSpace unfolding sanitizeHeader_def by (metis subsetD)
qed

text \<open>A configuration that \<^verbatim>\<open>New\<close> accepts always leads to an encryption and, with XOAUTH2, to a token source.\<close>

lemma validated:
  assumes "validateEmailConfig cfg = None"
  shows "ecEncryption cfg \<in> {EncryptionSTARTTLS, EncryptionTLS, EncryptionNone} \<and> ecTo cfg \<noteq> [] \<and> (ecXOAuth2 cfg \<longrightarrow> ecToken cfg \<noteq> None)"
  using assms unfolding validateEmailConfig_def Let_def by (simp split: if_split_asm)

lemma email_New_options:
  assumes "email_New readFile parse cfg = Inr n" and "clientOptions (nfCfg n) = Inr opts"
  shows "moTransport opts \<noteq> None \<and> moPort opts \<noteq> 0 \<and> moTimeout opts \<noteq> 0 \<and> ecTo (nfCfg n) \<noteq> []"
proof -
  have v: "validateEmailConfig (nfCfg n) = None" and d: "ecPort (nfCfg n) \<noteq> 0" "ecTimeout (nfCfg n) \<noteq> 0"
    using assms(1) by (auto simp: email_New_def or_default_def Let_def split: option.splits sum.splits if_split_asm)
  have "moPort opts = ecPort (nfCfg n)" "moTimeout opts = ecTimeout (nfCfg n)"
    "ecEncryption (nfCfg n) \<in> {EncryptionSTARTTLS, EncryptionTLS, EncryptionNone} \<Longrightarrow> moTransport opts \<noteq> None"
    using assms(2) by (auto simp: clientOptions_def Let_def split: if_split_asm sum.splits)
  with d validated [OF v] show ?thesis by simp
qed

end
