(* ===== verification/Relay_Publish.thy ===== *)
theory Relay_Publish
  imports Relay_Codec Relay_Config
begin

text \<open>
  The notifiers that publish events to a broker as JSON: Kafka, NATS, RabbitMQ and Redis
  (\<^verbatim>\<open>internal/notifier/kafka\<close>, \<^verbatim>\<open>nats\<close>, \<^verbatim>\<open>rabbitmq\<close>, \<^verbatim>\<open>redispubsub\<close>). The client libraries are arguments that act on a
  world of type \<open>'w\<close>; a notifier keeps whether it was closed.
\<close>

section \<open>Publishing\<close>

text \<open>Errors are told apart by their text.\<close>

definition contains_any :: "string list \<Rightarrow> err \<Rightarrow> bool" where
  "contains_any texts e = list_ex (Contains (error_text e)) texts"

text \<open>What the four notifiers share: an event of a closed notifier is refused, an event is sent as JSON.\<close>

definition publish_event ::
  "string \<Rightarrow> string \<Rightarrow> string list \<Rightarrow> (string \<Rightarrow> 'w \<Rightarrow> err option \<times> 'w) \<Rightarrow> Event \<Rightarrow> bool \<times> 'w \<Rightarrow> err option \<times> bool \<times> 'w" where
  "publish_event provider what texts send e s =
     (if fst s then (Some (Err (provider @ '': '' @ what @ '' is closed'')), s)
      else case Marshal event_fields e of
        Inl er \<Rightarrow> (Some (Wrap (provider @ '': marshal event: '') er), s)
      | Inr payload \<Rightarrow>
          (case send payload (snd s) of
             (None, w) \<Rightarrow> (None, fst s, w)
           | (Some er, w) \<Rightarrow>
               (Some (if contains_any texts er then NewRetryable er (provider @ ''_connection'')
                      else Wrap (provider @ '': publish: '') er), fst s, w)))"

section \<open>Kafka\<close>

record KafkaConfig =
  kfBrokers :: "string list"
  kfTopic :: string
  kfTopicFunc :: "(Event \<Rightarrow> string) option"
  kfRequiredAcks :: int

text \<open>The writer of the library and its messages; \<^verbatim>\<open>RequireAll\<close> is -1.\<close>

record KafkaWriter =
  kwAddr :: "string list"
  kwTopic :: string
  kwRequiredAcks :: int

record KafkaMessage =
  kmKey :: string
  kmValue :: string
  kmTopic :: string

definition RequireAll :: int where "RequireAll = - 1"

definition kafka_New :: "KafkaConfig \<Rightarrow> KafkaWriter result" where
  "kafka_New cfg =
     (if length (kfBrokers cfg) = 0 then Inl (Err ''kafka: at least one broker is required'')
      else if kfTopic cfg = '''' \<and> kfTopicFunc cfg = None then Inl (Err ''kafka: topic or topic_func is required'')
      else Inr \<lparr>kwAddr = kfBrokers cfg, kwTopic = kfTopic cfg,
        kwRequiredAcks = (if kfRequiredAcks cfg \<noteq> 0 then kfRequiredAcks cfg else RequireAll)\<rparr>)"

definition kafka_connection_texts :: "string list" where
  "kafka_connection_texts = [''connection refused'', ''broker: '', ''no available partitions'', ''context canceled'',
     ''context deadline exceeded'']"

definition kafka_message :: "KafkaConfig \<Rightarrow> Event \<Rightarrow> string \<Rightarrow> KafkaMessage" where
  "kafka_message cfg e payload =
     \<lparr>kmKey = (if RunID e = '''' then RunName e else RunID e), kmValue = payload,
      kmTopic = (case kfTopicFunc cfg of None \<Rightarrow> kfTopic cfg | Some f \<Rightarrow> f e)\<rparr>"

definition kafka_Handle ::
  "(KafkaWriter \<Rightarrow> KafkaMessage \<Rightarrow> 'w \<Rightarrow> err option \<times> 'w) \<Rightarrow> KafkaConfig \<Rightarrow> KafkaWriter \<Rightarrow> Event \<Rightarrow> bool \<times> 'w \<Rightarrow>
   err option \<times> bool \<times> 'w" where
  "kafka_Handle WriteMessages cfg writer e s =
     publish_event ''kafka'' ''writer'' kafka_connection_texts (\<lambda>payload. WriteMessages writer (kafka_message cfg e payload)) e s"

definition kafka_Close :: "('w \<Rightarrow> err option \<times> 'w) \<Rightarrow> bool \<times> 'w \<Rightarrow> err option \<times> bool \<times> 'w" where
  "kafka_Close close s =
     (if fst s then (None, s)
      else case close (snd s) of (er, w) \<Rightarrow> (map_option (Wrap ''kafka: close writer: '') er, True, w))"

section \<open>NATS\<close>

record NatsConfig =
  ntServers :: "string list"
  ntSubject :: string
  ntCredentialsFile :: string
  ntTLSEnabled :: bool

datatype nats_option = ClientName string | UserCredentials string | SecureTLS

definition nats_options :: "NatsConfig \<Rightarrow> nats_option list" where
  "nats_options cfg =
     [ClientName ''tekton-events-relay''] @ (if ntCredentialsFile cfg \<noteq> '''' then [UserCredentials (ntCredentialsFile cfg)] else []) @
     (if ntTLSEnabled cfg then [SecureTLS] else [])"

definition nats_New :: "(string list \<Rightarrow> nats_option list \<Rightarrow> err option) \<Rightarrow> NatsConfig \<Rightarrow> NatsConfig result" where
  "nats_New connect cfg =
     (if length (ntServers cfg) = 0 then Inl (Err ''nats: at least one server is required'')
      else if ntSubject cfg = '''' then Inl (Err ''nats: subject is required'')
      else case connect (ntServers cfg) (nats_options cfg) of
        Some e \<Rightarrow> Inl (Wrap ''nats: connect: '' e)
      | None \<Rightarrow> Inr cfg)"

definition nats_connection_texts :: "string list" where
  "nats_connection_texts = [''connection closed'', ''connection refused'', ''timeout'', ''no servers available'', ''context canceled'',
     ''context deadline exceeded'']"

definition nats_Handle ::
  "(string \<Rightarrow> string \<Rightarrow> 'w \<Rightarrow> err option \<times> 'w) \<Rightarrow> NatsConfig \<Rightarrow> Event \<Rightarrow> bool \<times> 'w \<Rightarrow> err option \<times> bool \<times> 'w" where
  "nats_Handle Publish cfg e s = publish_event ''nats'' ''connection'' nats_connection_texts (Publish (ntSubject cfg)) e s"

definition nats_Close :: "('w \<Rightarrow> 'w) \<Rightarrow> bool \<times> 'w \<Rightarrow> err option \<times> bool \<times> 'w" where
  "nats_Close drain s = (if fst s then (None, s) else (None, True, drain (snd s)))"

section \<open>RabbitMQ\<close>

record RabbitConfig =
  rbURL :: string
  rbExchange :: string
  rbRoutingKey :: string

text \<open>\<open>dial\<close> and \<open>channel\<close> of the library; the connection is closed when it gives no channel.\<close>

definition rabbitmq_New ::
  "(string \<Rightarrow> 'w \<Rightarrow> err option \<times> 'w) \<Rightarrow> ('w \<Rightarrow> err option \<times> 'w) \<Rightarrow> ('w \<Rightarrow> 'w) \<Rightarrow> RabbitConfig \<Rightarrow> 'w \<Rightarrow> RabbitConfig result \<times> 'w" where
  "rabbitmq_New dial channel close cfg w =
     (if rbURL cfg = '''' then (Inl (Err ''rabbitmq: url is required''), w)
      else case dial (rbURL cfg) w of
        (Some e, w1) \<Rightarrow> (Inl (Wrap ''rabbitmq: dial: '' e), w1)
      | (None, w1) \<Rightarrow>
          (case channel w1 of
             (Some e, w2) \<Rightarrow> (Inl (Wrap ''rabbitmq: channel: '' e), close w2)
           | (None, w2) \<Rightarrow> (Inr cfg, w2)))"

definition rabbitmq_connection_texts :: "string list" where
  "rabbitmq_connection_texts = [''connection closed'', ''connection refused'', ''channel/connection is not open'', ''NOT_FOUND'',
     ''context canceled'', ''context deadline exceeded'']"

definition rabbitmq_Handle ::
  "(string \<Rightarrow> string \<Rightarrow> string \<Rightarrow> 'w \<Rightarrow> err option \<times> 'w) \<Rightarrow> RabbitConfig \<Rightarrow> Event \<Rightarrow> bool \<times> 'w \<Rightarrow> err option \<times> bool \<times> 'w" where
  "rabbitmq_Handle Publish cfg e s =
     publish_event ''rabbitmq'' ''connection'' rabbitmq_connection_texts (Publish (rbExchange cfg) (rbRoutingKey cfg)) e s"

definition isAlreadyClosed :: "err \<Rightarrow> bool" where
  "isAlreadyClosed = contains_any [''connection closed'', ''channel is closed'']"

definition rabbitmq_Close ::
  "('w \<Rightarrow> err option \<times> 'w) \<Rightarrow> ('w \<Rightarrow> err option \<times> 'w) \<Rightarrow> bool \<times> 'w \<Rightarrow> err option \<times> bool \<times> 'w" where
  "rabbitmq_Close close_channel close_connection s =
     (if fst s then (None, s)
      else case close_channel (snd s) of
        (er, w) \<Rightarrow>
          (if \<exists>e. er = Some e \<and> \<not> isAlreadyClosed e then (map_option (Wrap ''rabbitmq: close channel: '') er, True, w)
           else case close_connection w of
             (er', w') \<Rightarrow>
               (if \<exists>e. er' = Some e \<and> \<not> isAlreadyClosed e then (map_option (Wrap ''rabbitmq: close connection: '') er', True, w')
                else (None, True, w'))))"

section \<open>Redis\<close>

record RedisConfig =
  rdAddress :: string
  rdChannel :: string
  rdPassword :: string
  rdDB :: int

definition redis_New ::
  "(RedisConfig \<Rightarrow> 'w \<Rightarrow> err option \<times> 'w) \<Rightarrow> ('w \<Rightarrow> 'w) \<Rightarrow> RedisConfig \<Rightarrow> 'w \<Rightarrow> RedisConfig result \<times> 'w" where
  "redis_New ping close cfg w =
     (if rdAddress cfg = '''' then (Inl (Err ''redispubsub: address is required''), w)
      else if rdChannel cfg = '''' then (Inl (Err ''redispubsub: channel is required''), w)
      else case ping cfg w of
        (Some e, w1) \<Rightarrow> (Inl (Wrap ''redispubsub: ping: '' e), close w1)
      | (None, w1) \<Rightarrow> (Inr cfg, w1))"

definition redis_connection_texts :: "string list" where
  "redis_connection_texts = [''connection refused'', ''connection closed'', ''EOF'', ''timeout'', ''context canceled'',
     ''context deadline exceeded'', ''redis: client is closed'']"

definition redis_Handle ::
  "(string \<Rightarrow> string \<Rightarrow> 'w \<Rightarrow> err option \<times> 'w) \<Rightarrow> RedisConfig \<Rightarrow> Event \<Rightarrow> bool \<times> 'w \<Rightarrow> err option \<times> bool \<times> 'w" where
  "redis_Handle Publish cfg e s = publish_event ''redispubsub'' ''client'' redis_connection_texts (Publish (rdChannel cfg)) e s"

definition redis_Close :: "('w \<Rightarrow> err option \<times> 'w) \<Rightarrow> bool \<times> 'w \<Rightarrow> err option \<times> bool \<times> 'w" where
  "redis_Close close s =
     (if fst s then (None, s)
      else case close (snd s) of (er, w) \<Rightarrow> (map_option (Wrap ''redispubsub: close: '') er, True, w))"

section \<open>What consumers and senders see\<close>

lemma publish_event_sent:
  assumes "valid_event e" and "publish_event provider what texts send e s = (None, s')"
  shows "\<exists>payload. send payload (snd s) = (None, snd s') \<and> Unmarshal event_fields zero_event payload = Inr e \<and> \<not> fst s \<and> \<not> fst s'"
proof -
  obtain raw where raw: "Marshal event_fields e = Inr raw" "Unmarshal event_fields zero_event raw = Inr e"
    using Unmarshal_Marshal [OF event_roundtrips [OF assms(1)]] by blast
  with assms(2) show ?thesis
    by (intro exI [of _ raw]) (auto simp: publish_event_def split: if_splits prod.splits option.splits)
qed

text \<open>
  C13 A consumer of any of the brokers reads back the event: whenever a notifier reports success, exactly one
  message was accepted by the library, for the configured destination, and its body decodes to the event
  that was handled; the Kafka message carries the identifier of the run, or its name, as key.
\<close>

theorem published_events_read_back:
  assumes "valid_event e"
  shows "(kafka_Handle W kcfg writer e s = (None, s') \<longrightarrow>
      (\<exists>msg. W writer msg (snd s) = (None, snd s') \<and> Unmarshal event_fields zero_event (kmValue msg) = Inr e \<and>
         kmKey msg = (if RunID e \<noteq> '''' then RunID e else RunName e))) \<and>
    (nats_Handle N ncfg e s = (None, s') \<longrightarrow>
      (\<exists>b. N (ntSubject ncfg) b (snd s) = (None, snd s') \<and> Unmarshal event_fields zero_event b = Inr e)) \<and>
    (rabbitmq_Handle R rcfg e s = (None, s') \<longrightarrow>
      (\<exists>b. R (rbExchange rcfg) (rbRoutingKey rcfg) b (snd s) = (None, snd s') \<and> Unmarshal event_fields zero_event b = Inr e)) \<and>
    (redis_Handle D dcfg e s = (None, s') \<longrightarrow>
      (\<exists>b. D (rdChannel dcfg) b (snd s) = (None, snd s') \<and> Unmarshal event_fields zero_event b = Inr e))"
proof (intro conjI impI)
  assume "kafka_Handle W kcfg writer e s = (None, s')"
  then obtain b where "W writer (kafka_message kcfg e b) (snd s) = (None, snd s')" "Unmarshal event_fields zero_event b = Inr e"
    unfolding kafka_Handle_def using publish_event_sent [OF assms] by blast
  then show "\<exists>msg. W writer msg (snd s) = (None, snd s') \<and> Unmarshal event_fields zero_event (kmValue msg) = Inr e \<and>
      kmKey msg = (if RunID e \<noteq> '''' then RunID e else RunName e)"
    by (intro exI [of _ "kafka_message kcfg e b"]) (simp add: kafka_message_def)
qed (unfold nats_Handle_def rabbitmq_Handle_def redis_Handle_def, (drule publish_event_sent [OF assms], blast)+)

definition broker_event :: Event where
  "broker_event = zero_event\<lparr>RunID := ''r1'', StateOf := ''failure'', PRNumber := Some 17\<rparr>"

lemma broker_event_valid: "valid_event broker_event"
  by (simp add: broker_event_def valid_event_def event_strings_def valid_repo_def zero_event_def zero_repo_def
      valid_result_def int64_def ascii_valid_utf8 valid_timeI)

theorem published_events_read_back_witness:
  "\<exists>b. snd (redis_Handle (\<lambda>ch b w. (None, w @ [(ch, b)])) \<lparr>rdAddress = ''redis:6379'', rdChannel = ''ci'', rdPassword = '''', rdDB = 0\<rparr>
      broker_event (False, [])) = (False, [(''ci'', b)]) \<and> Unmarshal event_fields zero_event b = Inr broker_event"
proof -
  let ?D = "\<lambda>ch b w. (None :: err option, w @ [(ch :: string, b :: string)])"
  let ?cfg = "\<lparr>rdAddress = ''redis:6379'', rdChannel = ''ci'', rdPassword = '''', rdDB = 0\<rparr>"
  obtain raw where raw: "Marshal event_fields broker_event = Inr raw"
    using Unmarshal_Marshal [OF event_roundtrips [OF broker_event_valid]] by blast
  have h: "redis_Handle ?D ?cfg broker_event (False, []) = (None, False, [(''ci'', raw)])"
    by (simp add: redis_Handle_def publish_event_def raw)
  with published_events_read_back [OF broker_event_valid, of _ _ _ "(False, [])" "(False, [(''ci'', raw)])" _ _ _ _ ?D ?cfg]
  show ?thesis by auto
qed

text \<open>
  C14 The Kafka notifier publishes nothing: the library refuses a message that names a topic on a writer that
  has one, and with a configured topic and no function that chooses one, which is how the relay builds the
  notifier, both are set. Every event fails with an error that is not worth a retry.
\<close>

theorem kafka_never_publishes:
  assumes "\<And>kw msg w. kwTopic kw \<noteq> '''' \<Longrightarrow> kmTopic msg \<noteq> '''' \<Longrightarrow>
      W kw msg w = (Some (Err ''kafka.(*Writer): Topic must not be specified for both Writer and Message''), w)"
    and "kafka_New cfg = Inr writer" and "kfTopicFunc cfg = None"
  shows "\<exists>er. kafka_Handle W cfg writer e s = (Some er, s) \<and> \<not> IsRetryable (Some er)"
proof -
  have t: "kwTopic writer \<noteq> ''''" "\<And>b. kmTopic (kafka_message cfg e b) \<noteq> ''''"
    using assms(2,3) by (auto simp: kafka_New_def kafka_message_def split: if_splits)
  have n: "\<not> contains_any kafka_connection_texts (Err ''kafka.(*Writer): Topic must not be specified for both Writer and Message'')"
    by code_simp
  show ?thesis
  proof (cases "fst s")
    case True
    then show ?thesis by (simp add: kafka_Handle_def publish_event_def IsRetryable_def)
  next
    case False
    show ?thesis
    proof (cases "Marshal event_fields e")
      case (Inl er)
      then have "er = Err ''Time.MarshalJSON: year outside of range [0,9999]''"
        by (auto simp: Marshal_def split: emitted.splits)
      with Inl False show ?thesis by (simp add: kafka_Handle_def publish_event_def IsRetryable_def)
    next
      case (Inr b)
      with False t n assms(1) show ?thesis by (cases s) (simp add: kafka_Handle_def publish_event_def IsRetryable_def)
    qed
  qed
qed

text \<open>A writer that follows this rule.\<close>

definition strict_writer :: "KafkaWriter \<Rightarrow> KafkaMessage \<Rightarrow> KafkaMessage list \<Rightarrow> err option \<times> KafkaMessage list" where
  "strict_writer kw msg w =
     (if kwTopic kw \<noteq> '''' \<and> kmTopic msg \<noteq> ''''
      then (Some (Err ''kafka.(*Writer): Topic must not be specified for both Writer and Message''), w)
      else if kwTopic kw = '''' \<and> kmTopic msg = ''''
      then (Some (Err ''kafka.(*Writer): Topic must be specified for Writer or Message''), w)
      else (None, w @ [msg]))"

theorem kafka_never_publishes_witness:
  "let cfg = \<lparr>kfBrokers = [''kafka:9092''], kfTopic = ''ci'', kfTopicFunc = None, kfRequiredAcks = 0\<rparr>
   in \<exists>er. kafka_Handle strict_writer cfg (projr (kafka_New cfg)) broker_event (False, []) = (Some er, (False, [])) \<and>
     \<not> IsRetryable (Some er)"
  unfolding Let_def
  by (rule kafka_never_publishes) (simp_all add: strict_writer_def kafka_New_def)

text \<open>Choosing the topic per event alone does publish.\<close>

lemma kafka_topic_func_publishes:
  assumes "valid_event e" and "kfTopic cfg = ''''" and "kfTopicFunc cfg = Some f" and "f e \<noteq> ''''" and "kafka_New cfg = Inr writer"
  shows "\<exists>msg. kafka_Handle strict_writer cfg writer e (False, w) = (None, False, w @ [msg])"
proof -
  obtain raw where "Marshal event_fields e = Inr raw"
    using Unmarshal_Marshal [OF event_roundtrips [OF assms(1)]] by blast
  moreover have "kwTopic writer = ''''" using assms(2,3,5) by (auto simp: kafka_New_def split: if_splits)
  ultimately show ?thesis
    using assms(2-4) by (simp add: kafka_Handle_def publish_event_def strict_writer_def kafka_message_def)
qed

text \<open>
  The connection to RabbitMQ is made once: when it is lost, every further event fails with an error that
  asks for a retry, and nothing restores the connection.
\<close>

theorem rabbitmq_stays_down:
  assumes "valid_event e" and "\<And>b. Publish (rbExchange cfg) (rbRoutingKey cfg) b w =
      (Some (Err ''Exception (504) Reason: \"channel/connection is not open\"''), w)"
  shows "\<exists>er. rabbitmq_Handle Publish cfg e (False, w) = (Some er, False, w) \<and> IsRetryable (Some er)"
proof -
  obtain raw where raw: "Marshal event_fields e = Inr raw"
    using Unmarshal_Marshal [OF event_roundtrips [OF assms(1)]] by blast
  have "contains_any rabbitmq_connection_texts (Err ''Exception (504) Reason: \"channel/connection is not open\"'')" by code_simp
  with raw assms(2) show ?thesis by (simp add: rabbitmq_Handle_def publish_event_def NewRetryable_def IsRetryable_def)
qed

text \<open>Closing is idempotent, and a closed notifier touches its broker no more.\<close>

lemma close_twice:
  "kafka_Close c s = (er, s') \<Longrightarrow> kafka_Close c s' = (None, s')"
  "nats_Close d s = (er, s') \<Longrightarrow> nats_Close d s' = (None, s')"
  "rabbitmq_Close cc cn s = (er, s') \<Longrightarrow> rabbitmq_Close cc cn s' = (None, s')"
  "redis_Close c s = (er, s') \<Longrightarrow> redis_Close c s' = (None, s')"
  by (auto simp: kafka_Close_def nats_Close_def rabbitmq_Close_def redis_Close_def split: if_splits prod.splits)

lemma closed_refuses: "publish_event provider what texts send e (True, w) = (Some (Err (provider @ '': '' @ what @ '' is closed'')), True, w)"
  by (simp add: publish_event_def)

end
