(* ===== verification/Relay_Alert.thy ===== *)
theory Relay_Alert
  imports Relay_Chat Relay_Middleware
begin

text \<open>
  The notifiers of alerting services, each a set of hooks for the common sending: PagerDuty, Opsgenie and
  incident.io (\<^verbatim>\<open>internal/notifier/pagerduty\<close>, \<^verbatim>\<open>opsgenie\<close>, \<^verbatim>\<open>incidentio\<close>), and that the alerts follow the runs.

  The configured keys are what their refresher answers for the request at hand; None is no refresher.
\<close>

section \<open>Headers and keys\<close>

text \<open>\<^verbatim>\<open>CanonicalMIMEHeaderKey\<close>: letters change case only in a name made of token characters.\<close>

definition token_char :: "char \<Rightarrow> bool" where
  "token_char c \<longleftrightarrow> is_digit c \<or> (97 \<le> byte c \<and> byte c \<le> 122) \<or> (65 \<le> byte c \<and> byte c \<le> 90) \<or> c \<in> set ''!#$%&*+-.^_|~'' \<or>
     byte c = 39 \<or> byte c = 96"

fun header_case :: "bool \<Rightarrow> string \<Rightarrow> string" where
  "header_case upper [] = []"
| "header_case upper (c # cs) = (if upper then ascii_upper c else ascii_lower c) # header_case (c = CHR ''-'') cs"

definition CanonicalMIMEHeaderKey :: "string \<Rightarrow> string" where
  "CanonicalMIMEHeaderKey s = (if list_all token_char s then header_case True s else s)"

definition Header_Set :: "string \<Rightarrow> string \<Rightarrow> HttpRequest \<Rightarrow> HttpRequest" where
  "Header_Set k v req = req\<lparr>hrHeader := gomap_set (CanonicalMIMEHeaderKey k) v (hrHeader req)\<rparr>"

definition Header_Get :: "string \<Rightarrow> HttpRequest \<Rightarrow> string option" where
  "Header_Get k req = gomap_get (hrHeader req) (CanonicalMIMEHeaderKey k)"

lemma Header_Set_simps [simp]:
  "hrMethod (Header_Set k v req) = hrMethod req" "hrURL (Header_Set k v req) = hrURL req" "hrBody (Header_Set k v req) = hrBody req"
  by (simp_all add: Header_Set_def)

text \<open>What several notifiers do: a header with a prefix and the key.\<close>

definition key_auth :: "string \<Rightarrow> string \<Rightarrow> string \<Rightarrow> string result option \<Rightarrow> HttpRequest \<Rightarrow> HttpRequest result" where
  "key_auth provider name pre key req =
     (case key of
        None \<Rightarrow> Inl (Err (provider @ '': api key refresher is required''))
      | Some (Inl e) \<Rightarrow> Inl (Wrap (provider @ '': resolve api key: '') e)
      | Some (Inr k) \<Rightarrow> Inr (Header_Set name (pre @ k) req))"

definition dash :: string where "dash = '' '' @ [CHR 0xE2, CHR 0x80, CHR 0x94] @ '' ''"
definition UserAgent :: string where "UserAgent = ''tekton-events-relay''"

text \<open>A notifier that only adds its hooks.\<close>

definition plain_base ::
  "(Event \<Rightarrow> json result) \<Rightarrow> (Event \<Rightarrow> string result) \<Rightarrow> (HttpRequest \<Rightarrow> HttpRequest result) \<Rightarrow> RetryPolicy option \<Rightarrow> Base" where
  "plain_base payload url auth rp = \<lparr>bsPayload = payload, bsURL = url, bsAuth = Some auth, bsMethod = None,
     bsUserAgent = UserAgent, bsRetryPolicy = rp\<rparr>"

text \<open>What a notifier answers: its error, the request with the answers of its attempts, the metrics.\<close>

type_synonym sent = "err option \<times> (HttpRequest \<times> response result list) option \<times> Collectors option"

section \<open>PagerDuty\<close>

abbreviation actionTrigger :: string where "actionTrigger \<equiv> ''trigger''"
abbreviation actionResolve :: string where "actionResolve \<equiv> ''resolve''"
abbreviation actionAcknowledge :: string where "actionAcknowledge \<equiv> ''acknowledge''"

record PagerDutyConfig =
  pdIntegrationKey :: "string result option"
  pdSeverity :: string
  pdSeverityExpr :: "(Event \<Rightarrow> string result) option"
  pdAcknowledgeOnRunning :: bool
  pdRetryPolicy :: "RetryPolicy option"

definition pagerduty_New :: "PagerDutyConfig \<Rightarrow> PagerDutyConfig" where
  "pagerduty_New cfg = cfg\<lparr>pdSeverity := or_default '''' ''critical'' (pdSeverity cfg)\<rparr>"

definition pagerduty_actionFor :: "State \<Rightarrow> bool \<Rightarrow> string" where
  "pagerduty_actionFor s acknowledgeOnRunning =
     (if s = StateFailure \<or> s = StateError then actionTrigger else if s = StateSuccess then actionResolve
      else if s = StateRunning \<and> acknowledgeOnRunning then actionAcknowledge else '''')"

definition pagerduty_payload :: "PagerDutyConfig \<Rightarrow> Event \<Rightarrow> string \<Rightarrow> json result" where
  "pagerduty_payload cfg e integrationKey =
     (let action = pagerduty_actionFor (StateOf e) (pdAcknowledgeOnRunning cfg) in
      if action = '''' then Inl (Err (''unsupported state for pagerduty: '' @ StateOf e))
      else
        (let severity = (case pdSeverityExpr cfg of
               None \<Rightarrow> pdSeverity cfg
             | Some f \<Rightarrow> (case f e of Inr s \<Rightarrow> if s \<noteq> '''' then s else pdSeverity cfg | Inl _ \<Rightarrow> pdSeverity cfg))
         in Inr (map_obj ([
              (''routing_key'', JStr integrationKey), (''event_action'', JStr action), (''dedup_key'', JStr (RunID e)),
              (''payload'', map_obj [
                (''summary'', JStr (''['' @ StateOf e @ ''] '' @ Context e @ dash @ Description e)),
                (''source'', JStr (Namespace e @ ''/'' @ RunName e)), (''severity'', JStr severity),
                (''component'', JStr (Context e)), (''group'', JStr (Namespace e)),
                (''custom_details'', map_obj [(''run_id'', JStr (RunName e)), (''namespace'', JStr (Namespace e)),
                  (''commit_sha'', JStr (CommitSHA e)), (''target_url'', JStr (TargetURL e))])])] @
            (if TargetURL e \<noteq> ''''
             then [(''links'', JArr [map_obj [(''href'', JStr (TargetURL e)), (''text'', JStr ''View run'')]])] else [])))))"

definition pagerduty_base :: "PagerDutyConfig \<Rightarrow> Base" where
  "pagerduty_base cfg = plain_base (\<lambda>e. pagerduty_payload cfg e '''') (\<lambda>_. Inr ''https://events.pagerduty.com/v2/enqueue'') Inr
     (pdRetryPolicy cfg)"

definition pagerduty_Handle ::
  "Network \<Rightarrow> RetryPolicy \<Rightarrow> PagerDutyConfig \<Rightarrow> Event \<Rightarrow> Collectors option \<Rightarrow> sent" where
  "pagerduty_Handle nw global cfg e m =
     (if pagerduty_actionFor (StateOf e) (pdAcknowledgeOnRunning cfg) = '''' then (None, None, m)
      else case pdIntegrationKey cfg of
        None \<Rightarrow> (Some (Err ''pagerduty: integration key refresher is required''), None, m)
      | Some (Inl er) \<Rightarrow> (Some (Wrap ''pagerduty: resolve integration key: '' er), None, m)
      | Some (Inr key) \<Rightarrow> Send nw global ((pagerduty_base cfg)\<lparr>bsPayload := \<lambda>e. pagerduty_payload cfg e key\<rparr>) e m)"

section \<open>Opsgenie\<close>

abbreviation actionCreate :: string where "actionCreate \<equiv> ''create''"
abbreviation actionClose :: string where "actionClose \<equiv> ''close''"

definition createAlertAPI :: string where "createAlertAPI = ''https://api.opsgenie.com/v2/alerts''"
definition aliasPrefix :: string where "aliasPrefix = ''tekton-relay:''"

record OpsgenieConfig =
  ogAPIKey :: "string result option"
  ogTeamName :: string
  ogPriority :: string
  ogRetryPolicy :: "RetryPolicy option"

definition opsgenie_New :: "OpsgenieConfig \<Rightarrow> OpsgenieConfig" where
  "opsgenie_New cfg = cfg\<lparr>ogPriority := or_default '''' ''P3'' (ogPriority cfg)\<rparr>"

definition opsgenie_actionFor :: "State \<Rightarrow> string" where
  "opsgenie_actionFor s =
     (if s = StateFailure \<or> s = StateError then actionCreate else if s = StateSuccess then actionClose else '''')"

definition opsgenie_payload :: "OpsgenieConfig \<Rightarrow> Event \<Rightarrow> json" where
  "opsgenie_payload cfg e =
     map_obj ([
       (''message'', JStr (''['' @ StateOf e @ ''] '' @ Context e @ dash @ Description e)),
       (''alias'', JStr (aliasPrefix @ RunID e)),
       (''description'', JStr (''Pipeline '' @ RunName e @ '' in namespace '' @ Namespace e)),
       (''priority'', JStr (ogPriority cfg)), (''source'', JStr (Namespace e @ ''/'' @ RunName e)),
       (''details'', map_obj [(''run_id'', JStr (RunName e)), (''run_uid'', JStr (RunID e)), (''namespace'', JStr (Namespace e)),
          (''state'', JStr (StateOf e)), (''commit_sha'', JStr (CommitSHA e)), (''target_url'', JStr (TargetURL e))])] @
       (if ogTeamName cfg \<noteq> '''' then [(''responders'', JArr [map_obj [(''type'', JStr ''team''), (''name'', JStr (ogTeamName cfg))]])] else []) @
       (if TargetURL e \<noteq> '''' then [(''actions'', JArr [JStr ''View Run''])] else []))"

definition opsgenie_Handle ::
  "Network \<Rightarrow> RetryPolicy \<Rightarrow> OpsgenieConfig \<Rightarrow> Event \<Rightarrow> Collectors option \<Rightarrow> sent" where
  "opsgenie_Handle nw global cfg e m =
     (let action = opsgenie_actionFor (StateOf e) in
      if action = '''' then (None, None, m)
      else case ogAPIKey cfg of
        None \<Rightarrow> (Some (Err ''opsgenie: api key refresher is required''), None, m)
      | Some (Inl er) \<Rightarrow> (Some (Wrap ''opsgenie: resolve api key: '' er), None, m)
      | Some (Inr apiKey) \<Rightarrow>
          (let base = (plain_base (\<lambda>e. Inr (opsgenie_payload cfg e)) (\<lambda>_. Inr createAlertAPI)
                         (\<lambda>req. Inr (Header_Set ''Authorization'' (''GenieKey '' @ apiKey) req)) (ogRetryPolicy cfg))
                       \<lparr>bsMethod := Some (\<lambda>_. ''POST'')\<rparr>
           in Send nw global
                (if action = actionClose
                 then base\<lparr>bsURL := \<lambda>_. Inr (createAlertAPI @ ''/'' @ (aliasPrefix @ RunID e) @ ''?identifierType=alias''),
                           bsMethod := Some (\<lambda>_. ''DELETE''), bsPayload := \<lambda>_. Inr (JObj [])\<rparr>
                 else base) e m))"

section \<open>incident.io\<close>

record IncidentConfig =
  icAPIKey :: "string result option"
  icSeverityID :: string
  icIncidentTypeID :: string
  icVisibility :: string
  icRetryPolicy :: "RetryPolicy option"

definition incidentio_New :: "IncidentConfig \<Rightarrow> IncidentConfig" where
  "incidentio_New cfg = cfg\<lparr>icVisibility := or_default '''' ''public'' (icVisibility cfg)\<rparr>"

definition incidentio_payload :: "IncidentConfig \<Rightarrow> Event \<Rightarrow> json result" where
  "incidentio_payload cfg e =
     Inr (map_obj ([
       (''name'', JStr (''Pipeline '' @ RunName e @ '' failed'')), (''idempotency_key'', JStr (''tekton-relay:'' @ RunID e)),
       (''visibility'', JStr (icVisibility cfg)), (''mode'', JStr ''standard''),
       (''summary'', JStr (''Tekton pipeline '' @ PipelineName e @ ''/'' @ RunName e @ '' failed in namespace '' @ Namespace e))] @
       (if icSeverityID cfg \<noteq> '''' then [(''severity_id'', JStr (icSeverityID cfg))] else []) @
       (if icIncidentTypeID cfg \<noteq> '''' then [(''incident_type_id'', JStr (icIncidentTypeID cfg))] else [])))"

definition incidentio_Handle ::
  "Network \<Rightarrow> RetryPolicy \<Rightarrow> IncidentConfig \<Rightarrow> Event \<Rightarrow> Collectors option \<Rightarrow> sent" where
  "incidentio_Handle nw global cfg e m =
     (if StateOf e \<noteq> StateFailure \<and> StateOf e \<noteq> StateError then (None, None, m)
      else Send nw global
        (plain_base (incidentio_payload cfg) (\<lambda>_. Inr ''https://api.incident.io/v2/incidents'')
          (key_auth ''incidentio'' ''Authorization'' ''Bearer '' (icAPIKey cfg)) (icRetryPolicy cfg)) e m)"

section \<open>Alerts follow the runs\<close>

text \<open>The commands for a key that open or close its alert.\<close>

definition decisive :: "string \<Rightarrow> (string \<times> string) list \<Rightarrow> string list" where
  "decisive k cs = map fst (filter (\<lambda>(a, j). j = k \<and> (a = actionTrigger \<or> a = actionResolve)) cs)"

text \<open>
  An alerting service as both providers document theirs: a trigger opens the alert of its key, a resolve
  closes it, an acknowledgement changes neither, and nothing else touches the alert of a key.
\<close>

locale alert_service =
  fixes act :: "string \<Rightarrow> string \<Rightarrow> 'w \<Rightarrow> 'w"
    and opened :: "'w \<Rightarrow> string \<Rightarrow> bool"
  assumes trigger: "opened (act actionTrigger k w) k"
    and resolve: "\<not> opened (act actionResolve k w) k"
    and acknowledge: "opened (act actionAcknowledge k w) j = opened w j"
    and others: "j \<noteq> k \<Longrightarrow> opened (act a k w) j = opened w j"
begin

lemma opened_perform:
  assumes "\<forall>(a, j) \<in> set cs. a \<in> {actionTrigger, actionResolve, actionAcknowledge}"
  shows "opened (foldl (\<lambda>w (a, k). act a k w) w cs) k \<longleftrightarrow> (if decisive k cs = [] then opened w k else last (decisive k cs) = actionTrigger)"
  using assms
proof (induction cs rule: rev_induct)
  case (snoc c cs)
  obtain a j where c: "c = (a, j)" by fastforce
  have IH: "opened (foldl (\<lambda>w (a, k). act a k w) w cs) k \<longleftrightarrow> (if decisive k cs = [] then opened w k else last (decisive k cs) = actionTrigger)"
    using snoc by simp
  consider "a = actionTrigger" "j = k" | "a = actionResolve" "j = k" | "a = actionAcknowledge" | "j \<noteq> k"
    using snoc.prems c by auto
  then show ?case
    using IH unfolding c by cases (simp_all add: decisive_def trigger resolve acknowledge others)
qed (simp add: decisive_def)

end

text \<open>A service that keeps the keys of its open alerts.\<close>

definition list_alerts :: "string \<Rightarrow> string \<Rightarrow> string list \<Rightarrow> string list" where
  "list_alerts a k w = (if a = actionTrigger then List.insert k w else if a = actionResolve then removeAll k w else w)"

interpretation listed: alert_service list_alerts "\<lambda>w k. k \<in> set w"
  by unfold_locales (auto simp: list_alerts_def)

text \<open>The member of an object.\<close>

definition member :: "string \<Rightarrow> json \<Rightarrow> string" where
  "member k j = (case j of JObj ms \<Rightarrow> (case map_of ms k of Some (JStr s) \<Rightarrow> s | _ \<Rightarrow> '''') | _ \<Rightarrow> '''')"

lemma distinct_map_fst_sort: "distinct (map fst ms) \<longleftrightarrow> distinct (map fst (sort_key fst ms))"
  by (rule mset_eq_imp_distinct_iff) (simp only: mset_map mset_sort)

lemma map_of_sort_key: "distinct (map fst ms) \<Longrightarrow> map_of (sort_key fst ms) = map_of ms"
  by (subst map_of_inject_set) (simp_all flip: distinct_map_fst_sort)

lemma member_map_obj: "distinct (map fst ms) \<Longrightarrow> map_of ms k = Some (JStr s) \<Longrightarrow> member k (map_obj ms) = s"
  by (simp add: member_def map_obj_def map_of_sort_key)

text \<open>
  The commands that reach PagerDuty for a sequence of events, each over the network it finds: a delivery
  counts when it is answered below 300. \<open>reads\<close> reads the value that a body was marshalled from.
\<close>

definition pagerduty_command :: "(string \<Rightarrow> json) \<Rightarrow> sent \<Rightarrow> (string \<times> string) list" where
  "pagerduty_command reads out =
     (case out of (None, Some (req, as), m) \<Rightarrow>
        [(member ''event_action'' (reads (hrBody req)), member ''dedup_key'' (reads (hrBody req)))] | _ \<Rightarrow> [])"

definition pagerduty_commands ::
  "(string \<Rightarrow> json) \<Rightarrow> RetryPolicy \<Rightarrow> PagerDutyConfig \<Rightarrow> (Network \<times> Event) list \<Rightarrow> (string \<times> string) list" where
  "pagerduty_commands reads global cfg evs =
     concat (map (\<lambda>(nw, e). pagerduty_command reads (pagerduty_Handle nw global cfg e None)) evs)"

definition notified :: "RetryPolicy \<Rightarrow> PagerDutyConfig \<Rightarrow> Network \<times> Event \<Rightarrow> bool" where
  "notified global cfg x = (fst (pagerduty_Handle (fst x) global cfg (snd x) None) = None)"

definition decides :: "string \<Rightarrow> Event \<Rightarrow> bool" where
  "decides run e \<longleftrightarrow> RunID e = run \<and> (StateOf e = StateFailure \<or> StateOf e = StateError \<or> StateOf e = StateSuccess)"

lemma Send_sent: "Send nw global b e m = (None, sent, m') \<Longrightarrow> \<exists>req as. sent = Some (req, as) \<and> build_request nw b e = Inr req"
  by (auto simp: Send_def Let_def split: sum.splits prod.splits if_splits)

lemma build_request_auth:
  "build_request nw b e = Inr req \<Longrightarrow> bsAuth b = Some f \<Longrightarrow>
   \<exists>j r. f r = Inr req \<and> bsPayload b e = Inr j \<and> bsURL b e = Inr (hrURL r) \<and> nwMarshal nw j = Inr (hrBody r)"
  by (auto simp: build_request_def Let_def split: sum.splits option.splits if_splits)

lemma pagerduty_command_Handle:
  assumes "\<forall>j b. nwMarshal nw j = Inr b \<longrightarrow> reads b = j"
  shows "pagerduty_command reads (pagerduty_Handle nw global cfg e None) =
    (if notified global cfg (nw, e) \<and> pagerduty_actionFor (StateOf e) (pdAcknowledgeOnRunning cfg) \<noteq> ''''
     then [(pagerduty_actionFor (StateOf e) (pdAcknowledgeOnRunning cfg), RunID e)] else [])"
proof (cases "notified global cfg (nw, e) \<and> pagerduty_actionFor (StateOf e) (pdAcknowledgeOnRunning cfg) \<noteq> ''''")
  case True
  obtain sent m' where h: "pagerduty_Handle nw global cfg e None = (None, sent, m')"
    using True by (cases "pagerduty_Handle nw global cfg e None") (simp add: notified_def)
  then obtain key where s: "Send nw global ((pagerduty_base cfg)\<lparr>bsPayload := \<lambda>e. pagerduty_payload cfg e key\<rparr>) e None = (None, sent, m')"
    using True by (auto simp: pagerduty_Handle_def split: option.splits sum.splits)
  from Send_sent [OF this] obtain req as j where r: "sent = Some (req, as)"
    "pagerduty_payload cfg e key = Inr j" "nwMarshal nw j = Inr (hrBody req)"
    by (auto dest!: build_request_auth simp: pagerduty_base_def plain_base_def)
  with assms have j: "reads (hrBody req) = j" by blast
  have "member ''event_action'' j = pagerduty_actionFor (StateOf e) (pdAcknowledgeOnRunning cfg)" "member ''dedup_key'' j = RunID e"
    using r(2) True by (auto simp: pagerduty_payload_def Let_def intro!: member_map_obj)
  with True h r(1) j show ?thesis by (simp add: pagerduty_command_def)
next
  case False
  then consider "pagerduty_actionFor (StateOf e) (pdAcknowledgeOnRunning cfg) = ''''" | er where "fst (pagerduty_Handle nw global cfg e None) = Some er"
    by (auto simp: notified_def)
  then have "pagerduty_command reads (pagerduty_Handle nw global cfg e None) = []"
  proof cases
    case 1
    then show ?thesis by (simp add: pagerduty_command_def pagerduty_Handle_def)
  next
    case 2
    then show ?thesis by (cases "pagerduty_Handle nw global cfg e None") (simp add: pagerduty_command_def)
  qed
  with False show ?thesis by auto
qed

lemma decisive_commands:
  assumes "\<forall>(nw, e) \<in> set evs. \<forall>j b. nwMarshal nw j = Inr b \<longrightarrow> reads b = j"
  shows "decisive run (pagerduty_commands reads global cfg evs) =
    map (\<lambda>(nw, e). pagerduty_actionFor (StateOf e) (pdAcknowledgeOnRunning cfg))
      (filter (\<lambda>x. decides run (snd x) \<and> notified global cfg x) evs)"
  using assms
proof (induction evs)
  case (Cons x evs)
  obtain nw e where x: "x = (nw, e)" by fastforce
  have "pagerduty_command reads (pagerduty_Handle nw global cfg e None) =
    (if notified global cfg (nw, e) \<and> pagerduty_actionFor (StateOf e) (pdAcknowledgeOnRunning cfg) \<noteq> ''''
     then [(pagerduty_actionFor (StateOf e) (pdAcknowledgeOnRunning cfg), RunID e)] else [])"
    using Cons.prems x by (intro pagerduty_command_Handle) auto
  with Cons show ?case
    by (auto simp: x pagerduty_commands_def decisive_def decides_def pagerduty_actionFor_def)
qed (simp add: pagerduty_commands_def decisive_def)

lemma pagerduty_commands_known:
  assumes "\<forall>(nw, e) \<in> set evs. \<forall>j b. nwMarshal nw j = Inr b \<longrightarrow> reads b = j"
  shows "\<forall>(a, j) \<in> set (pagerduty_commands reads global cfg evs). a \<in> {actionTrigger, actionResolve, actionAcknowledge}"
proof -
  have "a \<in> {actionTrigger, actionResolve, actionAcknowledge}"
    if "(nw, e) \<in> set evs" "(a, j) \<in> set (pagerduty_command reads (pagerduty_Handle nw global cfg e None))" for a j nw e
  proof -
    have "\<forall>j b. nwMarshal nw j = Inr b \<longrightarrow> reads b = j" using assms that(1) by auto
    with that(2) show ?thesis by (simp add: pagerduty_command_Handle pagerduty_actionFor_def split: if_splits)
  qed
  then show ?thesis unfolding pagerduty_commands_def by fastforce
qed

lemma opened_after_runs:
  assumes "alert_service act opened" and "\<not> opened w run"
    and "\<forall>(nw, e) \<in> set evs. \<forall>j b. nwMarshal nw j = Inr b \<longrightarrow> reads b = j"
  shows "opened (foldl (\<lambda>w (a, k). act a k w) w (pagerduty_commands reads global cfg evs)) run \<longleftrightarrow>
    (let told = filter (\<lambda>x. decides run (snd x) \<and> notified global cfg x) evs
     in told \<noteq> [] \<and> StateOf (snd (last told)) \<noteq> StateSuccess)"
proof -
  let ?told = "filter (\<lambda>x. decides run (snd x) \<and> notified global cfg x) evs"
  note d = decisive_commands [OF assms(3), of run global cfg]
  have "opened (foldl (\<lambda>w (a, k). act a k w) w (pagerduty_commands reads global cfg evs)) run \<longleftrightarrow>
    ?told \<noteq> [] \<and> last (decisive run (pagerduty_commands reads global cfg evs)) = actionTrigger"
    using alert_service.opened_perform [OF assms(1) pagerduty_commands_known [OF assms(3)], where w = w and k = run] assms(2) d
    by simp
  moreover have "last (decisive run (pagerduty_commands reads global cfg evs)) = actionTrigger \<longleftrightarrow>
      StateOf (snd (last ?told)) \<noteq> StateSuccess" if "?told \<noteq> []"
  proof -
    have "last ?told \<in> set ?told" using that by (rule last_in_set)
    then have "decides run (snd (last ?told))" by (simp only: set_filter mem_Collect_eq)
    with that show ?thesis unfolding d by (auto simp: last_map decides_def pagerduty_actionFor_def split: prod.splits)
  qed
  ultimately show ?thesis by (auto simp: Let_def)
qed

text \<open>
  C9 Alerts follow the runs, for any service that behaves as documented and any interleaving of runs, with
  deliveries that fail in between: the alert of a run is open at the end exactly when the last of the
  delivered events of the run that report a failure, an error or a success is not a success.
\<close>

theorem alerts_follow_runs:
  assumes "alert_service act opened" and "\<not> opened w run"
    and "\<forall>(nw, e) \<in> set evs. \<forall>j b. nwMarshal nw j = Inr b \<longrightarrow> reads b = j"
  shows "opened (foldl (\<lambda>w (a, k). act a k w) w (pagerduty_commands reads global cfg evs)) run \<longleftrightarrow>
    (let told = filter (\<lambda>x. decides run (snd x) \<and> notified global cfg x) evs
     in told \<noteq> [] \<and> StateOf (snd (last told)) \<noteq> StateSuccess)"
  using assms by (rule opened_after_runs)

text \<open>A network that answers every request with one status, and a notifier, for the witnesses.\<close>

definition status_network :: "int \<Rightarrow> Network" where
  "status_network code = \<lparr>nwMarshal = \<lambda>j. if wf_json j then Inr (json_print j) else Inl (Err ''unsupported value''),
     nwNewRequest = \<lambda>_ _. None, nwHost = \<lambda>u. u, nwAnswer = \<lambda>req i. Inr \<lparr>StatusCode = code, RetryAfter = ''''\<rparr>,
     nwText = \<lambda>_ _. '''', nwDo = eager_Do\<rparr>"

definition once :: RetryPolicy where
  "once = \<lparr>MaxAttempts = 1, InitialBackoff = 0, MaxBackoff = 0\<rparr>"

definition demo_pagerduty :: PagerDutyConfig where
  "demo_pagerduty = pagerduty_New \<lparr>pdIntegrationKey = Some (Inr ''key''), pdSeverity = '''', pdSeverityExpr = None,
     pdAcknowledgeOnRunning = True, pdRetryPolicy = None\<rparr>"

definition demo_runs :: "(Network \<times> Event) list" where
  "demo_runs = [(status_network 202, run_event ''r1'' StateRunning), (status_network 202, run_event ''r1'' StateFailure),
     (status_network 202, run_event ''r2'' StateFailure), (status_network 400, run_event ''r1'' StateSuccess),
     (status_network 202, run_event ''r2'' StateSuccess)]"

lemma status_network_reads: "nwMarshal (status_network c) j = Inr b \<Longrightarrow> the (json_parse b) = j"
  by (auto simp: status_network_def json_parse_print split: if_splits)

abbreviation ascii :: "string \<Rightarrow> bool" where
  "ascii \<equiv> list_all (\<lambda>c. byte c < (128 :: nat))"

lemma wf_map_obj: "list_all wf_member ms \<Longrightarrow> wf_json (map_obj ms)"
proof -
  have "wf_members ns \<longleftrightarrow> list_all wf_member ns" for ns by (induction ns) simp_all
  then show "list_all wf_member ms \<Longrightarrow> wf_json (map_obj ms)" by (simp add: map_obj_def list_all_iff)
qed

lemma dash_valid: "valid_utf8 (dash @ '''')"
proof -
  have "valid_utf8 ([CHR 0xE2, CHR 0x80, CHR 0x94] @ '' '')"
    by (simp add: valid_utf8_def runes.simps(2) decode_rune_def encode_rune_def valid_rune_def Let_def is_cont_def
        char_of_eq_iff take_bit_eq_mod)
  then show ?thesis using valid_utf8_ascii_append [of "'' ''"] by (simp add: dash_def)
qed

lemma demo_payload_wf:
  assumes "ascii run" and "ascii st" and "pagerduty_payload demo_pagerduty (run_event run st) ''key'' = Inr j"
  shows "wf_json j"
proof -
  have "valid_utf8 ((''['' @ st @ ''] '') @ dash @ '''')"
    by (subst valid_utf8_ascii_append) (use assms(2) dash_valid in simp_all)
  then have s: "valid_utf8 (CHR ''['' # st @ CHR '']'' # CHR '' '' # dash)" by simp
  have j: "j = projr (pagerduty_payload demo_pagerduty (run_event run st) ''key'')" using assms(3) by simp
  show ?thesis unfolding j
    using assms s by (auto simp: pagerduty_payload_def demo_pagerduty_def pagerduty_New_def or_default_def run_event_def zero_event_def
        Let_def pagerduty_actionFor_def ascii_valid_utf8 split: if_splits intro!: wf_map_obj)
qed

lemma demo_notified:
  assumes "ascii run" and "ascii st" and "pagerduty_actionFor st True \<noteq> ''''"
  shows "notified once demo_pagerduty (status_network code, run_event run st) \<longleftrightarrow> code < 300"
proof -
  obtain j where j: "pagerduty_payload demo_pagerduty (run_event run st) ''key'' = Inr j"
    using assms(3) by (simp add: pagerduty_payload_def demo_pagerduty_def pagerduty_New_def run_event_def Let_def)
  note wf = demo_payload_wf [OF assms(1,2) j]
  have d: "pdIntegrationKey demo_pagerduty = Some (Inr ''key'')" "pdAcknowledgeOnRunning demo_pagerduty" "pdRetryPolicy demo_pagerduty = None"
    by (simp_all add: demo_pagerduty_def pagerduty_New_def)
  have "\<not> CheckRetry (Inr \<lparr>StatusCode = code, RetryAfter = ''''\<rparr>)" if "code < 300" using that by (simp add: CheckRetry_def)
  with assms(3) wf j d show ?thesis
    by (auto simp: notified_def pagerduty_Handle_def Send_def build_request_def pagerduty_base_def plain_base_def status_network_def
        DoWithRetryPolicy_def normalized_def once_def DefaultRetryPolicy_def eager_Do_def Let_def run_event_def)
qed

theorem alerts_follow_runs_witness:
  "let w = foldl (\<lambda>w (a, k). list_alerts a k w) [] (pagerduty_commands (\<lambda>b. the (json_parse b)) once demo_pagerduty demo_runs)
   in ''r1'' \<in> set w \<and> ''r2'' \<notin> set w"
proof -
  have r: "\<forall>(nw, e) \<in> set demo_runs. \<forall>j b. nwMarshal nw j = Inr b \<longrightarrow> the (json_parse b) = j"
    by (auto simp: demo_runs_def dest: status_network_reads)
  have n: "notified once demo_pagerduty (status_network code, run_event run st) \<longleftrightarrow> code < 300"
    if "run \<in> {''r1'', ''r2''}" "st \<in> {StateRunning, StateFailure, StateSuccess}" for code run st
    using that by (intro demo_notified) (auto simp: pagerduty_actionFor_def)
  have s: "StateOf (run_event run st) = st" "RunID (run_event run st) = run" for run st by (simp_all add: run_event_def)
  show ?thesis
    using alerts_follow_runs [OF listed.alert_service_axioms _ r, where w = "[]" and run = "''r1''" and global = once and cfg = demo_pagerduty]
      alerts_follow_runs [OF listed.alert_service_axioms _ r, where w = "[]" and run = "''r2''" and global = once and cfg = demo_pagerduty]
    by (simp add: demo_runs_def decides_def s n Let_def)
qed

text \<open>
  A run reports its outcome once, and a later run has an identifier of its own: then no alert is ever
  closed, because the success that would close it never has the key of a failure.
\<close>

theorem alerts_stay_open:
  assumes "alert_service act opened" and "\<not> opened w run"
    and "\<forall>(nw, e) \<in> set evs. \<forall>j b. nwMarshal nw j = Inr b \<longrightarrow> reads b = j"
    and "length (filter (\<lambda>x. decides run (snd x)) evs) \<le> 1"
    and "x \<in> set evs" and "decides run (snd x)" and "StateOf (snd x) \<noteq> StateSuccess" and "notified global cfg x"
  shows "opened (foldl (\<lambda>w (a, k). act a k w) w (pagerduty_commands reads global cfg evs)) run"
proof -
  let ?one = "filter (\<lambda>x. decides run (snd x)) evs"
  have "x \<in> set ?one" using assms(5,6) by simp
  with assms(4) have one: "?one = [x]" by (cases ?one) auto
  have "filter (\<lambda>x. decides run (snd x) \<and> notified global cfg x) evs = filter (notified global cfg) ?one"
    by (simp add: conj_commute)
  also have "\<dots> = [x]" using assms(8) by (simp add: one)
  finally show ?thesis using opened_after_runs [OF assms(1,2,3), of global cfg] assms(7) by (simp add: Let_def)
qed

text \<open>The request that closes an alert of Opsgenie names the alias under which the failure opened it.\<close>

lemma opsgenie_alias:
  assumes "opsgenie_Handle nw global cfg e m = (None, Some (req, as), m')"
  shows "StateOf e = StateSuccess \<Longrightarrow> hrMethod req = ''DELETE'' \<and>
      hrURL req = createAlertAPI @ ''/'' @ aliasPrefix @ RunID e @ ''?identifierType=alias''"
    and "StateOf e \<noteq> StateSuccess \<Longrightarrow> hrMethod req = ''POST'' \<and> hrURL req = createAlertAPI \<and>
      (\<exists>j. nwMarshal nw j = Inr (hrBody req) \<and> member ''alias'' j = aliasPrefix @ RunID e)"
proof -
  obtain k where k: "ogAPIKey cfg = Some (Inr k)" and a: "opsgenie_actionFor (StateOf e) \<noteq> ''''"
    using assms by (auto simp: opsgenie_Handle_def Let_def split: option.splits sum.splits if_splits)
  have al: "member ''alias'' (opsgenie_payload cfg e) = aliasPrefix @ RunID e"
    unfolding opsgenie_payload_def by (rule member_map_obj) auto
  show "StateOf e = StateSuccess \<Longrightarrow> hrMethod req = ''DELETE'' \<and>
      hrURL req = createAlertAPI @ ''/'' @ aliasPrefix @ RunID e @ ''?identifierType=alias''"
    using assms k a by (auto simp: opsgenie_Handle_def opsgenie_actionFor_def Let_def plain_base_def
      build_request_def dest!: Send_sent split: sum.splits option.splits)
  show "StateOf e \<noteq> StateSuccess \<Longrightarrow> hrMethod req = ''POST'' \<and> hrURL req = createAlertAPI \<and>
      (\<exists>j. nwMarshal nw j = Inr (hrBody req) \<and> member ''alias'' j = aliasPrefix @ RunID e)"
    using assms k a al by (auto simp: opsgenie_Handle_def opsgenie_actionFor_def Let_def plain_base_def
      build_request_def dest!: Send_sent intro!: exI [of _ "opsgenie_payload cfg e"] split: sum.splits option.splits if_splits)
qed

end
