(* ===== verification/Relay_Monitor.thy ===== *)
theory Relay_Monitor
  imports Relay_Alert
begin

text \<open>
  The notifiers of monitoring services and the generic ones, as hooks for the common sending: Datadog, New
  Relic and Honeycomb (\<^verbatim>\<open>internal/notifier/datadog\<close>, \<^verbatim>\<open>newrelic\<close>, \<^verbatim>\<open>honeycomb\<close>), Telegram (\<^verbatim>\<open>telegram\<close>) with its
  escaping, the webhook (\<^verbatim>\<open>webhook\<close>) with its authentication, Sentry (\<^verbatim>\<open>sentry\<close>) and Grafana (\<^verbatim>\<open>grafana\<close>).
\<close>

section \<open>Datadog\<close>

text \<open>\<^verbatim>\<open>url.Parse\<close> is the argument \<open>scheme\<close>: the scheme of a URL.\<close>

definition validateURL :: "(string \<Rightarrow> string result) \<Rightarrow> string \<Rightarrow> err option" where
  "validateURL scheme url =
     (case scheme url of
        Inl e \<Rightarrow> Some (Wrap ''invalid URL: '' e)
      | Inr s \<Rightarrow> if s = ''http'' \<or> s = ''https'' then None
          else Some (Err (''unsupported URL scheme '' @ strconv_Quote s @ '': only http and https are allowed'')))"

definition checked_url :: "(string \<Rightarrow> string result) \<Rightarrow> string \<Rightarrow> string \<Rightarrow> string result" where
  "checked_url scheme provider u =
     (case validateURL scheme u of Some e \<Rightarrow> Inl (Wrap (''invalid '' @ provider @ '' URL: '') e) | None \<Rightarrow> Inr u)"

record DatadogConfig =
  ddAPIKey :: "string result option"
  ddSite :: string
  ddTags :: "string list"
  ddExtraTags :: "string list"
  ddRetryPolicy :: "RetryPolicy option"

definition datadog_New :: "DatadogConfig \<Rightarrow> DatadogConfig" where
  "datadog_New cfg = cfg\<lparr>ddSite := or_default '''' ''datadoghq.com'' (ddSite cfg)\<rparr>"

definition sanitizeTag :: "string \<Rightarrow> string" where
  "sanitizeTag = map (\<lambda>c. if c = CHR ''/'' \<or> c = CHR '':'' then CHR ''_'' else c)"

definition alertTypeFor :: "State \<Rightarrow> string" where
  "alertTypeFor s = (if s = StateSuccess then ''success'' else if s = StateFailure \<or> s = StateError then ''error'' else ''info'')"

definition datadog_tags :: "DatadogConfig \<Rightarrow> Event \<Rightarrow> string list" where
  "datadog_tags cfg e =
     [''state:'' @ StateOf e, ''context:'' @ sanitizeTag (Context e), ''namespace:'' @ Namespace e, ''run_id:'' @ RunName e,
      ''resource:'' @ ResourceOf e] @
     (if CommitSHA e \<noteq> '''' then [''commit_sha:'' @ take 7 (CommitSHA e)] else []) @ ddTags cfg @ ddExtraTags cfg"

definition datadog_payload :: "DatadogConfig \<Rightarrow> Event \<Rightarrow> json result" where
  "datadog_payload cfg e =
     Inr (map_obj [
       (''title'', JStr (''[tekton-events-relay] '' @ Context e @ dash @ StateOf e)),
       (''text'', JStr (Description e @ [CHR 0x0A, CHR 0x0A] @ ''Run: '' @ Namespace e @ ''/'' @ RunName e)),
       (''alert_type'', JStr (alertTypeFor (StateOf e))), (''tags'', JArr (map JStr (datadog_tags cfg e))),
       (''source_type_name'', JStr UserAgent)])"

definition datadog_base :: "(string \<Rightarrow> string result) \<Rightarrow> DatadogConfig \<Rightarrow> Base" where
  "datadog_base scheme cfg =
     plain_base (datadog_payload cfg) (\<lambda>_. checked_url scheme ''Datadog'' (''https://api.'' @ ddSite cfg @ ''/api/v2/events''))
       (key_auth ''datadog'' ''DD-API-KEY'' '''' (ddAPIKey cfg)) (ddRetryPolicy cfg)"

section \<open>New Relic and Honeycomb\<close>

record NewRelicConfig =
  nrAPIKey :: "string result option"
  nrAccountID :: string
  nrRetryPolicy :: "RetryPolicy option"

definition unless_empty :: "string \<Rightarrow> string \<Rightarrow> (string \<times> json) list" where
  "unless_empty k v = (if v \<noteq> '''' then [(k, JStr v)] else [])"

definition newrelic_payload :: "Event \<Rightarrow> json result" where
  "newrelic_payload e =
     Inr (JArr [map_obj ([
       (''eventType'', JStr ''TektonPipelineEvent''), (''runName'', JStr (RunName e)), (''state'', JStr (StateOf e)),
       (''namespace'', JStr (Namespace e)), (''runID'', JStr (RunID e)), (''resource'', JStr (ResourceOf e))] @
       unless_empty ''provider'' (Provider e) @ unless_empty ''context'' (Context e) @
       unless_empty ''description'' (Description e) @ unless_empty ''commitSHA'' (CommitSHA e) @
       unless_empty ''pipelineName'' (PipelineName e) @ unless_empty ''taskName'' (TaskName e))])"

definition newrelic_base :: "(string \<Rightarrow> string result) \<Rightarrow> NewRelicConfig \<Rightarrow> Base" where
  "newrelic_base scheme cfg =
     plain_base newrelic_payload
       (\<lambda>_. checked_url scheme ''New Relic'' (''https://insights-collector.newrelic.com/v1/accounts/'' @ nrAccountID cfg @ ''/events''))
       (key_auth ''newrelic'' ''X-Insert-Key'' '''' (nrAPIKey cfg)) (nrRetryPolicy cfg)"

record HoneycombConfig =
  hcAPIKey :: "string result option"
  hcDataset :: string
  hcRetryPolicy :: "RetryPolicy option"

text \<open>\<open>rfc3339\<close> is \<^verbatim>\<open>Time.Format\<close> in the location of the time.\<close>

definition honeycomb_payload :: "(Time \<Rightarrow> string) \<Rightarrow> Event \<Rightarrow> json result" where
  "honeycomb_payload rfc3339 e =
     Inr (map_obj ([
       (''runName'', JStr (RunName e)), (''state'', JStr (StateOf e)), (''provider'', JStr (Provider e)),
       (''namespace'', JStr (Namespace e)), (''runID'', JStr (RunID e)), (''resource'', JStr (ResourceOf e)),
       (''pipelineName'', JStr (PipelineName e)), (''taskName'', JStr (TaskName e)), (''context'', JStr (Context e)),
       (''description'', JStr (Description e)), (''userAgent'', JStr UserAgent)] @
       (if StartedAt e \<noteq> 0 then [(''startedAt'', JStr (rfc3339 (StartedAt e)))] else []) @
       (if FinishedAt e \<noteq> 0 then [(''finishedAt'', JStr (rfc3339 (FinishedAt e)))] else []) @
       unless_empty ''commitSHA'' (CommitSHA e) @ unless_empty ''targetURL'' (TargetURL e)))"

definition honeycomb_base :: "(Time \<Rightarrow> string) \<Rightarrow> HoneycombConfig \<Rightarrow> Base" where
  "honeycomb_base rfc3339 cfg =
     plain_base (honeycomb_payload rfc3339) (\<lambda>_. Inr (''https://api.honeycomb.io/1/events/'' @ hcDataset cfg))
       (key_auth ''honeycomb'' ''X-Honeycomb-Team'' '''' (hcAPIKey cfg)) (hcRetryPolicy cfg)"

section \<open>Telegram\<close>

definition markdown_special :: "char \<Rightarrow> bool" where
  "markdown_special c \<longleftrightarrow> c \<in> set ''_*[]()~>#+-=|{}.!'' \<or> c = CHR 0x60"

definition EscapeMarkdownV2 :: "string \<Rightarrow> string" where
  "EscapeMarkdownV2 s = concat (map (\<lambda>c. if markdown_special c then [CHR 0x5C, c] else [c]) s)"

record TelegramConfig =
  tgToken :: "string result option"
  tgChatID :: string
  tgTmpl :: template
  tgRetryPolicy :: "RetryPolicy option"

text \<open>\<open>compile\<close> is \<^verbatim>\<open>scm.CompileTemplate\<close> of a source.\<close>

definition telegram_New ::
  "(string \<Rightarrow> template result) \<Rightarrow> string result option \<Rightarrow> string \<Rightarrow> string \<Rightarrow> RetryPolicy option \<Rightarrow> TelegramConfig result" where
  "telegram_New compile token chat tmpl rp =
     (if token = None then Inl (Err ''telegram: token refresher is required'')
      else if chat = '''' then Inl (Err ''telegram: chat_id is required'')
      else case compile (or_default '''' ''Pipeline {{.RunName}} - {{.State}}'' tmpl) of
        Inl e \<Rightarrow> Inl (Wrap ''compile template: '' e)
      | Inr t \<Rightarrow> Inr \<lparr>tgToken = token, tgChatID = chat, tgTmpl = t, tgRetryPolicy = rp\<rparr>)"

definition telegram_payload :: "TelegramConfig \<Rightarrow> Event \<Rightarrow> json result" where
  "telegram_payload cfg e =
     (case tgTmpl cfg e of
        Inl er \<Rightarrow> Inl (Wrap ''template execution failed: '' er)
      | Inr text \<Rightarrow> Inr (map_obj [(''chat_id'', JStr (tgChatID cfg)), (''text'', JStr (EscapeMarkdownV2 text)),
          (''parse_mode'', JStr ''MarkdownV2'')]))"

definition telegram_base :: "TelegramConfig \<Rightarrow> Base" where
  "telegram_base cfg =
     \<lparr>bsPayload = telegram_payload cfg,
      bsURL = \<lambda>_. (case the (tgToken cfg) of
          Inl e \<Rightarrow> Inl (Wrap ''telegram: resolve token: '' e)
        | Inr tok \<Rightarrow> Inr (''https://api.telegram.org/bot'' @ tok @ ''/sendMessage'')),
      bsAuth = None, bsMethod = None, bsUserAgent = UserAgent, bsRetryPolicy = tgRetryPolicy cfg\<rparr>"

section \<open>The generic webhook\<close>

definition base64_char :: "nat \<Rightarrow> char" where
  "base64_char n =
     (if n < 26 then char_of (65 + n) else if n < 52 then char_of (71 + n) else if n < 62 then char_of (n - 4)
      else if n = 62 then CHR ''+'' else CHR ''/'')"

fun base64 :: "string \<Rightarrow> string" where
  "base64 [] = []"
| "base64 [a] = [base64_char (byte a div 4), base64_char (byte a mod 4 * 16), CHR ''='', CHR ''='']"
| "base64 [a, b] = [base64_char (byte a div 4), base64_char (byte a mod 4 * 16 + byte b div 16),
     base64_char (byte b mod 16 * 4), CHR ''='']"
| "base64 (a # b # c # s) = base64_char (byte a div 4) # base64_char (byte a mod 4 * 16 + byte b div 16) #
     base64_char (byte b mod 16 * 4 + byte c div 64) # base64_char (byte c mod 64) # base64 s"

record ResolvedAuth =
  raType :: string
  raToken :: "string result"
  raUsername :: string
  raPassword :: "string result"
  raSecret :: "string result"
  raHeader :: string

abbreviation authTypeBearer :: string where "authTypeBearer \<equiv> ''bearer''"
abbreviation authTypeBasic :: string where "authTypeBasic \<equiv> ''basic''"
abbreviation authTypeAPIKey :: string where "authTypeAPIKey \<equiv> ''apikey''"
abbreviation authTypeHMAC :: string where "authTypeHMAC \<equiv> ''hmac''"
abbreviation authTypeOAuth2 :: string where "authTypeOAuth2 \<equiv> ''oauth2''"

definition applyBearerAuth :: "HttpRequest \<Rightarrow> ResolvedAuth \<Rightarrow> HttpRequest result" where
  "applyBearerAuth req auth =
     (case raToken auth of
        Inl e \<Rightarrow> Inl (Wrap ''resolve bearer token: '' e)
      | Inr tok \<Rightarrow> Inr (Header_Set ''Authorization'' (''Bearer '' @ tok) req))"

definition applyBasicAuth :: "HttpRequest \<Rightarrow> ResolvedAuth \<Rightarrow> HttpRequest result" where
  "applyBasicAuth req auth =
     (case raPassword auth of
        Inl e \<Rightarrow> Inl (Wrap ''resolve basic auth password: '' e)
      | Inr password \<Rightarrow> Inr (Header_Set ''Authorization'' (''Basic '' @ base64 (raUsername auth @ '':'' @ password)) req))"

definition applyAPIKeyAuth :: "HttpRequest \<Rightarrow> ResolvedAuth \<Rightarrow> HttpRequest result" where
  "applyAPIKeyAuth req auth =
     (case raToken auth of
        Inl e \<Rightarrow> Inl (Wrap ''resolve api key: '' e)
      | Inr tok \<Rightarrow> Inr (Header_Set (raHeader auth) tok req))"

text \<open>\<open>hmac secret body\<close> is HMAC-SHA256; the requests of a notifier always have a body, which reading leaves as it was.\<close>

definition applyHMACAuth :: "(string \<Rightarrow> string \<Rightarrow> string) \<Rightarrow> HttpRequest \<Rightarrow> ResolvedAuth \<Rightarrow> HttpRequest result" where
  "applyHMACAuth hmac req auth =
     (case raSecret auth of
        Inl e \<Rightarrow> Inl (Wrap ''resolve hmac secret: '' e)
      | Inr secret \<Rightarrow>
          Inr (Header_Set ''X-Webhook-Signature'' (''sha256='' @ EncodeToString (hmac secret (hrBody req))) req))"

definition applyAuth :: "(string \<Rightarrow> string \<Rightarrow> string) \<Rightarrow> HttpRequest \<Rightarrow> ResolvedAuth option \<Rightarrow> HttpRequest result" where
  "applyAuth hmac req auth =
     (case auth of
        None \<Rightarrow> Inr req
      | Some a \<Rightarrow>
          (if raType a = authTypeBearer \<or> raType a = authTypeOAuth2 then applyBearerAuth req a
           else if raType a = authTypeBasic then applyBasicAuth req a
           else if raType a = authTypeAPIKey then applyAPIKeyAuth req a
           else if raType a = authTypeHMAC then applyHMACAuth hmac req a
           else Inl (Err (''unsupported auth type: '' @ raType a))))"

text \<open>A compiled query yields values and errors, and errors name no Go types; \<open>whTransform\<close> is None without a query.\<close>

record WebhookConfig =
  whURL :: string
  whAuth :: "ResolvedAuth option"
  whHeaders :: "(string \<times> string) list"
  whTransform :: "(json \<Rightarrow> json result list) option"
  whRetryPolicy :: "RetryPolicy option"

definition webhook_New ::
  "(string \<Rightarrow> 'q result) \<Rightarrow> ('q \<Rightarrow> (json \<Rightarrow> json result list) result) \<Rightarrow> string \<Rightarrow> WebhookConfig \<Rightarrow> WebhookConfig result" where
  "webhook_New parse compile transform cfg =
     (if transform = '''' then Inr (cfg\<lparr>whTransform := None\<rparr>)
      else case parse transform of
        Inl e \<Rightarrow> Inl (Wrap ''parse transform expression: '' e)
      | Inr q \<Rightarrow>
          (case compile q of
             Inl e \<Rightarrow> Inl (Wrap ''compile transform expression: '' e)
           | Inr code \<Rightarrow> Inr (cfg\<lparr>whTransform := Some code\<rparr>)))"

text \<open>The results up to the first error.\<close>

fun collect_results :: "'a result list \<Rightarrow> 'a list result" where
  "collect_results [] = Inr []"
| "collect_results (Inl e # rs) = Inl e"
| "collect_results (Inr v # rs) = (case collect_results rs of Inl e \<Rightarrow> Inl e | Inr vs \<Rightarrow> Inr (v # vs))"

definition ApplyTransform :: "Network \<Rightarrow> (json \<Rightarrow> json result list) option \<Rightarrow> json \<Rightarrow> json result" where
  "ApplyTransform nw compiled input =
     (case compiled of
        None \<Rightarrow> Inr input
      | Some code \<Rightarrow>
          (case collect_results (code input) of
             Inl e \<Rightarrow> Inl (Wrap ''transform execution error: '' e)
           | Inr results \<Rightarrow>
               (if length results = 0 then Inl (Err ''transform produced no results'')
                else if length results > 1
                then Inl (Err (''transform produced '' @ Itoa (int (length results)) @ '' results, exactly 1 required''))
                else if hd results = JNull then Inl (Err ''transform produced nil output; empty payloads are not allowed'')
                else case nwMarshal nw (hd results) of
                  Inl e \<Rightarrow> Inl (Wrap ''transform produced non-JSON-serializable output: '' e)
                | Inr b \<Rightarrow> Inr (hd results))))"

text \<open>A time that JSON cannot represent becomes a number without digits, which cannot be marshalled either.\<close>

definition time_json :: "Time \<Rightarrow> json" where
  "time_json t = (case format_rfc3339 t of Some s \<Rightarrow> JStr s | None \<Rightarrow> JNum '''')"

definition webhook_event :: "Event \<Rightarrow> json" where
  "webhook_event e =
     (let r = RepoOf e in map_obj [
       (''run_id'', JStr (RunName e)), (''namespace'', JStr (Namespace e)), (''resource'', JStr (ResourceOf e)),
       (''state'', JStr (StateOf e)), (''context'', JStr (Context e)), (''description'', JStr (Description e)),
       (''target_url'', JStr (TargetURL e)), (''commit_sha'', JStr (CommitSHA e)),
       (''repo'', map_obj [(''owner'', JStr (Owner r)), (''name'', JStr (RepoName r)), (''id'', JStr (RepoID r)),
          (''workspace'', JStr (Workspace r)), (''project'', JStr (Project r)), (''org'', JStr (Org r))]),
       (''started_at'', time_json (StartedAt e)), (''finished_at'', time_json (FinishedAt e))])"

definition webhook_payload :: "Network \<Rightarrow> WebhookConfig \<Rightarrow> Event \<Rightarrow> json result" where
  "webhook_payload nw cfg e =
     (case whTransform cfg of None \<Rightarrow> Inr (webhook_event e) | Some t \<Rightarrow> ApplyTransform nw (Some t) (webhook_event e))"

text \<open>The configured headers are set after the authentication, in the order in which the map is visited.\<close>

definition webhook_auth :: "(string \<Rightarrow> string \<Rightarrow> string) \<Rightarrow> WebhookConfig \<Rightarrow> HttpRequest \<Rightarrow> HttpRequest result" where
  "webhook_auth hmac cfg req =
     (case applyAuth hmac req (whAuth cfg) of
        Inl e \<Rightarrow> Inl (Wrap ''apply webhook auth: '' e)
      | Inr req' \<Rightarrow> Inr (foldl (\<lambda>r (k, v). Header_Set k v r) req' (whHeaders cfg)))"

definition webhook_url :: "(string \<Rightarrow> string result) \<Rightarrow> WebhookConfig \<Rightarrow> Event \<Rightarrow> string result" where
  "webhook_url scheme cfg e = (case validateURL scheme (whURL cfg) of Some er \<Rightarrow> Inl er | None \<Rightarrow> Inr (whURL cfg))"

definition webhook_base ::
  "Network \<Rightarrow> (string \<Rightarrow> string result) \<Rightarrow> (string \<Rightarrow> string \<Rightarrow> string) \<Rightarrow> WebhookConfig \<Rightarrow> Base" where
  "webhook_base nw scheme hmac cfg =
     plain_base (webhook_payload nw cfg) (webhook_url scheme cfg) (webhook_auth hmac cfg) (whRetryPolicy cfg)"

definition json_request :: "string \<Rightarrow> string \<Rightarrow> HttpRequest" where
  "json_request url body = \<lparr>hrMethod = ''POST'', hrURL = url, hrHeader = [(''Content-Type'', ''application/json''),
     (''Accept'', ''application/json''), (''User-Agent'', UserAgent)], hrBody = body\<rparr>"

definition webhook_Flush ::
  "Network \<Rightarrow> RetryPolicy \<Rightarrow> (string \<Rightarrow> string result) \<Rightarrow> (string \<Rightarrow> string \<Rightarrow> string) \<Rightarrow> WebhookConfig \<Rightarrow> Event list \<Rightarrow>
   Collectors option \<Rightarrow> sent" where
  "webhook_Flush nw global scheme hmac cfg es m =
     (if es = [] then (None, None, m)
      else case collect_results (map (webhook_payload nw cfg) es) of
        Inl er \<Rightarrow> (Some (Wrap ''webhook batch payload: '' er), None, m)
      | Inr payloads \<Rightarrow>
     (case webhook_url scheme cfg (hd es) of
        Inl er \<Rightarrow> (Some (Wrap ''build url: '' er), None, m)
      | Inr url \<Rightarrow>
     (case nwMarshal nw (JArr payloads) of
        Inl er \<Rightarrow> (Some (Wrap ''marshal batch payload: '' er), None, m)
      | Inr body \<Rightarrow>
     (case nwNewRequest nw ''POST'' url of
        Some er \<Rightarrow> (Some er, None, m)
      | None \<Rightarrow>
     (case webhook_auth hmac cfg (json_request url body) of
        Inl er \<Rightarrow> (Some (Wrap ''apply auth: '' er), None, m)
      | Inr req \<Rightarrow>
          (case DoWithRetryPolicy (nwDo nw) None (nwHost nw (hrURL req))
              (case whRetryPolicy cfg of None \<Rightarrow> global | Some p \<Rightarrow> p) (nwAnswer nw req) m of
             (Inl er, as, m') \<Rightarrow> (Some (Wrap ''webhook batch: '' er), Some (req, as), m')
           | (Inr resp, as, m') \<Rightarrow>
               ((if StatusCode resp \<ge> 300
                 then Some (Err (''webhook batch responded '' @ Itoa (StatusCode resp) @ '': '' @ take 4096 (nwText nw req resp)))
                 else None), Some (req, as), m')))))))"

section \<open>Sentry\<close>

text \<open>\<open>seProjects\<close> is None for a nil list, which is marshalled as null.\<close>

record SentryConfig =
  seBaseURL :: string
  seToken :: "string result"
  seOrg :: string
  seProjects :: "string list option"
  seEnvironmentExpr :: "(Event \<Rightarrow> string result) option"
  seRetryPolicy :: "RetryPolicy option"

definition sentry_New :: "(string \<Rightarrow> string result) \<Rightarrow> SentryConfig \<Rightarrow> SentryConfig" where
  "sentry_New scheme cfg =
     (let base = or_default '''' ''https://sentry.io'' (seBaseURL cfg);
          base' = (case validateURL scheme base of None \<Rightarrow> base | Some _ \<Rightarrow> ''https://sentry.io'')
      in cfg\<lparr>seBaseURL := TrimRightByte base' (CHR ''/'')\<rparr>)"

definition sentry_post ::
  "Network \<Rightarrow> RetryPolicy \<Rightarrow> SentryConfig \<Rightarrow> string \<Rightarrow> json \<Rightarrow> Collectors option \<Rightarrow> sent" where
  "sentry_post nw global cfg url payload m =
     (case nwMarshal nw payload of
        Inl e \<Rightarrow> (Some (Wrap ''encode payload: '' e), None, m)
      | Inr body \<Rightarrow>
     (case nwNewRequest nw ''POST'' url of
        Some e \<Rightarrow> (Some e, None, m)
      | None \<Rightarrow>
     (case seToken cfg of
        Inl e \<Rightarrow> (Some (Wrap ''sentry: resolve token: '' e), None, m)
      | Inr tok \<Rightarrow>
          (let req = \<lparr>hrMethod = ''POST'', hrURL = url, hrHeader = [(''Content-Type'', ''application/json''),
                 (''Authorization'', ''Bearer '' @ tok), (''User-Agent'', UserAgent)], hrBody = body\<rparr>
           in case DoWithRetryPolicy (nwDo nw) None (nwHost nw url)
                (case seRetryPolicy cfg of None \<Rightarrow> global | Some p \<Rightarrow> p) (nwAnswer nw req) m of
             (Inl e, as, m') \<Rightarrow> (Some e, Some (req, as), m')
           | (Inr resp, as, m') \<Rightarrow>
               ((if StatusCode resp \<ge> 300
                 then Some (Err (''sentry API returned '' @ Itoa (StatusCode resp) @ '': '' @ take 4096 (nwText nw req resp)))
                 else None), Some (req, as), m')))))"

definition sentry_environment :: "SentryConfig \<Rightarrow> Event \<Rightarrow> string" where
  "sentry_environment cfg e =
     (let environment = (case seEnvironmentExpr cfg of
            None \<Rightarrow> Context e
          | Some f \<Rightarrow> (case f e of Inr env \<Rightarrow> if env \<noteq> '''' then env else Context e | Inl _ \<Rightarrow> Context e))
      in if environment = '''' then ''production'' else environment)"

definition releases_url :: "SentryConfig \<Rightarrow> string" where
  "releases_url cfg = seBaseURL cfg @ ''/api/0/organizations/'' @ seOrg cfg @ ''/releases/''"

definition release_json :: "SentryConfig \<Rightarrow> Event \<Rightarrow> json" where
  "release_json cfg e =
     map_obj [(''version'', JStr (CommitSHA e)),
       (''projects'', case seProjects cfg of None \<Rightarrow> JNull | Some ps \<Rightarrow> JArr (map JStr ps)),
       (''refs'', JArr [map_obj [(''repository'', JStr (Owner (RepoOf e) @ ''/'' @ RepoName (RepoOf e))), (''commit'', JStr (CommitSHA e))]])]"

definition deploy_json :: "SentryConfig \<Rightarrow> Event \<Rightarrow> json" where
  "deploy_json cfg e =
     map_obj [(''environment'', JStr (sentry_environment cfg e)), (''name'', JStr (RunName e)), (''url'', JStr (TargetURL e))]"

text \<open>The requests of the release and of the deploy, in this order.\<close>

definition sentry_Handle ::
  "Network \<Rightarrow> RetryPolicy \<Rightarrow> SentryConfig \<Rightarrow> Event \<Rightarrow> Collectors option \<Rightarrow>
   err option \<times> (HttpRequest \<times> response result list) option list \<times> Collectors option" where
  "sentry_Handle nw global cfg e m =
     (if StateOf e \<noteq> StateSuccess \<or> CommitSHA e = '''' then (None, [], m)
      else case sentry_post nw global cfg (releases_url cfg) (release_json cfg e) m of
        (Some er, sent, m1) \<Rightarrow> (Some (Wrap ''create release: '' er), [sent], m1)
      | (None, sent, m1) \<Rightarrow>
          (case sentry_post nw global cfg (releases_url cfg @ CommitSHA e @ ''/deploys/'') (deploy_json cfg e) m1 of
             (Some er, sent', m2) \<Rightarrow> (Some (Wrap ''create deploy: '' er), [sent, sent'], m2)
           | (None, sent', m2) \<Rightarrow> (None, [sent, sent'], m2)))"

section \<open>Grafana\<close>

record GrafanaConfig =
  gfURL :: string
  gfToken :: "string result option"
  gfTags :: "string list"
  gfTmpl :: template
  gfDashboardUIDs :: "string list"
  gfPanelID :: int
  gfRetryPolicy :: "RetryPolicy option"

definition grafana_New ::
  "(string \<Rightarrow> string result) \<Rightarrow> (string \<Rightarrow> template result) \<Rightarrow> string \<Rightarrow> string \<Rightarrow> GrafanaConfig \<Rightarrow> GrafanaConfig result" where
  "grafana_New scheme compile tmpl dashboardUID cfg =
     (case validateURL scheme (gfURL cfg) of
        Some e \<Rightarrow> Inl (Wrap ''invalid Grafana URL: '' e)
      | None \<Rightarrow>
          (if tmpl = '''' then Inl (Err ''grafana: template is required (must be provided via ConfigMap)'')
           else case compile tmpl of
             Inl e \<Rightarrow> Inl (Wrap ''compile template: '' e)
           | Inr t \<Rightarrow>
               (if gfToken cfg = None then Inl (Err ''grafana: token refresher is required'')
                else Inr (cfg\<lparr>gfURL := TrimRightByte (gfURL cfg) (CHR ''/''), gfTmpl := t,
                  gfDashboardUIDs := (if length (gfDashboardUIDs cfg) = 0 \<and> dashboardUID \<noteq> '''' then [dashboardUID]
                                      else gfDashboardUIDs cfg)\<rparr>))))"

definition UnixMilli :: "Time \<Rightarrow> int" where
  "UnixMilli t = (t - unixToInternal * nsPerSec) div 10 ^ 6"

definition annotationTimes :: "Time \<Rightarrow> Event \<Rightarrow> int \<times> int option" where
  "annotationTimes now e =
     (if FinishedAt e = 0 then (UnixMilli now, None)
      else (if StartedAt e \<noteq> 0 then UnixMilli (StartedAt e) else UnixMilli (FinishedAt e), Some (UnixMilli (FinishedAt e))))"

definition grafana_payload :: "Time \<Rightarrow> GrafanaConfig \<Rightarrow> Event \<Rightarrow> string \<Rightarrow> json result" where
  "grafana_payload now cfg e dashboardUID =
     (case gfTmpl cfg e of
        Inl er \<Rightarrow> Inl (Wrap ''execute template: '' er)
      | Inr text \<Rightarrow>
          (case annotationTimes now e of (start, stop) \<Rightarrow>
             Inr (map_obj ([(''time'', JNum (Itoa start)), (''text'', JStr text),
               (''tags'', JArr (map JStr ([UserAgent, StateOf e] @ gfTags cfg)))] @
               (case stop of None \<Rightarrow> [] | Some t \<Rightarrow> [(''timeEnd'', JNum (Itoa t))]) @
               (if dashboardUID \<noteq> '''' then [(''dashboardUID'', JStr dashboardUID)] else []) @
               (if gfPanelID cfg \<noteq> 0 then [(''panelId'', JNum (Itoa (gfPanelID cfg)))] else [])))))"

definition grafana_auth :: "GrafanaConfig \<Rightarrow> HttpRequest \<Rightarrow> HttpRequest result" where
  "grafana_auth cfg req =
     (case the (gfToken cfg) of
        Inl e \<Rightarrow> Inl (Wrap ''grafana: resolve token: '' e)
      | Inr tok \<Rightarrow> Inr (Header_Set ''Authorization'' (''Bearer '' @ tok) req))"

definition grafana_base :: "Time \<Rightarrow> GrafanaConfig \<Rightarrow> Base" where
  "grafana_base now cfg =
     plain_base
       (\<lambda>e. grafana_payload now cfg e (if length (gfDashboardUIDs cfg) = 1 then hd (gfDashboardUIDs cfg) else ''''))
       (\<lambda>_. Inr (gfURL cfg @ ''/api/annotations'')) (grafana_auth cfg) (gfRetryPolicy cfg)"

text \<open>One attempt, without the retrying client.\<close>

definition sendForDashboard ::
  "Network \<Rightarrow> Time \<Rightarrow> GrafanaConfig \<Rightarrow> Event \<Rightarrow> string \<Rightarrow> err option \<times> (HttpRequest \<times> response result list) option" where
  "sendForDashboard nw now cfg e dashboardUID =
     (case grafana_payload now cfg e dashboardUID of
        Inl er \<Rightarrow> (Some er, None)
      | Inr payload \<Rightarrow>
     (case nwMarshal nw payload of
        Inl er \<Rightarrow> (Some (Wrap ''marshal payload: '' er), None)
      | Inr body \<Rightarrow>
     (let u = gfURL cfg @ ''/api/annotations'' in
      case nwNewRequest nw ''POST'' u of
        Some er \<Rightarrow> (Some (Wrap ''create request: '' er), None)
      | None \<Rightarrow>
     (case grafana_auth cfg (json_request u body) of
        Inl er \<Rightarrow> (Some (Wrap ''auth: '' er), None)
      | Inr req \<Rightarrow>
          (case nwAnswer nw req 0 of
             Inl er \<Rightarrow> (Some (Wrap ''send: '' er), Some (req, [Inl er]))
           | Inr resp \<Rightarrow>
               (if StatusCode resp \<ge> 300 then Some (Err (''grafana returned '' @ Itoa (StatusCode resp))) else None,
                Some (req, [Inr resp])))))))"

text \<open>
  The goroutines of several dashboards end in the order \<open>order\<close>, a permutation of the dashboards; the
  first error reported is the one that is returned.
\<close>

definition grafana_Handle ::
  "Network \<Rightarrow> RetryPolicy \<Rightarrow> Time \<Rightarrow> string list \<Rightarrow> GrafanaConfig \<Rightarrow> Event \<Rightarrow> Collectors option \<Rightarrow>
   err option \<times> (HttpRequest \<times> response result list) option list \<times> Collectors option" where
  "grafana_Handle nw global now order cfg e m =
     (if length (gfDashboardUIDs cfg) \<le> 1
      then (case Send nw global (grafana_base now cfg) e m of (er, sent, m') \<Rightarrow> (er, [sent], m'))
      else
        (let outs = map (sendForDashboard nw now cfg e) order; errs = List.map_filter fst outs
         in (if length errs > 0
             then Some (Wrap (''grafana: '' @ Itoa (int (length errs)) @ '' dashboard annotation(s) failed: '') (hd errs))
             else None, map snd outs, m)))"

section \<open>What Telegram shows\<close>

text \<open>
  The text that the documented markup shows when it holds no entity: a backslash escapes the ASCII
  character after it and is a character of its own elsewhere; a reserved character must be escaped.
\<close>

definition escapable :: "char \<Rightarrow> bool" where "escapable c \<longleftrightarrow> 1 \<le> byte c \<and> byte c \<le> 126"

function markdown_plain :: "string \<Rightarrow> string option" where
  "markdown_plain [] = Some []"
| "markdown_plain (c # s) =
     (if c = CHR 0x5C \<and> s \<noteq> [] \<and> escapable (hd s) then map_option (\<lambda>t. hd s # t) (markdown_plain (tl s))
      else if markdown_special c then None else map_option (\<lambda>t. c # t) (markdown_plain s))"
  by pat_completeness auto
termination by (relation "measure length") auto

fun escapes_something :: "string \<Rightarrow> bool" where
  "escapes_something (c # d # s) \<longleftrightarrow> c = CHR 0x5C \<and> escapable d \<or> escapes_something (d # s)"
| "escapes_something _ \<longleftrightarrow> False"

lemma special_escapable: "markdown_special c \<Longrightarrow> escapable c \<and> c \<noteq> CHR 0x5C"
  by (auto simp: markdown_special_def escapable_def)

lemma Escape_simps [simp]:
  "EscapeMarkdownV2 [] = []"
  "EscapeMarkdownV2 (c # s) = (if markdown_special c then CHR 0x5C # c # EscapeMarkdownV2 s else c # EscapeMarkdownV2 s)"
  by (simp_all add: EscapeMarkdownV2_def)

lemma backslash_escapable: "escapable (CHR 0x5C)" "\<not> markdown_special (CHR 0x5C)"
  by (simp_all add: escapable_def markdown_special_def)

lemma markdown_plain_Escape:
  "(\<not> escapes_something s \<longrightarrow> markdown_plain (EscapeMarkdownV2 s) = Some s) \<and>
   (escapes_something s \<longrightarrow> (\<forall>t. markdown_plain (EscapeMarkdownV2 s) = Some t \<longrightarrow> length t < length s))"
proof (induction s rule: length_induct)
  case (1 s)
  show ?case
  proof (cases s)
    case Nil
    then show ?thesis by simp
  next
    case (Cons c u)
    have IH: "(\<not> escapes_something u \<longrightarrow> markdown_plain (EscapeMarkdownV2 u) = Some u) \<and>
      (escapes_something u \<longrightarrow> (\<forall>t. markdown_plain (EscapeMarkdownV2 u) = Some t \<longrightarrow> length t < length u))"
      using 1 Cons by simp
    have le: "length t \<le> length v" if "markdown_plain (EscapeMarkdownV2 v) = Some t" "length v < length s" for t v
      using 1 that by (metis less_imp_le option.inject order_refl)
    show ?thesis
    proof (cases "c = CHR 0x5C \<and> u \<noteq> [] \<and> escapable (hd u)")
      case True
      then obtain d v where u: "u = d # v" and d: "escapable d" and c: "c = CHR 0x5C" by (cases u) auto
      have "length t < length s" if "markdown_plain (EscapeMarkdownV2 s) = Some t" for t
      proof (cases "markdown_special d")
        case True
        with that special_escapable [OF True] show ?thesis by (simp add: Cons u c backslash_escapable)
      next
        case False
        with that d obtain t' where "markdown_plain (EscapeMarkdownV2 v) = Some t'" "t = d # t'"
          by (auto simp: Cons u c backslash_escapable)
        with le [of v t'] show ?thesis by (simp add: Cons u)
      qed
      moreover have "escapes_something s" by (simp add: Cons u c d)
      ultimately show ?thesis by blast
    next
      case False
      have e: "escapes_something s \<longleftrightarrow> escapes_something u" using False by (cases u) (auto simp: Cons)
      have "markdown_plain (EscapeMarkdownV2 s) = map_option (\<lambda>t. c # t) (markdown_plain (EscapeMarkdownV2 u))"
      proof (cases "markdown_special c")
        case True
        then show ?thesis using special_escapable by (simp add: Cons)
      next
        case special: False
        have "\<not> (c = CHR 0x5C \<and> EscapeMarkdownV2 u \<noteq> [] \<and> escapable (hd (EscapeMarkdownV2 u)))"
          using False special_escapable by (cases u) auto
        then have "markdown_plain (c # EscapeMarkdownV2 u) = map_option (\<lambda>t. c # t) (markdown_plain (EscapeMarkdownV2 u))"
          using special by (auto simp only: markdown_plain.simps(2) if_False)
        with special show ?thesis by (simp del: markdown_plain.simps add: Cons)
      qed
      with IH e show ?thesis by (auto simp: Cons)
    qed
  qed
qed


section \<open>Requests of the webhook\<close>

text \<open>The header that carries the credentials and its value, by the type of the authentication.\<close>

definition auth_header :: "ResolvedAuth \<Rightarrow> string" where
  "auth_header a = (if raType a = authTypeAPIKey then raHeader a else if raType a = authTypeHMAC then ''X-Webhook-Signature''
     else ''Authorization'')"

lemma Header_Get_Set [simp]: "Header_Get k (Header_Set k v req) = Some v"
  by (simp add: Header_Get_def Header_Set_def)

lemma Header_Get_Set_other:
  "CanonicalMIMEHeaderKey k \<noteq> CanonicalMIMEHeaderKey j \<Longrightarrow> Header_Get k (Header_Set j v req) = Header_Get k req"
  by (simp add: Header_Get_def Header_Set_def)

lemma set_headers:
  "(\<forall>(j, v) \<in> set hs. CanonicalMIMEHeaderKey k \<noteq> CanonicalMIMEHeaderKey j) \<Longrightarrow>
     Header_Get k (foldl (\<lambda>r (k, v). Header_Set k v r) req hs) = Header_Get k req"
  by (induction hs arbitrary: req) (auto simp: Header_Get_Set_other)

lemma set_headers_same:
  "hrURL (foldl (\<lambda>r (k, v). Header_Set k v r) req hs) = hrURL req" "hrBody (foldl (\<lambda>r (k, v). Header_Set k v r) req hs) = hrBody req"
  by (induction hs arbitrary: req) auto

lemma applyAuth_same: "applyAuth hmac r auth = Inr x \<Longrightarrow> hrURL x = hrURL r \<and> hrBody x = hrBody r"
  by (auto simp: applyAuth_def applyBearerAuth_def applyBasicAuth_def applyAPIKeyAuth_def applyHMACAuth_def
      split: option.splits sum.splits if_splits)


definition demo_webhook :: WebhookConfig where
  "demo_webhook = \<lparr>whURL = ''https://hooks'', whAuth = Some \<lparr>raType = authTypeHMAC, raToken = Inl (Err ''no token''), raUsername = '''',
     raPassword = Inl (Err ''no password''), raSecret = Inr ''s3cret'', raHeader = ''''\<rparr>, whHeaders = [(''x-team'', ''ci'')],
     whTransform = Some (\<lambda>j. [Inr (JStr ''done'')]), whRetryPolicy = None\<rparr>"


section \<open>Several dashboards, releases and deploys\<close>

text \<open>
  With several dashboards nothing is repeated: each dashboard gets one request, and an answer that asks for
  a retry becomes an error that is not worth one, for every order in which the goroutines end. With one
  dashboard the same answer is retried and its error is.
\<close>

theorem grafana_many_not_retried:
  assumes "2 \<le> length (gfDashboardUIDs cfg)" and "mset order = mset (gfDashboardUIDs cfg)"
    and "gfToken cfg = Some (Inr tok)" and "\<And>e. \<exists>s. gfTmpl cfg e = Inr s" and "\<And>j. \<exists>b. nwMarshal nw j = Inr b"
    and "\<And>mt u. nwNewRequest nw mt u = None" and "\<And>req. nwAnswer nw req 0 = Inr resp" and "StatusCode resp \<ge> 300"
  shows "\<exists>er outs. grafana_Handle nw global now order cfg e m = (Some er, outs, m) \<and> \<not> IsRetryable (Some er) \<and>
    length outs = length (gfDashboardUIDs cfg) \<and> (\<forall>out \<in> set outs. \<exists>req. out = Some (req, [Inr resp]))"
proof -
  have one: "\<exists>req. sendForDashboard nw now cfg e uid =
      (Some (Err (''grafana returned '' @ Itoa (StatusCode resp))), Some (req, [Inr resp]))" for uid
  proof -
    obtain s where "gfTmpl cfg e = Inr s" using assms(4) by blast
    then obtain j where j: "grafana_payload now cfg e uid = Inr j" by (cases "annotationTimes now e") (simp add: grafana_payload_def)
    obtain b where "nwMarshal nw j = Inr b" using assms(5) by blast
    with j assms(3,6-8) show ?thesis by (simp add: sendForDashboard_def Let_def grafana_auth_def)
  qed
  let ?outs = "map (sendForDashboard nw now cfg e) order"
  let ?er = "Err (''grafana returned '' @ Itoa (StatusCode resp))"
  have n: "length order = length (gfDashboardUIDs cfg)" using assms(2) by (rule mset_eq_length)
  have "fst (sendForDashboard nw now cfg e uid) = Some ?er" for uid using one [of uid] by auto
  then have "List.map_filter fst ?outs = map (\<lambda>_. ?er) order" by (simp add: List.map_filter_def)
  moreover have "order \<noteq> []" using assms(1) n by auto
  ultimately have "grafana_Handle nw global now order cfg e m =
      (Some (Wrap (''grafana: '' @ Itoa (int (length order)) @ '' dashboard annotation(s) failed: '') ?er), map snd ?outs, m)"
    using assms(1) by (simp add: grafana_Handle_def Let_def hd_map)
  moreover have "\<forall>out \<in> set (map snd ?outs). \<exists>req. out = Some (req, [Inr resp])" using one by simp (metis snd_conv)
  ultimately show ?thesis using n by (auto simp: IsRetryable_def)
qed

text \<open>The region of an annotation ends no earlier than it starts.\<close>

lemma annotation_region:
  "FinishedAt e \<noteq> 0 \<Longrightarrow> StartedAt e \<le> FinishedAt e \<Longrightarrow> annotationTimes now e = (start, Some stop) \<Longrightarrow> start \<le> stop"
  by (auto simp: annotationTimes_def UnixMilli_def intro!: zdiv_mono1 split: if_splits)

text \<open>
  A deploy is reported only after its release was accepted; an event that is handled again after a failed
  deploy starts with the release again.
\<close>

theorem sentry_release_then_deploy:
  assumes "sentry_Handle nw global cfg e m = (er, sents, m')" and "Some (req, as) \<in> set sents"
    and "hrURL req = releases_url cfg @ CommitSHA e @ ''/deploys/''"
  shows "\<exists>m1 rel. sentry_post nw global cfg (releases_url cfg) (release_json cfg e) m = (None, Some rel, m1) \<and>
    sents = [Some rel, Some (req, as)] \<and> StateOf e = StateSuccess"
proof -
  have url: "sentry_post nw global cfg u j n = (er', Some (r, as'), n') \<Longrightarrow> hrURL r = u" for u j n er' r as' n'
    by (auto simp: sentry_post_def Let_def split: sum.splits option.splits prod.splits if_splits)
  have ok: "sentry_post nw global cfg u j n = (None, x, n') \<Longrightarrow> \<exists>rel. x = Some rel" for u j n x n'
    by (auto simp: sentry_post_def Let_def split: sum.splits option.splits prod.splits if_splits)
  obtain er1 x m1 where p: "sentry_post nw global cfg (releases_url cfg) (release_json cfg e) m = (er1, x, m1)"
    by (metis surj_pair)
  have ne: "x \<noteq> Some (req, as)" using url [of "releases_url cfg"] p assms(3) by auto
  obtain er2 y m2 where q: "sentry_post nw global cfg (releases_url cfg @ CommitSHA e @ ''/deploys/'') (deploy_json cfg e) m1 = (er2, y, m2)"
    by (metis surj_pair)
  show ?thesis
    using assms(1,2) p q ne ok [of "releases_url cfg"] by (auto simp: sentry_Handle_def split: if_splits option.splits)
qed

end
