(* ===== verification/Relay_Jira.thy ===== *)
theory Relay_Jira
  imports Relay_Monitor Relay_Codec
begin

text \<open>
  The Jira handlers (\<^verbatim>\<open>internal/notifier/jira\<close>): comments, transitions, issues for failures and links to commits,
  over the JSON calls that the handlers of the issue tracker and of the code hosts share
  (\<^verbatim>\<open>internal/notifier/scm/httpclient.go\<close>, \<^verbatim>\<open>baseclient.go\<close>).
\<close>

section \<open>JSON calls\<close>

text \<open>The body of the answer, the request with the answers of its attempts, and the metrics.\<close>

definition responseBodyLimit :: nat where "responseBodyLimit = 4 * 1024 * 1024"

definition DoJSON ::
  "Network \<Rightarrow> RetryPolicy \<Rightarrow> (HttpRequest \<Rightarrow> HttpRequest) \<Rightarrow> string \<Rightarrow> string \<Rightarrow> json option \<Rightarrow> Collectors option \<Rightarrow>
   string result \<times> (HttpRequest \<times> response result list) option \<times> Collectors option" where
  "DoJSON nw retry auth mthd url payload m =
     (case (case payload of
              None \<Rightarrow> Inr ''''
            | Some j \<Rightarrow> (case nwMarshal nw j of Inl e \<Rightarrow> Inl (Wrap ''encode payload: '' e) | Inr b \<Rightarrow> Inr (b @ [CHR 0x0A]))) of
        Inl e \<Rightarrow> (Inl e, None, m)
      | Inr body \<Rightarrow>
     (case nwNewRequest nw mthd url of
        Some e \<Rightarrow> (Inl e, None, m)
      | None \<Rightarrow>
          (let req = auth \<lparr>hrMethod = mthd, hrURL = url,
                 hrHeader = [(''Content-Type'', ''application/json''), (''User-Agent'', UserAgent)], hrBody = body\<rparr>
           in case DoWithRetryPolicy (nwDo nw) None (nwHost nw url) retry (nwAnswer nw req) m of
                (Inl e, as, m') \<Rightarrow> (Inl (Wrap (''http request to '' @ url @ '': '') e), Some (req, as), m')
              | (Inr resp, as, m') \<Rightarrow>
                  (let text = take responseBodyLimit (nwText nw req resp)
                   in (if StatusCode resp \<ge> 300 then Inl (Err (''HTTP '' @ Itoa (StatusCode resp) @ '': '' @ text)) else Inr text,
                       Some (req, as), m')))))"

text \<open>
  A client of Jira: such calls at a base URL, acting on a world of type \<open>'w\<close>, and the client of the newer
  interface, which is None when it could not be built.
\<close>

record 'w JiraClient =
  jcBaseURL :: string
  jcAPIVersion :: string
  jcDo :: "string \<Rightarrow> string \<Rightarrow> json option \<Rightarrow> 'w \<Rightarrow> string result \<times> 'w"
  jcAddComment :: "(string \<Rightarrow> json \<Rightarrow> 'w \<Rightarrow> err option \<times> 'w) option"

definition jira_Do :: "'w JiraClient \<Rightarrow> string \<Rightarrow> string \<Rightarrow> json option \<Rightarrow> 'w \<Rightarrow> err option \<times> 'w" where
  "jira_Do c mthd url payload w =
     (case jcDo c mthd url payload w of (Inl e, w') \<Rightarrow> (Some e, w') | (Inr b, w') \<Rightarrow> (None, w'))"

definition DoWithResponse ::
  "'r field list \<Rightarrow> 'r \<Rightarrow> 'w JiraClient \<Rightarrow> string \<Rightarrow> string \<Rightarrow> json option \<Rightarrow> 'w \<Rightarrow> 'r result \<times> 'w" where
  "DoWithResponse fs z c mthd url payload w =
     (case jcDo c mthd url payload w of
        (Inl e, w') \<Rightarrow> (Inl e, w')
      | (Inr b, w') \<Rightarrow> (case Unmarshal fs z b of Inl e \<Rightarrow> (Inl (Wrap ''decode response: '' e), w') | Inr v \<Rightarrow> (Inr v, w')))"

text \<open>The credential of a request: basic with an email address, else bearer.\<close>

definition jira_RoundTrip :: "string \<Rightarrow> string result \<Rightarrow> HttpRequest \<Rightarrow> HttpRequest result" where
  "jira_RoundTrip email token req =
     (case token of
        Inl e \<Rightarrow> Inl (Wrap ''jira: resolve token: '' e)
      | Inr tok \<Rightarrow>
          Inr (Header_Set ''Authorization'' (if email \<noteq> '''' then ''Basic '' @ base64 (email @ '':'' @ tok) else ''Bearer '' @ tok) req))"

section \<open>Comments\<close>

definition adfCommentBody :: "string \<Rightarrow> json" where
  "adfCommentBody text =
     JObj [(''body'', JObj [(''version'', JNum ''1''), (''type'', JStr ''doc''),
       (''content'', JArr [JObj [(''type'', JStr ''paragraph''),
          (''content'', JArr [JObj [(''type'', JStr ''text''), (''text'', JStr text)]])]])])]"

definition NewCommentHandler :: "(string \<Rightarrow> template result) \<Rightarrow> string \<Rightarrow> template result" where
  "NewCommentHandler compile tmplSrc =
     (if tmplSrc = '''' then Inl (Err ''jira: comment template is required (must be provided via ConfigMap)'')
      else case compile tmplSrc of Inl e \<Rightarrow> Inl (Wrap ''jira comment template: '' e) | Inr t \<Rightarrow> Inr t)"

definition jira_Comment_Handle :: "'w JiraClient \<Rightarrow> template \<Rightarrow> Event \<Rightarrow> 'w \<Rightarrow> err option \<times> 'w" where
  "jira_Comment_Handle c tmpl e w =
     (if JiraIssueKey e = '''' then (None, w)
      else case tmpl e of
        Inl er \<Rightarrow> (Some (Wrap ''jira: render comment: '' er), w)
      | Inr body \<Rightarrow>
          (if jcAPIVersion c = ''3'' then
             (case jcAddComment c of
                None \<Rightarrow> (Some (Err (''jira: v3 client unavailable for '' @ JiraIssueKey e)), w)
              | Some add \<Rightarrow>
                  (case add (JiraIssueKey e) (adfCommentBody body) w of
                     (er, w') \<Rightarrow> (map_option (Wrap (''jira: comment on '' @ JiraIssueKey e @ '': '')) er, w')))
           else
             (case jira_Do c ''POST'' (jcBaseURL c @ ''/rest/api/2/issue/'' @ JiraIssueKey e @ ''/comment'')
                 (Some (map_obj [(''body'', JStr body)])) w of
                (er, w') \<Rightarrow> (map_option (Wrap (''jira: comment on '' @ JiraIssueKey e @ '': '')) er, w'))))"

section \<open>Transitions\<close>

record Transition =
  trID :: string
  trName :: string

record TransitionList =
  tlTransitions :: "Transition list"

definition transition_fields :: "Transition field list" where
  "transition_fields = [str_field ''id'' trID trID_update, str_field ''name'' trName trName_update]"

definition transitionList :: "TransitionList field list" where
  "transitionList = [list_field ''transitions'' transition_fields \<lparr>trID = '''', trName = ''''\<rparr> tlTransitions tlTransitions_update]"

text \<open>\<^verbatim>\<open>strings.EqualFold\<close>, with the folding of runes beyond ASCII as an argument.\<close>

definition EqualFold :: "(nat \<Rightarrow> nat) \<Rightarrow> string \<Rightarrow> string \<Rightarrow> bool" where
  "EqualFold ufold s t \<longleftrightarrow> map ufold (runes s) = map ufold (runes t)"

definition NewTransitionHandler :: "string \<Rightarrow> string result" where
  "NewTransitionHandler transition =
     (if transition = '''' then Inl (Err ''jira: transition name is required'') else Inr transition)"

definition find_transition :: "(nat \<Rightarrow> nat) \<Rightarrow> string \<Rightarrow> Transition list \<Rightarrow> string" where
  "find_transition ufold transition ts =
     (case List.find (\<lambda>t. EqualFold ufold (trName t) transition \<or> trID t = transition) ts of None \<Rightarrow> '''' | Some t \<Rightarrow> trID t)"

definition transition_json :: "string \<Rightarrow> json" where
  "transition_json i = map_obj [(''transition'', map_obj [(''id'', JStr i)])]"

definition jira_Transition_Handle ::
  "(nat \<Rightarrow> nat) \<Rightarrow> 'w JiraClient \<Rightarrow> string \<Rightarrow> Event \<Rightarrow> 'w \<Rightarrow> err option \<times> 'w" where
  "jira_Transition_Handle ufold c transition e w =
     (if JiraIssueKey e = '''' then (None, w)
      else
        (let listURL = jcBaseURL c @ ''/rest/api/2/issue/'' @ JiraIssueKey e @ ''/transitions'' in
         case DoWithResponse transitionList \<lparr>tlTransitions = []\<rparr> c ''GET'' listURL None w of
           (Inl er, w1) \<Rightarrow> (Some (Wrap (''jira: list transitions for '' @ JiraIssueKey e @ '': '') er), w1)
         | (Inr l, w1) \<Rightarrow>
             (let i = find_transition ufold transition (tlTransitions l) in
              if i = '''' then (None, w1)
              else case jira_Do c ''POST'' listURL (Some (transition_json i)) w1 of
                (er, w2) \<Rightarrow>
                  (map_option (Wrap (''jira: transition '' @ JiraIssueKey e @ '' to '' @ strconv_Quote transition @ '': '')) er, w2))))"

section \<open>Issues for failures\<close>

definition dedupeLabelPrefix :: string where "dedupeLabelPrefix = ''tekton-relay:''"

definition NewCreateIssueHandler :: "string \<Rightarrow> string \<Rightarrow> (string \<times> string) result" where
  "NewCreateIssueHandler projectKey issueType =
     (if projectKey = '''' then Inl (Err ''jira: create_issue project_key is required'')
      else Inr (projectKey, or_default '''' ''Bug'' issueType))"

definition query_byte :: "char \<Rightarrow> bool" where
  "query_byte c \<longleftrightarrow> (CHR ''a'' \<le> c \<and> c \<le> CHR ''z'') \<or> (CHR ''A'' \<le> c \<and> c \<le> CHR ''Z'') \<or> (CHR ''0'' \<le> c \<and> c \<le> CHR ''9'') \<or>
     c \<in> set ''-_.~''"

definition QueryEscape :: "string \<Rightarrow> string" where
  "QueryEscape s = concat (map (\<lambda>c. if query_byte c then [c] else if c = CHR '' '' then ''+''
     else [CHR ''%'', hex_digit (byte c div 16), hex_digit (byte c mod 16)]) s)"

record SearchResult =
  srTotal :: int

definition searchResult :: "SearchResult field list" where
  "searchResult = [int_field ''total'' srTotal srTotal_update]"

record CreatedIssue =
  ciKey :: string

definition createdIssue :: "CreatedIssue field list" where
  "createdIssue = [str_field ''key'' ciKey ciKey_update]"

definition search_url :: "string \<Rightarrow> string \<Rightarrow> string" where
  "search_url base label =
     base @ ''/rest/api/3/search?jql='' @ QueryEscape (''labels = '' @ strconv_Quote label) @ ''&maxResults=1&fields=key''"

definition issueExistsByLabel :: "'w JiraClient \<Rightarrow> string \<Rightarrow> 'w \<Rightarrow> bool result \<times> 'w" where
  "issueExistsByLabel c label w =
     (case DoWithResponse searchResult \<lparr>srTotal = 0\<rparr> c ''GET'' (search_url (jcBaseURL c) label) None w of
        (Inl e, w') \<Rightarrow> (Inl e, w')
      | (Inr r, w') \<Rightarrow> (Inr (srTotal r > 0), w'))"

definition issue_json :: "string \<times> string \<Rightarrow> Event \<Rightarrow> string \<Rightarrow> json" where
  "issue_json kind e label =
     (let description = (if Description e = '''' then ''Pipeline '' @ RunName e @ '' failed in namespace '' @ Namespace e else Description e) @
            (if TargetURL e \<noteq> '''' then [CHR 0x0A, CHR 0x0A] @ ''Logs: '' @ TargetURL e else '''')
      in map_obj [(''fields'', map_obj [(''project'', map_obj [(''key'', JStr (fst kind))]),
           (''summary'', JStr (''Pipeline failure: '' @ RunName e)), (''description'', JStr description),
           (''issuetype'', map_obj [(''name'', JStr (snd kind))]), (''labels'', JArr [JStr label])])])"

text \<open>The two halves of the handler: looking for an issue of the run, and creating one.\<close>

definition create_issue :: "'w JiraClient \<Rightarrow> string \<times> string \<Rightarrow> Event \<Rightarrow> 'w \<Rightarrow> err option \<times> 'w" where
  "create_issue c kind e w =
     (case DoWithResponse createdIssue \<lparr>ciKey = ''''\<rparr> c ''POST'' (jcBaseURL c @ ''/rest/api/3/issue'')
         (Some (issue_json kind e (dedupeLabelPrefix @ RunID e))) w of
        (Inl er, w') \<Rightarrow> (Some (Wrap (''jira: create issue in '' @ fst kind @ '': '') er), w')
      | (Inr k, w') \<Rightarrow> (None, w'))"

definition jira_CreateIssue_Handle :: "'w JiraClient \<Rightarrow> string \<times> string \<Rightarrow> Event \<Rightarrow> 'w \<Rightarrow> err option \<times> 'w" where
  "jira_CreateIssue_Handle c kind e w =
     (if StateOf e \<noteq> StateFailure \<and> StateOf e \<noteq> StateError then (None, w)
      else
        (let label = dedupeLabelPrefix @ RunID e in
         case issueExistsByLabel c label w of
           (Inl er, w1) \<Rightarrow> (Some (Wrap (''jira: search for dedup label '' @ strconv_Quote label @ '': '') er), w1)
         | (Inr True, w1) \<Rightarrow> (None, w1)
         | (Inr False, w1) \<Rightarrow> create_issue c kind e w1))"

section \<open>Links to commits\<close>

definition NewLinkCommitHandler :: "string \<Rightarrow> string result" where
  "NewLinkCommitHandler issueKey =
     (if issueKey = '''' then Inl (Err ''jira: link_commit issue_key is required'') else Inr issueKey)"

definition link_json :: "Event \<Rightarrow> json" where
  "link_json e =
     (let title = ''Commit '' @ take 8 (CommitSHA e);
          title' = (if PipelineName e \<noteq> '''' then PipelineName e @ dash @ title else title);
          commitURL = (if TargetURL e = '''' then APIBaseURL e @ ''/commit/'' @ CommitSHA e else TargetURL e)
      in map_obj [(''globalId'', JStr (''tekton-relay:'' @ RunID e @ '':'' @ CommitSHA e)),
           (''object'', map_obj [(''url'', JStr commitURL), (''title'', JStr title'),
              (''icon'', map_obj [(''url16x16'', JStr ''https://tekton.dev/favicon.png''), (''title'', JStr ''Tekton Pipeline'')])]),
           (''status'', map_obj [(''resolved'', JStr (StateOf e))])])"

definition jira_LinkCommit_Handle :: "'w JiraClient \<Rightarrow> string \<Rightarrow> Event \<Rightarrow> 'w \<Rightarrow> err option \<times> 'w" where
  "jira_LinkCommit_Handle c issueKey e w =
     (if CommitSHA e = '''' then (None, w)
      else case jira_Do c ''POST'' (jcBaseURL c @ ''/rest/api/3/issue/'' @ issueKey @ ''/remotelink'') (Some (link_json e)) w of
        (er, w') \<Rightarrow> (map_option (Wrap (''jira: link commit '' @ CommitSHA e @ '' to '' @ issueKey @ '': '')) er, w'))"

section \<open>One issue for a run\<close>

text \<open>The labels of an issue that is to be created.\<close>

definition labels_of :: "json \<Rightarrow> string list" where
  "labels_of j =
     (case j of
        JObj ms \<Rightarrow>
          (case map_of ms ''fields'' of
             Some (JObj fs) \<Rightarrow>
               (case map_of fs ''labels'' of
                  Some (JArr ls) \<Rightarrow> List.map_filter (\<lambda>l. case l of JStr s \<Rightarrow> Some s | _ \<Rightarrow> None) ls | _ \<Rightarrow> [])
           | _ \<Rightarrow> [])
      | _ \<Rightarrow> [])"

lemma labels_of_issue: "labels_of (issue_json kind e label) = [label]"
  by (simp add: labels_of_def issue_json_def map_obj_def Let_def map_of_sort_key List.map_filter_def)

text \<open>Labels that a query names as they are: printable ASCII without quotes and backslashes, as identifiers of runs are.\<close>

definition plain_char :: "char \<Rightarrow> bool" where
  "plain_char c \<longleftrightarrow> 32 \<le> byte c \<and> byte c < 127 \<and> c \<noteq> CHR 0x22 \<and> c \<noteq> CHR 0x5C"

abbreviation plain :: "string \<Rightarrow> bool" where "plain \<equiv> list_all plain_char"

text \<open>
  An issue tracker as documented, observed through the number of issues with a label: a search that is
  answered tells it and changes nothing, and creating an issue adds one with the labels of the request.
\<close>

locale issue_tracker =
  fixes c :: "'w JiraClient"
    and issues :: "'w \<Rightarrow> string \<Rightarrow> nat"
  assumes search: "plain l \<Longrightarrow> jcDo c ''GET'' (search_url (jcBaseURL c) l) None w = (Inr b, w') \<Longrightarrow>
      Unmarshal searchResult \<lparr>srTotal = 0\<rparr> b = Inr r \<Longrightarrow> 0 < srTotal r \<longleftrightarrow> 0 < issues w l"
    and search_keeps: "jcDo c ''GET'' u None w = (x, w') \<Longrightarrow> issues w' = issues w"
    and create: "jcDo c ''POST'' (jcBaseURL c @ ''/rest/api/3/issue'') (Some j) w = (Inr b, w') \<Longrightarrow>
      issues w' l = (if l \<in> set (labels_of j) then Suc (issues w l) else issues w l)"
    and create_fails: "jcDo c ''POST'' (jcBaseURL c @ ''/rest/api/3/issue'') (Some j) w = (Inl e, w') \<Longrightarrow> issues w' = issues w"
begin

lemma exists_by_label:
  assumes "issueExistsByLabel c l w = (r, w')"
  shows "issues w' = issues w" and "plain l \<Longrightarrow> r = Inr b \<Longrightarrow> b \<longleftrightarrow> 0 < issues w l"
  using assms by (auto simp: issueExistsByLabel_def DoWithResponse_def dest: search search_keeps split: prod.splits sum.splits)

lemma create_issue_count:
  assumes "create_issue c kind e w = (er, w')"
  shows "issues w' l = issues w l \<or> l = dedupeLabelPrefix @ RunID e \<and> issues w' l = Suc (issues w l)"
    and "er = None \<Longrightarrow> issues w' (dedupeLabelPrefix @ RunID e) = Suc (issues w (dedupeLabelPrefix @ RunID e))"
proof -
  let ?j = "issue_json kind e (dedupeLabelPrefix @ RunID e)"
  obtain x where d: "jcDo c ''POST'' (jcBaseURL c @ ''/rest/api/3/issue'') (Some ?j) w = (x, w')" and er: "\<And>m. x = Inl m \<Longrightarrow> er \<noteq> None"
    using assms by (cases "jcDo c ''POST'' (jcBaseURL c @ ''/rest/api/3/issue'') (Some ?j) w")
      (auto simp: create_issue_def DoWithResponse_def split: prod.splits sum.splits)
  have "issues w' k = (if k = dedupeLabelPrefix @ RunID e \<and> (\<exists>b. x = Inr b) then Suc (issues w k) else issues w k)" for k
    using d create_fails create by (cases x) (simp_all add: labels_of_issue)
  with er show "issues w' l = issues w l \<or> l = dedupeLabelPrefix @ RunID e \<and> issues w' l = Suc (issues w l)"
    and "er = None \<Longrightarrow> issues w' (dedupeLabelPrefix @ RunID e) = Suc (issues w (dedupeLabelPrefix @ RunID e))"
    by (auto, cases x, auto)
qed

lemma handle_count:
  assumes "jira_CreateIssue_Handle c kind e w = (er, w')"
  shows "issues w l \<le> issues w' l" and "plain l \<Longrightarrow> issues w' l \<le> max 1 (issues w l)"
    and "issues w' l \<noteq> issues w l \<Longrightarrow> l = dedupeLabelPrefix @ RunID e \<and> (StateOf e = StateFailure \<or> StateOf e = StateError)"
    and "plain (dedupeLabelPrefix @ RunID e) \<Longrightarrow> er = None \<Longrightarrow> StateOf e = StateFailure \<or> StateOf e = StateError \<Longrightarrow>
      0 < issues w' (dedupeLabelPrefix @ RunID e)"
proof -
  let ?label = "dedupeLabelPrefix @ RunID e"
  obtain r w1 where s: "issueExistsByLabel c ?label w = (r, w1)" by fastforce
  note ex = exists_by_label [OF s]
  consider "\<not> (StateOf e = StateFailure \<or> StateOf e = StateError)" "er = None" "w' = w"
    | "StateOf e = StateFailure \<or> StateOf e = StateError" "r = Inr False" "create_issue c kind e w1 = (er, w')"
    | "StateOf e = StateFailure \<or> StateOf e = StateError" "r = Inr True" "er = None" "w' = w1"
    | "StateOf e = StateFailure \<or> StateOf e = StateError" "er \<noteq> None" "w' = w1"
    using assms s by (auto simp: jira_CreateIssue_Handle_def Let_def split: sum.splits bool.splits if_splits)
  then have "issues w l \<le> issues w' l \<and> (plain l \<longrightarrow> issues w' l \<le> max 1 (issues w l)) \<and>
    (issues w' l \<noteq> issues w l \<longrightarrow> l = ?label \<and> (StateOf e = StateFailure \<or> StateOf e = StateError)) \<and>
    (plain ?label \<and> er = None \<and> (StateOf e = StateFailure \<or> StateOf e = StateError) \<longrightarrow> 0 < issues w' ?label)"
  proof cases
    case 1
    then show ?thesis by simp
  next
    case 2
    then have "plain ?label \<Longrightarrow> issues w ?label = 0" using ex(2) [of False] by simp
    with 2 ex(1) create_issue_count(1) [OF 2(3), of l] create_issue_count(2) [OF 2(3)] show ?thesis by auto
  next
    case 3
    with ex show ?thesis by simp
  next
    case 4
    with ex(1) show ?thesis by auto
  qed
  then show "issues w l \<le> issues w' l" "plain l \<Longrightarrow> issues w' l \<le> max 1 (issues w l)"
    "issues w' l \<noteq> issues w l \<Longrightarrow> l = ?label \<and> (StateOf e = StateFailure \<or> StateOf e = StateError)"
    "plain ?label \<Longrightarrow> er = None \<Longrightarrow> StateOf e = StateFailure \<or> StateOf e = StateError \<Longrightarrow> 0 < issues w' ?label" by blast+
qed

end

lemma plain_label: "plain run \<Longrightarrow> plain (dedupeLabelPrefix @ run)"
  by (simp add: dedupeLabelPrefix_def plain_char_def)

text \<open>The events one after the other, each with the error of the handler.\<close>

fun create_issues :: "'w JiraClient \<Rightarrow> string \<times> string \<Rightarrow> Event list \<Rightarrow> 'w \<Rightarrow> (Event \<times> err option) list \<times> 'w" where
  "create_issues c kind [] w = ([], w)"
| "create_issues c kind (e # es) w =
     (case jira_CreateIssue_Handle c kind e w of
        (er, w1) \<Rightarrow> (case create_issues c kind es w1 of (outs, w2) \<Rightarrow> ((e, er) # outs, w2)))"

definition failed :: "string \<Rightarrow> Event \<Rightarrow> bool" where
  "failed run e \<longleftrightarrow> RunID e = run \<and> (StateOf e = StateFailure \<or> StateOf e = StateError)"

lemma create_issues_count:
  assumes "issue_tracker c issues" and "plain (dedupeLabelPrefix @ run)"
  shows "create_issues c kind es w = (outs, w') \<Longrightarrow>
    issues w (dedupeLabelPrefix @ run) \<le> issues w' (dedupeLabelPrefix @ run) \<and>
    issues w' (dedupeLabelPrefix @ run) \<le> max 1 (issues w (dedupeLabelPrefix @ run)) \<and>
    ((\<exists>e. (e, None) \<in> set outs \<and> failed run e) \<longrightarrow> 0 < issues w' (dedupeLabelPrefix @ run)) \<and>
    ((\<forall>e \<in> set es. \<not> failed run e) \<longrightarrow> issues w' (dedupeLabelPrefix @ run) = issues w (dedupeLabelPrefix @ run))"
proof (induction es arbitrary: w outs)
  case (Cons e es)
  let ?l = "dedupeLabelPrefix @ run"
  obtain er w1 where h: "jira_CreateIssue_Handle c kind e w = (er, w1)" by fastforce
  obtain outs1 where rest: "create_issues c kind es w1 = (outs1, w')" and outs: "outs = (e, er) # outs1"
    using Cons.prems by (auto simp: h split: prod.splits)
  note one = issue_tracker.handle_count [OF assms(1) h]
  have "issues w1 ?l \<noteq> issues w ?l \<Longrightarrow> failed run e" using one(3) [of ?l] by (auto simp: failed_def dedupeLabelPrefix_def)
  moreover have "er = None \<Longrightarrow> failed run e \<Longrightarrow> 0 < issues w1 ?l" using one(4) assms(2) by (auto simp: failed_def)
  ultimately show ?case using Cons.IH [OF rest] one(1) [of ?l] one(2) [OF assms(2)] outs by fastforce
qed simp


text \<open>
  Looking first and creating then is not one step: two failures of a run that are handled at the same time
  both find no issue, and both create one.
\<close>

theorem concurrent_failures_two_issues:
  assumes "issue_tracker c issues" and "plain run" and "RunID e1 = run" and "RunID e2 = run"
    and "issueExistsByLabel c (dedupeLabelPrefix @ run) w = (Inr b1, w1)" and "issueExistsByLabel c (dedupeLabelPrefix @ run) w1 = (Inr b2, w2)"
    and "create_issue c kind e1 w2 = (None, w3)" and "create_issue c kind e2 w3 = (None, w4)"
    and "issues w (dedupeLabelPrefix @ run) = 0"
  shows "\<not> b1 \<and> \<not> b2 \<and> issues w4 (dedupeLabelPrefix @ run) = 2"
  using assms issue_tracker.exists_by_label [OF assms(1,5)] issue_tracker.exists_by_label [OF assms(1,6)]
    issue_tracker.create_issue_count(2) [OF assms(1,7)] issue_tracker.create_issue_count(2) [OF assms(1,8)]
    plain_label [OF assms(2)] by simp



text \<open>Different labels are asked for at different addresses.\<close>

lemma quote_ascii_plain: "plain_char c \<Longrightarrow> quote_ascii c = [c] \<and> byte c < (128 :: nat)"
proof -
  assume p: "plain_char c"
  then have b: "32 \<le> byte c" "byte c < 127" by (simp_all add: plain_char_def)
  have small: "c \<noteq> d" if "byte d < 32" for d using b(1) that by auto
  have "c \<noteq> CHR 0x07" "c \<noteq> CHR 0x08" "c \<noteq> CHR 0x0C" "c \<noteq> CHR 0x0A" "c \<noteq> CHR 0x0D" "c \<noteq> CHR 0x09" "c \<noteq> CHR 0x0B"
    by (rule small, simp)+
  with p b show ?thesis by (simp add: quote_ascii_def plain_char_def)
qed

lemma quote_plain: "plain s \<Longrightarrow> strconv_Quote s = CHR 0x22 # s @ [CHR 0x22]"
proof -
  have "plain s \<Longrightarrow> go_quote_body s = s"
    by (induction s) (simp_all add: go_quote_body.simps(2) quote_ascii_plain)
  then show "plain s \<Longrightarrow> ?thesis" by (simp add: strconv_Quote_def)
qed

lemma same_hex:
  assumes "hex_digit (byte d div 16) = hex_digit (byte c div 16)" and "hex_digit (byte d mod 16) = hex_digit (byte c mod 16)"
  shows "d = c"
proof -
  have m: "byte x mod 16 < (16 :: nat)" for x by simp
  have "byte d div 16 = byte c div 16"
    using arg_cong [OF assms(1), of hex_val] unfolding hex_digit_val [OF byte_div_16] .
  moreover have "byte d mod 16 = byte c mod 16"
    using arg_cong [OF assms(2), of hex_val] unfolding hex_digit_val [OF m] .
  ultimately have "byte d = (byte c :: nat)" by (metis div_mult_mod_eq)
  then show ?thesis by (rule of_char_eqI)
qed

lemma QueryEscape_inj: "QueryEscape s = QueryEscape t \<Longrightarrow> s = t"
proof (induction s arbitrary: t)
  case Nil
  then show ?case by (cases t) (auto simp: QueryEscape_def split: if_splits)
next
  case (Cons c s)
  define lead where "lead = (\<lambda>d. if query_byte d then d else if d = CHR '' '' then CHR ''+'' else CHR ''%'')"
  define rest where "rest = (\<lambda>d. if query_byte d \<or> d = CHR '' '' then '''' else [hex_digit (byte d div 16), hex_digit (byte d mod 16)])"
  have enc: "QueryEscape (d # u) = lead d # rest d @ QueryEscape u" for d u by (simp add: QueryEscape_def lead_def rest_def)
  have special: "\<not> query_byte (CHR ''%'')" "\<not> query_byte (CHR ''+'')" by (simp_all add: query_byte_def)
  have hex: "d = c" if "hex_digit (byte d div 16) = hex_digit (byte c div 16)" "hex_digit (byte d mod 16) = hex_digit (byte c mod 16)" for d
    using that by (rule same_hex)
  obtain d u where t: "t = d # u" using Cons.prems enc [of c s] by (cases t) (simp_all add: QueryEscape_def)
  have eq: "lead c = lead d" "rest c @ QueryEscape s = rest d @ QueryEscape u" using Cons.prems by (simp_all add: t enc)
  have kind: "query_byte c = query_byte d" using eq(1) special by (simp add: lead_def split: if_splits)
  have "d = c \<and> QueryEscape s = QueryEscape u"
  proof (cases "query_byte d")
    case True
    with eq kind show ?thesis by (simp add: lead_def rest_def)
  next
    case False
    have sp: "c = CHR '' '' \<longleftrightarrow> d = CHR '' ''" using eq(1) kind False by (simp add: lead_def split: if_splits)
    show ?thesis
    proof (cases "d = CHR '' ''")
      case True
      with sp eq(2) show ?thesis by (simp add: rest_def)
    next
      case no: False
      with sp False kind eq(2) have "hex_digit (byte c div 16) = hex_digit (byte d div 16)"
        "hex_digit (byte c mod 16) = hex_digit (byte d mod 16)" "QueryEscape s = QueryEscape u" by (simp_all add: rest_def)
      with hex [of d] show ?thesis by simp
    qed
  qed
  with Cons.IH t show ?case by simp
qed

lemma search_url_inj: "plain l \<Longrightarrow> plain k \<Longrightarrow> search_url base l = search_url base k \<Longrightarrow> l = k"
  using QueryEscape_inj [of "''labels = '' @ strconv_Quote l" "''labels = '' @ strconv_Quote k"]
  by (simp add: search_url_def quote_plain)

text \<open>A tracker that keeps the labels of its issues and answers with the documents the handler reads.\<close>

definition demo_tracker :: "string list JiraClient" where
  "demo_tracker = \<lparr>jcBaseURL = ''https://jira'', jcAPIVersion = ''2'',
     jcDo = (\<lambda>mthd url payload w.
       case payload of
         None \<Rightarrow> (Inr (if \<exists>l \<in> set w. plain l \<and> url = search_url ''https://jira'' l then ''{\"total\":1}'' else ''{\"total\":0}''), w)
       | Some j \<Rightarrow> (Inr ''{\"key\":\"OPS-1\"}'', remdups (labels_of j) @ w)),
     jcAddComment = None\<rparr>"

lemma demo_answers:
  "Unmarshal searchResult \<lparr>srTotal = 0\<rparr> ''{\"total\":1}'' = Inr \<lparr>srTotal = 1\<rparr>"
  "Unmarshal searchResult \<lparr>srTotal = 0\<rparr> ''{\"total\":0}'' = Inr \<lparr>srTotal = 0\<rparr>"
  "Unmarshal createdIssue \<lparr>ciKey = ''''\<rparr> ''{\"key\":\"OPS-1\"}'' = Inr \<lparr>ciKey = ''OPS-1''\<rparr>"
  by code_simp+

lemma count_list_remdups: "count_list (remdups xs) l = (if l \<in> set xs then 1 else 0)"
  by (induction xs) (auto simp: count_list_0_iff)

interpretation demo_jira: issue_tracker demo_tracker count_list
proof
  fix l w b w' r
  assume "plain l" and do: "jcDo demo_tracker ''GET'' (search_url (jcBaseURL demo_tracker) l) None w = (Inr b, w')"
    and r: "Unmarshal searchResult \<lparr>srTotal = 0\<rparr> b = Inr r"
  have "(\<exists>k \<in> set w. plain k \<and> search_url ''https://jira'' l = search_url ''https://jira'' k) \<longleftrightarrow> 0 < count_list w l"
    using search_url_inj \<open>plain l\<close> by (auto simp: count_list_0_iff simp flip: neq0_conv)
  with do r demo_answers show "0 < srTotal r \<longleftrightarrow> 0 < count_list w l"
    by (auto simp: demo_tracker_def split: if_splits)
qed (auto simp: demo_tracker_def count_list_remdups count_list_append split: if_splits)


section \<open>Transitions that are available\<close>

text \<open>A client that records its calls.\<close>

type_synonym jira_call = "string \<times> string \<times> json option"

definition recording :: "string \<Rightarrow> (jira_call \<Rightarrow> string result) \<Rightarrow> jira_call list JiraClient" where
  "recording base answer = \<lparr>jcBaseURL = base, jcAPIVersion = ''2'',
     jcDo = \<lambda>mthd url payload w. (answer (mthd, url, payload), w @ [(mthd, url, payload)]), jcAddComment = None\<rparr>"

text \<open>
  An issue is only moved along a transition that the tracker offers for it and that has the configured
  name or number; with none the event is delivered and nothing is changed.
\<close>

theorem transition_available:
  assumes "JiraIssueKey e \<noteq> ''''" and "answer (''GET'', u, None) = Inr b" and "u = base @ ''/rest/api/2/issue/'' @ JiraIssueKey e @ ''/transitions''"
    and "Unmarshal transitionList \<lparr>tlTransitions = []\<rparr> b = Inr l" and "\<forall>t \<in> set (tlTransitions l). trID t \<noteq> ''''"
    and "jira_Transition_Handle ufold (recording base answer) name e [] = (er, calls)"
  shows "(\<exists>t \<in> set (tlTransitions l). (EqualFold ufold (trName t) name \<or> trID t = name) \<and>
      calls = [(''GET'', u, None), (''POST'', u, Some (transition_json (trID t)))]) \<or>
    (\<forall>t \<in> set (tlTransitions l). \<not> EqualFold ufold (trName t) name \<and> trID t \<noteq> name) \<and> calls = [(''GET'', u, None)] \<and> er = None"
proof (cases "List.find (\<lambda>t. EqualFold ufold (trName t) name \<or> trID t = name) (tlTransitions l)")
  case None
  then have none: "\<forall>t \<in> set (tlTransitions l). \<not> EqualFold ufold (trName t) name \<and> trID t \<noteq> name"
    by (auto simp: find_None_iff)
  have "calls = [(''GET'', u, None)] \<and> er = None"
    using assms None by (simp add: jira_Transition_Handle_def DoWithResponse_def recording_def find_transition_def Let_def)
  with none show ?thesis by blast
next
  case (Some t)
  then have t: "t \<in> set (tlTransitions l)" "EqualFold ufold (trName t) name \<or> trID t = name"
    by (auto simp: find_Some_iff)
  have "calls = [(''GET'', u, None), (''POST'', u, Some (transition_json (trID t)))]"
    using assms Some t by (auto simp: jira_Transition_Handle_def DoWithResponse_def recording_def find_transition_def jira_Do_def Let_def
        split: sum.splits)
  with t show ?thesis by blast
qed

end
