(* ===== verification/Relay_RunStore.thy ===== *)
theory Relay_RunStore
  imports Relay_Store Relay_Codec
begin

text \<open>
  The run buffers of the shared stores: \<^verbatim>\<open>internal/store/valkey.go\<close> keeps the JSON of every task event
  in a hash per run, \<^verbatim>\<open>internal/store/olric.go\<close> keeps one JSON object per run under a lock; and
  \<^verbatim>\<open>Ping\<close> and \<^verbatim>\<open>Close\<close> of the instrumented store.

  The contract is the locale \<open>shared_runs\<close>: what a flush finds of a run is what was added to it, other
  runs are left alone. The memory buffer of \<^verbatim>\<open>Relay_Store\<close> gives the part \<open>collected_runs\<close> (its capacity
  may drop other runs); both shared stores give all of it over the documented behaviour of the servers.
\<close>

section \<open>The contract\<close>

text \<open>
  \<open>tasks t s u\<close> are the events of run \<open>u\<close> that a flush at time \<open>t\<close> would find, \<open>val\<close> how the flush
  presents an event, \<open>ok\<close> the task names and events the store can represent, \<open>inv\<close> what its states satisfy.
\<close>

locale collected_runs =
  fixes add :: "Time \<Rightarrow> string \<Rightarrow> string \<Rightarrow> Event \<Rightarrow> 's \<Rightarrow> err option \<times> 's"
    and flush :: "Time \<Rightarrow> string \<Rightarrow> 's \<Rightarrow> (string, 'v) gomap option result \<times> 's"
    and tasks :: "Time \<Rightarrow> 's \<Rightarrow> string \<Rightarrow> string \<Rightarrow> 'v option"
    and val :: "Event \<Rightarrow> 'v"
    and ok :: "string \<Rightarrow> Event \<Rightarrow> bool"
    and runs :: "string \<Rightarrow> bool"
    and inv :: "'s \<Rightarrow> bool"
    and ttl :: int
  assumes add_inv: "add t u k e s = (er, s') \<Longrightarrow> runs u \<Longrightarrow> ok k e \<Longrightarrow> inv s \<Longrightarrow> inv s'"
    and add_ok: "add t u k e s = (None, s') \<Longrightarrow> runs u \<Longrightarrow> ok k e \<Longrightarrow> inv s \<Longrightarrow> t \<le> t' \<Longrightarrow> t' < t + ttl \<Longrightarrow>
      tasks t' s' u = (tasks t s u)(k \<mapsto> val e)"
    and flush_result: "flush t u s = (Inr r, s') \<Longrightarrow> runs u \<Longrightarrow> inv s \<Longrightarrow>
      map_of (case r of None \<Rightarrow> [] | Some m \<Rightarrow> m) = tasks t s u"
    and flush_forgets: "flush t u s = (Inr (Some m), s') \<Longrightarrow> runs u \<Longrightarrow> inv s \<Longrightarrow> t \<le> t' \<Longrightarrow> tasks t' s' u = Map.empty"
    and flush_inv: "flush t u s = (res, s') \<Longrightarrow> runs u \<Longrightarrow> inv s \<Longrightarrow> inv s'"

locale shared_runs = collected_runs +
  assumes add_others: "add t u k e s = (er, s') \<Longrightarrow> runs u \<Longrightarrow> runs w \<Longrightarrow> w \<noteq> u \<Longrightarrow> t \<le> t' \<Longrightarrow> tasks t' s' w = tasks t' s w"
    and flush_others: "flush t u s = (res, s') \<Longrightarrow> runs u \<Longrightarrow> runs w \<Longrightarrow> w \<noteq> u \<Longrightarrow> t \<le> t' \<Longrightarrow> tasks t' s' w = tasks t' s w"

text \<open>Events of several runs added one after the other, each at its own time.\<close>

fun run_adds :: "(Time \<Rightarrow> string \<Rightarrow> string \<Rightarrow> Event \<Rightarrow> 's \<Rightarrow> err option \<times> 's) \<Rightarrow>
    (Time \<times> string \<times> string \<times> Event) list \<Rightarrow> 's \<Rightarrow> err option \<times> 's" where
  "run_adds add [] s = (None, s)"
| "run_adds add ((t, u, k, e) # xs) s =
     (case add t u k e s of (None, s') \<Rightarrow> run_adds add xs s' | (Some er, s') \<Rightarrow> (Some er, s'))"

definition of_run :: "string \<Rightarrow> (Time \<times> string \<times> string \<times> Event) list \<Rightarrow> (Time \<times> string \<times> Event) list" where
  "of_run u xs = map (\<lambda>(t, _, k, e). (t, k, e)) (filter (\<lambda>(_, w, _, _). w = u) xs)"

lemma of_run_simps [simp]:
  "of_run u [] = []"
  "of_run u ((t, w, k, e) # xs) = (if w = u then (t, k, e) # of_run u xs else of_run u xs)"
  by (simp_all add: of_run_def)

text \<open>Every time comes before the deadline that the one before it has set.\<close>

fun in_time :: "int \<Rightarrow> Time \<Rightarrow> Time list \<Rightarrow> bool" where
  "in_time ttl b [] = True"
| "in_time ttl b (t # ts) = (t < b \<and> in_time ttl (t + ttl) ts)"

lemma within_ttl_in_time: "within_ttl (ttl - 1) (t # ts) \<Longrightarrow> t < b \<Longrightarrow> in_time ttl b (t # ts)"
proof (induction ts arbitrary: t b)
  case (Cons a ts)
  from Cons.IH [of a "t + ttl"] Cons.prems show ?case by simp
qed simp

fun put_events :: "(Event \<Rightarrow> 'v) \<Rightarrow> (Time \<times> string \<times> Event) list \<Rightarrow> (string \<Rightarrow> 'v option) \<Rightarrow> string \<Rightarrow> 'v option" where
  "put_events val [] f = f"
| "put_events val ((t, k, e) # xs) f = put_events val xs (f(k \<mapsto> val e))"

lemma put_events_collect:
  "put_events val xs (map_option val \<circ> map_of m) = map_option val \<circ> map_of (collect xs m)"
proof (induction xs arbitrary: m)
  case (Cons x xs)
  obtain t k e where x: "x = (t, k, e)" by (cases x)
  have "(map_option val \<circ> map_of m)(k \<mapsto> val e) = map_option val \<circ> map_of (AList.update k e m)" by auto
  with Cons.IH [of "AList.update k e m"] show ?case unfolding x put_events.simps collect_simps by (simp only:)
qed simp

lemma collect_nonempty: "m \<noteq> [] \<or> xs \<noteq> [] \<Longrightarrow> collect xs m \<noteq> []"
proof (induction xs arbitrary: m)
  case (Cons x xs)
  obtain t k e where x: "x = (t, k, e)" by (cases x)
  have "AList.update k e m \<noteq> []" by (cases m) auto
  with Cons.IH x show ?case by simp
qed simp

context shared_runs
begin

lemma run_adds_tasks:
  assumes "run_adds add xs s = (None, s')" and "inv s"
    and "\<forall>(t, w, k, e) \<in> set xs. runs w \<and> ok k e" and "runs u"
    and "sorted (a # map fst xs @ [t'])" and "\<forall>t. a \<le> t \<and> t < b \<longrightarrow> tasks t s u = f"
    and "in_time ttl b (map fst (of_run u xs) @ [t'])"
  shows "inv s' \<and> tasks t' s' u = put_events val (of_run u xs) f"
  using assms(1-3,5-)
proof (induction xs arbitrary: s a b f)
  case (Cons x xs)
  obtain t w k e where x: "x = (t, w, k, e)" by (cases x)
  with Cons.prems(1) obtain s1 where step: "add t w k e s = (None, s1)" and rest: "run_adds add xs s1 = (None, s')"
    by (auto split: prod.splits option.splits)
  have ok: "runs w" "ok k e" and times: "a \<le> t" "sorted (t # map fst xs @ [t'])" using Cons.prems(3,4) x by auto
  have inv: "inv s1" using add_inv [OF step ok] Cons.prems(2) by blast
  show ?case
  proof (cases "w = u")
    case True
    then have "tasks t s u = f" "in_time ttl (t + ttl) (map fst (of_run u xs) @ [t'])"
      using Cons.prems(5,6) x times by auto
    moreover from this have "\<forall>t1. t \<le> t1 \<and> t1 < t + ttl \<longrightarrow> tasks t1 s1 u = f(k \<mapsto> val e)"
      using add_ok [OF step ok] Cons.prems(2) True by blast
    ultimately show ?thesis
      using Cons.IH [OF rest inv _ times(2), of "t + ttl" "f(k \<mapsto> val e)"] Cons.prems(3) x True by (simp del: fun_upd_apply)
  next
    case False
    then have "\<forall>t1. t \<le> t1 \<and> t1 < b \<longrightarrow> tasks t1 s1 u = f"
      using add_others [OF step ok(1) assms(4)] Cons.prems(5) times(1) by auto
    with Cons.IH [OF rest inv _ times(2), of b f] Cons.prems(3,6) x False show ?thesis by simp
  qed
qed simp

lemma run_adds_inv:
  assumes "run_adds add xs s = (er, s')" and "inv s" and "\<forall>(t, w, k, e) \<in> set xs. runs w \<and> ok k e"
  shows "inv s'"
  using assms
proof (induction xs arbitrary: s)
  case (Cons x xs)
  obtain t w k e where x: "x = (t, w, k, e)" by (cases x)
  obtain er1 s1 where step: "add t w k e s = (er1, s1)" by fastforce
  have "inv s1" using add_inv [OF step] Cons.prems(2,3) x by simp
  with Cons x step show ?case by (auto split: option.splits)
qed simp

lemma interleaved_runs_collect:
  assumes "run_adds add xs s = (None, s')" and "inv s"
    and "\<forall>(t, w, k, e) \<in> set xs. runs w \<and> ok k e" and "runs u"
    and "sorted (map fst xs @ [t'])" and "\<forall>t. tasks t s u = Map.empty" and "of_run u xs \<noteq> []"
    and "within_ttl (ttl - 1) (map fst (of_run u xs) @ [t'])"
    and "flush t' u s' = (Inr r, s'')" and "t' \<le> t''"
  shows "\<exists>m. r = Some m \<and> map_of m = map_option val \<circ> map_of (collect (of_run u xs) []) \<and> tasks t'' s'' u = Map.empty"
proof -
  obtain y ys where y: "of_run u xs = y # ys" using assms(7) by (cases "of_run u xs") auto
  have it: "in_time ttl (fst y + 1) (map fst (of_run u xs) @ [t'])"
    using within_ttl_in_time [of ttl "fst y" "map fst ys @ [t']" "fst y + 1"] assms(8) y by simp
  obtain a where a: "sorted (a # map fst xs @ [t'])" using assms(5) by (cases xs) auto
  have ts: "inv s'" "tasks t' s' u = map_option val \<circ> map_of (collect (of_run u xs) [])"
    using run_adds_tasks [OF assms(1-4) a _ it, of Map.empty] assms(6) put_events_collect [of val "of_run u xs" "[]"]
    by (auto simp: comp_def)
  have "map_of (collect (of_run u xs) []) \<noteq> Map.empty"
    using collect_nonempty [of "[]" "of_run u xs"] assms(7) by (simp add: map_of_eq_empty_iff)
  with ts(2) have "tasks t' s' u \<noteq> Map.empty" by (auto simp: fun_eq_iff)
  with flush_result [OF assms(9,4) ts(1)] obtain m where m: "r = Some m" by (cases r) auto
  with flush_result [OF assms(9,4) ts(1)] ts(2) flush_forgets [OF assms(9) [unfolded m] assms(4) ts(1) assms(10)]
  show ?thesis by auto
qed

end

text \<open>The memory buffer keeps the collecting part.\<close>

sublocale run_buffer \<subseteq> collected_runs add flush "\<lambda>t s u. map_of (case tasks_at t s u of None \<Rightarrow> [] | Some m \<Rightarrow> m)"
    "\<lambda>e. e" "\<lambda>_ _. True" "\<lambda>_. True" "\<lambda>_. True" ttl
proof
  fix t t' u k e s er s' r m res
  show "add t u k e s = (None, s') \<Longrightarrow> True \<Longrightarrow> True \<Longrightarrow> True \<Longrightarrow> t \<le> t' \<Longrightarrow> t' < t + ttl \<Longrightarrow>
      map_of (case tasks_at t' s' u of None \<Rightarrow> [] | Some m \<Rightarrow> m) =
      (map_of (case tasks_at t s u of None \<Rightarrow> [] | Some m \<Rightarrow> m))(k \<mapsto> e)"
    using add_ok [of t u k e s s' t'] by (auto simp: fun_eq_iff)
  show "flush t u s = (Inr r, s') \<Longrightarrow> True \<Longrightarrow> True \<Longrightarrow> map_of (case r of None \<Rightarrow> [] | Some m \<Rightarrow> m) =
      map_of (case tasks_at t s u of None \<Rightarrow> [] | Some m \<Rightarrow> m)"
    using flush_result by blast
  show "flush t u s = (Inr (Some m), s') \<Longrightarrow> True \<Longrightarrow> True \<Longrightarrow> t \<le> t' \<Longrightarrow>
      map_of (case tasks_at t' s' u of None \<Rightarrow> [] | Some m \<Rightarrow> m) = Map.empty"
    using flush_forgets [of t u s m s' t'] by simp
qed simp_all

section \<open>Valkey\<close>

text \<open>
  What the client sends: \<^verbatim>\<open>HSET key field value; EXPIRE key ttl\<close> in one transaction, and a script that
  reads a hash and deletes it. A reply is a tree of values.
\<close>

datatype redis_reply = RString string | RArray "redis_reply list" | ROther

type_synonym 'r HSetExpire = "Time \<Rightarrow> string \<Rightarrow> string \<Rightarrow> string \<Rightarrow> int \<Rightarrow> 'r \<Rightarrow> err option \<times> 'r"
type_synonym 'r RunScript = "Time \<Rightarrow> string \<Rightarrow> 'r \<Rightarrow> redis_reply result \<times> 'r"

definition valkey_Add ::
  "'r HSetExpire \<Rightarrow> valkeyStore \<Rightarrow> Time \<Rightarrow> string \<Rightarrow> string \<Rightarrow> Event \<Rightarrow> 'r \<Rightarrow> err option \<times> 'r" where
  "valkey_Add hset s now uid task ev r =
     (case Marshal event_fields ev of
        Inl e \<Rightarrow> (Some (Wrap ''marshal event: '' e), r)
      | Inr raw \<Rightarrow>
          (case hset now (valkey_runKey s uid) task raw (vkTTL s) r of
             (Some e, r') \<Rightarrow> (Some (Wrap ''valkey HSET: '' e), r')
           | (None, r') \<Rightarrow> (None, r')))"

definition as_string :: "redis_reply \<Rightarrow> string" where
  "as_string r = (case r of RString s \<Rightarrow> s | _ \<Rightarrow> '''')"

fun decode_flat :: "redis_reply list \<Rightarrow> TaskMap \<Rightarrow> TaskMap result" where
  "decode_flat (f # v # rest) out =
     (case Unmarshal event_fields zero_event (as_string v) of
        Inl e \<Rightarrow> Inl (Wrap (''unmarshal event for task '' @ strconv_Quote (as_string f) @ '': '') e)
      | Inr ev \<Rightarrow> decode_flat rest (AList.update (as_string f) ev out))"
| "decode_flat _ out = Inr out"

definition valkey_Flush ::
  "'r RunScript \<Rightarrow> valkeyStore \<Rightarrow> Time \<Rightarrow> string \<Rightarrow> 'r \<Rightarrow> TaskMap option result \<times> 'r" where
  "valkey_Flush flushScript s now uid r =
     (case flushScript now (valkey_runKey s uid) r of
        (Inl e, r') \<Rightarrow> (Inl (Wrap ''valkey flush: '' e), r')
      | (Inr res, r') \<Rightarrow>
          (case res of
             RArray flat \<Rightarrow>
               (if flat = [] then (Inr None, r')
                else (case decode_flat flat [] of Inl e \<Rightarrow> (Inl e, r') | Inr out \<Rightarrow> (Inr (Some out), r')))
           | _ \<Rightarrow> (Inr None, r')))"

text \<open>
  The server: \<open>hash t r k\<close> are the fields of the hash \<open>k\<close> at time \<open>t\<close>. Times to live are whole seconds.
\<close>

definition flat_pairs :: "(string \<times> string) list \<Rightarrow> redis_reply list" where
  "flat_pairs ps = concat (map (\<lambda>(f, v). [RString f, RString v]) ps)"

lemma flat_pairs_simps [simp]:
  "flat_pairs [] = []" "flat_pairs ((f, v) # ps) = RString f # RString v # flat_pairs ps"
  by (simp_all add: flat_pairs_def)

locale redis_hashes =
  fixes hset :: "'r HSetExpire" and flushScript :: "'r RunScript" and hash :: "Time \<Rightarrow> 'r \<Rightarrow> string \<Rightarrow> string \<Rightarrow> string option"
  assumes hset_sets: "hset t k f v ttl r = (None, r') \<Longrightarrow> 0 < ttl \<Longrightarrow> nsPerSec dvd ttl \<Longrightarrow> t \<le> u \<Longrightarrow> u < t + ttl \<Longrightarrow>
      hash u r' k = (hash t r k)(f \<mapsto> v)"
    and hset_others: "hset t k f v ttl r = (er, r') \<Longrightarrow> j \<noteq> k \<Longrightarrow> hash u r' j = hash u r j"
    and script_reply: "flushScript t k r = (Inr y, r') \<Longrightarrow>
      \<exists>ps. y = RArray (flat_pairs ps) \<and> distinct (map fst ps) \<and> map_of ps = hash t r k"
    and script_deletes: "flushScript t k r = (Inr y, r') \<Longrightarrow> hash u r' k = Map.empty"
    and script_others: "flushScript t k r = (res, r') \<Longrightarrow> j \<noteq> k \<Longrightarrow> hash u r' j = hash u r j"

definition valkey_tasks :: "(Time \<Rightarrow> 'r \<Rightarrow> string \<Rightarrow> string \<Rightarrow> string option) \<Rightarrow> valkeyStore \<Rightarrow>
    Time \<Rightarrow> 'r \<Rightarrow> string \<Rightarrow> string \<Rightarrow> Event option" where
  "valkey_tasks hash s t r u k =
     (case hash t r (valkey_runKey s u) k of
        None \<Rightarrow> None
      | Some raw \<Rightarrow> (case Unmarshal event_fields zero_event raw of Inl _ \<Rightarrow> None | Inr e \<Rightarrow> Some e))"

lemma decode_flat_pairs:
  assumes "decode_flat (flat_pairs ps) out = Inr m" and "distinct (map fst ps)"
  shows "map_of m k = (case map_of ps k of None \<Rightarrow> map_of out k
     | Some raw \<Rightarrow> (case Unmarshal event_fields zero_event raw of Inl _ \<Rightarrow> None | Inr e \<Rightarrow> Some e))"
  using assms
proof (induction ps arbitrary: out)
  case (Cons p ps)
  obtain f v where p: "p = (f, v)" by (cases p)
  with Cons.prems(1) obtain ev where ev: "Unmarshal event_fields zero_event v = Inr ev"
      and rest: "decode_flat (flat_pairs ps) (AList.update f ev out) = Inr m"
    by (auto simp: as_string_def split: sum.splits)
  moreover have "map_of ps f = None" "distinct (map fst ps)" using Cons.prems(2) p by (auto simp: map_of_eq_None_iff)
  ultimately show ?case using Cons.IH [OF rest] p by (auto split: option.split)
qed simp

lemma valkey_runKey_inj [simp]: "valkey_runKey s u = valkey_runKey s w \<longleftrightarrow> u = w"
  by (simp add: valkey_runKey_def)

locale valkey_runs = redis_hashes hset flushScript hash
  for hset :: "'r HSetExpire" and flushScript :: "'r RunScript" and hash +
  fixes store :: valkeyStore
  assumes ttl_seconds: "0 < vkTTL store" "nsPerSec dvd vkTTL store"

sublocale valkey_runs \<subseteq> shared_runs "valkey_Add hset store" "valkey_Flush flushScript store" "valkey_tasks hash store"
    "\<lambda>e. e" "\<lambda>_ e. valid_event e" "\<lambda>_. True" "\<lambda>_. True" "vkTTL store"
proof
  fix t t' u w k e er s s' r m res
  show "valkey_Add hset store t u k e s = (None, s') \<Longrightarrow> True \<Longrightarrow> valid_event e \<Longrightarrow> True \<Longrightarrow> t \<le> t' \<Longrightarrow>
      t' < t + vkTTL store \<Longrightarrow> valkey_tasks hash store t' s' u = (valkey_tasks hash store t s u)(k \<mapsto> e)"
  proof -
    assume add: "valkey_Add hset store t u k e s = (None, s')" and e: "valid_event e" and t: "t \<le> t'" "t' < t + vkTTL store"
    then obtain raw where raw: "Marshal event_fields e = Inr raw" and
        "hset t (valkey_runKey store u) k raw (vkTTL store) s = (None, s')"
      by (auto simp: valkey_Add_def split: sum.splits prod.splits option.splits)
    from hset_sets [OF this(2) ttl_seconds t] Unmarshal_Marshal [OF event_roundtrips [OF e]] raw
    show ?thesis by (auto simp: valkey_tasks_def fun_eq_iff)
  qed
  show "valkey_Flush flushScript store t u s = (Inr r, s') \<Longrightarrow> True \<Longrightarrow> True \<Longrightarrow>
      map_of (case r of None \<Rightarrow> [] | Some m \<Rightarrow> m) = valkey_tasks hash store t s u"
  proof -
    assume f: "valkey_Flush flushScript store t u s = (Inr r, s')"
    then obtain y where y: "flushScript t (valkey_runKey store u) s = (Inr y, s')"
      by (auto simp: valkey_Flush_def split: prod.splits sum.splits redis_reply.splits if_splits)
    from script_reply [OF y] obtain ps where ps: "y = RArray (flat_pairs ps)" "distinct (map fst ps)"
        "map_of ps = hash t s (valkey_runKey store u)" by blast
    show ?thesis
    proof (cases "ps = []")
      case True
      with f y ps show ?thesis by (auto simp: valkey_Flush_def valkey_tasks_def fun_eq_iff)
    next
      case False
      then have "flat_pairs ps \<noteq> []" by (cases ps) auto
      with f y ps(1) obtain m where "r = Some m" and "decode_flat (flat_pairs ps) [] = Inr m"
        by (auto simp: valkey_Flush_def split: sum.splits)
      with decode_flat_pairs [OF this(2) ps(2)] ps(3) show ?thesis
        by (auto simp: valkey_tasks_def fun_eq_iff split: option.splits)
    qed
  qed
  show "valkey_Flush flushScript store t u s = (Inr (Some m), s') \<Longrightarrow> True \<Longrightarrow> True \<Longrightarrow> t \<le> t' \<Longrightarrow>
      valkey_tasks hash store t' s' u = Map.empty"
    using script_deletes by (auto simp: valkey_Flush_def valkey_tasks_def fun_eq_iff split: prod.splits sum.splits redis_reply.splits if_splits)
  show "valkey_Add hset store t u k e s = (er, s') \<Longrightarrow> True \<Longrightarrow> True \<Longrightarrow> w \<noteq> u \<Longrightarrow> t \<le> t' \<Longrightarrow>
      valkey_tasks hash store t' s' w = valkey_tasks hash store t' s w"
    using hset_others by (auto simp: valkey_Add_def valkey_tasks_def fun_eq_iff split: prod.splits sum.splits option.splits)
  show "valkey_Flush flushScript store t u s = (res, s') \<Longrightarrow> True \<Longrightarrow> True \<Longrightarrow> w \<noteq> u \<Longrightarrow> t \<le> t' \<Longrightarrow>
      valkey_tasks hash store t' s' w = valkey_tasks hash store t' s w"
    using script_others by (auto simp: valkey_Flush_def valkey_tasks_def fun_eq_iff split: prod.splits sum.splits redis_reply.splits if_splits)
qed simp_all

text \<open>A server that keeps its hashes with their deadlines, to run the buffer on.\<close>

type_synonym hashspace = "(string, (string, string) gomap \<times> Time) gomap"

definition hs_fields :: "Time \<Rightarrow> hashspace \<Rightarrow> string \<Rightarrow> (string, string) gomap" where
  "hs_fields t r k = (case map_of r k of None \<Rightarrow> [] | Some (h, e) \<Rightarrow> if t < e then AList.clearjunk h else [])"

definition hs_hset :: "hashspace HSetExpire" where
  "hs_hset t k f v ttl r = (None, AList.update k (AList.update f v (hs_fields t r k), t + ttl) r)"

definition hs_flush :: "hashspace RunScript" where
  "hs_flush t k r = (Inr (RArray (flat_pairs (hs_fields t r k))), AList.delete k r)"

lemma distinct_hs_fields: "distinct (map fst (hs_fields t r k))"
  by (auto simp: hs_fields_def split: option.split)

interpretation hashspace: redis_hashes hs_hset hs_flush "\<lambda>t r k. map_of (hs_fields t r k)"
proof
  fix t u ttl k j f v er y res and r r' :: hashspace
  show "hs_flush t k r = (Inr y, r') \<Longrightarrow>
      \<exists>ps. y = RArray (flat_pairs ps) \<and> distinct (map fst ps) \<and> map_of ps = map_of (hs_fields t r k)"
    using distinct_hs_fields by (auto simp: hs_flush_def)
  show "hs_hset t k f v ttl r = (None, r') \<Longrightarrow> 0 < ttl \<Longrightarrow> nsPerSec dvd ttl \<Longrightarrow> t \<le> u \<Longrightarrow> u < t + ttl \<Longrightarrow>
      map_of (hs_fields u r' k) = (map_of (hs_fields t r k))(f \<mapsto> v)"
    by (auto simp: hs_hset_def hs_fields_def map_of_clearjunk update_conv')
qed (auto simp: hs_hset_def hs_flush_def hs_fields_def)

definition demo_valkey :: valkeyStore where
  "demo_valkey = \<lparr>vkPrefix = newValkeyPrefix '''', vkTTL = defaultTTL\<rparr>"

interpretation valkey_buffer: valkey_runs hs_hset hs_flush "\<lambda>t r k. map_of (hs_fields t r k)" demo_valkey
  by unfold_locales (simp_all add: demo_valkey_def defaultTTL_def nsPerSec_def)

section \<open>Olric\<close>

text \<open>
  The distributed map the runs live in. \<open>dmGet\<close> distinguishes an absent key from an error; the bytes of
  a value may fail to be read. The map of tasks is a pointer per task and may itself be nil (None), which
  is what the document \<^verbatim>\<open>null\<close> gives.
\<close>

datatype get_reply = Got "string result" | ErrKeyNotFound | GetError err

record 'd DMap =
  dmLock :: "Time \<Rightarrow> string \<Rightarrow> int \<Rightarrow> int \<Rightarrow> 'd \<Rightarrow> err option \<times> 'd"
  dmUnlock :: "string \<Rightarrow> 'd \<Rightarrow> 'd"
  dmGet :: "Time \<Rightarrow> string \<Rightarrow> 'd \<Rightarrow> get_reply \<times> 'd"
  dmPut :: "Time \<Rightarrow> string \<Rightarrow> string \<Rightarrow> int \<Rightarrow> 'd \<Rightarrow> err option \<times> 'd"
  dmDelete :: "Time \<Rightarrow> string \<Rightarrow> 'd \<Rightarrow> err option \<times> 'd"

type_synonym EventPtrs = "(string, Event option) gomap"

definition olricLockDeadline :: int where "olricLockDeadline = 5 * nsPerSec"
definition olricLockTimeout :: int where "olricLockTimeout = 10 * nsPerSec"

text \<open>A map is written with its keys in order, a nil pointer as null.\<close>

fun encode_tasks :: "EventPtrs \<Rightarrow> (string \<times> json) list option" where
  "encode_tasks [] = Some []"
| "encode_tasks ((k, p) # ts) =
     (case (case p of None \<Rightarrow> Emit JNull | Some e \<Rightarrow> encode_struct event_fields e) of
        Emit v \<Rightarrow> map_option (\<lambda>ms. (k, v) # ms) (encode_tasks ts)
      | _ \<Rightarrow> None)"

definition Marshal_tasks :: "EventPtrs \<Rightarrow> string result" where
  "Marshal_tasks tasks =
     (case encode_tasks (sort_key fst tasks) of
        Some ms \<Rightarrow> Inr (json_print (JObj ms))
      | None \<Rightarrow> Inl (Err ''Time.MarshalJSON: year outside of range [0,9999]''))"

fun decode_tasks :: "(string \<times> json) list \<Rightarrow> EventPtrs \<Rightarrow> EventPtrs option" where
  "decode_tasks [] out = Some out"
| "decode_tasks ((k, v) # ms) out =
     (if v = JNull then decode_tasks ms (AList.update k None out)
      else (case decode_struct event_fields v zero_event of
              None \<Rightarrow> None | Some e \<Rightarrow> decode_tasks ms (AList.update k (Some e) out)))"

definition Unmarshal_tasks :: "string \<Rightarrow> EventPtrs option result" where
  "Unmarshal_tasks raw =
     (case json_parse raw of
        None \<Rightarrow> Inl (Err ''invalid JSON'')
      | Some JNull \<Rightarrow> Inr None
      | Some (JObj ms) \<Rightarrow>
          (case decode_tasks ms [] of None \<Rightarrow> Inl (Err ''cannot unmarshal'') | Some out \<Rightarrow> Inr (Some out))
      | Some _ \<Rightarrow> Inl (Err ''cannot unmarshal''))"

definition getTasks :: "'d DMap \<Rightarrow> Time \<Rightarrow> string \<Rightarrow> 'd \<Rightarrow> EventPtrs option result \<times> 'd" where
  "getTasks dm now uid d =
     (case dmGet dm now uid d of
        (ErrKeyNotFound, d') \<Rightarrow> (Inr (Some []), d')
      | (GetError e, d') \<Rightarrow> (Inl (Wrap ''olric get: '' e), d')
      | (Got (Inl e), d') \<Rightarrow> (Inl (Wrap ''olric value: '' e), d')
      | (Got (Inr raw), d') \<Rightarrow>
          (case Unmarshal_tasks raw of
             Inl e \<Rightarrow> (Inl (Wrap ''unmarshal tasks: '' e), d') | Inr tasks \<Rightarrow> (Inr tasks, d')))"

text \<open>
  What both operations do under the lock of the run. Storing into a nil map panics; the panic is the
  error value here, the lock is released either way.
\<close>

definition locked :: "'d DMap \<Rightarrow> Time \<Rightarrow> string \<Rightarrow> (err \<Rightarrow> 'a) \<Rightarrow> ('d \<Rightarrow> 'a \<times> 'd) \<Rightarrow> 'd \<Rightarrow> 'a \<times> 'd" where
  "locked dm now uid fail body d =
     (case dmLock dm now (''lock:'' @ uid) olricLockTimeout olricLockDeadline d of
        (Some e, d1) \<Rightarrow> (fail (Wrap ''olric lock: '' e), d1)
      | (None, d1) \<Rightarrow> (case body d1 of (r, d2) \<Rightarrow> (r, dmUnlock dm (''lock:'' @ uid) d2)))"

definition add_locked ::
  "'d DMap \<Rightarrow> int \<Rightarrow> Time \<Rightarrow> string \<Rightarrow> string \<Rightarrow> Event \<Rightarrow> 'd \<Rightarrow> err option \<times> 'd" where
  "add_locked dm ttl now uid task ev d =
     (case getTasks dm now uid d of
        (Inl e, d1) \<Rightarrow> (Some e, d1)
      | (Inr None, d1) \<Rightarrow> (Some (Err ''assignment to entry in nil map''), d1)
      | (Inr (Some tasks), d1) \<Rightarrow>
          (case Marshal_tasks (AList.update task (Some ev) tasks) of
             Inl e \<Rightarrow> (Some (Wrap ''marshal tasks: '' e), d1)
           | Inr raw \<Rightarrow>
               (case dmPut dm now uid raw ttl d1 of
                  (Some e, d2) \<Rightarrow> (Some (Wrap ''olric put: '' e), d2)
                | (None, d2) \<Rightarrow> (None, d2))))"

definition olric_Add ::
  "'d DMap \<Rightarrow> int \<Rightarrow> Time \<Rightarrow> string \<Rightarrow> string \<Rightarrow> Event \<Rightarrow> 'd \<Rightarrow> err option \<times> 'd" where
  "olric_Add dm ttl now uid task ev = locked dm now uid Some (add_locked dm ttl now uid task ev)"

definition flush_locked :: "'d DMap \<Rightarrow> Time \<Rightarrow> string \<Rightarrow> 'd \<Rightarrow> EventPtrs option result \<times> 'd" where
  "flush_locked dm now uid d =
     (case getTasks dm now uid d of
        (Inl e, d1) \<Rightarrow> (Inl e, d1)
      | (Inr tasks, d1) \<Rightarrow>
          (if tasks = None \<or> tasks = Some [] then (Inr None, d1)
           else case dmDelete dm now uid d1 of
                  (Some e, d2) \<Rightarrow> (Inl (Wrap ''olric delete: '' e), d2)
                | (None, d2) \<Rightarrow> (Inr tasks, d2)))"

definition olric_Flush ::
  "'d DMap \<Rightarrow> Time \<Rightarrow> string \<Rightarrow> 'd \<Rightarrow> EventPtrs option result \<times> 'd" where
  "olric_Flush dm now uid = locked dm now uid Inl (flush_locked dm now uid)"

text \<open>The documented behaviour of the map; \<open>val_at t d k\<close> is the value under \<open>k\<close> at time \<open>t\<close>.\<close>

locale olric_dmap =
  fixes dm :: "'d DMap" and val_at :: "Time \<Rightarrow> 'd \<Rightarrow> string \<Rightarrow> string option"
  assumes lock_keeps: "dmLock dm t (''lock:'' @ u) a b d = (er, d') \<Longrightarrow> \<not> HasPrefix k ''lock:'' \<Longrightarrow> val_at w d' k = val_at w d k"
    and unlock_keeps: "\<not> HasPrefix k ''lock:'' \<Longrightarrow> val_at w (dmUnlock dm (''lock:'' @ u) d) k = val_at w d k"
    and get_found: "dmGet dm t k d = (Got (Inr x), d') \<Longrightarrow> val_at t d k = Some x"
    and get_absent: "dmGet dm t k d = (ErrKeyNotFound, d') \<Longrightarrow> val_at t d k = None"
    and get_keeps: "dmGet dm t k d = (g, d') \<Longrightarrow> val_at w d' j = val_at w d j"
    and put_sets: "dmPut dm t k v ttl d = (None, d') \<Longrightarrow> 0 < ttl \<Longrightarrow> nsPerSec dvd ttl \<Longrightarrow> t \<le> w \<Longrightarrow> w < t + ttl \<Longrightarrow> val_at w d' k = Some v"
    and put_values: "dmPut dm t k v ttl d = (er, d') \<Longrightarrow> val_at w d' k = Some x \<Longrightarrow> x = v \<or> (\<exists>w. val_at w d k = Some x)"
    and put_others: "dmPut dm t k v ttl d = (er, d') \<Longrightarrow> j \<noteq> k \<Longrightarrow> val_at w d' j = val_at w d j"
    and delete_gone: "dmDelete dm t k d = (None, d') \<Longrightarrow> val_at w d' k = None"
    and delete_values: "dmDelete dm t k d = (er, d') \<Longrightarrow> val_at w d' k = Some x \<Longrightarrow> \<exists>w. val_at w d k = Some x"
    and delete_others: "dmDelete dm t k d = (er, d') \<Longrightarrow> j \<noteq> k \<Longrightarrow> val_at w d' j = val_at w d j"

text \<open>Maps of tasks that come back from their encoding.\<close>

definition good_tasks :: "EventPtrs \<Rightarrow> bool" where
  "good_tasks ts = (distinct (map fst ts) \<and> (\<forall>(k, p) \<in> set ts. valid_utf8 k \<and> (\<exists>e. p = Some e \<and> valid_event e)))"

lemma good_tasks_update:
  assumes "good_tasks ts" and "valid_utf8 k" and "valid_event e"
  shows "good_tasks (AList.update k (Some e) ts)"
proof -
  have sub: "set (AList.update k (Some e) ts) \<subseteq> insert (k, Some e) (set ts)" by (induction ts) auto
  have "distinct (map fst (AList.update k (Some e) ts))" using assms(1) by (simp add: good_tasks_def)
  moreover have "valid_utf8 j \<and> (\<exists>e. p = Some e \<and> valid_event e)" if "(j, p) \<in> set (AList.update k (Some e) ts)" for j p
    using subsetD [OF sub that] assms by (auto simp: good_tasks_def)
  ultimately show ?thesis by (auto simp: good_tasks_def)
qed

lemma update_absent: "k \<notin> fst ` set m \<Longrightarrow> AList.update k v m = m @ [(k, v)]"
  by (induction m) auto

lemma decode_encode_tasks:
  assumes "\<forall>(k, p) \<in> set ts. valid_utf8 k \<and> (\<exists>e. p = Some e \<and> valid_event e)" and "distinct (map fst ts)"
    and "set (map fst out) \<inter> set (map fst ts) = {}"
  shows "\<exists>ms. encode_tasks ts = Some ms \<and> wf_members ms \<and> decode_tasks ms out = Some (out @ ts)"
  using assms
proof (induction ts arbitrary: out)
  case (Cons t ts)
  obtain k e where t: "t = (k, Some e)" "valid_utf8 k" "valid_event e" using Cons.prems(1) by (cases t) auto
  obtain ms where ms: "encode_struct event_fields e = Emit (JObj ms)"
      "decode_struct event_fields (JObj ms) zero_event = Some e" "wf_json (JObj ms)"
    using event_roundtrips [OF t(3)] by (auto simp: roundtrips_def)
  have new: "AList.update k (Some e) out = out @ [(k, Some e)]"
    using Cons.prems(3) t(1) by (intro update_absent) auto
  show ?case using Cons.IH [of "out @ [(k, Some e)]"] Cons.prems t ms new by auto
qed simp

lemma Unmarshal_Marshal_tasks:
  assumes "good_tasks ts"
  shows "\<exists>raw ts'. Marshal_tasks ts = Inr raw \<and> Unmarshal_tasks raw = Inr (Some ts') \<and> good_tasks ts' \<and> map_of ts' = map_of ts"
proof -
  let ?ts = "sort_key fst ts"
  have d: "distinct (map fst ?ts)"
    using assms by (simp add: good_tasks_def distinct_map)
  then obtain ms where ms: "encode_tasks ?ts = Some ms" "wf_members ms" "decode_tasks ms [] = Some ?ts"
    using decode_encode_tasks [of ?ts "[]"] assms by (auto simp: good_tasks_def)
  have "Marshal_tasks ts = Inr (json_print (JObj ms))" using ms(1) by (simp add: Marshal_tasks_def)
  moreover have "Unmarshal_tasks (json_print (JObj ms)) = Inr (Some ?ts)"
    using json_parse_print [of "JObj ms"] ms by (simp add: Unmarshal_tasks_def)
  moreover have "good_tasks ?ts" using assms d by (auto simp: good_tasks_def)
  moreover have "map_of ?ts = map_of ts"
    using d assms by (intro map_of_inject_set [THEN iffD2]) (auto simp: good_tasks_def)
  ultimately show ?thesis by blast
qed

definition good_raw :: "string \<Rightarrow> bool" where
  "good_raw raw \<longleftrightarrow> (\<exists>ts. Unmarshal_tasks raw = Inr (Some ts) \<and> good_tasks ts)"

definition olric_tasks :: "(Time \<Rightarrow> 'd \<Rightarrow> string \<Rightarrow> string option) \<Rightarrow> Time \<Rightarrow> 'd \<Rightarrow> string \<Rightarrow> string \<Rightarrow> Event option option" where
  "olric_tasks val_at t d u =
     (case val_at t d u of
        None \<Rightarrow> Map.empty
      | Some raw \<Rightarrow> (case Unmarshal_tasks raw of Inr (Some ts) \<Rightarrow> map_of ts | _ \<Rightarrow> Map.empty))"

definition run_id :: "string \<Rightarrow> bool" where
  "run_id u = (\<not> HasPrefix u ''lock:'')"

text \<open>Every run holds a good map at every time; the same values under all runs.\<close>

definition good_space :: "(Time \<Rightarrow> 'd \<Rightarrow> string \<Rightarrow> string option) \<Rightarrow> 'd \<Rightarrow> bool" where
  "good_space val_at d \<longleftrightarrow> (\<forall>t u raw. run_id u \<longrightarrow> val_at t d u = Some raw \<longrightarrow> good_raw raw)"

definition same_runs :: "(Time \<Rightarrow> 'd \<Rightarrow> string \<Rightarrow> string option) \<Rightarrow> 'd \<Rightarrow> 'd \<Rightarrow> bool" where
  "same_runs val_at d d' \<longleftrightarrow> (\<forall>w j. run_id j \<longrightarrow> val_at w d' j = val_at w d j)"

lemma same_runs_trans: "same_runs v a b \<Longrightarrow> same_runs v b c \<Longrightarrow> same_runs v a c"
  by (simp add: same_runs_def)

lemma same_runs_good: "same_runs v a b \<Longrightarrow> good_space v a \<Longrightarrow> good_space v b"
  by (simp add: same_runs_def good_space_def)

lemma same_runs_tasks: "same_runs v a b \<Longrightarrow> run_id u \<Longrightarrow> olric_tasks v t b u = olric_tasks v t a u"
  by (simp add: same_runs_def olric_tasks_def)

locale olric_runs = olric_dmap dm val_at
  for dm :: "'d DMap" and val_at +
  fixes ttl :: int
  assumes ttl_seconds: "0 < ttl" "nsPerSec dvd ttl"
begin

lemma getTasks_good:
  assumes "getTasks dm t u d = (Inr ts, d')" and "good_space val_at d" and "run_id u"
  shows "\<exists>m. ts = Some m \<and> good_tasks m \<and> map_of m = olric_tasks val_at t d u"
proof -
  obtain g d1 where g: "dmGet dm t u d = (g, d1)" by fastforce
  show ?thesis
  proof (cases g)
    case ErrKeyNotFound
    with assms(1) g get_absent [of t u d d1] show ?thesis
      by (auto simp: getTasks_def olric_tasks_def good_tasks_def)
  next
    case (Got x)
    with assms(1) g obtain raw where x: "x = Inr raw" "Unmarshal_tasks raw = Inr ts"
      by (auto simp: getTasks_def split: sum.splits)
    then have v: "val_at t d u = Some raw" using get_found [of t u d raw d1] g Got by simp
    then have "good_raw raw" using assms(2,3) by (simp add: good_space_def)
    with x(2) v show ?thesis by (auto simp: good_raw_def olric_tasks_def)
  qed (use assms(1) g in \<open>auto simp: getTasks_def\<close>)
qed

lemma getTasks_same: "getTasks dm t u d = (ts, d') \<Longrightarrow> same_runs val_at d d'"
  using get_keeps [of t u d] by (auto simp: getTasks_def same_runs_def split: prod.splits get_reply.splits sum.splits)

text \<open>A body that keeps the values of the other runs keeps them under the lock.\<close>

lemma locked_split:
  assumes "locked dm t u fail body d = (r, d')"
  shows "(\<exists>e. r = fail (Wrap ''olric lock: '' e) \<and> same_runs val_at d d') \<or>
    (\<exists>d1 d2. body d1 = (r, d2) \<and> same_runs val_at d d1 \<and> same_runs val_at d2 d')"
proof -
  obtain er d1 where l: "dmLock dm t (''lock:'' @ u) olricLockTimeout olricLockDeadline d = (er, d1)" by fastforce
  have k: "same_runs val_at d d1" using lock_keeps [OF l] by (simp add: run_id_def same_runs_def)
  show ?thesis
  proof (cases er)
    case None
    obtain x d2 where b: "body d1 = (x, d2)" by fastforce
    have "same_runs val_at d2 (dmUnlock dm (''lock:'' @ u) d2)"
      using unlock_keeps by (simp add: run_id_def same_runs_def)
    with assms l None b k show ?thesis by (auto simp: locked_def)
  next
    case (Some e)
    with assms l k show ?thesis by (auto simp: locked_def)
  qed
qed

lemma Add_cases:
  assumes "olric_Add dm ttl t u k e d = (er, d')"
  shows "(same_runs val_at d d' \<and> er \<noteq> None) \<or>
    (\<exists>da dx m raw er' dc. same_runs val_at d da \<and> getTasks dm t u da = (Inr (Some m), dx) \<and>
       Marshal_tasks (AList.update k (Some e) m) = Inr raw \<and>
       dmPut dm t u raw ttl dx = (er', dc) \<and> (er = None \<longleftrightarrow> er' = None) \<and> same_runs val_at dc d')"
proof -
  from locked_split [OF assms [unfolded olric_Add_def]] show ?thesis
  proof (elim disjE exE conjE)
    fix d1 d2
    assume b: "add_locked dm ttl t u k e d1 = (er, d2)" and s: "same_runs val_at d d1" "same_runs val_at d2 d'"
    obtain ts dx where g: "getTasks dm t u d1 = (ts, dx)" by fastforce
    show ?thesis
    proof (cases "\<exists>m raw. ts = Inr (Some m) \<and> Marshal_tasks (AList.update k (Some e) m) = Inr raw")
      case True
      then obtain m raw where m: "ts = Inr (Some m)" "Marshal_tasks (AList.update k (Some e) m) = Inr raw" by blast
      obtain er' dc where p: "dmPut dm t u raw ttl dx = (er', dc)" by fastforce
      have "dc = d2" "er = None \<longleftrightarrow> er' = None" using b g m p by (auto simp: add_locked_def split: option.splits)
      with s g m p show ?thesis by blast
    next
      case False
      then have "er \<noteq> None" "d2 = dx" using b g by (auto simp: add_locked_def split: sum.splits option.splits)
      with same_runs_trans [OF same_runs_trans [OF s(1) getTasks_same [OF g]]] s(2) show ?thesis by blast
    qed
  qed simp
qed

lemma Flush_cases:
  assumes "olric_Flush dm t u d = (r, d')"
  shows "(same_runs val_at d d' \<and> (\<exists>e. r = Inl e)) \<or>
    (\<exists>da ts dx. same_runs val_at d da \<and> getTasks dm t u da = (Inr ts, dx) \<and> same_runs val_at d d' \<and>
       ts \<in> {None, Some []} \<and> r = Inr None) \<or>
    (\<exists>da dx dc m er'. same_runs val_at d da \<and> getTasks dm t u da = (Inr (Some m), dx) \<and>
       dmDelete dm t u dx = (er', dc) \<and> same_runs val_at dc d' \<and>
       (if er' = None then r = Inr (Some m) else \<exists>e. r = Inl e))"
proof -
  from locked_split [OF assms [unfolded olric_Flush_def]] show ?thesis
  proof (elim disjE exE conjE)
    fix d1 d2
    assume b: "flush_locked dm t u d1 = (r, d2)" and s: "same_runs val_at d d1" "same_runs val_at d2 d'"
    obtain ts dx where g: "getTasks dm t u d1 = (ts, dx)" by fastforce
    note dx = same_runs_trans [OF s(1) getTasks_same [OF g]]
    show ?thesis
    proof (cases "\<exists>m. ts = Inr (Some m) \<and> m \<noteq> []")
      case True
      then obtain m where m: "ts = Inr (Some m)" "m \<noteq> []" by blast
      obtain er' dc where p: "dmDelete dm t u dx = (er', dc)" by fastforce
      have "dc = d2" "if er' = None then r = Inr (Some m) else \<exists>e. r = Inl e"
        using b g m p by (auto simp: flush_locked_def split: option.splits)
      with s g m p show ?thesis by blast
    next
      case False
      show ?thesis
      proof (cases ts)
        case (Inl e)
        with b g have "r = Inl e" "d2 = dx" by (auto simp: flush_locked_def)
        with same_runs_trans [OF dx] s(2) show ?thesis by blast
      next
        case (Inr ts')
        with False have e: "ts' \<in> {None, Some []}" by (cases ts') auto
        with b g Inr have "r = Inr None" "d2 = dx" by (auto simp: flush_locked_def)
        with same_runs_trans [OF dx] s e g Inr show ?thesis by blast
      qed
    qed
  qed simp
qed

end

context olric_runs
begin

lemma put_runs:
  assumes "dmPut dm t u raw ttl d = (er, d')" and "good_space val_at d" and "good_raw raw"
  shows "good_space val_at d'"
  using put_values [OF assms(1)] put_others [OF assms(1)] assms(2,3) unfolding good_space_def by metis

lemma delete_runs:
  assumes "dmDelete dm t u d = (er, d')" and "good_space val_at d"
  shows "good_space val_at d'"
  using delete_values [OF assms(1)] delete_others [OF assms(1)] assms(2) unfolding good_space_def by metis

lemma tasks_others:
  "dmPut dm t u raw ttl d = (er, d') \<Longrightarrow> w \<noteq> u \<Longrightarrow> olric_tasks val_at t' d' w = olric_tasks val_at t' d w"
  "dmDelete dm t u d = (er, d') \<Longrightarrow> w \<noteq> u \<Longrightarrow> olric_tasks val_at t' d' w = olric_tasks val_at t' d w"
  using put_others delete_others by (simp_all add: olric_tasks_def)

end

sublocale olric_runs \<subseteq> shared_runs "olric_Add dm ttl" "olric_Flush dm" "olric_tasks val_at" Some
    "\<lambda>k e. valid_utf8 k \<and> valid_event e" run_id "good_space val_at" ttl
proof
  fix t t' u w k e er s s' r m res
  show "olric_Add dm ttl t u k e s = (er, s') \<Longrightarrow> run_id u \<Longrightarrow> valid_utf8 k \<and> valid_event e \<Longrightarrow>
      good_space val_at s \<Longrightarrow> good_space val_at s'"
  proof -
    assume a: "olric_Add dm ttl t u k e s = (er, s')" "run_id u" "valid_utf8 k \<and> valid_event e" "good_space val_at s"
    from Add_cases [OF a(1)] show ?thesis
    proof (elim disjE exE conjE)
      fix da dx m raw er' dc
      assume *: "same_runs val_at s da" "getTasks dm t u da = (Inr (Some m), dx)"
        "Marshal_tasks (AList.update k (Some e) m) = Inr raw" "dmPut dm t u raw ttl dx = (er', dc)" "same_runs val_at dc s'"
      note g = same_runs_good [OF *(1) a(4)]
      have "good_tasks m" using getTasks_good [OF *(2) g a(2)] by simp
      then have "good_raw raw"
        using Unmarshal_Marshal_tasks [OF good_tasks_update, of m k e] a(3) *(3) by (auto simp: good_raw_def)
      with put_runs [OF *(4)] same_runs_good [OF getTasks_same [OF *(2)] g] same_runs_good [OF *(5)] show ?thesis by blast
    qed (auto intro: same_runs_good [OF _ a(4)])
  qed
  show "olric_Add dm ttl t u k e s = (None, s') \<Longrightarrow> run_id u \<Longrightarrow> valid_utf8 k \<and> valid_event e \<Longrightarrow>
      good_space val_at s \<Longrightarrow> t \<le> t' \<Longrightarrow> t' < t + ttl \<Longrightarrow>
      olric_tasks val_at t' s' u = (olric_tasks val_at t s u)(k \<mapsto> Some e)"
  proof -
    assume a: "olric_Add dm ttl t u k e s = (None, s')" "run_id u" "valid_utf8 k \<and> valid_event e" "good_space val_at s"
      and t: "t \<le> t'" "t' < t + ttl"
    from Add_cases [OF a(1)] obtain da dx m raw dc where *: "same_runs val_at s da" "getTasks dm t u da = (Inr (Some m), dx)"
        "Marshal_tasks (AList.update k (Some e) m) = Inr raw" "dmPut dm t u raw ttl dx = (None, dc)" "same_runs val_at dc s'"
      by auto
    note g = getTasks_good [OF *(2) same_runs_good [OF *(1) a(4)] a(2)]
    obtain ts' where "Unmarshal_tasks raw = Inr (Some ts')" "map_of ts' = map_of (AList.update k (Some e) m)"
      using Unmarshal_Marshal_tasks [OF good_tasks_update, of m k e] g a(3) *(3) by auto
    moreover have "val_at t' s' u = Some raw"
      using put_sets [OF *(4) ttl_seconds t] *(5) a(2) by (simp add: same_runs_def)
    ultimately show ?thesis
      using g same_runs_tasks [OF *(1) a(2), of t] by (auto simp: olric_tasks_def fun_eq_iff)
  qed
  show "olric_Flush dm t u s = (Inr r, s') \<Longrightarrow> run_id u \<Longrightarrow> good_space val_at s \<Longrightarrow>
      map_of (case r of None \<Rightarrow> [] | Some m \<Rightarrow> m) = olric_tasks val_at t s u"
  proof -
    assume a: "olric_Flush dm t u s = (Inr r, s')" "run_id u" "good_space val_at s"
    from Flush_cases [OF a(1)] show ?thesis
    proof (elim disjE exE conjE)
      fix da ts dx
      assume *: "same_runs val_at s da" "getTasks dm t u da = (Inr ts, dx)" "ts \<in> {None, Some []}" "Inr r = Inr None"
      with getTasks_good [OF *(2) same_runs_good [OF *(1) a(3)] a(2)] same_runs_tasks [OF *(1) a(2), of t]
      show ?thesis by auto
    next
      fix da dx dc m er'
      assume *: "same_runs val_at s da" "getTasks dm t u da = (Inr (Some m), dx)"
        "if er' = None then Inr r = Inr (Some m) else (\<exists>e. Inr r = Inl e)"
      with getTasks_good [OF *(2) same_runs_good [OF *(1) a(3)] a(2)] same_runs_tasks [OF *(1) a(2), of t]
      show ?thesis by (auto split: if_splits)
    qed auto
  qed
  show "olric_Flush dm t u s = (Inr (Some m), s') \<Longrightarrow> run_id u \<Longrightarrow> good_space val_at s \<Longrightarrow> t \<le> t' \<Longrightarrow>
      olric_tasks val_at t' s' u = Map.empty"
  proof -
    assume a: "olric_Flush dm t u s = (Inr (Some m), s')" "run_id u"
    from Flush_cases [OF a(1)] obtain dx dc where *: "dmDelete dm t u dx = (None, dc)" "same_runs val_at dc s'"
      by (auto split: if_splits)
    from delete_gone [OF *(1)] same_runs_tasks [OF *(2) a(2)] show ?thesis by (simp add: olric_tasks_def)
  qed
  show "olric_Flush dm t u s = (res, s') \<Longrightarrow> run_id u \<Longrightarrow> good_space val_at s \<Longrightarrow> good_space val_at s'"
    using Flush_cases [of t u s res s'] same_runs_good getTasks_same delete_runs by meson
  show "olric_Add dm ttl t u k e s = (er, s') \<Longrightarrow> run_id u \<Longrightarrow> run_id w \<Longrightarrow> w \<noteq> u \<Longrightarrow> t \<le> t' \<Longrightarrow>
      olric_tasks val_at t' s' w = olric_tasks val_at t' s w"
    using Add_cases [of t u k e s er s'] same_runs_tasks getTasks_same tasks_others(1) by metis
  show "olric_Flush dm t u s = (res, s') \<Longrightarrow> run_id u \<Longrightarrow> run_id w \<Longrightarrow> w \<noteq> u \<Longrightarrow> t \<le> t' \<Longrightarrow>
      olric_tasks val_at t' s' w = olric_tasks val_at t' s w"
    using Flush_cases [of t u s res s'] same_runs_tasks getTasks_same tasks_others(2) by metis
qed

text \<open>A map that keeps values with their deadlines; the lock is an entry of the same map.\<close>

type_synonym valuespace = "(string, string \<times> Time) gomap"

definition vs_at :: "Time \<Rightarrow> valuespace \<Rightarrow> string \<Rightarrow> string option" where
  "vs_at t d k = (case map_of d k of None \<Rightarrow> None | Some (v, e) \<Rightarrow> if t < e then Some v else None)"

definition vs_dmap :: "valuespace DMap" where
  "vs_dmap = \<lparr>dmLock = \<lambda>t k lease deadline d.
       if vs_at t d k \<noteq> None then (Some (Err ''lock not acquired''), d) else (None, AList.update k ([], t + lease) d),
     dmUnlock = AList.delete,
     dmGet = \<lambda>t k d. (case vs_at t d k of None \<Rightarrow> ErrKeyNotFound | Some v \<Rightarrow> Got (Inr v), d),
     dmPut = \<lambda>t k v ttl d. (None, AList.update k (v, t + ttl) d),
     dmDelete = \<lambda>t k d. (None, AList.delete k d)\<rparr>"

lemma vs_at_update: "vs_at t (AList.update k (v, e) d) j = (if j = k then if t < e then Some v else None else vs_at t d j)"
  by (simp add: vs_at_def)

lemma vs_at_delete: "vs_at t (AList.delete k d) j = (if j = k then None else vs_at t d j)"
  by (simp add: vs_at_def)

interpretation valuespace: olric_dmap vs_dmap vs_at
  by unfold_locales
    (auto simp: vs_dmap_def vs_at_update vs_at_delete split: if_splits option.splits)

interpretation olric_buffer: olric_runs vs_dmap vs_at defaultTTL
  by unfold_locales (simp_all add: defaultTTL_def nsPerSec_def)

section \<open>Ping and Close\<close>

definition olric_Ping :: "'m list result \<Rightarrow> err option" where
  "olric_Ping members =
     (case members of
        Inl e \<Rightarrow> Some (Wrap ''olric ping: '' e)
      | Inr ms \<Rightarrow> if length ms = 0 then Some (Err ''olric: no cluster members'') else None)"

definition instrumented_Ping :: "('s \<Rightarrow> err option \<times> 's) \<Rightarrow> string \<Rightarrow> 's \<times> Collectors \<Rightarrow> err option \<times> 's \<times> Collectors" where
  "instrumented_Ping inner backend w = instrumented backend ''ping'' inner (\<lambda>r. r \<noteq> None) w"

definition instrumented_Close :: "('s \<Rightarrow> err option \<times> 's) \<Rightarrow> string \<Rightarrow> 's \<times> Collectors \<Rightarrow> err option \<times> 's \<times> Collectors" where
  "instrumented_Close inner backend w = instrumented backend ''close'' inner (\<lambda>r. r \<noteq> None) w"

section \<open>Properties\<close>

context redis_hashes
begin

lemma flushed_run_empty:
  assumes "valkey_Flush flushScript s t u r = (res, r1)" and "\<exists>y. fst (flushScript t (valkey_runKey s u) r) = Inr y"
    and "valkey_Flush flushScript s t' u r1 = (Inr y, r2)"
  shows "y = None"
proof -
  obtain x where "flushScript t (valkey_runKey s u) r = (Inr x, r1)"
    using assms(1,2) by (auto simp: valkey_Flush_def split: prod.splits sum.splits redis_reply.splits if_splits)
  then have e: "hash t' r1 (valkey_runKey s u) = Map.empty" by (rule script_deletes)
  obtain z where z: "flushScript t' (valkey_runKey s u) r1 = (Inr z, r2)"
    using assms(3) by (auto simp: valkey_Flush_def split: prod.splits sum.splits redis_reply.splits if_splits)
  from script_reply [OF z] e have "z = RArray []" by auto
  with z assms(3) show ?thesis by (simp add: valkey_Flush_def)
qed

end

text \<open>What both backends inherit from the contract.\<close>

context valkey_runs
begin

lemmas runs_collect = interleaved_runs_collect

end

context olric_runs
begin

lemmas runs_collect = interleaved_runs_collect
lemmas runs_good = run_adds_inv
lemmas flush_good = flush_inv
lemmas flush_shows = flush_result

end

lemma decode_flat_fails:
  assumes "(k, raw) \<in> set ps" and "Unmarshal event_fields zero_event raw = Inl er"
  shows "\<exists>e. decode_flat (flat_pairs ps) out = Inl e"
  using assms
proof (induction ps arbitrary: out)
  case (Cons p ps)
  then show ?case by (cases p) (auto simp: as_string_def split: sum.split)
qed simp

text \<open>
  C33 The Valkey run buffer collects: over a server that keeps hashes, after events of any number of runs
  were added one after the other, those of one run each within the time to live of the one before, a
  flush of that run gives for every task the latest event, written and read back unchanged, and nothing
  of the other runs; later flushes of the run find nothing.
\<close>

theorem valkey_runs_collect:
  assumes "redis_hashes hset flushScript hash" and "0 < vkTTL store" and "nsPerSec dvd vkTTL store"
    and "run_adds (valkey_Add hset store) xs r = (None, r1)" and "\<forall>(t, w, k, e) \<in> set xs. valid_event e"
    and "sorted (map fst xs @ [t'])" and "\<forall>t k. hash t r k = Map.empty" and "of_run u xs \<noteq> []"
    and "within_ttl (vkTTL store - 1) (map fst (of_run u xs) @ [t'])"
    and "valkey_Flush flushScript store t' u r1 = (Inr res, r2)"
  shows "\<exists>m. res = Some m \<and> map_of m = map_of (collect (of_run u xs) []) \<and>
    (\<forall>t'' y r3. valkey_Flush flushScript store t'' u r2 = (Inr y, r3) \<longrightarrow> y = None)"
proof -
  have runs: "valkey_runs hset flushScript hash store"
    using assms(1-3) by (simp add: valkey_runs_def valkey_runs_axioms_def)
  from valkey_runs.runs_collect [OF runs assms(4) _ _ _ assms(6) _ assms(8,9,10) order.refl] assms(5,7)
  obtain m where m: "res = Some m" "map_of m = map_of (collect (of_run u xs) [])"
    by (auto simp: valkey_tasks_def comp_def option.map_ident fun_eq_iff)
  have "\<exists>y. fst (flushScript t' (valkey_runKey store u) r1) = Inr y"
    using assms(10) by (auto simp: valkey_Flush_def split: prod.splits sum.splits)
  with m redis_hashes.flushed_run_empty [OF assms(1,10)] show ?thesis by blast
qed

definition demo_adds :: "(Time \<times> string \<times> string \<times> Event) list" where
  "demo_adds = [(1, ''run'', ''build'', zero_event), (2, ''other'', ''build'', zero_event),
     (3, ''run'', ''build'', zero_event\<lparr>StateOf := StateSuccess\<rparr>)]"

lemma valid_zero_event: "valid_event zero_event" "valid_event (zero_event\<lparr>StateOf := StateSuccess\<rparr>)"
  by (auto simp: zero_event_def valid_event_def event_strings_def valid_repo_def zero_repo_def int64_def
      intro!: ascii_valid_utf8 valid_timeI)

lemma marshal_valid: "valid_event e \<Longrightarrow> \<exists>raw. Marshal event_fields e = Inr raw"
  using Unmarshal_Marshal [OF event_roundtrips] by blast

lemma hashspace_adds:
  "\<forall>(t, w, k, e) \<in> set xs. valid_event e \<Longrightarrow> \<exists>r'. run_adds (valkey_Add hs_hset s) xs r = (None, r')"
proof (induction xs arbitrary: r)
  case (Cons x xs)
  obtain t w k e where x: "x = (t, w, k, e)" by (cases x)
  with Cons.prems obtain raw where "Marshal event_fields e = Inr raw" using marshal_valid by fastforce
  with Cons x show ?case by (simp add: valkey_Add_def hs_hset_def)
qed simp

theorem valkey_runs_collect_witness:
  "\<exists>r1 res r2 m. run_adds (valkey_Add hs_hset demo_valkey) demo_adds [] = (None, r1) \<and>
     valkey_Flush hs_flush demo_valkey 4 ''run'' r1 = (Inr res, r2) \<and> res = Some m \<and>
     map_of m = [''build'' \<mapsto> zero_event\<lparr>StateOf := StateSuccess\<rparr>]"
proof -
  let ?ss = "valkey_runKey demo_valkey ''run''"
  have v: "\<forall>(t, w, k, e) \<in> set demo_adds. valid_event e" using valid_zero_event by (simp add: demo_adds_def)
  obtain r1 where r1: "run_adds (valkey_Add hs_hset demo_valkey) demo_adds [] = (None, r1)" using hashspace_adds [OF v] by blast
  have o: "of_run ''run'' demo_adds = [(1, ''build'', zero_event), (3, ''build'', zero_event\<lparr>StateOf := StateSuccess\<rparr>)]"
    by (simp add: demo_adds_def)
  obtain raw where raw: "Marshal event_fields (zero_event\<lparr>StateOf := StateSuccess\<rparr>) = Inr raw"
    using marshal_valid valid_zero_event by blast
  obtain raw0 where raw0: "Marshal event_fields zero_event = Inr raw0" using marshal_valid valid_zero_event by blast
  have "r1 = [(?ss, [(''build'', raw)], 3 + defaultTTL),
      (valkey_runKey demo_valkey ''other'', [(''build'', raw0)], 2 + defaultTTL)]"
    using r1 raw raw0 by (simp add: demo_adds_def valkey_Add_def hs_hset_def hs_fields_def demo_valkey_def defaultTTL_def)
  then have "hs_fields 4 r1 ?ss = [(''build'', raw)]" by (simp add: hs_fields_def defaultTTL_def)
  then have "\<exists>res r2. valkey_Flush hs_flush demo_valkey 4 ''run'' r1 = (Inr res, r2)"
    using Unmarshal_Marshal [OF event_roundtrips [OF valid_zero_event(2)]] raw
    by (auto simp: valkey_Flush_def hs_flush_def as_string_def)
  then obtain res r2 where f: "valkey_Flush hs_flush demo_valkey 4 ''run'' r1 = (Inr res, r2)" by blast
  from valkey_runs_collect [OF hashspace.redis_hashes_axioms _ _ r1 v _ _ _ _ f] o r1 f show ?thesis
    by (auto simp: demo_valkey_def defaultTTL_def nsPerSec_def demo_adds_def hs_fields_def)
qed

text \<open>
  The Olric run buffer collects: over a distributed map with locks, after events of any number of runs
  were added, those of one run each within the time to live of the one before, a flush of that run gives
  for every task the latest event, and nothing of the other runs; later flushes of the run find nothing.
\<close>

theorem olric_runs_collect:
  assumes "olric_dmap dm val_at" and "0 < ttl" and "nsPerSec dvd ttl"
    and "run_adds (olric_Add dm ttl) xs d = (None, d1)"
    and "\<forall>(t, w, k, e) \<in> set xs. run_id w \<and> valid_utf8 k \<and> valid_event e" and "run_id u"
    and "sorted (map fst xs @ [t'])" and "\<forall>t u. run_id u \<longrightarrow> val_at t d u = None" and "of_run u xs \<noteq> []"
    and "within_ttl (ttl - 1) (map fst (of_run u xs) @ [t'])"
    and "olric_Flush dm t' u d1 = (Inr res, d2)" and "t' \<le> t''" and "olric_Flush dm t'' u d2 = (Inr res', d3)"
  shows "(\<exists>m. res = Some m \<and> map_of m = map_option Some \<circ> map_of (collect (of_run u xs) [])) \<and>
    map_of (case res' of None \<Rightarrow> [] | Some m \<Rightarrow> m) = Map.empty"
proof -
  have runs: "olric_runs dm val_at ttl"
    using assms(1-3) by (simp add: olric_runs_def olric_runs_axioms_def)
  have g: "good_space val_at d" using assms(8) by (simp add: good_space_def)
  have e: "\<forall>t. olric_tasks val_at t d u = Map.empty" using assms(6,8) by (simp add: olric_tasks_def)
  from olric_runs.runs_collect [OF runs assms(4) g assms(5,6,7) e assms(9-12)] obtain m where
    m: "res = Some m" "map_of m = map_option Some \<circ> map_of (collect (of_run u xs) [])"
      "olric_tasks val_at t'' d2 u = Map.empty" by blast
  have "good_space val_at d2"
    using olric_runs.runs_good [OF runs assms(4) g assms(5)] olric_runs.flush_good [OF runs assms(11,6)] by blast
  with olric_runs.flush_shows [OF runs assms(13,6)] m show ?thesis by simp
qed

lemma valuespace_add:
  assumes "valid_event e" and "\<not> HasPrefix u ''lock:''"
  shows "\<exists>raw. Marshal_tasks [(k, Some e)] = Inr raw \<and> olric_Add vs_dmap ttl t u k e [] = (None, [(u, raw, t + ttl)])"
proof -
  obtain raw where raw: "Marshal event_fields e = Inr raw" using marshal_valid [OF assms(1)] by blast
  then obtain j where "encode_struct event_fields e = Emit j" by (auto simp: Marshal_def split: emitted.splits)
  moreover have "u \<noteq> ''lock:'' @ u" using assms(2) HasPrefix_append by metis
  ultimately show ?thesis
    by (simp add: olric_Add_def locked_def add_locked_def getTasks_def vs_dmap_def vs_at_def Marshal_tasks_def)
qed

theorem olric_runs_collect_witness:
  "\<exists>raw d1 m. run_adds (olric_Add vs_dmap defaultTTL) [(1, ''run'', ''build'', zero_event)] [] = (None, d1) \<and>
     olric_Flush vs_dmap 4 ''run'' d1 = (Inr (Some m), []) \<and> map_of m = [''build'' \<mapsto> Some zero_event]"
proof -
  obtain raw where raw: "Marshal_tasks [(''build'', Some zero_event)] = Inr raw"
      "olric_Add vs_dmap defaultTTL 1 ''run'' ''build'' zero_event [] = (None, [(''run'', raw, 1 + defaultTTL)])"
    using valuespace_add [OF valid_zero_event(1), of "''run''" "''build''" defaultTTL 1] by auto
  then have a: "run_adds (olric_Add vs_dmap defaultTTL) [(1, ''run'', ''build'', zero_event)] [] =
      (None, [(''run'', raw, 1 + defaultTTL)])" by simp
  have "good_tasks [(''build'', Some zero_event)]" using valid_zero_event by (auto simp: good_tasks_def intro!: ascii_valid_utf8)
  from Unmarshal_Marshal_tasks [OF this] raw(1) obtain ts where
    ts: "Unmarshal_tasks raw = Inr (Some ts)" "map_of ts = map_of [(''build'', Some zero_event)]" by auto
  then have "ts \<noteq> []" by (auto dest: fun_cong [of _ _ "''build''"])
  with ts have f: "olric_Flush vs_dmap 4 ''run'' [(''run'', raw, 1 + defaultTTL)] = (Inr (Some ts), [])"
    by (simp add: olric_Flush_def locked_def flush_locked_def getTasks_def vs_dmap_def vs_at_def defaultTTL_def)
  have f2: "olric_Flush vs_dmap 5 ''run'' [] = (Inr None, [])"
    by (simp add: olric_Flush_def locked_def flush_locked_def getTasks_def vs_dmap_def vs_at_def)
  from olric_runs_collect [OF valuespace.olric_dmap_axioms _ _ a _ _ _ _ _ _ f _ f2] valid_zero_event ascii_valid_utf8 [of "''build''"]
  have "map_of ts = [''build'' \<mapsto> Some zero_event]"
    by (auto simp: defaultTTL_def nsPerSec_def vs_at_def run_id_def fun_eq_iff)
  with a f show ?thesis by blast
qed

text \<open>
  A flush of the Valkey buffer deletes the run before it reads it: when the stored value of one task
  cannot be read back, the flush fails and the run with all its other tasks is gone.
\<close>

theorem valkey_undecodable_task_loses_run:
  assumes "redis_hashes hset flushScript hash"
    and "hash t r (valkey_runKey store u) k = Some raw" and "Unmarshal event_fields zero_event raw = Inl er"
    and "flushScript t (valkey_runKey store u) r = (Inr y, r1)"
  shows "\<exists>e. valkey_Flush flushScript store t u r = (Inl e, r1) \<and>
    (\<forall>t' res r2. valkey_Flush flushScript store t' u r1 = (Inr res, r2) \<longrightarrow> res = None)"
proof -
  obtain ps where ps: "y = RArray (flat_pairs ps)" "map_of ps = hash t r (valkey_runKey store u)"
    using redis_hashes.script_reply [OF assms(1,4)] by blast
  with assms(2) have k: "(k, raw) \<in> set ps" by (metis map_of_SomeD)
  then have "flat_pairs ps \<noteq> []" by (cases ps) auto
  with decode_flat_fails [OF k assms(3), of "[]"] assms(4) ps(1) obtain e where
    e: "valkey_Flush flushScript store t u r = (Inl e, r1)" by (auto simp: valkey_Flush_def)
  with redis_hashes.flushed_run_empty [OF assms(1) e] assms(4) show ?thesis by auto
qed

theorem valkey_undecodable_task_loses_run_witness:
  "\<exists>e. valkey_Flush hs_flush demo_valkey 1 ''run'' [(valkey_runKey demo_valkey ''run'', [(''build'', ''x''), (''test'', ''null'')], 9)] =
     (Inl e, []) \<and> valkey_Flush hs_flush demo_valkey 2 ''run'' [] = (Inr None, [])"
proof -
  let ?k = "valkey_runKey demo_valkey ''run''"
  let ?r = "[(?k, [(''build'', ''x''), (''test'', ''null'')], 9)] :: hashspace"
  have "Unmarshal event_fields zero_event ''x'' = Inl (Err ''invalid JSON'')"
    by code_simp
  moreover have "hs_flush 1 ?k ?r = (Inr (RArray (flat_pairs [(''build'', ''x''), (''test'', ''null'')])), [])"
    by (simp add: hs_flush_def hs_fields_def)
  moreover have "valkey_Flush hs_flush demo_valkey 2 ''run'' [] = (Inr None, [])"
    by (simp add: valkey_Flush_def hs_flush_def hs_fields_def)
  ultimately show ?thesis
    using valkey_undecodable_task_loses_run [OF hashspace.redis_hashes_axioms, of 1 ?r demo_valkey "''run''" "''build''"]
    by (auto simp: hs_fields_def)
qed

end
