(* ===== verification/Relay_Batch.thy ===== *)
theory Relay_Batch
  imports Relay_Notifier
begin

text \<open>
  Package \<^verbatim>\<open>internal/notifier/batch\<close>: the wrapper that collects events in a channel and hands them to a
  \<^verbatim>\<open>Flusher\<close> in batches, by number or by time, with a last flush in \<^verbatim>\<open>Close\<close>.

  \<^verbatim>\<open>Handle\<close>, the goroutine \<^verbatim>\<open>run\<close> and \<^verbatim>\<open>Close\<close> run concurrently. Each stretch of code between two points
  where another goroutine can act (a lock released, a channel operation, a call of the flusher) is a
  definition; \<open>batch_step\<close> interleaves them and \<open>reachable\<close> are the states of some execution.
\<close>

section \<open>State\<close>

definition defaultMaxSize :: int where "defaultMaxSize = 10"
definition defaultFlushInterval :: int where "defaultFlushInterval = 5 * 10 ^ 9"

record BatchConfig =
  Enabled :: bool
  MaxSize :: int
  FlushInterval :: int

definition ApplyDefaults :: "BatchConfig \<Rightarrow> BatchConfig" where
  "ApplyDefaults c =
     (let c1 = (if MaxSize c \<le> 0 then c\<lparr>MaxSize := defaultMaxSize\<rparr> else c)
      in if FlushInterval c1 \<le> 0 then c1\<lparr>FlushInterval := defaultFlushInterval\<rparr> else c1)"

record bufferedEvent =
  beCloudEventID :: string
  beEvent :: Event

text \<open>
  What the handler is built from: the flusher and the dead letter queue act on a world. The phases say
  where \<^verbatim>\<open>run\<close> and \<^verbatim>\<open>Close\<close> stand.
\<close>

record 'w BatchEnv =
  beName :: string
  beConfig :: BatchConfig
  beFlusher :: "Event list \<Rightarrow> 'w \<Rightarrow> err option \<times> 'w"
  beDLQ :: "(Envelope \<Rightarrow> err \<Rightarrow> 'w \<Rightarrow> err option \<times> 'w) option"

datatype run_phase = Selecting | ShouldFlush | Flushing "bufferedEvent list" | RunDone
datatype close_phase = NotClosing | AwaitDone | CloseReturned "err option"

text \<open>What became of a batch: the flusher took it, it was handed to the dead letter queue, or neither.\<close>

datatype outcome = Sent | DeadLettered | Dropped

record 'w BatchHandler =
  bhBuffer :: "bufferedEvent list"
  bhCh :: "bufferedEvent list"
  bhChClosed :: bool
  bhClosed :: bool
  bhSenders :: "bufferedEvent list"
  bhRun :: run_phase
  bhClose :: close_phase
  bhWorld :: 'w
  bhPanic :: bool
  bhAccepted :: "bufferedEvent list"
  bhSettled :: "(outcome \<times> bufferedEvent list) list"

text \<open>
  The last three fields record what happened: a panic, the events \<^verbatim>\<open>Handle\<close> accepted (returned nil for)
  and the batches with their outcomes. \<open>bhSenders\<close> are the callers of \<^verbatim>\<open>Handle\<close> between the check and
  the send.
\<close>

definition NewBatch :: "'w \<Rightarrow> 'w BatchHandler" where
  "NewBatch w = \<lparr>bhBuffer = [], bhCh = [], bhChClosed = False, bhClosed = False, bhSenders = [], bhRun = Selecting,
     bhClose = NotClosing, bhWorld = w, bhPanic = False, bhAccepted = [], bhSettled = []\<rparr>"

definition MaxBatch :: "'w BatchEnv \<Rightarrow> nat" where
  "MaxBatch env = nat (MaxSize (ApplyDefaults (beConfig env)))"

definition channel_cap :: "'w BatchEnv \<Rightarrow> nat" where
  "channel_cap env = nat (MaxSize (ApplyDefaults (beConfig env)) * 2)"

section \<open>Operations\<close>

definition extractEvents :: "bufferedEvent list \<Rightarrow> Event list" where
  "extractEvents batch = map beEvent batch"

fun enqueueFailed ::
  "(Envelope \<Rightarrow> err \<Rightarrow> 'w \<Rightarrow> err option \<times> 'w) option \<Rightarrow> bufferedEvent list \<Rightarrow> err \<Rightarrow> 'w \<Rightarrow> 'w" where
  "enqueueFailed None batch cause w = w"
| "enqueueFailed (Some dlq) [] cause w = w"
| "enqueueFailed (Some dlq) (be # batch) cause w =
     enqueueFailed (Some dlq) batch cause
       (snd (dlq \<lparr>CloudEventID = beCloudEventID be, CloudEventType = '''', Source = '''', Report = beEvent be\<rparr> cause w))"

text \<open>\<^verbatim>\<open>Handle\<close> up to the send: the error when the handler is closed, else the caller goes on to send.\<close>

definition Handle_check :: "'w BatchEnv \<Rightarrow> Ctx \<Rightarrow> Event \<Rightarrow> 'w BatchHandler \<Rightarrow> err option \<times> 'w BatchHandler" where
  "Handle_check env ctx e h =
     (if bhClosed h then (Some (Err (''batch: handler '' @ beName env @ '' is closed'')), h)
      else (None, h\<lparr>bhSenders := bhSenders h @
        [\<lparr>beCloudEventID = (case CloudEventIDKey ctx of None \<Rightarrow> '''' | Some i \<Rightarrow> i), beEvent = e\<rparr>]\<rparr>))"

text \<open>The send of the \<open>i\<close>-th waiting caller: a panic on a closed channel, blocked (None) on a full one.\<close>

definition Handle_send :: "'w BatchEnv \<Rightarrow> nat \<Rightarrow> 'w BatchHandler \<Rightarrow> 'w BatchHandler option" where
  "Handle_send env i h =
     (if length (bhSenders h) \<le> i then None
      else let be = bhSenders h ! i; rest = take i (bhSenders h) @ drop (Suc i) (bhSenders h)
           in if bhChClosed h then Some (h\<lparr>bhSenders := rest, bhPanic := True\<rparr>)
              else if channel_cap env \<le> length (bhCh h) then None
              else Some (h\<lparr>bhSenders := rest, bhCh := bhCh h @ [be], bhAccepted := bhAccepted h @ [be]\<rparr>))"

text \<open>\<^verbatim>\<open>run\<close>: the two cases of the select, the drain under the lock, and the flush of a batch.\<close>

definition run_receive :: "'w BatchEnv \<Rightarrow> 'w BatchHandler \<Rightarrow> 'w BatchHandler option" where
  "run_receive env h =
     (if bhRun h \<noteq> Selecting then None
      else case bhCh h of
             [] \<Rightarrow> (if bhChClosed h then Some (h\<lparr>bhRun := RunDone\<rparr>) else None)
           | be # rest \<Rightarrow>
               (let buffer = bhBuffer h @ [be]
                in Some (h\<lparr>bhCh := rest, bhBuffer := buffer,
                     bhRun := (if MaxBatch env \<le> length buffer then ShouldFlush else Selecting)\<rparr>)))"

definition drainBuffer :: "'w BatchHandler \<Rightarrow> bufferedEvent list \<times> 'w BatchHandler" where
  "drainBuffer h = (bhBuffer h, h\<lparr>bhBuffer := []\<rparr>)"

definition run_drain :: "'w BatchHandler \<Rightarrow> 'w BatchHandler option" where
  "run_drain h =
     (if bhRun h \<noteq> ShouldFlush then None
      else case drainBuffer h of (batch, h1) \<Rightarrow>
             Some (h1\<lparr>bhRun := (if length batch > 0 then Flushing batch else Selecting)\<rparr>))"

definition run_tick :: "'w BatchHandler \<Rightarrow> 'w BatchHandler option" where
  "run_tick h =
     (if bhRun h \<noteq> Selecting then None
      else case drainBuffer h of (batch, h1) \<Rightarrow>
             Some (h1\<lparr>bhRun := (if length batch > 0 then Flushing batch else Selecting)\<rparr>))"

definition run_flush :: "'w BatchEnv \<Rightarrow> 'w BatchHandler \<Rightarrow> 'w BatchHandler option" where
  "run_flush env h =
     (case bhRun h of
        Flushing batch \<Rightarrow>
          (case beFlusher env (extractEvents batch) (bhWorld h) of
             (None, w) \<Rightarrow> Some (h\<lparr>bhWorld := w, bhRun := Selecting, bhSettled := bhSettled h @ [(Sent, batch)]\<rparr>)
           | (Some e, w) \<Rightarrow>
               Some (h\<lparr>bhWorld := enqueueFailed (beDLQ env) batch e w, bhRun := Selecting,
                 bhSettled := bhSettled h @ [(if beDLQ env = None then Dropped else DeadLettered, batch)]\<rparr>))
      | _ \<Rightarrow> None)"

text \<open>\<^verbatim>\<open>Close\<close> up to waiting for \<^verbatim>\<open>done\<close>; a second call returns nil at once.\<close>

definition Close_begin :: "'w BatchHandler \<Rightarrow> 'w BatchHandler" where
  "Close_begin h = (if bhClosed h then h else h\<lparr>bhClosed := True, bhChClosed := True, bhClose := AwaitDone\<rparr>)"

definition Close_finish :: "'w BatchEnv \<Rightarrow> 'w BatchHandler \<Rightarrow> 'w BatchHandler option" where
  "Close_finish env h =
     (if bhClose h \<noteq> AwaitDone \<or> bhRun h \<noteq> RunDone then None
      else if length (bhBuffer h) = 0 then Some (h\<lparr>bhClose := CloseReturned None\<rparr>)
      else case drainBuffer h of (batch, h1) \<Rightarrow>
             (case beFlusher env (extractEvents batch) (bhWorld h1) of
                (None, w) \<Rightarrow> Some (h1\<lparr>bhWorld := w, bhClose := CloseReturned None, bhSettled := bhSettled h1 @ [(Sent, batch)]\<rparr>)
              | (Some e, w) \<Rightarrow>
                  Some (h1\<lparr>bhWorld := w,
                    bhClose := CloseReturned (Some (Wrap (''batch: final flush for '' @ beName env @ '': '') e)),
                    bhSettled := bhSettled h1 @ [(Dropped, batch)]\<rparr>)))"

section \<open>Executions\<close>

inductive batch_step :: "'w BatchEnv \<Rightarrow> 'w BatchHandler \<Rightarrow> 'w BatchHandler \<Rightarrow> bool" for env where
  handle: "Handle_check env ctx e h = (r, h') \<Longrightarrow> batch_step env h h'"
| send: "Handle_send env i h = Some h' \<Longrightarrow> batch_step env h h'"
| receive: "run_receive env h = Some h' \<Longrightarrow> batch_step env h h'"
| drain: "run_drain h = Some h' \<Longrightarrow> batch_step env h h'"
| tick: "run_tick h = Some h' \<Longrightarrow> batch_step env h h'"
| flush: "run_flush env h = Some h' \<Longrightarrow> batch_step env h h'"
| close: "batch_step env h (Close_begin h)"
| finish: "Close_finish env h = Some h' \<Longrightarrow> batch_step env h h'"

text \<open>Every other part of the program may change the world between two steps of the handler.\<close>

inductive reachable :: "'w BatchEnv \<Rightarrow> 'w BatchHandler \<Rightarrow> bool" for env where
  start: "reachable env (NewBatch w)"
| step: "reachable env h \<Longrightarrow> batch_step env h h' \<Longrightarrow> reachable env h'"
| world: "reachable env h \<Longrightarrow> reachable env (h\<lparr>bhWorld := w\<rparr>)"

inductive_cases batch_stepE: "batch_step env h h'"

section \<open>The invariant\<close>

definition in_flight :: "run_phase \<Rightarrow> bufferedEvent list" where
  "in_flight p = (case p of Flushing b \<Rightarrow> b | _ \<Rightarrow> [])"

text \<open>Every accepted event is in exactly one place, in the order of acceptance.\<close>

definition accounted :: "'w BatchHandler \<Rightarrow> bool" where
  "accounted h \<longleftrightarrow> bhAccepted h = concat (map snd (bhSettled h)) @ in_flight (bhRun h) @ bhBuffer h @ bhCh h"

definition batch_size_ok :: "'w BatchEnv \<Rightarrow> bufferedEvent list \<Rightarrow> bool" where
  "batch_size_ok env b \<longleftrightarrow> b \<noteq> [] \<and> length b \<le> MaxBatch env"

definition sizes_ok :: "'w BatchEnv \<Rightarrow> 'w BatchHandler \<Rightarrow> bool" where
  "sizes_ok env h \<longleftrightarrow> length (bhCh h) \<le> channel_cap env \<and> (\<forall>x \<in> set (bhSettled h). batch_size_ok env (snd x)) \<and>
     (bhRun h = ShouldFlush \<longrightarrow> batch_size_ok env (bhBuffer h)) \<and>
     (\<forall>b. bhRun h = Flushing b \<longrightarrow> batch_size_ok env b \<and> bhBuffer h = []) \<and>
     (bhRun h = Selecting \<or> bhRun h = RunDone \<longrightarrow> length (bhBuffer h) < MaxBatch env)"

definition phases_ok :: "'w BatchHandler \<Rightarrow> bool" where
  "phases_ok h \<longleftrightarrow> bhChClosed h = bhClosed h \<and> (bhRun h = RunDone \<longrightarrow> bhCh h = [] \<and> bhClosed h) \<and>
     (bhClose h = NotClosing) = (\<not> bhClosed h) \<and>
     (\<forall>r. bhClose h = CloseReturned r \<longrightarrow> bhRun h = RunDone \<and> bhBuffer h = [])"

text \<open>With a dead letter queue an event is dropped only by a \<^verbatim>\<open>Close\<close> that returns an error.\<close>

definition drops_ok :: "'w BatchEnv \<Rightarrow> 'w BatchHandler \<Rightarrow> bool" where
  "drops_ok env h \<longleftrightarrow> (beDLQ env \<noteq> None \<longrightarrow> Dropped \<in> fst ` set (bhSettled h) \<longrightarrow> (\<exists>e. bhClose h = CloseReturned (Some e)))"

lemma MaxBatch_pos: "0 < MaxBatch env"
  by (simp add: MaxBatch_def ApplyDefaults_def Let_def defaultMaxSize_def)

lemmas batch_ops = Handle_check_def Handle_send_def run_receive_def run_drain_def run_tick_def run_flush_def
  Close_begin_def Close_finish_def drainBuffer_def

text \<open>What each step does to the fields.\<close>

lemma Handle_send_Some:
  assumes "Handle_send env i h = Some h'"
  obtains rest where "h' = h\<lparr>bhSenders := rest, bhPanic := True\<rparr>" "bhChClosed h"
  | rest be where "h' = h\<lparr>bhSenders := rest, bhCh := bhCh h @ [be], bhAccepted := bhAccepted h @ [be]\<rparr>"
      "\<not> bhChClosed h" "length (bhCh h) < channel_cap env"
  using assms by (auto simp: Handle_send_def Let_def split: if_splits)

lemma run_receive_Some:
  assumes "run_receive env h = Some h'"
  obtains "bhRun h = Selecting" "bhCh h = []" "bhChClosed h" "h' = h\<lparr>bhRun := RunDone\<rparr>"
  | be rest where "bhRun h = Selecting" "bhCh h = be # rest"
      "h' = h\<lparr>bhCh := rest, bhBuffer := bhBuffer h @ [be],
         bhRun := (if MaxBatch env \<le> Suc (length (bhBuffer h)) then ShouldFlush else Selecting)\<rparr>"
  using assms by (auto simp: run_receive_def Let_def split: if_splits list.splits)

lemma run_drain_Some:
  assumes "run_drain h = Some h'"
  obtains "bhRun h = ShouldFlush" "h' = h\<lparr>bhBuffer := [], bhRun := (if bhBuffer h \<noteq> [] then Flushing (bhBuffer h) else Selecting)\<rparr>"
  using assms by (auto simp: run_drain_def drainBuffer_def split: if_splits)

lemma run_tick_Some:
  assumes "run_tick h = Some h'"
  obtains "bhRun h = Selecting" "h' = h\<lparr>bhBuffer := [], bhRun := (if bhBuffer h \<noteq> [] then Flushing (bhBuffer h) else Selecting)\<rparr>"
  using assms by (auto simp: run_tick_def drainBuffer_def split: if_splits)

lemma run_flush_Some:
  assumes "run_flush env h = Some h'"
  obtains batch w oc where "bhRun h = Flushing batch" "oc = Dropped \<longrightarrow> beDLQ env = None"
    "h' = h\<lparr>bhWorld := w, bhRun := Selecting, bhSettled := bhSettled h @ [(oc, batch)]\<rparr>"
  using assms by (auto simp: run_flush_def split: run_phase.splits prod.splits option.splits if_splits)

lemma Close_finish_Some:
  assumes "Close_finish env h = Some h'"
  obtains "bhClose h = AwaitDone" "bhRun h = RunDone" "bhBuffer h = []" "h' = h\<lparr>bhClose := CloseReturned None\<rparr>"
  | w r oc where "bhClose h = AwaitDone" "bhRun h = RunDone" "bhBuffer h \<noteq> []" "oc = Dropped \<longrightarrow> r \<noteq> None"
      "h' = h\<lparr>bhBuffer := [], bhWorld := w, bhClose := CloseReturned r, bhSettled := bhSettled h @ [(oc, bhBuffer h)]\<rparr>"
proof -
  obtain r w where f: "beFlusher env (extractEvents (bhBuffer h)) (bhWorld h) = (r, w)" by fastforce
  have c: "bhClose h = AwaitDone" "bhRun h = RunDone" using assms by (auto simp: Close_finish_def split: if_splits)
  show thesis
  proof (cases "bhBuffer h = []")
    case True
    with assms c show thesis by (intro that(1)) (auto simp: Close_finish_def)
  next
    case False
    show thesis
    proof (cases r)
      case None
      with assms c f False show thesis by (intro that(2) [of Sent None w]) (auto simp: Close_finish_def drainBuffer_def)
    next
      case (Some e)
      with assms c f False show thesis
        by (intro that(2) [of Dropped "Some (Wrap (''batch: final flush for '' @ beName env @ '': '') e)" w])
          (auto simp: Close_finish_def drainBuffer_def)
    qed
  qed
qed

lemmas batch_effects = Handle_send_Some run_receive_Some run_drain_Some run_tick_Some run_flush_Some Close_finish_Some
lemmas batch_parts = accounted_def sizes_ok_def phases_ok_def drops_ok_def

lemma batch_invariant_step:
  assumes "batch_step env h h'" and "accounted h" and "sizes_ok env h" and "phases_ok h" and "drops_ok env h"
  shows "accounted h' \<and> sizes_ok env h' \<and> phases_ok h' \<and> drops_ok env h'"
  using assms(1)
proof cases
  case (handle ctx e r)
  then have "h' = h \<or> (\<exists>x. h' = h\<lparr>bhSenders := x\<rparr>)" by (auto simp: Handle_check_def split: if_splits)
  with assms(2-) show ?thesis by (elim disjE exE) (simp_all add: batch_parts)
next
  case (send i)
  then show ?thesis
    using assms(2-) by (cases rule: Handle_send_Some) (simp_all add: batch_parts, blast)
next
  case receive
  then show ?thesis
    using assms(2-) by (cases rule: run_receive_Some) (simp_all add: batch_parts in_flight_def batch_size_ok_def)
next
  case drain
  then show ?thesis
    using assms(2-) MaxBatch_pos by (cases rule: run_drain_Some) (simp_all add: batch_parts in_flight_def batch_size_ok_def)
next
  case tick
  then show ?thesis
    using assms(2-) MaxBatch_pos by (cases rule: run_tick_Some) (simp_all add: batch_parts in_flight_def batch_size_ok_def)
next
  case flush
  then show ?thesis
    using assms(2-) MaxBatch_pos by (cases rule: run_flush_Some) (auto simp: batch_parts in_flight_def)
next
  case close
  then show ?thesis
    using assms(2-) by (cases "bhClosed h") (simp_all add: Close_begin_def batch_parts)
next
  case finish
  then show ?thesis
    using assms(2-) MaxBatch_pos by (cases rule: Close_finish_Some) (simp_all add: batch_parts in_flight_def batch_size_ok_def)
qed

lemma batch_world [simp]:
  "accounted (h\<lparr>bhWorld := w\<rparr>) = accounted h" "sizes_ok env (h\<lparr>bhWorld := w\<rparr>) = sizes_ok env h"
  "phases_ok (h\<lparr>bhWorld := w\<rparr>) = phases_ok h" "drops_ok env (h\<lparr>bhWorld := w\<rparr>) = drops_ok env h"
  by (simp_all add: batch_parts)

lemma reachable_invariant:
  "reachable env h \<Longrightarrow> accounted h \<and> sizes_ok env h \<and> phases_ok h \<and> drops_ok env h"
proof (induction rule: reachable.induct)
  case (start w)
  show ?case
    by (simp add: NewBatch_def accounted_def in_flight_def sizes_ok_def phases_ok_def drops_ok_def MaxBatch_pos)
qed (use batch_invariant_step in auto)

section \<open>Close comes to its end\<close>

text \<open>\<open>run\<close> can always get back to its select, and closed it empties the channel and stops.\<close>

lemma run_flush_enabled: "bhRun h = Flushing b \<Longrightarrow> \<exists>h'. run_flush env h = Some h'"
  by (simp add: run_flush_def split: prod.split option.split)

lemma run_receive_enabled:
  "bhRun h = Selecting \<Longrightarrow> bhCh h = be # rest \<Longrightarrow> \<exists>h'. run_receive env h = Some h' \<and> bhCh h' = rest \<and>
    bhRun h' \<noteq> RunDone \<and> bhChClosed h' = bhChClosed h \<and> bhClose h' = bhClose h"
  by (simp add: run_receive_def Let_def)

lemma Close_finish_enabled: "bhClose h = AwaitDone \<Longrightarrow> bhRun h = RunDone \<Longrightarrow> \<exists>h'. Close_finish env h = Some h'"
  by (simp add: Close_finish_def drainBuffer_def split: prod.split option.split)

lemma run_selects:
  assumes "bhRun h \<noteq> RunDone"
  shows "\<exists>h'. (batch_step env)\<^sup>*\<^sup>* h h' \<and> bhRun h' = Selecting \<and> bhCh h' = bhCh h \<and> bhChClosed h' = bhChClosed h \<and>
    bhClose h' = bhClose h"
proof -
  have fl: "\<exists>h'. batch_step env g h' \<and> bhRun h' = Selecting \<and> bhCh h' = bhCh g \<and> bhChClosed h' = bhChClosed g \<and>
      bhClose h' = bhClose g" if "bhRun g = Flushing b" for g b
  proof -
    note b = that
    obtain h' where "run_flush env g = Some h'" using run_flush_enabled [OF b] by blast
    moreover from this have "bhRun h' = Selecting \<and> bhCh h' = bhCh g \<and> bhChClosed h' = bhChClosed g \<and> bhClose h' = bhClose g"
      by (rule run_flush_Some) simp
    ultimately show ?thesis using batch_step.flush by blast
  qed
  show ?thesis
  proof (cases "bhRun h")
    case (Flushing b)
    with fl show ?thesis by blast
  next
    case ShouldFlush
    then obtain g where g: "run_drain h = Some g" by (simp add: run_drain_def drainBuffer_def)
    then have same: "bhCh g = bhCh h" "bhChClosed g = bhChClosed h" "bhClose g = bhClose h"
        "bhRun g = Selecting \<or> (\<exists>b. bhRun g = Flushing b)"
      by (auto elim!: run_drain_Some split: if_splits)
    note s = batch_step.drain [OF g, of env]
    from same(4) show ?thesis
    proof (elim disjE exE)
      fix b
      assume "bhRun g = Flushing b"
      from fl [OF this] s same show ?thesis by (metis r_into_rtranclp rtranclp_trans)
    qed (use s same in blast)
  qed (use assms in auto)
qed

lemma run_stops:
  assumes "bhRun h \<noteq> RunDone" and "bhChClosed h"
  shows "\<exists>h'. (batch_step env)\<^sup>*\<^sup>* h h' \<and> bhRun h' = RunDone \<and> bhClose h' = bhClose h"
  using assms
proof (induction "bhCh h" arbitrary: h)
  case Nil
  obtain g where g: "(batch_step env)\<^sup>*\<^sup>* h g" "bhRun g = Selecting" "bhCh g = bhCh h" "bhChClosed g = bhChClosed h"
      "bhClose g = bhClose h" using run_selects [OF Nil(2), of env] by blast
  have "run_receive env g = Some (g\<lparr>bhRun := RunDone\<rparr>)" using g Nil by (simp add: run_receive_def)
  from rtranclp.rtrancl_into_rtrancl [OF g(1) batch_step.receive [OF this]] g(5) show ?case by force
next
  case (Cons be rest)
  obtain g where g: "(batch_step env)\<^sup>*\<^sup>* h g" "bhRun g = Selecting" "bhCh g = bhCh h" "bhChClosed g = bhChClosed h"
      "bhClose g = bhClose h" using run_selects [OF Cons(3), of env] by blast
  then obtain k where k: "run_receive env g = Some k" "bhCh k = rest" "bhRun k \<noteq> RunDone" "bhChClosed k" "bhClose k = bhClose h"
    using Cons(2,4) run_receive_enabled [of g be rest env] by auto
  with Cons(1) [of k] rtranclp.rtrancl_into_rtrancl [OF g(1) batch_step.receive [OF k(1)]] k show ?case
    by (metis rtranclp_trans)
qed

lemma reachable_steps: "(batch_step env)\<^sup>*\<^sup>* h h' \<Longrightarrow> reachable env h \<Longrightarrow> reachable env h'"
  by (induction rule: rtranclp_induct) (auto intro: reachable.step)

text \<open>Nothing is accepted any more once the handler is closed.\<close>

lemma closed_step:
  assumes "batch_step env h h'" and "bhClosed h" and "bhChClosed h"
  shows "bhAccepted h' = bhAccepted h \<and> bhClosed h' \<and> bhChClosed h'"
  using assms
  by (cases rule: batch_step.cases)
    (auto simp: Handle_check_def Close_begin_def elim!: batch_effects split: if_splits)

lemma closed_accepts_nothing:
  assumes "(batch_step env)\<^sup>*\<^sup>* h h'" and "reachable env h" and "bhClosed h"
  shows "bhAccepted h' = bhAccepted h"
proof -
  have "bhChClosed h" using reachable_invariant [OF assms(2)] assms(3) by (simp add: phases_ok_def)
  with assms(1,3) have "bhAccepted h' = bhAccepted h \<and> bhClosed h' \<and> bhChClosed h'"
    by (induction rule: rtranclp_induct) (use closed_step in force)+
  then show ?thesis by simp
qed

section \<open>Properties\<close>

text \<open>
  C30 Batching neither loses, doubles nor reorders: at every moment of every interleaving of \<^verbatim>\<open>Handle\<close>,
  \<^verbatim>\<open>run\<close> and \<^verbatim>\<open>Close\<close>, the accepted events in order are those of the settled batches, then of the batch in
  flight, the buffer and the channel; a batch holds between one and \<^verbatim>\<open>MaxSize\<close> events. When \<^verbatim>\<open>Close\<close> has
  returned every accepted event is settled, and with a dead letter queue each was sent or handed to the
  queue unless \<^verbatim>\<open>Close\<close> returned an error.
\<close>

theorem batch_accounts_events:
  assumes "reachable env h"
  shows "bhAccepted h = concat (map snd (bhSettled h)) @ in_flight (bhRun h) @ bhBuffer h @ bhCh h \<and>
    (\<forall>x \<in> set (bhSettled h). snd x \<noteq> [] \<and> length (snd x) \<le> MaxBatch env) \<and>
    (\<forall>r. bhClose h = CloseReturned r \<longrightarrow> bhAccepted h = concat (map snd (bhSettled h)) \<and>
       (beDLQ env \<noteq> None \<and> r = None \<longrightarrow> (\<forall>x \<in> set (bhSettled h). fst x \<noteq> Dropped)))"
proof -
  have i: "accounted h" "sizes_ok env h" "phases_ok h" "drops_ok env h" using reachable_invariant [OF assms] by auto
  have "bhAccepted h = concat (map snd (bhSettled h))" if "bhClose h = CloseReturned r" for r
    using i(1,3) that by (simp add: accounted_def phases_ok_def in_flight_def)
  moreover have "\<forall>x \<in> set (bhSettled h). fst x \<noteq> Dropped" if "bhClose h = CloseReturned None" "beDLQ env \<noteq> None"
    using i(4) that by (force simp: drops_ok_def)
  ultimately show ?thesis using i(1,2) by (auto simp: accounted_def sizes_ok_def batch_size_ok_def)
qed

text \<open>
  C31 \<^verbatim>\<open>Close\<close> always can finish: from every state in which \<^verbatim>\<open>Close\<close> waits for the goroutine, the goroutine's
  own steps empty the channel and stop it, \<^verbatim>\<open>Close\<close> returns, and then every accepted event is settled.
\<close>

theorem batch_close_completes:
  assumes "reachable env h" and "bhClose h = AwaitDone"
  shows "\<exists>h' r. (batch_step env)\<^sup>*\<^sup>* h h' \<and> bhClose h' = CloseReturned r \<and> bhAccepted h' = concat (map snd (bhSettled h'))"
proof -
  have "bhChClosed h" using reachable_invariant [OF assms(1)] assms(2) by (simp add: phases_ok_def)
  then obtain g where g: "(batch_step env)\<^sup>*\<^sup>* h g" "bhRun g = RunDone" "bhClose g = AwaitDone"
    using run_stops [of h env] assms(2) by (cases "bhRun h = RunDone") auto
  then obtain k where k: "Close_finish env g = Some k" using Close_finish_enabled by blast
  then obtain r where r: "bhClose k = CloseReturned r" by (auto elim!: Close_finish_Some)
  have s: "(batch_step env)\<^sup>*\<^sup>* h k" using g(1) batch_step.finish [OF k] by (rule rtranclp.rtrancl_into_rtrancl)
  from reachable_invariant [OF reachable_steps [OF s assms(1)]] r have "bhAccepted k = concat (map snd (bhSettled k))"
    by (simp add: accounted_def phases_ok_def in_flight_def)
  with s r show ?thesis by blast
qed

text \<open>A flusher that takes only batches of two, and a queue of identifiers.\<close>

definition demo_batch_env :: "(nat list \<times> string list) BatchEnv" where
  "demo_batch_env = \<lparr>beName = ''slack'', beConfig = \<lparr>Enabled = True, MaxSize = 2, FlushInterval = 0\<rparr>,
     beFlusher = (\<lambda>es w. if length es = 2 then (None, (fst w @ [2], snd w)) else (Some (Err ''status 500''), w)),
     beDLQ = Some (\<lambda>v e w. (None, (fst w, snd w @ [CloudEventID v])))\<rparr>"

definition demo_batch_ctx :: "string \<Rightarrow> Ctx" where
  "demo_batch_ctx i = \<lparr>CloudEventIDKey = Some i, CtxTimeout = None\<rparr>"

definition demo_be :: "string \<Rightarrow> bufferedEvent" where
  "demo_be i = \<lparr>beCloudEventID = i, beEvent = zero_event\<rparr>"

lemma demo_sizes: "MaxBatch demo_batch_env = 2" "channel_cap demo_batch_env = 4"
  by (simp_all add: MaxBatch_def channel_cap_def ApplyDefaults_def demo_batch_env_def Let_def)

lemmas demo_run = demo_batch_env_def demo_batch_ctx_def demo_be_def batch_ops NewBatch_def extractEvents_def Let_def demo_sizes [unfolded demo_batch_env_def]

text \<open>One caller's event on its way into the channel.\<close>

definition handled :: "bufferedEvent \<Rightarrow> 'w BatchHandler \<Rightarrow> 'w BatchHandler" where
  "handled be h = h\<lparr>bhCh := bhCh h @ [be], bhAccepted := bhAccepted h @ [be]\<rparr>"

lemma reachable_handled:
  assumes "reachable env h" and "\<not> bhClosed h" and "\<not> bhChClosed h" and "bhSenders h = []" and "length (bhCh h) < channel_cap env"
  shows "reachable env (handled \<lparr>beCloudEventID = i, beEvent = e\<rparr> h)"
proof -
  let ?be = "\<lparr>beCloudEventID = i, beEvent = e\<rparr>"
  have "Handle_check env (demo_batch_ctx i) e h = (None, h\<lparr>bhSenders := [?be]\<rparr>)"
    using assms(2,4) by (simp add: Handle_check_def demo_batch_ctx_def)
  from reachable.step [OF assms(1) batch_step.handle [OF this]] have 1: "reachable env (h\<lparr>bhSenders := [?be]\<rparr>)" .
  have "Handle_send env 0 (h\<lparr>bhSenders := [?be]\<rparr>) = Some (handled ?be h)"
    using assms(3,4,5) by (cases h) (simp add: Handle_send_def handled_def Let_def)
  from reachable.step [OF 1 batch_step.send [OF this]] show ?thesis .
qed

lemma demo_reachable:
  "reachable demo_batch_env (handled (demo_be ''b'') (handled (demo_be ''a'') (NewBatch ([], []))))"
  unfolding demo_be_def
  by (intro reachable_handled reachable.start) (simp_all add: NewBatch_def handled_def demo_sizes)

theorem batch_accounts_events_witness:
  "reachable demo_batch_env (handled (demo_be ''b'') (handled (demo_be ''a'') (NewBatch ([], [])))) \<and>
   [demo_be ''a'', demo_be ''b''] = concat (map snd []) @ in_flight Selecting @ [] @ [demo_be ''a'', demo_be ''b'']"
  using demo_reachable batch_accounts_events [OF demo_reachable] by (simp add: NewBatch_def handled_def)

theorem batch_close_completes_witness:
  "\<exists>h r. reachable demo_batch_env h \<and> bhClose h = CloseReturned r \<and> bhAccepted h = [demo_be ''a'', demo_be ''b''] \<and>
     concat (map snd (bhSettled h)) = [demo_be ''a'', demo_be ''b'']"
proof -
  let ?h = "handled (demo_be ''b'') (handled (demo_be ''a'') (NewBatch ([] :: nat list, [] :: string list)))"
  have c: "reachable demo_batch_env (Close_begin ?h)" by (rule reachable.step [OF demo_reachable batch_step.close])
  have "bhClose (Close_begin ?h) = AwaitDone" "bhClosed (Close_begin ?h)" "bhAccepted (Close_begin ?h) = [demo_be ''a'', demo_be ''b'']"
    by (simp_all add: Close_begin_def handled_def NewBatch_def)
  from batch_close_completes [OF c this(1)] obtain h' r where
    h': "(batch_step demo_batch_env)\<^sup>*\<^sup>* (Close_begin ?h) h'" "bhClose h' = CloseReturned r" "bhAccepted h' = concat (map snd (bhSettled h'))"
    by blast
  have "bhAccepted h' = bhAccepted (Close_begin ?h)" using closed_accepts_nothing [OF h'(1) c \<open>bhClosed (Close_begin ?h)\<close>] .
  with h' reachable_steps [OF h'(1) c] \<open>bhAccepted (Close_begin ?h) = _\<close> show ?thesis by auto
qed

text \<open>
  C36 The last flush is not covered by the dead letter queue: whenever the flusher fails on a batch that
  only \<^verbatim>\<open>Close\<close> sends, an accepted event is neither sent nor handed to the queue, although a queue is
  configured; the caller of \<^verbatim>\<open>Handle\<close> was told that all is well.
\<close>

theorem batch_close_drops_events:
  assumes "beFlusher env [e] w = (Some er, w')" and "1 < MaxBatch env"
  shows "\<exists>h. reachable env h \<and> bhAccepted h = [\<lparr>beCloudEventID = i, beEvent = e\<rparr>] \<and>
    bhSettled h = [(Dropped, [\<lparr>beCloudEventID = i, beEvent = e\<rparr>])] \<and> bhWorld h = w'"
proof -
  let ?be = "\<lparr>beCloudEventID = i, beEvent = e\<rparr>"
  have cap: "0 < channel_cap env" using assms(2) by (simp add: channel_cap_def MaxBatch_def)
  let ?h1 = "handled ?be (NewBatch w)"
  have 1: "reachable env ?h1"
    using cap by (intro reachable_handled reachable.start) (simp_all add: NewBatch_def)
  let ?h2 = "?h1\<lparr>bhCh := [], bhBuffer := [?be]\<rparr>"
  have "run_receive env ?h1 = Some ?h2"
    using assms(2) by (simp add: run_receive_def handled_def NewBatch_def Let_def)
  note 2 = reachable.step [OF reachable.step [OF 1 batch_step.receive [OF this]] batch_step.close]
  let ?h3 = "(Close_begin ?h2)\<lparr>bhRun := RunDone\<rparr>"
  have "run_receive env (Close_begin ?h2) = Some ?h3"
    by (simp add: run_receive_def handled_def NewBatch_def Close_begin_def)
  note 3 = reachable.step [OF 2 batch_step.receive [OF this]]
  obtain h4 where "Close_finish env ?h3 = Some h4" and h4: "bhAccepted h4 = [?be]" "bhSettled h4 = [(Dropped, [?be])]" "bhWorld h4 = w'"
    using assms(1) by (simp add: Close_finish_def drainBuffer_def handled_def NewBatch_def Close_begin_def extractEvents_def)
  from reachable.step [OF 3 batch_step.finish [OF this(1)]] h4 show ?thesis by blast
qed

theorem batch_close_drops_events_witness:
  "\<exists>h. reachable demo_batch_env h \<and> bhSettled h = [(Dropped, [demo_be ''a''])] \<and> bhWorld h = ([], [])"
  using batch_close_drops_events [of demo_batch_env zero_event "([], [])" "Err ''status 500''" "([], [])" "''a''"]
  by (auto simp: demo_sizes demo_be_def) (auto simp: demo_batch_env_def)

text \<open>
  C35 \<^verbatim>\<open>Handle\<close> and \<^verbatim>\<open>Close\<close> race: the check that the handler is open and the send are separate steps, so a
  caller can pass the check, \<^verbatim>\<open>Close\<close> can close the channel, and the send then panics, for every
  configuration.
\<close>

theorem batch_handle_close_race_panics:
  "\<exists>h :: 'w BatchHandler. reachable env h \<and> bhPanic h \<and> bhAccepted h = []"
proof -
  fix w :: 'w
  let ?be = "\<lparr>beCloudEventID = '''', beEvent = zero_event\<rparr>"
  let ?h1 = "(NewBatch w)\<lparr>bhSenders := [?be]\<rparr>"
  have "Handle_check env \<lparr>CloudEventIDKey = None, CtxTimeout = None\<rparr> zero_event (NewBatch w) = (None, ?h1)"
    by (simp add: Handle_check_def NewBatch_def)
  note 2 = reachable.step [OF reachable.step [OF reachable.start batch_step.handle [OF this]] batch_step.close]
  have "Handle_send env 0 (Close_begin ?h1) = Some ((Close_begin ?h1)\<lparr>bhSenders := [], bhPanic := True\<rparr>)"
    by (simp add: Handle_send_def Close_begin_def NewBatch_def)
  from reachable.step [OF 2 batch_step.send [OF this]] show ?thesis
    by (intro exI conjI, assumption) (simp_all add: Close_begin_def NewBatch_def)
qed

end
