(* ===== verification/Relay_Tekton.thy ===== *)
theory Relay_Tekton
  imports Relay_Codec
begin

text \<open>
  Package \<^verbatim>\<open>internal/event/tekton\<close>: the four decoders that turn the payload of a Tekton CloudEvent into a
  neutral event. A payload is parsed from its bytes; \<open>raw\<close> gives the text of a result's value as it
  stands in the payload.
\<close>

section \<open>Payloads\<close>

text \<open>Kinds of fields that are only read: maps of strings, pointers to a time, and raw values.\<close>

definition read_field :: "string \<Rightarrow> (json \<Rightarrow> 'r \<Rightarrow> 'r option) \<Rightarrow> 'r field" where
  "read_field n dec = \<lparr>fdName = n, fdEnc = \<lambda>_. Omit, fdDec = dec\<rparr>"

text \<open>Members of a map: a string, or null for the empty string.\<close>

fun decode_strings :: "(string \<times> json) list \<Rightarrow> (string, string) gomap \<Rightarrow> (string, string) gomap option" where
  "decode_strings [] m = Some m"
| "decode_strings ((k, v) # ms) m =
     (case v of
        JStr s \<Rightarrow> decode_strings ms (AList.update k s m)
      | JNull \<Rightarrow> decode_strings ms (AList.update k '''' m)
      | _ \<Rightarrow> None)"

text \<open>A nil map (None) is what an absent member or null leaves.\<close>

type_synonym StrMap = "(string, string) gomap option"

definition str_map_field :: "string \<Rightarrow> ('r \<Rightarrow> StrMap) \<Rightarrow> ((StrMap \<Rightarrow> StrMap) \<Rightarrow> 'r \<Rightarrow> 'r) \<Rightarrow> 'r field" where
  "str_map_field n get upd = read_field n (\<lambda>j r.
     case j of
       JObj ms \<Rightarrow> map_option (\<lambda>m. upd (\<lambda>_. Some m) r) (decode_strings ms (case get r of None \<Rightarrow> [] | Some m \<Rightarrow> m))
     | JNull \<Rightarrow> Some (upd (\<lambda>_. None) r)
     | _ \<Rightarrow> None)"

definition time_ptr_field :: "string \<Rightarrow> ((Time option \<Rightarrow> Time option) \<Rightarrow> 'r \<Rightarrow> 'r) \<Rightarrow> 'r field" where
  "time_ptr_field n upd = read_field n (\<lambda>j r.
     case j of
       JStr s \<Rightarrow> map_option (\<lambda>t. upd (\<lambda>_. Some t) r) (parse_rfc3339 s)
     | JNull \<Rightarrow> Some (upd (\<lambda>_. None) r)
     | _ \<Rightarrow> None)"

definition raw_field :: "string \<Rightarrow> ((json option \<Rightarrow> json option) \<Rightarrow> 'r \<Rightarrow> 'r) \<Rightarrow> 'r field" where
  "raw_field n upd = read_field n (\<lambda>j r. Some (upd (\<lambda>_. Some j) r))"

text \<open>Lookup in a possibly nil map.\<close>

definition lookup_str :: "StrMap \<Rightarrow> string \<Rightarrow> string" where
  "lookup_str m k = (case m of None \<Rightarrow> '''' | Some l \<Rightarrow> gomap_str l k)"

record runMeta =
  rmName :: string
  rmNamespace :: string
  rmUID :: string
  rmAnnotations :: StrMap
  rmLabels :: StrMap

record childReference =
  crAPIVersion :: string
  crKind :: string
  crName :: string
  crPipelineTaskName :: string

record runResult =
  rrName :: string
  rrValue :: "json option"

record condition =
  cdType :: string
  cdStatus :: string
  cdReason :: string
  cdMessage :: string

record specName =
  spDisplayName :: string

record runStatus =
  rsStartTime :: "Time option"
  rsCompletionTime :: "Time option"
  rsConditions :: "condition list"
  rsPipelineResults :: "runResult list"
  rsTaskResults :: "runResult list"
  rsPipelineSpec :: "specName option"
  rsTaskSpec :: "specName option"
  rsChildReferences :: "childReference list"

record runObject =
  Metadata :: runMeta
  Status :: runStatus

definition zero_meta :: runMeta where
  "zero_meta = \<lparr>rmName = '''', rmNamespace = '''', rmUID = '''', rmAnnotations = None, rmLabels = None\<rparr>"

definition zero_child :: childReference where
  "zero_child = \<lparr>crAPIVersion = '''', crKind = '''', crName = '''', crPipelineTaskName = ''''\<rparr>"

definition zero_runResult :: runResult where "zero_runResult = \<lparr>rrName = '''', rrValue = None\<rparr>"

definition zero_condition :: condition where
  "zero_condition = \<lparr>cdType = '''', cdStatus = '''', cdReason = '''', cdMessage = ''''\<rparr>"

definition zero_spec :: specName where "zero_spec = \<lparr>spDisplayName = ''''\<rparr>"

definition zero_status :: runStatus where
  "zero_status = \<lparr>rsStartTime = None, rsCompletionTime = None, rsConditions = [], rsPipelineResults = [], rsTaskResults = [],
     rsPipelineSpec = None, rsTaskSpec = None, rsChildReferences = []\<rparr>"

definition zero_run :: runObject where "zero_run = \<lparr>Metadata = zero_meta, Status = zero_status\<rparr>"

definition meta_fields :: "runMeta field list" where
  "meta_fields = [str_field ''name'' rmName rmName_update, str_field ''namespace'' rmNamespace rmNamespace_update,
     str_field ''uid'' rmUID rmUID_update, str_map_field ''annotations'' rmAnnotations rmAnnotations_update,
     str_map_field ''labels'' rmLabels rmLabels_update]"

definition child_fields :: "childReference field list" where
  "child_fields = [str_field ''apiVersion'' crAPIVersion crAPIVersion_update, str_field ''kind'' crKind crKind_update,
     str_field ''name'' crName crName_update, str_field ''pipelineTaskName'' crPipelineTaskName crPipelineTaskName_update]"

definition runResult_fields :: "runResult field list" where
  "runResult_fields = [str_field ''name'' rrName rrName_update, raw_field ''value'' rrValue_update]"

definition condition_fields :: "condition field list" where
  "condition_fields = [str_field ''type'' cdType cdType_update, str_field ''status'' cdStatus cdStatus_update,
     str_field ''reason'' cdReason cdReason_update, str_field ''message'' cdMessage cdMessage_update]"

definition spec_fields :: "specName field list" where
  "spec_fields = [str_field ''displayName'' spDisplayName spDisplayName_update]"

definition status_fields :: "runStatus field list" where
  "status_fields = [time_ptr_field ''startTime'' rsStartTime_update, time_ptr_field ''completionTime'' rsCompletionTime_update,
     list_field ''conditions'' condition_fields zero_condition rsConditions rsConditions_update,
     list_field ''pipelineResults'' runResult_fields zero_runResult rsPipelineResults rsPipelineResults_update,
     list_field ''taskResults'' runResult_fields zero_runResult rsTaskResults rsTaskResults_update,
     ptr_field ''pipelineSpec'' spec_fields zero_spec rsPipelineSpec rsPipelineSpec_update,
     ptr_field ''taskSpec'' spec_fields zero_spec rsTaskSpec rsTaskSpec_update,
     list_field ''childReferences'' child_fields zero_child rsChildReferences rsChildReferences_update]"

definition run_fields :: "runObject field list" where
  "run_fields = [struct_field ''metadata'' meta_fields Metadata Metadata_update,
     struct_field ''status'' status_fields Status Status_update]"

section \<open>Shared helpers\<close>

definition MapState :: "string \<Rightarrow> State" where
  "MapState t =
     (if HasSuffix t ''.queued.v1'' \<or> HasSuffix t ''.started.v1'' then StatePending
      else if HasSuffix t ''.running.v1'' \<or> HasSuffix t ''.unknown.v1'' then StateRunning
      else if HasSuffix t ''.successful.v1'' then StateSuccess
      else if HasSuffix t ''.failed.v1'' then StateFailure
      else if HasSuffix t ''.cancelled.v1'' then StateCanceled
      else if HasSuffix t ''.error.v1'' then StateError
      else StatePending)"

definition type_description :: "string \<Rightarrow> string" where
  "type_description t =
     (if HasSuffix t ''.queued.v1'' then ''Queued''
      else if HasSuffix t ''.started.v1'' then ''Started''
      else if HasSuffix t ''.running.v1'' then ''Running''
      else if HasSuffix t ''.successful.v1'' then ''Succeeded''
      else if HasSuffix t ''.failed.v1'' then ''Failed''
      else if HasSuffix t ''.cancelled.v1'' then ''Canceled''
      else if HasSuffix t ''.error.v1'' then ''Error''
      else '''')"

text \<open>A message is cut to 140 bytes.\<close>

fun condition_message :: "condition list \<Rightarrow> string option" where
  "condition_message [] = None"
| "condition_message (c # cs) =
     (if cdType c = ''Succeeded'' \<and> cdMessage c \<noteq> ''''
      then Some (if length (cdMessage c) \<le> 140 then cdMessage c else take 137 (cdMessage c) @ ''...'')
      else condition_message cs)"

definition descriptionFor :: "runObject \<Rightarrow> string \<Rightarrow> string" where
  "descriptionFor obj t =
     (case condition_message (rsConditions (Status obj)) of Some m \<Rightarrow> m | None \<Rightarrow> type_description t)"

definition rawMessageToString :: "(json \<Rightarrow> string) \<Rightarrow> json option \<Rightarrow> string" where
  "rawMessageToString raw v = (case v of None \<Rightarrow> '''' | Some (JStr s) \<Rightarrow> s | Some j \<Rightarrow> raw j)"

abbreviation anno :: "string \<Rightarrow> string" where "anno k \<equiv> ''tekton.dev/tekton-events-relay.'' @ k"

definition AnnoProvider :: string where "AnnoProvider = anno ''scm.provider''"
definition AnnoContext :: string where "AnnoContext = anno ''scm.context''"
definition AnnoAccumulatorGroupID :: string where "AnnoAccumulatorGroupID = anno ''accumulator.group-id''"

definition annotation :: "runObject \<Rightarrow> string \<Rightarrow> string" where
  "annotation obj k = lookup_str (rmAnnotations (Metadata obj)) k"

definition label :: "runObject \<Rightarrow> string \<Rightarrow> string" where
  "label obj k = lookup_str (rmLabels (Metadata obj)) k"

definition baseEventFromRun :: "runObject \<Rightarrow> Resource \<Rightarrow> string \<Rightarrow> Event result" where
  "baseEventFromRun obj res t =
     (let provider = annotation obj AnnoProvider
      in if provider = '''' then
           Inl (Err (''missing annotation '' @ AnnoProvider @ '' on '' @ rmNamespace (Metadata obj) @ ''/'' @ rmName (Metadata obj)))
         else Inr (zero_event\<lparr>Provider := provider, ResourceOf := res,
           APIBaseURL := annotation obj (anno ''scm.api-base-url''), CommitSHA := annotation obj (anno ''scm.commit-sha''),
           RepoOf := \<lparr>Owner = annotation obj (anno ''scm.repo-owner''), RepoName = annotation obj (anno ''scm.repo-name''),
             RepoID = annotation obj (anno ''scm.repo-id''), Workspace = annotation obj (anno ''scm.repo-workspace''),
             Project = annotation obj (anno ''scm.repo-project''), Org = annotation obj (anno ''scm.repo-org'')\<rparr>,
           StateOf := MapState t, Description := descriptionFor obj t, RunName := rmName (Metadata obj),
           RunID := rmUID (Metadata obj), Namespace := rmNamespace (Metadata obj),
           AccumulatorGroupID := annotation obj AnnoAccumulatorGroupID\<rparr>))"

definition optionalInt :: "runObject \<Rightarrow> string \<Rightarrow> int option" where
  "optionalInt obj k = (if annotation obj k = '''' then None else Atoi (annotation obj k))"

definition applyTimestamps :: "runObject \<Rightarrow> Event \<Rightarrow> Event" where
  "applyTimestamps obj e =
     (let e1 = (case rsStartTime (Status obj) of None \<Rightarrow> e | Some t \<Rightarrow> e\<lparr>StartedAt := t\<rparr>)
      in case rsCompletionTime (Status obj) of None \<Rightarrow> e1 | Some t \<Rightarrow> e1\<lparr>FinishedAt := t\<rparr>)"

definition applyOptionalNumbers :: "runObject \<Rightarrow> Event \<Rightarrow> Event" where
  "applyOptionalNumbers obj e = e\<lparr>IssueNumber := optionalInt obj (anno ''scm.issue-number''),
     PRNumber := optionalInt obj (anno ''scm.pr-number''), DiscussionNumber := optionalInt obj (anno ''scm.discussion-number''),
     JiraIssueKey := annotation obj (anno ''jira.issue-key'')\<rparr>"

definition results_of :: "(json \<Rightarrow> string) \<Rightarrow> runResult list \<Rightarrow> Result list" where
  "results_of raw rs = map (\<lambda>r. \<lparr>ResultName = rrName r, ResultValue = rawMessageToString raw (rrValue r)\<rparr>) rs"

definition envelope_of :: "RawEvent \<Rightarrow> Event \<Rightarrow> Envelope" where
  "envelope_of r e = \<lparr>CloudEventID = RawID r, CloudEventType = RawType r, Source = RawSource r, Report = e\<rparr>"

text \<open>The payload is an object with the run under one member; a missing or null member is no run.\<close>

definition payload_fields :: "string \<Rightarrow> runObject option field list" where
  "payload_fields n = [ptr_field n run_fields zero_run (\<lambda>r. r) (\<lambda>f. f)]"

definition decode_payload :: "string \<Rightarrow> RawEvent \<Rightarrow> runObject result" where
  "decode_payload n r =
     (case Unmarshal (payload_fields n) None (RawData r) of
        Inl e \<Rightarrow> Inl (Wrap ''unmarshal payload: '' e)
      | Inr None \<Rightarrow> Inl (Err (''payload has no '' @ n))
      | Inr (Some obj) \<Rightarrow> Inr obj)"

section \<open>Runs\<close>

definition first_nonempty :: "string list \<Rightarrow> string \<Rightarrow> string" where
  "first_nonempty xs d = (case List.find (\<lambda>x. x \<noteq> '''') xs of Some x \<Rightarrow> x | None \<Rightarrow> d)"

definition prefix_tekton :: "string \<Rightarrow> string" where
  "prefix_tekton s = (if s = '''' then '''' else ''tekton/'' @ s)"

definition contextOfTaskRun :: "runObject \<Rightarrow> string \<Rightarrow> string \<Rightarrow> string \<Rightarrow> string" where
  "contextOfTaskRun obj displayName pipelineTaskName taskName =
     first_nonempty [annotation obj AnnoContext, prefix_tekton displayName, prefix_tekton pipelineTaskName, prefix_tekton taskName]
       (''tekton/task/'' @ rmName (Metadata obj))"

definition spec_name :: "specName option \<Rightarrow> string" where
  "spec_name s = (case s of None \<Rightarrow> '''' | Some x \<Rightarrow> spDisplayName x)"

definition taskrun_report :: "(json \<Rightarrow> string) \<Rightarrow> runObject \<Rightarrow> Event \<Rightarrow> Event" where
  "taskrun_report raw obj e =
     (let e1 = e\<lparr>TaskName := label obj ''tekton.dev/task'', PipelineName := label obj ''tekton.dev/pipeline'',
            PipelineTaskName := label obj ''tekton.dev/pipelineTask'', TriggerName := label obj ''triggers.tekton.dev/trigger'',
            IsFinallyTask := (label obj ''tekton.dev/memberOf'' = ''finally''),
            TaskDisplayName := spec_name (rsTaskSpec (Status obj))\<rparr>;
          e2 = e1\<lparr>Context := contextOfTaskRun obj (TaskDisplayName e1) (PipelineTaskName e1) (TaskName e1)\<rparr>;
          e3 = applyTimestamps obj (applyOptionalNumbers obj e2)
      in if length (rsTaskResults (Status obj)) > 0 then e3\<lparr>Results := results_of raw (rsTaskResults (Status obj))\<rparr> else e3)"

definition TaskRun_Decode :: "(json \<Rightarrow> string) \<Rightarrow> RawEvent \<Rightarrow> Envelope result" where
  "TaskRun_Decode raw r =
     (if \<not> HasPrefix (RawType r) ''dev.tekton.event.taskrun.'' then Inl (Err (''not a taskrun event: '' @ RawType r))
      else case decode_payload ''taskRun'' r of
             Inl e \<Rightarrow> Inl e
           | Inr obj \<Rightarrow>
               (case baseEventFromRun obj ResourceTaskRun (RawType r) of
                  Inl e \<Rightarrow> Inl e | Inr e \<Rightarrow> Inr (envelope_of r (taskrun_report raw obj e))))"

definition contextOfPipelineRun :: "runObject \<Rightarrow> string \<Rightarrow> string \<Rightarrow> string" where
  "contextOfPipelineRun obj displayName pipelineName =
     first_nonempty [annotation obj AnnoContext, prefix_tekton displayName, prefix_tekton pipelineName]
       (''tekton/'' @ rmName (Metadata obj))"

definition pipelinerun_report :: "(json \<Rightarrow> string) \<Rightarrow> runObject \<Rightarrow> Event \<Rightarrow> Event" where
  "pipelinerun_report raw obj e =
     (let e1 = e\<lparr>PipelineName := label obj ''tekton.dev/pipeline'', TriggerName := label obj ''triggers.tekton.dev/trigger'',
            PipelineDisplayName := spec_name (rsPipelineSpec (Status obj))\<rparr>;
          e2 = e1\<lparr>Context := contextOfPipelineRun obj (PipelineDisplayName e1) (PipelineName e1)\<rparr>;
          e3 = applyTimestamps obj (applyOptionalNumbers obj e2);
          e4 = (if length (rsPipelineResults (Status obj)) > 0
                then e3\<lparr>Results := results_of raw (rsPipelineResults (Status obj))\<rparr> else e3)
      in e4\<lparr>TaskCount := int (length (rsChildReferences (Status obj)))\<rparr>)"

definition PipelineRun_Decode :: "(json \<Rightarrow> string) \<Rightarrow> RawEvent \<Rightarrow> Envelope result" where
  "PipelineRun_Decode raw r =
     (if \<not> HasPrefix (RawType r) ''dev.tekton.event.pipelinerun.'' then Inl (Err (''not a pipelinerun event: '' @ RawType r))
      else case decode_payload ''pipelineRun'' r of
             Inl e \<Rightarrow> Inl e
           | Inr obj \<Rightarrow>
               (case baseEventFromRun obj ResourcePipelineRun (RawType r) of
                  Inl e \<Rightarrow> Inl e | Inr e \<Rightarrow> Inr (envelope_of r (pipelinerun_report raw obj e))))"

definition contextOfCustomRun :: "runObject \<Rightarrow> string" where
  "contextOfCustomRun obj = first_nonempty [annotation obj AnnoContext] (''tekton/customrun/'' @ rmName (Metadata obj))"

definition customrun_report :: "runObject \<Rightarrow> Event \<Rightarrow> Event" where
  "customrun_report obj e =
     (let e1 = e\<lparr>Context := contextOfCustomRun obj, TaskName := label obj ''tekton.dev/task'',
            PipelineName := label obj ''tekton.dev/pipeline''\<rparr>
      in applyTimestamps obj (applyOptionalNumbers obj e1))"

definition CustomRun_Decode :: "RawEvent \<Rightarrow> Envelope result" where
  "CustomRun_Decode r =
     (if \<not> HasPrefix (RawType r) ''dev.tekton.event.customrun.'' then Inl (Err (''not a customrun event: '' @ RawType r))
      else case decode_payload ''customRun'' r of
             Inl e \<Rightarrow> Inl e
           | Inr obj \<Rightarrow>
               (case baseEventFromRun obj ResourceCustomRun (RawType r) of
                  Inl e \<Rightarrow> Inl e | Inr e \<Rightarrow> Inr (envelope_of r (customrun_report obj e))))"

section \<open>Event listeners\<close>

record eventListenerPayload =
  elEventListener :: string
  elNamespace :: string
  elEventListenerUID :: string
  elEventID :: string

definition listener_fields :: "eventListenerPayload field list" where
  "listener_fields = [str_field ''eventListener'' elEventListener elEventListener_update,
     str_field ''namespace'' elNamespace elNamespace_update,
     str_field ''eventListenerUID'' elEventListenerUID elEventListenerUID_update,
     str_field ''eventID'' elEventID elEventID_update]"

definition zero_listener :: eventListenerPayload where
  "zero_listener = \<lparr>elEventListener = '''', elNamespace = '''', elEventListenerUID = '''', elEventID = ''''\<rparr>"

text \<open>Headers: a map of lists of strings; null for a list is the empty list, for a string the empty string.\<close>

fun decode_string_list :: "json list \<Rightarrow> string list option" where
  "decode_string_list [] = Some []"
| "decode_string_list (j # js) =
     (case j of
        JStr s \<Rightarrow> map_option (\<lambda>xs. s # xs) (decode_string_list js)
      | JNull \<Rightarrow> map_option (\<lambda>xs. '''' # xs) (decode_string_list js)
      | _ \<Rightarrow> None)"

fun decode_headers :: "(string \<times> json) list \<Rightarrow> (string, string list) gomap \<Rightarrow> (string, string list) gomap option" where
  "decode_headers [] m = Some m"
| "decode_headers ((k, v) # ms) m =
     (case v of
        JArr js \<Rightarrow> (case decode_string_list js of None \<Rightarrow> None | Some xs \<Rightarrow> decode_headers ms (AList.update k xs m))
      | JNull \<Rightarrow> decode_headers ms (AList.update k [] m)
      | _ \<Rightarrow> None)"

definition Unmarshal_headers :: "string \<Rightarrow> (string, string list) gomap result" where
  "Unmarshal_headers s =
     (case json_parse s of
        None \<Rightarrow> Inl (Err ''invalid JSON'')
      | Some (JObj ms) \<Rightarrow> (case decode_headers ms [] of None \<Rightarrow> Inl (Err ''cannot unmarshal'') | Some m \<Rightarrow> Inr m)
      | Some JNull \<Rightarrow> Inr []
      | Some _ \<Rightarrow> Inl (Err ''cannot unmarshal''))"

definition normalizeGitLabEvent :: "string \<Rightarrow> string" where
  "normalizeGitLabEvent v =
     (if v = ''Push Hook'' \<or> v = ''Tag Push Hook'' then ''push''
      else if v = ''Merge Request Hook'' then ''pull_request''
      else if v = ''Issue Hook'' then ''issues''
      else if v = ''Note Hook'' then ''issue_comment''
      else v)"

definition normalizeBitbucketEvent :: "string \<Rightarrow> string" where
  "normalizeBitbucketEvent v =
     (if v = ''repo:push'' then ''push''
      else if HasPrefix v ''pullrequest:comment_'' then ''issue_comment''
      else if HasPrefix v ''pullrequest:'' then ''pull_request''
      else if v = ''issue:comment_created'' then ''issue_comment''
      else if HasPrefix v ''issue:'' then ''issues''
      else v)"

definition normalizeGiteaEvent :: "string \<Rightarrow> string" where
  "normalizeGiteaEvent v =
     (if v \<in> set [''pull_request'', ''pull_request_review'', ''pull_request_review_comment''] then ''pull_request''
      else if v = ''issues'' then ''issues''
      else if v = ''issue_comment'' then ''issue_comment''
      else if v = ''push'' then ''push''
      else v)"

definition first_header :: "(string, string list) gomap \<Rightarrow> string \<Rightarrow> string" where
  "first_header headers k = (case map_of headers k of Some (v # _) \<Rightarrow> v | _ \<Rightarrow> '''')"

definition extractSCMContext :: "(string, string list) gomap \<Rightarrow> string \<times> string" where
  "extractSCMContext h =
     (if first_header h ''X-Gitea-Event'' \<noteq> '''' then (''gitea'', normalizeGiteaEvent (first_header h ''X-Gitea-Event''))
      else if first_header h ''X-Github-Event'' \<noteq> '''' then (''github'', first_header h ''X-Github-Event'')
      else if first_header h ''X-Gitlab-Event'' \<noteq> '''' then (''gitlab'', normalizeGitLabEvent (first_header h ''X-Gitlab-Event''))
      else if first_header h ''X-Event-Key'' \<noteq> '''' then (''bitbucket'', normalizeBitbucketEvent (first_header h ''X-Event-Key''))
      else ('''', ''''))"

definition extractLastPathSegment :: "string \<Rightarrow> string" where
  "extractLastPathSegment source =
     (case List.find (\<lambda>p. p \<noteq> '''') (rev (SplitByte (CHR ''/'') source)) of Some p \<Rightarrow> p | None \<Rightarrow> source)"

definition mapEventListenerState :: "string \<Rightarrow> State" where
  "mapEventListenerState t =
     (if HasSuffix t ''.started.v1'' then StateRunning
      else if HasSuffix t ''.successful.v1'' then StateSuccess
      else if HasSuffix t ''.failed.v1'' then StateFailure
      else if HasSuffix t ''.done.v1'' then StateDone
      else StatePending)"

definition descriptionForEventListener :: "string \<Rightarrow> string" where
  "descriptionForEventListener t =
     (if HasSuffix t ''.started.v1'' then ''EventListener processing started''
      else if HasSuffix t ''.successful.v1'' then ''EventListener processing successful''
      else if HasSuffix t ''.failed.v1'' then ''EventListener processing failed''
      else if HasSuffix t ''.done.v1'' then ''EventListener processing done''
      else '''')"

definition decodeStarted :: "RawEvent \<Rightarrow> Envelope result" where
  "decodeStarted r =
     (if RawData r = '''' \<or> RawData r = ''null'' then Inl (Err ''started event has no payload'')
      else case Unmarshal_headers (RawData r) of
             Inl e \<Rightarrow> Inl (Wrap ''unmarshal headers: '' e)
           | Inr headers \<Rightarrow>
               (case extractSCMContext headers of
                  (provider, scmEventType) \<Rightarrow>
                    if provider = '''' then Inl (Err ''no recognised SCM webhook headers found'')
                    else
                      (let elName = extractLastPathSegment (RawSource r)
                       in Inr (envelope_of r (zero_event\<lparr>ResourceOf := ResourceEventListener, EventListenerName := elName,
                            RunName := elName, RunID := RawID r, StateOf := StateRunning,
                            Context := ''tekton/eventlistener/'' @ elName, Description := ''EventListener processing started'',
                            Provider := provider, SCMEventType := scmEventType\<rparr>)))))"

definition decodeLifecycle :: "RawEvent \<Rightarrow> Envelope result" where
  "decodeLifecycle r =
     (case Unmarshal listener_fields zero_listener (RawData r) of
        Inl e \<Rightarrow> Inl (Wrap ''unmarshal payload: '' e)
      | Inr p \<Rightarrow>
          if elEventListener p = '''' then Inl (Err ''missing eventListener field'')
          else if elNamespace p = '''' then Inl (Err ''missing namespace field'')
          else if elEventListenerUID p = '''' then Inl (Err ''missing eventListenerUID field'')
          else Inr (envelope_of r (zero_event\<lparr>ResourceOf := ResourceEventListener, EventListenerName := elEventListener p,
                 RunName := elEventListener p, RunID := elEventListenerUID p, Namespace := elNamespace p,
                 StateOf := mapEventListenerState (RawType r), Context := ''tekton/eventlistener/'' @ elEventListener p,
                 Description := descriptionForEventListener (RawType r)\<rparr>)))"

definition EventListener_Decode :: "RawEvent \<Rightarrow> Envelope result" where
  "EventListener_Decode r =
     (if \<not> HasPrefix (RawType r) ''dev.tekton.event.triggers.'' then Inl (Err (''not an eventlistener event: '' @ RawType r))
      else if HasSuffix (RawType r) ''.started.v1'' then decodeStarted r
      else if HasSuffix (RawType r) ''.done.v1'' then Inl (Err ''done event carries no data'')
      else decodeLifecycle r)"

section \<open>The registry of the receiver\<close>

definition TaskRunDecoder :: "(json \<Rightarrow> string) \<Rightarrow> Decoder" where
  "TaskRunDecoder raw = \<lparr>DecoderName = ''tekton-taskrun'', CanHandle = (\<lambda>t. HasPrefix t ''dev.tekton.event.taskrun.''), Decode = TaskRun_Decode raw\<rparr>"
definition PipelineRunDecoder :: "(json \<Rightarrow> string) \<Rightarrow> Decoder" where
  "PipelineRunDecoder raw = \<lparr>DecoderName = ''tekton-pipelinerun'', CanHandle = (\<lambda>t. HasPrefix t ''dev.tekton.event.pipelinerun.''), Decode = PipelineRun_Decode raw\<rparr>"
definition CustomRunDecoder :: Decoder where
  "CustomRunDecoder = \<lparr>DecoderName = ''tekton-customrun'', CanHandle = (\<lambda>t. HasPrefix t ''dev.tekton.event.customrun.''), Decode = CustomRun_Decode\<rparr>"
definition EventListenerDecoder :: Decoder where
  "EventListenerDecoder = \<lparr>DecoderName = ''tekton-eventlistener'', CanHandle = (\<lambda>t. HasPrefix t ''dev.tekton.event.triggers.''), Decode = EventListener_Decode\<rparr>"

definition buildDecoders :: "(json \<Rightarrow> string) \<Rightarrow> DecoderRegistry" where
  "buildDecoders raw =
     DecoderRegister (DecoderRegister (DecoderRegister (DecoderRegister NewDecoderRegistry (TaskRunDecoder raw)) (PipelineRunDecoder raw))
       CustomRunDecoder) EventListenerDecoder"

section \<open>What is decoded\<close>

lemma first_nonempty_cases: "first_nonempty xs d = d \<or> first_nonempty xs d \<in> set xs \<and> first_nonempty xs d \<noteq> ''''"
  by (auto simp: first_nonempty_def find_Some_iff split: option.split)

lemma first_nonempty_nonempty: "d \<noteq> '''' \<Longrightarrow> first_nonempty xs d \<noteq> ''''"
  using first_nonempty_cases [of xs d] by auto

lemma descriptionFor_bounded: "length (descriptionFor obj t) \<le> 140"
proof -
  have "condition_message cs = Some m \<Longrightarrow> length m \<le> 140" for cs m
    by (induction cs) (auto split: if_splits)
  then show ?thesis by (auto simp: descriptionFor_def type_description_def split: option.split)
qed

text \<open>The cut counts bytes: a character of two bytes that straddles the bound is cut in half.\<close>

definition long_message :: string where
  "long_message = replicate 136 (CHR ''a'') @ [CHR 0xC3, CHR 0xA9] @ replicate 10 (CHR ''b'')"

lemma length_long_message: "length long_message = 148"
  by (simp add: long_message_def)

lemma descriptionFor_splits_rune:
  "let obj = zero_run\<lparr>Status := zero_status\<lparr>rsConditions := [\<lparr>cdType = ''Succeeded'', cdStatus = ''False'', cdReason = '''', cdMessage = long_message\<rparr>]\<rparr>\<rparr>
   in valid_utf8 long_message \<and> \<not> valid_utf8 (descriptionFor obj t)"
proof -
  have a: "list_all (\<lambda>c. byte c < (128::nat)) (replicate 136 (CHR ''a''))" by (simp add: list_all_iff)
  have "valid_utf8 (replicate 10 (CHR ''b''))" by (simp add: ascii_valid_utf8 list_all_iff)
  then have "valid_utf8 ([CHR 0xC3, CHR 0xA9] @ replicate 10 (CHR ''b''))"
    by (simp add: valid_utf8_def runes.simps(2) [of "CHR 0xC3"] decode_rune_def encode_rune_def valid_rune_def Let_def
        is_cont_def char_of_eq_iff take_bit_eq_mod)
  moreover have "\<not> valid_utf8 (CHR 0xC3 # ''...'')"
    by (simp add: valid_utf8_def runes.simps(2) decode_rune_def encode_rune_def valid_rune_def Let_def is_cont_def)
  ultimately have "valid_utf8 long_message" "\<not> valid_utf8 (take 137 long_message @ ''...'')"
    using valid_utf8_ascii_append [OF a] by (simp_all add: long_message_def)
  moreover have "long_message \<noteq> []" by (simp add: long_message_def)
  ultimately show ?thesis by (simp add: descriptionFor_def zero_run_def zero_status_def length_long_message)
qed

text \<open>The fields by which the relay identifies a run, and those the later steps leave alone.\<close>

definition core :: "Event \<Rightarrow> string list" where
  "core e = [Provider e, ResourceOf e, RunName e, RunID e, Namespace e, StateOf e, AccumulatorGroupID e, Description e]"

lemma core_steps [simp]:
  "core (applyTimestamps obj e) = core e" "core (applyOptionalNumbers obj e) = core e"
  "core (taskrun_report raw obj e) = core e" "core (pipelinerun_report raw obj e) = core e" "core (customrun_report obj e) = core e"
  by (simp_all add: core_def applyTimestamps_def applyOptionalNumbers_def taskrun_report_def pipelinerun_report_def
      customrun_report_def Let_def split: option.split)

lemma Context_steps [simp]:
  "Context (applyTimestamps obj e) = Context e" "Context (applyOptionalNumbers obj e) = Context e"
  by (simp_all add: applyTimestamps_def applyOptionalNumbers_def Let_def split: option.split)

lemma Context_reports:
  "Context (taskrun_report raw obj e) \<noteq> ''''" "Context (pipelinerun_report raw obj e) \<noteq> ''''" "Context (customrun_report obj e) \<noteq> ''''"
  by (simp_all add: taskrun_report_def pipelinerun_report_def customrun_report_def Let_def first_nonempty_nonempty
      contextOfTaskRun_def contextOfPipelineRun_def contextOfCustomRun_def)

lemma baseEventFromRun_core:
  "baseEventFromRun obj res t = Inr e \<Longrightarrow> annotation obj AnnoProvider \<noteq> '''' \<and>
     core e = [annotation obj AnnoProvider, res, rmName (Metadata obj), rmUID (Metadata obj), rmNamespace (Metadata obj),
       MapState t, annotation obj AnnoAccumulatorGroupID, descriptionFor obj t]"
  by (auto simp: baseEventFromRun_def core_def Let_def split: if_splits)

text \<open>What the three kinds of runs have in common once decoded.\<close>

definition identifies :: "RawEvent \<Rightarrow> Resource \<Rightarrow> runObject \<Rightarrow> Envelope \<Rightarrow> bool" where
  "identifies r res obj env \<longleftrightarrow> CloudEventID env = RawID r \<and> CloudEventType env = RawType r \<and> Source env = RawSource r \<and>
     core (Report env) = [annotation obj AnnoProvider, res, rmName (Metadata obj), rmUID (Metadata obj), rmNamespace (Metadata obj),
       MapState (RawType r), annotation obj AnnoAccumulatorGroupID, descriptionFor obj (RawType r)] \<and>
     Provider (Report env) \<noteq> '''' \<and> Context (Report env) \<noteq> ''''"

lemma identifies_report:
  assumes "baseEventFromRun obj res (RawType r) = Inr e" and "core e' = core e" and "Context e' \<noteq> ''''"
  shows "identifies r res obj (envelope_of r e')"
  using baseEventFromRun_core [OF assms(1)] assms(2,3) by (simp add: identifies_def envelope_of_def core_def)

lemma TaskRun_decoded:
  "TaskRun_Decode raw r = Inr env \<Longrightarrow> \<exists>obj. decode_payload ''taskRun'' r = Inr obj \<and> identifies r ResourceTaskRun obj env"
  by (auto simp: TaskRun_Decode_def split: if_splits sum.splits intro!: identifies_report Context_reports)

lemma PipelineRun_decoded:
  "PipelineRun_Decode raw r = Inr env \<Longrightarrow> \<exists>obj. decode_payload ''pipelineRun'' r = Inr obj \<and> identifies r ResourcePipelineRun obj env"
  by (auto simp: PipelineRun_Decode_def split: if_splits sum.splits intro!: identifies_report Context_reports)

lemma CustomRun_decoded:
  "CustomRun_Decode r = Inr env \<Longrightarrow> \<exists>obj. decode_payload ''customRun'' r = Inr obj \<and> identifies r ResourceCustomRun obj env"
  by (auto simp: CustomRun_Decode_def split: if_splits sum.splits intro!: identifies_report Context_reports)

lemma EventListener_decoded:
  "EventListener_Decode r = Inr env \<Longrightarrow> CloudEventID env = RawID r \<and> CloudEventType env = RawType r \<and>
     ResourceOf (Report env) = ResourceEventListener"
  by (auto simp: EventListener_Decode_def decodeStarted_def decodeLifecycle_def envelope_of_def Let_def
      split: if_splits sum.splits prod.splits)

text \<open>No two decoders answer for the same type: no prefix extends another.\<close>

lemma DecoderFind_unique:
  assumes "\<And>a b. \<lbrakk>a \<in> set ds; b \<in> set ds; CanHandle a t; CanHandle b t\<rbrakk> \<Longrightarrow> a = b"
  shows "(DecoderFind ds t = Inr d) = (d \<in> set ds \<and> CanHandle d t)"
  using assms by (induction ds) auto

lemma HasPrefix_exclusive:
  assumes "HasPrefix t p" and "HasPrefix t q" and "\<not> HasPrefix p q" and "\<not> HasPrefix q p"
  shows False
  using HasPrefix_comparable [OF assms(1,2)] assms(3,4) by blast

definition decoder_prefixes :: "(json \<Rightarrow> string) \<Rightarrow> (Decoder \<times> string) list" where
  "decoder_prefixes raw = [(TaskRunDecoder raw, ''dev.tekton.event.taskrun.''), (PipelineRunDecoder raw, ''dev.tekton.event.pipelinerun.''),
     (CustomRunDecoder, ''dev.tekton.event.customrun.''), (EventListenerDecoder, ''dev.tekton.event.triggers.'')]"

lemma prefixes_incomparable:
  "\<forall>p \<in> set (map snd (decoder_prefixes raw)). \<forall>q \<in> set (map snd (decoder_prefixes raw)). HasPrefix p q \<longrightarrow> p = q"
  by (simp add: decoder_prefixes_def)

lemma buildDecoders_prefixes: "buildDecoders raw = map fst (decoder_prefixes raw)"
  by (simp add: decoder_prefixes_def buildDecoders_def DecoderRegister_def NewDecoderRegistry_def)

lemma decoder_prefixes_CanHandle: "\<forall>dp \<in> set (decoder_prefixes raw). CanHandle (fst dp) = (\<lambda>t. HasPrefix t (snd dp))"
  by (simp add: decoder_prefixes_def TaskRunDecoder_def PipelineRunDecoder_def CustomRunDecoder_def EventListenerDecoder_def)

lemma CanHandle_prefix:
  assumes "d \<in> set (buildDecoders raw)"
  shows "\<exists>p. (d, p) \<in> set (decoder_prefixes raw) \<and> CanHandle d = (\<lambda>t. HasPrefix t p)"
  using assms decoder_prefixes_CanHandle [of raw] by (fastforce simp: buildDecoders_prefixes)

lemma decoder_prefixes_inj:
  assumes "(a, p) \<in> set (decoder_prefixes raw)" and "(b, q) \<in> set (decoder_prefixes raw)" and "HasPrefix t p" and "HasPrefix t q"
  shows "a = b"
proof -
  have "p \<in> set (map snd (decoder_prefixes raw))" "q \<in> set (map snd (decoder_prefixes raw))" using assms by force+
  then have "p = q" using prefixes_incomparable HasPrefix_comparable [OF assms(3,4)] by metis
  moreover have "distinct (map snd (decoder_prefixes raw))" by (simp add: decoder_prefixes_def)
  ultimately show ?thesis using assms(1,2) inj_onD [of snd _ "(a, p)" "(b, q)"] by (auto simp: distinct_map)
qed

section \<open>Properties\<close>

text \<open>
  Exactly one decoder answers for a type: the registry of the receiver finds a decoder precisely when
  one of the four can handle the type, and it is the only one, so the order of registration is immaterial.
\<close>

theorem decoders_exclusive:
  "(DecoderFind (buildDecoders raw) t = Inr d) = (d \<in> set (buildDecoders raw) \<and> CanHandle d t)"
proof (rule DecoderFind_unique)
  fix a b assume "a \<in> set (buildDecoders raw)" "b \<in> set (buildDecoders raw)" and t: "CanHandle a t" "CanHandle b t"
  then have "\<exists>p q. (a, p) \<in> set (decoder_prefixes raw) \<and> (b, q) \<in> set (decoder_prefixes raw) \<and> HasPrefix t p \<and> HasPrefix t q"
    by (meson CanHandle_prefix)
  then show "a = b" by (metis decoder_prefixes_inj)
qed

end
