(* ===== verification/Relay_Reload.thy ===== *)
theory Relay_Reload
  imports Relay_Factory
begin

text \<open>
  File \<^verbatim>\<open>cmd/receiver/reload.go\<close>: the reload of the configuration while events are in flight. The holders of
  the registry and of the chain are swapped one after the other, then the old handlers are closed; an
  event loads the chain when it arrives, the handlers when it is dispatched, and runs them after that.
  Every interleaving of these steps is an execution.
\<close>

section \<open>Files and sections\<close>

text \<open>\<^verbatim>\<open>filepath.Base\<close>.\<close>

definition Base :: "string \<Rightarrow> string" where
  "Base p =
     (if p = '''' then ''.''
      else let q = TrimRightByte p (CHR ''/'') in if q = '''' then ''/'' else last (SplitByte (CHR ''/'') q))"

text \<open>The operations of a file system event that the watcher reports.\<close>

datatype file_op = OpCreate | OpWrite | OpRemove | OpRename | OpChmod

definition configFileChanged :: "file_op list \<Rightarrow> string \<Rightarrow> string \<Rightarrow> bool" where
  "configFileChanged ops eventName configPath =
     (if \<not> (\<exists>p \<in> set ops. p \<in> {OpWrite, OpCreate, OpRename, OpRemove}) then False
      else Base eventName = Base configPath \<or> Base eventName = ''..data'')"

text \<open>The sections of which a change is reported to need a restart.\<close>

definition warnImmutableChanges :: "Config \<Rightarrow> Config \<Rightarrow> string list" where
  "warnImmutableChanges old new =
     (let a = cf_Server old; b = cf_Server new; s = cf_Store old; t = cf_Store new; d = cf_DLQ old; e = cf_DLQ new;
          u = cf_Tracing old; v = cf_Tracing new
      in (if srv_Addr a \<noteq> srv_Addr b \<or> srv_MetricsAddr a \<noteq> srv_MetricsAddr b \<or> srv_ReadTimeoutSec a \<noteq> srv_ReadTimeoutSec b \<or>
            srv_WriteTimeoutSec a \<noteq> srv_WriteTimeoutSec b \<or> srv_ShutdownTimeoutSec a \<noteq> srv_ShutdownTimeoutSec b \<or>
            srv_MaxBodySize a \<noteq> srv_MaxBodySize b \<or> rl_Enabled (srv_RateLimit a) \<noteq> rl_Enabled (srv_RateLimit b) \<or>
            \<not> flt_eq (rl_RequestsPerSecond (srv_RateLimit a)) (rl_RequestsPerSecond (srv_RateLimit b)) \<or>
            rl_Burst (srv_RateLimit a) \<noteq> rl_Burst (srv_RateLimit b) \<or> sa_Enabled (srv_Auth a) \<noteq> sa_Enabled (srv_Auth b) \<or>
            sa_Type (srv_Auth a) \<noteq> sa_Type (srv_Auth b) \<or> sa_SecretFile (srv_Auth a) \<noteq> sa_SecretFile (srv_Auth b) \<or>
            tls_CertFile (srv_TLS a) \<noteq> tls_CertFile (srv_TLS b) \<or> tls_KeyFile (srv_TLS a) \<noteq> tls_KeyFile (srv_TLS b)
          then [''server''] else []) @
         (if sto_Backend s \<noteq> sto_Backend t \<or> sto_TTL s \<noteq> sto_TTL t \<or> vk_Address (sto_Valkey s) \<noteq> vk_Address (sto_Valkey t) \<or>
            ol_BindAddr (sto_Olric s) \<noteq> ol_BindAddr (sto_Olric t) then [''store''] else []) @
         (if dq_Enabled d \<noteq> dq_Enabled e \<or> dq_Path d \<noteq> dq_Path e \<or> dq_MaxSizeBytes d \<noteq> dq_MaxSizeBytes e then [''dlq''] else []) @
         (if cf_Logging old \<noteq> cf_Logging new then [''logging''] else []) @
         (if tr_Endpoint u \<noteq> tr_Endpoint v \<or> tr_ServiceName u \<noteq> tr_ServiceName v \<or> tr_Insecure u \<noteq> tr_Insecure v \<or>
            \<not> flt_eq (tr_SampleRate u) (tr_SampleRate v) then [''tracing''] else []))"

section \<open>The state\<close>

text \<open>A handler is the object at its place in the registry of a build; builds are numbered.\<close>

type_synonym handler_id = "nat \<times> nat"

definition ids :: "nat \<Rightarrow> 'w Registry \<Rightarrow> handler_id list" where
  "ids g reg = map (Pair g) [0..<length (All reg)]"

text \<open>Where the reload is.\<close>

datatype 'w phase =
    Idle
  | Loaded Config
  | Ready Config nat "'w Registry"
  | Swapped Config nat "handler_id list"
  | Closing "handler_id list"

text \<open>
  An event that has loaded the chain of some build, and one that runs handlers: those that are still to
  run.
\<close>

datatype flight = Arrived nat | Running nat "handler_id list"

record 'w App =
  apBuilds :: nat
  apReg :: "nat \<times> 'w Registry"
  apChain :: "nat \<times> Config"
  apPhase :: "'w phase"
  apClosed :: "handler_id list"
  apFlights :: "flight list"
  apRan :: "(nat \<times> handler_id \<times> bool) list"
  apReloads :: "string list"
  apGauge :: nat
  apInstalled :: "handler_id list"
  apDown :: "(nat \<times> handler_id list) option"

text \<open>
  What loading the file and building the registry answer. A log entry of \<open>apRan\<close> is the build of the
  event's chain, the handler that ran, and whether it was closed by then; \<open>apInstalled\<close> lists the handlers of
  every registry that was ever current. The shutdown, once it began, has the number of the registry whose
  handlers it closes and those still to close; it does not wait for a reload.
\<close>

record ('b, 'w) AppEnv =
  aeLoad :: "string result \<Rightarrow> Config result"
  aeBuild :: "Config \<Rightarrow> 'w Registry result"

inductive app_step :: "('b, 'w) AppEnv \<Rightarrow> 'w App \<Rightarrow> 'w App \<Rightarrow> bool" for env where
  arrive: "app_step env s (s\<lparr>apFlights := apFlights s @ [Arrived (fst (apChain s))]\<rparr>)"
| dispatch: "k < length (apFlights s) \<Longrightarrow> apFlights s ! k = Arrived g \<Longrightarrow>
    app_step env s (s\<lparr>apFlights := (apFlights s)[k := Running g (ids (fst (apReg s)) (snd (apReg s)))]\<rparr>)"
| run: "k < length (apFlights s) \<Longrightarrow> apFlights s ! k = Running g (as @ h # bs) \<Longrightarrow>
    app_step env s (s\<lparr>apFlights := (apFlights s)[k := Running g (as @ bs)],
      apRan := apRan s @ [(g, h, h \<in> set (apClosed s))]\<rparr>)"
| load_fails: "apPhase s = Idle \<Longrightarrow> aeLoad env file = Inl e \<Longrightarrow>
    app_step env s (s\<lparr>apReloads := apReloads s @ [''failure'']\<rparr>)"
| load: "apPhase s = Idle \<Longrightarrow> aeLoad env file = Inr c \<Longrightarrow> app_step env s (s\<lparr>apPhase := Loaded c\<rparr>)"
| build_fails: "apPhase s = Loaded c \<Longrightarrow> aeBuild env c = Inl e \<Longrightarrow>
    app_step env s (s\<lparr>apPhase := Idle, apReloads := apReloads s @ [''failure'']\<rparr>)"
| build: "apPhase s = Loaded c \<Longrightarrow> aeBuild env c = Inr reg \<Longrightarrow>
    app_step env s (s\<lparr>apBuilds := Suc (apBuilds s), apPhase := Ready c (Suc (apBuilds s)) reg\<rparr>)"
| swap_registry: "apPhase s = Ready c g reg \<Longrightarrow>
    app_step env s (s\<lparr>apReg := (g, reg), apPhase := Swapped c g (ids (fst (apReg s)) (snd (apReg s))),
      apInstalled := apInstalled s @ ids g reg\<rparr>)"
| swap_chain: "apPhase s = Swapped c g old \<Longrightarrow>
    app_step env s (s\<lparr>apChain := (g, c), apPhase := Closing old, apGauge := length (fst (Names (snd (apReg s))))\<rparr>)"
| close: "apPhase s = Closing (h # hs) \<Longrightarrow>
    app_step env s (s\<lparr>apClosed := apClosed s @ [h], apPhase := Closing hs\<rparr>)"
| finished: "apPhase s = Closing [] \<Longrightarrow>
    app_step env s (s\<lparr>apPhase := Idle, apReloads := apReloads s @ [''success'']\<rparr>)"
| shutdown: "apDown s = None \<Longrightarrow> app_step env s (s\<lparr>apDown := Some (fst (apReg s), ids (fst (apReg s)) (snd (apReg s)))\<rparr>)"
| shutdown_close: "apDown s = Some (g, h # hs) \<Longrightarrow>
    app_step env s (s\<lparr>apClosed := apClosed s @ [h], apDown := Some (g, hs)\<rparr>)"

inductive_cases app_stepE: "app_step env s s'"

abbreviation app_steps :: "('b, 'w) AppEnv \<Rightarrow> 'w App \<Rightarrow> 'w App \<Rightarrow> bool" where
  "app_steps env \<equiv> (app_step env)\<^sup>*\<^sup>*"

text \<open>
  \<^verbatim>\<open>newApp\<close>: the constructors of the logger, tracer, store, dead letter queue and server are arguments that
  answer an error or nothing. With the result is what is still open when it returns, in the order in
  which it was opened.
\<close>

record Boot =
  boLogger :: "Config \<Rightarrow> err option"
  boTracing :: "Config \<Rightarrow> err option"
  boStore :: "Config \<Rightarrow> err option"
  boQueue :: "Config \<Rightarrow> err option"
  boServer :: "Config \<Rightarrow> err option"

datatype opened = OpenTracer | OpenStore | OpenHandlers | OpenQueue | OpenServer

definition new_state :: "Config \<Rightarrow> 'w Registry \<Rightarrow> 'w App" where
  "new_state c reg = \<lparr>apBuilds = 0, apReg = (0, reg), apChain = (0, c), apPhase = Idle, apClosed = [], apFlights = [],
     apRan = [], apReloads = [], apGauge = length (fst (Names reg)), apInstalled = ids 0 reg, apDown = None\<rparr>"

definition newApp :: "Boot \<Rightarrow> ('b, 'w) AppEnv \<Rightarrow> string result \<Rightarrow> 'w App result \<times> opened list" where
  "newApp bo env file =
     (case aeLoad env file of
        Inl e \<Rightarrow> (Inl (Wrap ''load config: '' e), [])
      | Inr c \<Rightarrow>
     (case boLogger bo c of
        Some e \<Rightarrow> (Inl (Wrap ''initialize logger: '' e), [])
      | None \<Rightarrow>
     (case boTracing bo c of
        Some e \<Rightarrow> (Inl (Wrap ''init tracing: '' e), [])
      | None \<Rightarrow>
     (case boStore bo c of
        Some e \<Rightarrow> (Inl (Wrap ''build store: '' e), [])
      | None \<Rightarrow>
     (case aeBuild env c of
        Inl e \<Rightarrow> (Inl (Wrap ''build action handlers: '' e), [])
      | Inr reg \<Rightarrow>
     (case (if dq_Enabled (cf_DLQ c) then boQueue bo c else None) of
        Some e \<Rightarrow> (Inl (Wrap ''build dlq: '' e), [OpenHandlers])
      | None \<Rightarrow>
          (let queue = (if dq_Enabled (cf_DLQ c) then [OpenQueue] else [])
           in case boServer bo c of
                Some e \<Rightarrow> (Inl (Wrap ''build server: '' e), [OpenStore, OpenHandlers] @ queue)
              | None \<Rightarrow> (Inr (new_state c reg), [OpenTracer, OpenStore, OpenHandlers] @ queue @ [OpenServer]))))))))"

text \<open>What the shutdown and the deferred cleanup close of that, when the handlers are all closed.\<close>

definition run_closes :: "opened list" where
  "run_closes = [OpenServer, OpenHandlers, OpenStore, OpenTracer]"

text \<open>A program that has started has no events and no reload.\<close>

definition app_start :: "('b, 'w) AppEnv \<Rightarrow> string result \<Rightarrow> 'w App result" where
  "app_start env file = fst (newApp \<lparr>boLogger = \<lambda>_. None, boTracing = \<lambda>_. None, boStore = \<lambda>_. None, boQueue = \<lambda>_. None,
     boServer = \<lambda>_. None\<rparr> env file)"

lemma app_start_Inr:
  "app_start env file = Inr s \<longleftrightarrow> (\<exists>c reg. aeLoad env file = Inr c \<and> aeBuild env c = Inr reg \<and> s = new_state c reg)"
  by (auto simp: app_start_def newApp_def Let_def split: sum.splits)

lemma newApp_starts: "fst (newApp bo env file) = Inr s \<Longrightarrow> app_start env file = Inr s"
  by (auto simp: app_start_Inr newApp_def Let_def split: sum.splits option.splits if_splits)

text \<open>
  What a failed start leaves open: nothing up to the building of the handlers, the handlers when the
  dead letter queue fails, and the store too when the server does; and a program that has started
  never closes its dead letter queue.
\<close>

lemma newApp_leaks:
  assumes "newApp bo env file = (r, left)"
  shows "r = Inl e \<Longrightarrow> OpenTracer \<notin> set left \<and> OpenServer \<notin> set left \<and>
      (OpenHandlers \<in> set left \<longleftrightarrow> (\<exists>e'. e = Wrap ''build dlq: '' e' \<or> e = Wrap ''build server: '' e')) \<and>
      (OpenStore \<in> set left \<longleftrightarrow> (\<exists>e'. e = Wrap ''build server: '' e'))"
    and "r = Inr s \<Longrightarrow> set left - set run_closes = (if dq_Enabled (cf_DLQ (snd (apChain s))) then {OpenQueue} else {})"
  using assms by (auto simp: newApp_def Let_def run_closes_def new_state_def split: sum.splits option.splits if_splits)

definition app_reachable :: "('b, 'w) AppEnv \<Rightarrow> 'w App \<Rightarrow> bool" where
  "app_reachable env s \<longleftrightarrow> (\<exists>file s0. app_start env file = Inr s0 \<and> app_steps env s0 s)"

section \<open>What holds at every moment\<close>

fun pending :: "'w phase \<Rightarrow> handler_id list" where
  "pending (Swapped c g old) = old"
| "pending (Closing old) = old"
| "pending _ = []"

fun reg_swapped :: "'w phase \<Rightarrow> bool" where
  "reg_swapped (Swapped c g old) = True"
| "reg_swapped _ = False"

text \<open>The registry was built from a configuration, and the chain from the same one.\<close>

definition consistent :: "('b, 'w) AppEnv \<Rightarrow> 'w App \<Rightarrow> bool" where
  "consistent env s \<longleftrightarrow> fst (apChain s) = fst (apReg s) \<and> aeBuild env (snd (apChain s)) = Inr (snd (apReg s)) \<and>
     apGauge s = length (fst (Names (snd (apReg s))))"

fun phase_ok :: "('b, 'w) AppEnv \<Rightarrow> 'w App \<Rightarrow> 'w phase \<Rightarrow> bool" where
  "phase_ok env s (Ready c g reg) \<longleftrightarrow> consistent env s \<and> g = apBuilds s \<and> fst (apReg s) < g \<and> aeBuild env c = Inr reg"
| "phase_ok env s (Swapped c g old) \<longleftrightarrow> fst (apReg s) = g \<and> aeBuild env c = Inr (snd (apReg s))"
| "phase_ok env s _ \<longleftrightarrow> consistent env s"

fun flight_ids :: "flight \<Rightarrow> handler_id set" where
  "flight_ids (Arrived g) = {}"
| "flight_ids (Running g hs) = set hs"

text \<open>Until the shutdown nothing is closed twice, and what is closed or about to be is of an older build.\<close>

definition closed_once :: "'w App \<Rightarrow> bool" where
  "closed_once s \<longleftrightarrow> distinct (apClosed s @ pending (apPhase s)) \<and>
     (\<forall>h \<in> set (apClosed s @ pending (apPhase s)). fst h < fst (apReg s))"

definition down_ok :: "'w App \<Rightarrow> bool" where
  "down_ok s \<longleftrightarrow> (\<forall>g hs. apDown s = Some (g, hs) \<longrightarrow> g \<le> fst (apReg s) \<and> set hs \<subseteq> set (apInstalled s) \<and>
     (g = fst (apReg s) \<longrightarrow> set (ids g (snd (apReg s))) \<subseteq> set (apClosed s) \<union> set hs))"

definition app_inv :: "('b, 'w) AppEnv \<Rightarrow> 'w App \<Rightarrow> bool" where
  "app_inv env s \<longleftrightarrow>
     phase_ok env s (apPhase s) \<and> fst (apReg s) \<le> apBuilds s \<and> (apDown s = None \<longrightarrow> closed_once s) \<and> down_ok s \<and>
     set (apClosed s) \<union> set (pending (apPhase s)) \<union> set (ids (fst (apReg s)) (snd (apReg s))) = set (apInstalled s) \<and>
     (\<forall>h \<in> set (apInstalled s). fst h \<le> fst (apReg s)) \<and>
     (\<forall>f \<in> set (apFlights s). flight_ids f \<subseteq> set (apInstalled s)) \<and>
     (\<forall>(g, h, closed) \<in> set (apRan s). h \<in> set (apInstalled s) \<and> (closed \<longrightarrow> h \<in> set (apClosed s)))"

lemmas app_inv_defs = app_inv_def closed_once_def down_ok_def consistent_def

lemma ids_fst: "h \<in> set (ids g reg) \<Longrightarrow> fst h = g" and distinct_ids: "distinct (ids g reg)"
  by (auto simp: ids_def distinct_map intro: inj_onI)

lemma app_inv_start: "app_start env file = Inr s \<Longrightarrow> app_inv env s"
  by (auto simp: app_start_Inr new_state_def app_inv_defs ids_def)

text \<open>Phases that only say that the chain fits the registry do not depend on the rest of the state.\<close>

lemma phase_ok_cong:
  "apReg s = apReg s' \<Longrightarrow> apChain s = apChain s' \<Longrightarrow> apGauge s = apGauge s' \<Longrightarrow> apBuilds s = apBuilds s' \<Longrightarrow>
     phase_ok env s p = phase_ok env s' p"
  by (cases p) (simp_all add: consistent_def)

lemma flights_update:
  "\<forall>f \<in> set fs. flight_ids f \<subseteq> A \<Longrightarrow> flight_ids x \<subseteq> A \<Longrightarrow> \<forall>f \<in> set (fs[k := x]). flight_ids f \<subseteq> A"
  using set_update_subset_insert [of fs k x] by blast

lemma app_invD:
  assumes "app_inv env s"
  shows "\<forall>f \<in> set (apFlights s). flight_ids f \<subseteq> set (apInstalled s)"
    and "\<forall>(g, h, closed) \<in> set (apRan s). h \<in> set (apInstalled s) \<and> (closed \<longrightarrow> h \<in> set (apClosed s))"
    and "set (ids (fst (apReg s)) (snd (apReg s))) \<subseteq> set (apInstalled s)"
  using assms unfolding app_inv_def by blast+

lemma app_inv_flights:
  assumes "app_inv env s" and "\<forall>f \<in> set fs. flight_ids f \<subseteq> set (apInstalled s)"
    and "\<forall>(g, h, closed) \<in> set entries. h \<in> set (apInstalled s) \<and> (closed \<longrightarrow> h \<in> set (apClosed s))"
    and "s' = s\<lparr>apFlights := fs, apRan := entries\<rparr>"
  shows "app_inv env s'"
proof -
  have "phase_ok env s' (apPhase s') = phase_ok env s (apPhase s)"
    using assms(4) phase_ok_cong [of s s' env "apPhase s"] by simp
  then show ?thesis using assms by (simp add: app_inv_def closed_once_def down_ok_def)
qed

lemma app_inv_arrive: "app_inv env s \<Longrightarrow> app_inv env (s\<lparr>apFlights := apFlights s @ [Arrived g]\<rparr>)"
  by (rule app_inv_flights [of env s "apFlights s @ [Arrived g]" "apRan s"]) (simp_all add: app_invD)

lemma app_inv_dispatch:
  assumes "app_inv env s"
  shows "app_inv env (s\<lparr>apFlights := (apFlights s)[k := Running g (ids (fst (apReg s)) (snd (apReg s)))]\<rparr>)"
proof (rule app_inv_flights [OF assms, of _ "apRan s"])
  show "\<forall>f \<in> set ((apFlights s)[k := Running g (ids (fst (apReg s)) (snd (apReg s)))]). flight_ids f \<subseteq> set (apInstalled s)"
    using app_invD [OF assms] by (intro flights_update) simp_all
qed (use app_invD(2) [OF assms] in simp_all)

lemma app_inv_run:
  assumes "app_inv env s" and "k < length (apFlights s)" and "apFlights s ! k = Running g (as @ h # bs)"
  shows "app_inv env (s\<lparr>apFlights := (apFlights s)[k := Running g (as @ bs)], apRan := apRan s @ [(g, h, h \<in> set (apClosed s))]\<rparr>)"
proof -
  note inv = app_invD [OF assms(1)]
  have "flight_ids (apFlights s ! k) \<subseteq> set (apInstalled s)" using inv(1) assms(2) by simp
  then have here: "set as \<subseteq> set (apInstalled s)" "set bs \<subseteq> set (apInstalled s)" "h \<in> set (apInstalled s)"
    using assms(3) by simp_all
  show ?thesis
  proof (rule app_inv_flights [OF assms(1) _ _ refl])
    show "\<forall>f \<in> set ((apFlights s)[k := Running g (as @ bs)]). flight_ids f \<subseteq> set (apInstalled s)"
      using here by (intro flights_update inv(1)) simp
    show "\<forall>(g, h, closed) \<in> set (apRan s @ [(g, h, h \<in> set (apClosed s))]).
        h \<in> set (apInstalled s) \<and> (closed \<longrightarrow> h \<in> set (apClosed s))"
      using inv(2) here by simp
  qed
qed

lemma app_inv_swap_registry:
  assumes "app_inv env s" and "apPhase s = Ready c g reg"
  shows "app_inv env (s\<lparr>apReg := (g, reg), apPhase := Swapped c g (ids (fst (apReg s)) (snd (apReg s))),
      apInstalled := apInstalled s @ ids g reg\<rparr>)"
proof -
  let ?old = "ids (fst (apReg s)) (snd (apReg s))"
  let ?s = "s\<lparr>apReg := (g, reg), apPhase := Swapped c g ?old, apInstalled := apInstalled s @ ids g reg\<rparr>"
  have less: "fst (apReg s) < g" using assms by (simp add: app_inv_def)
  have "closed_once ?s" if "closed_once s"
  proof -
    have closed: "distinct (apClosed s)" "\<forall>h \<in> set (apClosed s). fst h < fst (apReg s)"
      using that assms(2) by (simp_all add: closed_once_def)
    then have "set (apClosed s) \<inter> set ?old = {}" using ids_fst by fastforce
    then have "distinct (apClosed s @ ?old)" using closed distinct_ids by simp
    moreover have "\<forall>h \<in> set (apClosed s @ ?old). fst h < g" using closed less ids_fst by fastforce
    ultimately show ?thesis by (simp add: closed_once_def)
  qed
  moreover have "down_ok ?s" using assms(1) less unfolding app_inv_def down_ok_def by fastforce
  moreover have "\<forall>h \<in> set (apInstalled ?s). fst h \<le> fst (apReg ?s)"
    using assms(1) less ids_fst unfolding app_inv_def by fastforce
  ultimately show ?thesis using assms by (auto simp: app_inv_def)
qed

lemma app_inv_close:
  assumes "app_inv env s" and "apPhase s = Closing (h # hs)"
  shows "app_inv env (s\<lparr>apClosed := apClosed s @ [h], apPhase := Closing hs\<rparr>)"
proof -
  have "down_ok (s\<lparr>apClosed := apClosed s @ [h], apPhase := Closing hs\<rparr>)"
    using assms(1) unfolding app_inv_def down_ok_def by fastforce
  with assms show ?thesis by (auto simp: app_inv_def closed_once_def consistent_def)
qed

lemma app_inv_shutdown:
  assumes "app_inv env s" and "apDown s = None"
  shows "app_inv env (s\<lparr>apDown := Some (fst (apReg s), ids (fst (apReg s)) (snd (apReg s)))\<rparr>)"
proof -
  let ?s = "s\<lparr>apDown := Some (fst (apReg s), ids (fst (apReg s)) (snd (apReg s)))\<rparr>"
  have "phase_ok env ?s (apPhase s) = phase_ok env s (apPhase s)" by (rule phase_ok_cong) simp_all
  moreover have "down_ok ?s" using app_invD(3) [OF assms(1)] by (simp add: down_ok_def)
  ultimately show ?thesis using assms by (simp add: app_inv_def)
qed

lemma app_inv_shutdown_close:
  assumes "app_inv env s" and "apDown s = Some (g, h # hs)"
  shows "app_inv env (s\<lparr>apClosed := apClosed s @ [h], apDown := Some (g, hs)\<rparr>)"
proof -
  let ?s = "s\<lparr>apClosed := apClosed s @ [h], apDown := Some (g, hs)\<rparr>"
  have "phase_ok env ?s (apPhase s) = phase_ok env s (apPhase s)" by (rule phase_ok_cong) simp_all
  moreover have "down_ok ?s" and "h \<in> set (apInstalled s)" using assms by (auto simp: app_inv_def down_ok_def)
  ultimately show ?thesis using assms by (auto simp: app_inv_def)
qed

lemma app_inv_step:
  assumes "app_step env s s'" and "app_inv env s"
  shows "app_inv env s'"
  using assms
proof (induction rule: app_step.induct)
  case arrive then show ?case by (rule app_inv_arrive)
next
  case dispatch then show ?case by (intro app_inv_dispatch)
next
  case run then show ?case by (intro app_inv_run)
next
  case swap_registry then show ?case by (intro app_inv_swap_registry)
next
  case close then show ?case by (intro app_inv_close)
next
  case shutdown then show ?case by (intro app_inv_shutdown)
next
  case shutdown_close then show ?case by (intro app_inv_shutdown_close)
qed (simp_all add: app_inv_defs)

lemma app_inv_reachable: "app_reachable env s \<Longrightarrow> app_inv env s"
proof -
  have "app_steps env s0 s \<Longrightarrow> app_inv env s0 \<Longrightarrow> app_inv env s" for s0
    by (induction rule: rtranclp_induct) (auto intro: app_inv_step)
  then show "app_reachable env s \<Longrightarrow> app_inv env s" by (auto simp: app_reachable_def intro: app_inv_start)
qed

section \<open>Properties\<close>

text \<open>
  C35 At every moment of every execution, however events, reloads and the shutdown interleave: when no reload is going
  on, the current registry is the one built from the configuration of the current chain and the gauge
  counts its names; until the shutdown no handler is closed twice, none of the current registry is
  closed, and outside a reload every handler of every earlier registry is closed, so reloads leak none;
  an event only runs handlers of some registry that was current; and if the shutdown closed the
  handlers of the registry that stays current, every handler that was ever current is closed.
\<close>

theorem reload_invariant:
  assumes "app_reachable env s"
  shows "(apPhase s = Idle \<longrightarrow> fst (apChain s) = fst (apReg s) \<and> aeBuild env (snd (apChain s)) = Inr (snd (apReg s)) \<and>
        apGauge s = length (fst (Names (snd (apReg s)))) \<and>
        set (apInstalled s) = set (apClosed s) \<union> set (ids (fst (apReg s)) (snd (apReg s)))) \<and>
     (apDown s = None \<longrightarrow> distinct (apClosed s) \<and> set (apClosed s) \<inter> set (ids (fst (apReg s)) (snd (apReg s))) = {}) \<and>
     (\<forall>(g, h, closed) \<in> set (apRan s). h \<in> set (apInstalled s)) \<and>
     (apPhase s = Idle \<and> apDown s = Some (fst (apReg s), []) \<longrightarrow> set (apClosed s) = set (apInstalled s))"
proof -
  have inv: "app_inv env s" by (rule app_inv_reachable [OF assms])
  have parts: "set (apInstalled s) = set (apClosed s) \<union> set (pending (apPhase s)) \<union> set (ids (fst (apReg s)) (snd (apReg s)))"
    using inv by (simp add: app_inv_def)
  have idle: "consistent env s" if "apPhase s = Idle" using inv that by (simp add: app_inv_def)
  have once: "distinct (apClosed s) \<and> set (apClosed s) \<inter> set (ids (fst (apReg s)) (snd (apReg s))) = {}" if "apDown s = None"
  proof -
    have o: "closed_once s" using inv that by (simp add: app_inv_def)
    then have "\<forall>h \<in> set (apClosed s). fst h < fst (apReg s)" by (simp add: closed_once_def)
    then have "set (apClosed s) \<inter> set (ids (fst (apReg s)) (snd (apReg s))) = {}" by (metis disjoint_iff ids_fst less_irrefl)
    with o show ?thesis by (simp add: closed_once_def)
  qed
  have ran: "\<forall>(g, h, closed) \<in> set (apRan s). h \<in> set (apInstalled s)" using app_invD(2) [OF inv] by fastforce
  have down: "set (ids (fst (apReg s)) (snd (apReg s))) \<subseteq> set (apClosed s)" if "apDown s = Some (fst (apReg s), [])"
    using inv that by (simp add: app_inv_def down_ok_def)
  show ?thesis using parts idle once ran down unfolding consistent_def by (intro conjI impI) (simp_all add: Un_absorb2)
qed

text \<open>The program with a file that is accepted and a registry of one handler.\<close>

definition relay_env ::
  "Checkers \<Rightarrow> (string \<Rightarrow> Config result) \<Rightarrow> ('b, 'w) AccEnv \<Rightarrow> 'w Factories \<Rightarrow> 'w DedupeStore option \<Rightarrow> 'b Buffer option \<Rightarrow>
     ('b, 'w) AppEnv" where
  "relay_env ck yaml acc fs store buf = \<lparr>aeLoad = Load ck yaml, aeBuild = BuildAll acc fs store buf\<rparr>"

abbreviation demo_app :: "('b, 'w) AccEnv \<Rightarrow> ('b, 'w) AppEnv" where
  "demo_app acc \<equiv> relay_env no_objection (\<lambda>_. Inr demo_Config) acc demo_factories None None"

definition demo_reg :: "'w Registry" where
  "demo_reg = register_all [telegram_handler demo_telegram] NewRegistry"

lemma demo_built_defaults:
  "all_built (built_scm demo_factories (applyDefaults demo_Config) @
     built_notifiers None demo_factories (applyDefaults demo_Config) @
     built_jira None demo_factories (applyDefaults demo_Config)) = Inr [telegram_handler demo_telegram]"
  by (simp add: built_scm_def built_notifiers_def built_jira_def demo_factories_def demo_Config_def zero_Config_def guarded_def
      wrap_dedupe_def applyDefaults_def)

lemma demo_app_runs:
  "aeLoad (demo_app acc) (Inr '''') = Inr (applyDefaults demo_Config)"
  "aeBuild (demo_app acc) (applyDefaults demo_Config) = Inr demo_reg"
  "length (All demo_reg) = 1"
proof -
  show "aeLoad (demo_app acc) (Inr '''') = Inr (applyDefaults demo_Config)"
    using demo_Config_accepted by (simp add: relay_env_def Load_def)
  have "\<not> acc_Enabled (cf_Accumulator (applyDefaults demo_Config))"
    by (simp add: applyDefaults_def demo_Config_def zero_Config_def)
  then show "aeBuild (demo_app acc) (applyDefaults demo_Config) = Inr demo_reg"
    by (simp add: relay_env_def BuildAll_eq demo_built_defaults register_accumulator_def demo_reg_def)
  show "length (All demo_reg) = 1"
    by (simp add: demo_reg_def All_def handlers_register_all handlers_New del: register_all_simps)
qed

lemma demo_start:
  "\<exists>s. app_start (demo_app acc) (Inr '''') = Inr s \<and> app_reachable (demo_app acc) s \<and> apPhase s = Idle \<and> apDown s = None \<and>
     apReg s = (0, demo_reg) \<and> apFlights s = []"
proof -
  obtain s where s: "app_start (demo_app acc) (Inr '''') = Inr s" and "apPhase s = Idle" "apDown s = None"
      "apReg s = (0, demo_reg)" "apFlights s = []"
    by (simp add: app_start_Inr new_state_def demo_app_runs)
  moreover have "app_reachable (demo_app acc) s" using s unfolding app_reachable_def by blast
  ultimately show ?thesis by blast
qed

theorem reload_invariant_witness:
  "\<forall>acc :: ('b, 'w) AccEnv. \<exists>s. app_start (demo_app acc) (Inr '''') = Inr s \<and>
     set (apInstalled s) = set (apClosed s) \<union> set (ids 0 (demo_reg :: 'w Registry))"
proof
  fix acc :: "('b, 'w) AccEnv"
  obtain s where s: "app_start (demo_app acc) (Inr '''') = Inr s" "app_reachable (demo_app acc) s" "apPhase s = Idle"
      "apReg s = (0, demo_reg :: 'w Registry)"
    using demo_start [of acc] by blast
  from reload_invariant [OF s(2)] s show "\<exists>s. app_start (demo_app acc) (Inr '''') = Inr s \<and>
     set (apInstalled s) = set (apClosed s) \<union> set (ids 0 (demo_reg :: 'w Registry))"
    by (intro exI [of _ s]) simp
qed

text \<open>A reload from the file to the swap of the registry, and from there to its end.\<close>

lemma step_then: "app_step env s s' \<Longrightarrow> app_steps env s' s'' \<Longrightarrow> app_steps env s s''"
  by (rule converse_rtranclp_into_rtranclp)

lemma reload_first_half:
  assumes "apPhase s = Idle" and "aeLoad env file = Inr c" and "aeBuild env c = Inr reg"
  shows "app_steps env s (s\<lparr>apBuilds := Suc (apBuilds s), apReg := (Suc (apBuilds s), reg),
     apPhase := Swapped c (Suc (apBuilds s)) (ids (fst (apReg s)) (snd (apReg s))),
     apInstalled := apInstalled s @ ids (Suc (apBuilds s)) reg\<rparr>)"
proof -
  let ?s1 = "s\<lparr>apPhase := Loaded c\<rparr>"
  let ?s2 = "?s1\<lparr>apBuilds := Suc (apBuilds ?s1), apPhase := Ready c (Suc (apBuilds ?s1)) reg\<rparr>"
  have "app_step env s ?s1" using assms by (intro app_step.load)
  moreover have "app_step env ?s1 ?s2" using assms by (intro app_step.build) simp_all
  moreover have "app_step env ?s2 (?s2\<lparr>apReg := (Suc (apBuilds s), reg),
      apPhase := Swapped c (Suc (apBuilds s)) (ids (fst (apReg ?s2)) (snd (apReg ?s2))),
      apInstalled := apInstalled ?s2 @ ids (Suc (apBuilds s)) reg\<rparr>)"
    by (rule app_step.swap_registry) simp
  ultimately show ?thesis by (auto intro: step_then)
qed

lemma reload_closes:
  "apPhase s = Closing hs \<Longrightarrow>
     app_steps env s (s\<lparr>apClosed := apClosed s @ hs, apPhase := Idle, apReloads := apReloads s @ [''success'']\<rparr>)"
proof (induction hs arbitrary: s)
  case Nil
  then show ?case using app_step.finished [of s env] by simp
next
  case (Cons h hs)
  let ?s = "s\<lparr>apClosed := apClosed s @ [h], apPhase := Closing hs\<rparr>"
  have "app_step env s ?s" by (rule app_step.close [OF Cons.prems])
  moreover have "app_steps env ?s (?s\<lparr>apClosed := apClosed ?s @ hs, apPhase := Idle, apReloads := apReloads ?s @ [''success'']\<rparr>)"
    by (rule Cons.IH) simp
  ultimately show ?case by (auto intro: step_then)
qed

lemma reload_second_half:
  assumes "apPhase s = Swapped c g old"
  shows "app_steps env s (s\<lparr>apChain := (g, c), apGauge := length (fst (Names (snd (apReg s)))),
     apClosed := apClosed s @ old, apPhase := Idle, apReloads := apReloads s @ [''success'']\<rparr>)"
proof -
  let ?s = "s\<lparr>apChain := (g, c), apPhase := Closing old, apGauge := length (fst (Names (snd (apReg s))))\<rparr>"
  have "app_step env s ?s" by (rule app_step.swap_chain [OF assms])
  moreover have "app_steps env ?s (?s\<lparr>apClosed := apClosed ?s @ old, apPhase := Idle, apReloads := apReloads ?s @ [''success'']\<rparr>)"
    by (rule reload_closes) simp
  ultimately show ?thesis by (auto intro: step_then)
qed

lemma shutdown_closes:
  "apDown s = Some (g, hs) \<Longrightarrow> app_steps env s (s\<lparr>apClosed := apClosed s @ hs, apDown := Some (g, [])\<rparr>)"
proof (induction hs arbitrary: s)
  case Nil
  then have "s = s\<lparr>apClosed := apClosed s @ [], apDown := Some (g, [])\<rparr>" by (cases s) simp
  then show ?case by simp
next
  case (Cons h hs)
  let ?s = "s\<lparr>apClosed := apClosed s @ [h], apDown := Some (g, hs)\<rparr>"
  have "app_step env s ?s" by (rule app_step.shutdown_close [OF Cons.prems])
  moreover have "app_steps env ?s (?s\<lparr>apClosed := apClosed ?s @ hs, apDown := Some (g, [])\<rparr>)"
    by (rule Cons.IH) simp
  ultimately show ?case by (auto intro: step_then)
qed

text \<open>An event arrives, gets the handlers of the current registry, or runs the first of them.\<close>

lemma event_gets_handlers:
  assumes "apFlights s = fs @ Arrived g # fs'"
  shows "app_step env s (s\<lparr>apFlights := fs @ Running g (ids (fst (apReg s)) (snd (apReg s))) # fs'\<rparr>)"
  using app_step.dispatch [of "length fs" s g env] assms by simp

lemma event_runs:
  assumes "apFlights s = fs @ Running g (h # hs) # fs'"
  shows "app_step env s (s\<lparr>apFlights := fs @ Running g hs # fs', apRan := apRan s @ [(g, h, h \<in> set (apClosed s))]\<rparr>)"
  using app_step.run [of "length fs" s g "[]" h hs env] assms by simp

lemma ids_Cons: "All reg \<noteq> [] \<Longrightarrow> ids g reg = (g, 0) # map (Pair g) [1..<length (All reg)]"
  by (simp add: ids_def upt_conv_Cons)

text \<open>
  What a reload does to events in flight: from any state without a reload, when the next configuration can be
  loaded and built and neither registry is empty, there is an execution with one reload in which an
  event that arrived before it runs a handler that is already closed, and another that arrived before
  it, and goes through the old chain, runs a handler of the new registry.
\<close>

theorem reload_under_events:
  assumes "app_reachable env s" and "apPhase s = Idle" and "aeLoad env file = Inr c" and "aeBuild env c = Inr reg"
    and "All (snd (apReg s)) \<noteq> []" and "All reg \<noteq> []"
  shows "\<exists>s' h h'. app_steps env s s' \<and> apPhase s' = Idle \<and> snd (apReg s') = reg \<and>
     (fst (apChain s), h, True) \<in> set (apRan s') \<and> h \<in> set (ids (fst (apReg s)) (snd (apReg s))) \<and>
     (fst (apChain s), h', False) \<in> set (apRan s') \<and> h' \<in> set (ids (fst (apReg s')) reg) \<and> fst (apChain s) < fst (apReg s')"
proof -
  define g where "g = fst (apChain s)"
  define old where "old = ids (fst (apReg s)) (snd (apReg s))"
  define n where "n = Suc (apBuilds s)"
  obtain h hs where old: "old = h # hs" using assms(5) ids_Cons unfolding old_def by blast
  obtain h' hs' where new: "ids n reg = h' # hs'" using assms(6) ids_Cons by blast
  have inv: "app_inv env s" by (rule app_inv_reachable [OF assms(1)])
  have less: "g < n" using inv assms(2) by (simp add: app_inv_def consistent_def g_def n_def)
  have "\<forall>h \<in> set (apInstalled s). fst h \<le> fst (apReg s)" "set (apClosed s) \<subseteq> set (apInstalled s)" "fst (apReg s) < n"
    using inv unfolding app_inv_def n_def by auto
  moreover have "fst h' = n" by (rule ids_fst [of h' n reg]) (simp add: new)
  ultimately have open': "h' \<notin> set (apClosed s)" by fastforce
  let ?fs = "apFlights s"
  define s1 where "s1 = s\<lparr>apFlights := ?fs @ [Arrived g]\<rparr>"
  define s2 where "s2 = s1\<lparr>apFlights := ?fs @ [Running g old]\<rparr>"
  define s3 where "s3 = s2\<lparr>apFlights := ?fs @ [Running g old, Arrived g]\<rparr>"
  define s4 where "s4 = s3\<lparr>apBuilds := n, apReg := (n, reg), apPhase := Swapped c n old, apInstalled := apInstalled s @ ids n reg\<rparr>"
  define s5 where "s5 = s4\<lparr>apFlights := ?fs @ [Running g old, Running g (h' # hs')]\<rparr>"
  define s6 where "s6 = s5\<lparr>apFlights := ?fs @ [Running g old, Running g hs'], apRan := apRan s @ [(g, h', False)]\<rparr>"
  define s7 where "s7 = s6\<lparr>apChain := (n, c), apGauge := length (fst (Names reg)), apClosed := apClosed s @ old, apPhase := Idle,
      apReloads := apReloads s @ [''success'']\<rparr>"
  define s8 where "s8 = s7\<lparr>apFlights := ?fs @ [Running g hs, Running g hs'], apRan := apRan s @ [(g, h', False), (g, h, True)]\<rparr>"
  have "app_step env s s1" using app_step.arrive [of env s] by (simp add: s1_def g_def)
  moreover have "app_step env s1 s2" using event_gets_handlers [of s1 ?fs g "[]" env] by (simp add: s1_def s2_def old_def)
  moreover have "app_step env s2 s3" using app_step.arrive [of env s2] by (simp add: s1_def s2_def s3_def g_def)
  moreover have "app_steps env s3 s4"
    using reload_first_half [OF _ assms(3,4), of s3] assms by (simp add: s1_def s2_def s3_def s4_def n_def old_def)
  moreover have "app_step env s4 s5"
    using event_gets_handlers [of s4 "?fs @ [Running g old]" g "[]" env] by (simp add: s1_def s2_def s3_def s4_def s5_def new)
  moreover have "app_step env s5 s6"
    using event_runs [of s5 "?fs @ [Running g old]" g h' hs' "[]" env] open'
    by (simp add: s1_def s2_def s3_def s4_def s5_def s6_def)
  moreover have "app_steps env s6 s7"
    using reload_second_half [of s6 c n old env] by (simp add: s1_def s2_def s3_def s4_def s5_def s6_def s7_def)
  moreover have "app_step env s7 s8"
    using event_runs [of s7 ?fs g h hs "[Running g hs']" env]
    by (simp add: s1_def s2_def s3_def s4_def s5_def s6_def s7_def s8_def old)
  ultimately have "app_steps env s s8" by (meson rtranclp.rtrancl_into_rtrancl rtranclp.rtrancl_refl rtranclp_trans)
  then show ?thesis
    using less old new
    by (intro exI [of _ s8] exI [of _ h] exI [of _ h'])
      (simp add: s1_def s2_def s3_def s4_def s5_def s6_def s7_def s8_def g_def old_def)
qed

theorem reload_under_events_witness:
  "\<forall>acc :: ('b, 'w) AccEnv. \<exists>s' h. app_reachable (demo_app acc) s' \<and> (0, h, True) \<in> set (apRan s') \<and>
     h \<in> set (ids 0 (demo_reg :: 'w Registry))"
proof
  fix acc :: "('b, 'w) AccEnv"
  obtain s where s: "app_start (demo_app acc) (Inr '''') = Inr s" "app_reachable (demo_app acc) s" "apPhase s = Idle"
      "apReg s = (0, demo_reg :: 'w Registry)"
    using demo_start [of acc] by blast
  have ne: "All (demo_reg :: 'w Registry) \<noteq> []" by (metis demo_app_runs(3) list.size(3) zero_neq_one)
  have chain: "fst (apChain s) = 0" using app_inv_reachable [OF s(2)] s by (simp add: app_inv_def consistent_def)
  have env: "aeLoad (demo_app acc) (Inr '''') = Inr (applyDefaults demo_Config)"
    "aeBuild (demo_app acc) (applyDefaults demo_Config) = Inr demo_reg"
    by (rule demo_app_runs)+
  from reload_under_events [OF s(2) s(3) env] ne s(4) chain
  obtain s' h where run: "app_steps (demo_app acc) s s'" and "(0, h, True) \<in> set (apRan s') \<and> h \<in> set (ids 0 (demo_reg :: 'w Registry))"
    by auto
  moreover from s(1) run have "app_reachable (demo_app acc) s'" unfolding app_reachable_def by blast
  ultimately show "\<exists>s' h. app_reachable (demo_app acc) s' \<and> (0, h, True) \<in> set (apRan s') \<and>
     h \<in> set (ids 0 (demo_reg :: 'w Registry))" by blast
qed

text \<open>
  The shutdown does not exclude a reload: from any state without either, when the next configuration can be loaded
  and built, there is an execution with a shutdown and a reload, both complete, after which no handler
  of the current registry was closed, and every handler of the one before was closed twice.
\<close>

theorem shutdown_misses_reload:
  assumes "app_reachable env s" and "apPhase s = Idle" and "apDown s = None"
    and "aeLoad env file = Inr c" and "aeBuild env c = Inr reg"
  shows "\<exists>s' old. app_steps env s s' \<and> apPhase s' = Idle \<and> apDown s' = Some (fst (apReg s), []) \<and> snd (apReg s') = reg \<and>
     set (apClosed s') \<inter> set (ids (fst (apReg s')) reg) = {} \<and>
     old = ids (fst (apReg s)) (snd (apReg s)) \<and> apClosed s' = apClosed s @ old @ old"
proof -
  define old where "old = ids (fst (apReg s)) (snd (apReg s))"
  define n where "n = Suc (apBuilds s)"
  define s1 where "s1 = s\<lparr>apDown := Some (fst (apReg s), old)\<rparr>"
  define s2 where "s2 = s1\<lparr>apClosed := apClosed s @ old, apDown := Some (fst (apReg s), [])\<rparr>"
  define s3 where "s3 = s2\<lparr>apBuilds := n, apReg := (n, reg), apPhase := Swapped c n old, apInstalled := apInstalled s @ ids n reg\<rparr>"
  define s4 where "s4 = s3\<lparr>apChain := (n, c), apGauge := length (fst (Names reg)), apClosed := (apClosed s @ old) @ old,
      apPhase := Idle, apReloads := apReloads s @ [''success'']\<rparr>"
  note states = s1_def s2_def s3_def s4_def
  have "app_step env s s1" using app_step.shutdown [OF assms(3), of env] by (simp add: s1_def old_def)
  moreover have "app_steps env s1 s2" using shutdown_closes [of s1 "fst (apReg s)" old env] by (simp add: states)
  moreover have "app_steps env s2 s3" using reload_first_half [OF _ assms(4,5), of s2] assms(2) by (simp add: states n_def old_def)
  moreover have "app_steps env s3 s4" using reload_second_half [of s3 c n old env] by (simp add: states)
  ultimately have run: "app_steps env s s4" by (meson converse_rtranclp_into_rtranclp rtranclp_trans)
  have "closed_once s" and builds: "fst (apReg s) < n" using app_inv_reachable [OF assms(1)] assms(3) by (simp_all add: app_inv_def n_def)
  then have "\<forall>h \<in> set (apClosed s). fst h < fst (apReg s)" by (simp add: closed_once_def)
  then have "\<forall>h \<in> set (apClosed s) \<union> set old. fst h < n" using builds ids_fst unfolding old_def by fastforce
  moreover have "\<forall>h \<in> set (ids n reg). fst h = n" using ids_fst by blast
  ultimately have "(set (apClosed s) \<union> set old) \<inter> set (ids n reg) = {}" by fastforce
  then have "set (apClosed s4) \<inter> set (ids (fst (apReg s4)) reg) = {}" by (simp add: states Un_assoc)
  with run show ?thesis by (intro exI [of _ s4] exI [of _ old]) (simp add: states old_def)
qed

theorem shutdown_misses_reload_witness:
  "\<forall>acc :: ('b, 'w) AccEnv. \<exists>s'. app_reachable (demo_app acc) s' \<and> apPhase s' = Idle \<and> apDown s' = Some (0, []) \<and>
     snd (apReg s') = (demo_reg :: 'w Registry) \<and> set (apClosed s') \<inter> set (ids (fst (apReg s')) (demo_reg :: 'w Registry)) = {}"
proof
  fix acc :: "('b, 'w) AccEnv"
  obtain s where s: "app_start (demo_app acc) (Inr '''') = Inr s" "app_reachable (demo_app acc) s" "apPhase s = Idle" "apDown s = None"
      "apReg s = (0, demo_reg :: 'w Registry)"
    using demo_start [of acc] by blast
  have env: "aeLoad (demo_app acc) (Inr '''') = Inr (applyDefaults demo_Config)"
    "aeBuild (demo_app acc) (applyDefaults demo_Config) = Inr demo_reg"
    by (rule demo_app_runs)+
  from shutdown_misses_reload [OF s(2-4) env] s(5) obtain s' where run: "app_steps (demo_app acc) s s'"
    and "apPhase s' = Idle \<and> apDown s' = Some (0, []) \<and> snd (apReg s') = demo_reg \<and>
      set (apClosed s') \<inter> set (ids (fst (apReg s')) (demo_reg :: 'w Registry)) = {}" by auto
  moreover from s(1) run have "app_reachable (demo_app acc) s'" unfolding app_reachable_def by blast
  ultimately show "\<exists>s'. app_reachable (demo_app acc) s' \<and> apPhase s' = Idle \<and> apDown s' = Some (0, []) \<and>
     snd (apReg s') = (demo_reg :: 'w Registry) \<and> set (apClosed s') \<inter> set (ids (fst (apReg s')) (demo_reg :: 'w Registry)) = {}" by blast
qed

end
