(* ===== verification/Relay_GitHub.thy ===== *)
theory Relay_GitHub
  imports Relay_SCM Relay_Factory
begin

text \<open>
  Package \<^verbatim>\<open>internal/notifier/scm/github\<close> and its factory: commit statuses, comments, labels, check runs and
  deployment statuses. The GitHub API is an argument, a record of the calls the handlers make, each of
  which acts on a world; an error carries the status of the response it stems from, when there is one.
\<close>

section \<open>The interface to GitHub\<close>

abbreviation providerGitHub :: string where "providerGitHub \<equiv> ''github''"
abbreviation statusQueued :: string where "statusQueued \<equiv> ''queued''"
abbreviation statusInProgress :: string where "statusInProgress \<equiv> ''in_progress''"
abbreviation statusCompleted :: string where "statusCompleted \<equiv> ''completed''"

type_synonym ('a, 'w) call = "'w \<Rightarrow> 'a result \<times> 'w"
type_synonym 'w effect = "'w \<Rightarrow> err option \<times> 'w"

text \<open>An error and the status code of an \<^verbatim>\<open>ErrorResponse\<close>.\<close>

type_synonym api_err = "err \<times> int option"

record RepoStatus =
  gsState :: string
  gsContext :: string
  gsDescription :: "string option"
  gsTargetURL :: "string option"

record CheckRunOptions =
  chkName :: string
  chkHeadSHA :: string
  chkStatus :: string
  chkExternalID :: string
  chkConclusion :: "string option"
  chkCompletedAt :: "Time option"
  chkStartedAt :: "Time option"
  chkOutput :: "(string \<times> string) option"

record DeploymentRequest =
  dpRef :: string
  dpEnvironment :: string
  dpAutoMerge :: bool
  dpRequiredContexts :: "string list"
  dpTransient :: bool
  dpProduction :: bool
  dpDescription :: string

record DeploymentStatusRequest =
  dsState :: string
  dsDescription :: string
  dsLogURL :: "string option"
  dsEnvironmentURL :: "string option"

record 'w GitHubAPI =
  ghCreateStatus :: "string \<Rightarrow> string \<Rightarrow> string \<Rightarrow> RepoStatus \<Rightarrow> 'w effect"
  ghListComments :: "string \<Rightarrow> string \<Rightarrow> int \<Rightarrow> nat \<Rightarrow> ((int \<times> string) list, 'w) call"
  ghEditComment :: "string \<Rightarrow> string \<Rightarrow> int \<Rightarrow> string \<Rightarrow> 'w effect"
  ghCreateComment :: "string \<Rightarrow> string \<Rightarrow> int \<Rightarrow> string \<Rightarrow> 'w effect"
  ghCreateCommitComment :: "string \<Rightarrow> string \<Rightarrow> string \<Rightarrow> string \<Rightarrow> 'w effect"
  ghGetLabel :: "string \<Rightarrow> string \<Rightarrow> string \<Rightarrow> 'w \<Rightarrow> (api_err + string) \<times> 'w"
  ghEditLabel :: "string \<Rightarrow> string \<Rightarrow> string \<Rightarrow> string \<Rightarrow> 'w effect"
  ghCreateLabel :: "string \<Rightarrow> string \<Rightarrow> string \<Rightarrow> string \<Rightarrow> 'w effect"
  ghRemoveLabel :: "string \<Rightarrow> string \<Rightarrow> int \<Rightarrow> string \<Rightarrow> 'w \<Rightarrow> api_err option \<times> 'w"
  ghAddLabels :: "string \<Rightarrow> string \<Rightarrow> int \<Rightarrow> string list \<Rightarrow> 'w effect"
  ghCreateCheckRun :: "string \<Rightarrow> string \<Rightarrow> CheckRunOptions \<Rightarrow> 'w effect"
  ghCreateDeployment :: "string \<Rightarrow> string \<Rightarrow> DeploymentRequest \<Rightarrow> 'w \<Rightarrow> (api_err + int) \<times> 'w"
  ghListDeployments :: "string \<Rightarrow> string \<Rightarrow> string \<Rightarrow> string \<Rightarrow> (int list, 'w) call"
  ghCreateDeploymentStatus :: "string \<Rightarrow> string \<Rightarrow> int \<Rightarrow> DeploymentStatusRequest \<Rightarrow> 'w effect"

definition nonempty :: "string \<Rightarrow> string option" where
  "nonempty s = (if s \<noteq> '''' then Some s else None)"

text \<open>The checks and calls of a handler, one after the other, up to the first error.\<close>

definition after :: "err option \<Rightarrow> 'w effect \<Rightarrow> 'w effect" where
  "after c k w = (case c of Some er \<Rightarrow> (Some er, w) | None \<Rightarrow> k w)"

section \<open>Commit status\<close>

definition githubStateMap :: StateMap where
  "githubStateMap = [(StatePending, ''pending''), (StateRunning, ''pending''), (StateSuccess, ''success''), (StateFailure, ''failure''),
     (StateError, ''error''), (StateCanceled, ''error'')]"

definition GitHub_Status_Handle :: "'w GitHubAPI \<Rightarrow> Event \<Rightarrow> 'w effect" where
  "GitHub_Status_Handle api e w =
     (if Provider e \<noteq> providerGitHub then (None, w)
      else if CommitSHA e = '''' then (None, w)
      else if Owner (RepoOf e) = '''' \<or> RepoName (RepoOf e) = '''' then (None, w)
      else after (scm_Validate providerGitHub ''status_description'' (Description e))
          (after (scm_Validate providerGitHub ''status_context'' (Context e))
            (ghCreateStatus api (Owner (RepoOf e)) (RepoName (RepoOf e)) (CommitSHA e)
               \<lparr>gsState = StateMap_Map githubStateMap (StateOf e) ''error'', gsContext = Context e,
                gsDescription = nonempty (Description e), gsTargetURL = nonempty (TargetURL e)\<rparr>)) w)"

section \<open>Comments\<close>

definition findMarkedComment :: "'w GitHubAPI \<Rightarrow> string \<Rightarrow> string \<Rightarrow> int \<Rightarrow> string \<Rightarrow> 'w \<Rightarrow> int option \<times> 'w" where
  "findMarkedComment api owner repo number marker w =
     (case ghListComments api owner repo number 100 w of
        (Inl er, w1) \<Rightarrow> (None, w1)
      | (Inr cs, w1) \<Rightarrow> (map_option fst (List.find (\<lambda>c. HasMarker (snd c) marker) cs), w1))"

definition postIssueComment :: "'w GitHubAPI \<Rightarrow> template option \<Rightarrow> string \<Rightarrow> Event \<Rightarrow> int \<Rightarrow> string \<Rightarrow> 'w effect" where
  "postIssueComment api tmpl mode e number action w =
     (let owner = Owner (RepoOf e); repo = RepoName (RepoOf e)
      in case RenderTemplate tmpl e of
        Inl er \<Rightarrow> (Some (Wrap ''render template: '' er), w)
      | Inr body0 \<Rightarrow>
          (if mode = ModeUpsert then
             (let marker = Marker (RunID e) action; body = WithMarker marker body0
              in after (scm_Validate providerGitHub ''comment_body'' body)
                (\<lambda>w. case findMarkedComment api owner repo number marker w of
                    (Some i, w1) \<Rightarrow> ghEditComment api owner repo i body w1
                  | (None, w1) \<Rightarrow> ghCreateComment api owner repo number body w1) w)
           else after (scm_Validate providerGitHub ''comment_body'' body0) (ghCreateComment api owner repo number body0) w))"

definition IssueComment_Handle :: "'w GitHubAPI \<Rightarrow> template option \<Rightarrow> string \<Rightarrow> Event \<Rightarrow> 'w effect" where
  "IssueComment_Handle api tmpl mode e w =
     (if Provider e \<noteq> providerGitHub then (None, w)
      else case IssueNumber e of
        None \<Rightarrow> (None, w)
      | Some n \<Rightarrow>
          (if Owner (RepoOf e) = '''' \<or> RepoName (RepoOf e) = '''' then (None, w)
           else postIssueComment api tmpl mode e n ''issue_comment'' w))"

definition PRComment_Handle :: "'w GitHubAPI \<Rightarrow> template option \<Rightarrow> string \<Rightarrow> Event \<Rightarrow> 'w effect" where
  "PRComment_Handle api tmpl mode e w =
     (if Provider e \<noteq> providerGitHub then (None, w)
      else case PRNumber e of
        None \<Rightarrow> (None, w)
      | Some n \<Rightarrow>
          (if Owner (RepoOf e) = '''' \<or> RepoName (RepoOf e) = '''' then (None, w)
           else postIssueComment api tmpl mode e n ''pr_comment'' w))"

definition CommitComment_Handle :: "'w GitHubAPI \<Rightarrow> template option \<Rightarrow> Event \<Rightarrow> 'w effect" where
  "CommitComment_Handle api tmpl e w =
     (if Provider e \<noteq> providerGitHub then (None, w)
      else if CommitSHA e = '''' \<or> Owner (RepoOf e) = '''' \<or> RepoName (RepoOf e) = '''' then (None, w)
      else case RenderTemplate tmpl e of
        Inl er \<Rightarrow> (Some (Wrap ''render template: '' er), w)
      | Inr body \<Rightarrow> after (scm_Validate providerGitHub ''comment_body'' body)
          (ghCreateCommitComment api (Owner (RepoOf e)) (RepoName (RepoOf e)) (CommitSHA e) body) w)"

section \<open>Labels\<close>

text \<open>A handler knows the labels it has seen in a repository; the cache of templates belongs to the process.\<close>

record LabelCaches =
  lcChecked :: "string list"
  lcTemplates :: tmpl_cache

definition ensureLabelExists :: "'w GitHubAPI \<Rightarrow> string \<Rightarrow> string \<Rightarrow> Label \<Rightarrow> string list \<times> 'w \<Rightarrow> err option \<times> string list \<times> 'w" where
  "ensureLabelExists api owner repo label s =
     (case s of (checked, w) \<Rightarrow>
        if lbColor label = '''' then (None, checked, w)
        else
          (let cacheKey = owner @ ''/'' @ repo @ ''/'' @ lbName label in
           if cacheKey \<in> set checked then (None, checked, w)
           else case ghGetLabel api owner repo (lbName label) w of
               (Inr color, w1) \<Rightarrow>
                 (if color \<noteq> lbColor label then
                    (case ghEditLabel api owner repo (lbName label) (lbColor label) w1 of
                       (Some er, w2) \<Rightarrow> (Some (Wrap ''update label color: '' er), checked, w2)
                     | (None, w2) \<Rightarrow> (None, cacheKey # checked, w2))
                  else (None, cacheKey # checked, w1))
             | (Inl (er, code), w1) \<Rightarrow>
                 (if code \<noteq> Some 404 then (Some (Wrap ''check label existence: '' er), checked, w1)
                  else case ghCreateLabel api owner repo (lbName label) (lbColor label) w1 of
                      (Some er2, w2) \<Rightarrow> (Some (Wrap ''create label with color: '' er2), checked, w2)
                    | (None, w2) \<Rightarrow> (None, cacheKey # checked, w2))))"

fun remove_labels :: "'w GitHubAPI \<Rightarrow> string \<Rightarrow> string \<Rightarrow> int \<Rightarrow> Label list \<Rightarrow> 'w effect" where
  "remove_labels api owner repo n [] w = (None, w)"
| "remove_labels api owner repo n (l # ls) w =
     (case scm_Validate providerGitHub ''label_name'' (lbName l) of
        Some er \<Rightarrow> (Some er, w)
      | None \<Rightarrow>
          (case ghRemoveLabel api owner repo n (lbName l) w of
             (None, w1) \<Rightarrow> remove_labels api owner repo n ls w1
           | (Some (er, code), w1) \<Rightarrow> if code = Some 404 then remove_labels api owner repo n ls w1 else (Some er, w1)))"

fun ensure_labels :: "'w GitHubAPI \<Rightarrow> string \<Rightarrow> string \<Rightarrow> Label list \<Rightarrow> string list \<times> 'w \<Rightarrow> err option \<times> string list \<times> 'w" where
  "ensure_labels api owner repo [] s = (None, s)"
| "ensure_labels api owner repo (l # ls) s =
     (case scm_Validate providerGitHub ''label_name'' (lbName l) of
        Some er \<Rightarrow> (Some er, s)
      | None \<Rightarrow>
          (case ensureLabelExists api owner repo l s of
             (Some er, s1) \<Rightarrow> (Some er, s1)
           | (None, s1) \<Rightarrow> ensure_labels api owner repo ls s1))"

definition applyLabelSet ::
  "'w GitHubAPI \<Rightarrow> (string \<Rightarrow> template result) \<Rightarrow> LabelSet \<Rightarrow> Event \<Rightarrow> int \<Rightarrow> LabelCaches \<times> 'w \<Rightarrow> err option \<times> LabelCaches \<times> 'w" where
  "applyLabelSet api parse labels e n s =
     (let owner = Owner (RepoOf e); repo = RepoName (RepoOf e)
      in case LabelSet_Render parse labels e (lcTemplates (fst s)) of
        (Inl er, t) \<Rightarrow> (Some er, (fst s)\<lparr>lcTemplates := t\<rparr>, snd s)
      | (Inr (add, remove), t) \<Rightarrow>
          (let c = (fst s)\<lparr>lcTemplates := t\<rparr>
           in case remove_labels api owner repo n remove (snd s) of
             (Some er, w1) \<Rightarrow> (Some er, c, w1)
           | (None, w1) \<Rightarrow>
               (if add = [] then (None, c, w1)
                else case ensure_labels api owner repo add (lcChecked c, w1) of
                    (Some er, checked, w2) \<Rightarrow> (Some er, c\<lparr>lcChecked := checked\<rparr>, w2)
                  | (None, checked, w2) \<Rightarrow>
                      (case ghAddLabels api owner repo n (map lbName add) w2 of (r, w3) \<Rightarrow> (r, c\<lparr>lcChecked := checked\<rparr>, w3)))))"

definition Label_Handle ::
  "'w GitHubAPI \<Rightarrow> (string \<Rightarrow> template result) \<Rightarrow> LabelSet \<Rightarrow> Event \<Rightarrow> LabelCaches \<times> 'w \<Rightarrow> err option \<times> LabelCaches \<times> 'w" where
  "Label_Handle api parse labels e s =
     (if Provider e \<noteq> providerGitHub then (None, s)
      else if Owner (RepoOf e) = '''' \<or> RepoName (RepoOf e) = '''' then (None, s)
      else case (case IssueNumber e of Some n \<Rightarrow> Some n | None \<Rightarrow> PRNumber e) of
        None \<Rightarrow> (None, s)
      | Some n \<Rightarrow> if LabelSet_Empty labels then (None, s) else applyLabelSet api parse labels e n s)"

section \<open>Check runs\<close>

definition CheckRun_mapState :: "string \<Rightarrow> string \<times> string" where
  "CheckRun_mapState s =
     (if s = StatePending then (statusQueued, '''')
      else if s = StateRunning then (statusInProgress, '''')
      else if s = StateSuccess then (statusCompleted, ''success'')
      else if s = StateFailure then (statusCompleted, ''failure'')
      else if s = StateError then (statusCompleted, ''failure'')
      else if s = StateCanceled then (statusCompleted, ''cancelled'')
      else (statusQueued, ''''))"

definition generateSummary :: "template option \<Rightarrow> Event \<Rightarrow> string" where
  "generateSummary tmpl e =
     (case tmpl of
        None \<Rightarrow> ''**Pipeline:** '' @ RunName e @ [CHR 0x0A] @ ''**Status:** '' @ StateOf e
      | Some t \<Rightarrow> (case t e of Inl er \<Rightarrow> '''' | Inr s \<Rightarrow> s))"

definition CheckRun_Handle :: "'w GitHubAPI \<Rightarrow> ('w \<Rightarrow> Time) \<Rightarrow> string \<Rightarrow> template option \<Rightarrow> Event \<Rightarrow> 'w effect" where
  "CheckRun_Handle api clock name tmpl e w =
     (if Provider e \<noteq> providerGitHub then (None, w)
      else if CommitSHA e = '''' then (None, w)
      else if Owner (RepoOf e) = '''' \<or> RepoName (RepoOf e) = '''' then (None, w)
      else
        (let (status, conclusion) = CheckRun_mapState (StateOf e); summary = generateSummary tmpl e
         in ghCreateCheckRun api (Owner (RepoOf e)) (RepoName (RepoOf e))
              \<lparr>chkName = name, chkHeadSHA = CommitSHA e, chkStatus = status, chkExternalID = RunID e, chkConclusion = nonempty conclusion,
               chkCompletedAt = (if conclusion \<noteq> '''' then Some (clock w) else None),
               chkStartedAt = (if status = statusInProgress \<and> StartedAt e \<noteq> 0 then Some (StartedAt e) else None),
               chkOutput = (if summary \<noteq> '''' then Some (''Pipeline: '' @ RunName e, summary) else None)\<rparr> w))"

section \<open>Deployments\<close>

abbreviation defaultEnvironment :: string where "defaultEnvironment \<equiv> ''production''"

definition Deployment_mapState :: "string \<Rightarrow> string" where
  "Deployment_mapState s =
     (if s = StatePending then statusQueued
      else if s = StateRunning then statusInProgress
      else if s = StateSuccess then ''success''
      else if s = StateFailure then ''failure''
      else if s = StateError then ''error''
      else if s = StateCanceled then ''inactive''
      else statusQueued)"

definition createDeploymentStatus :: "'w GitHubAPI \<Rightarrow> string \<Rightarrow> string \<Rightarrow> int \<Rightarrow> Event \<Rightarrow> 'w effect" where
  "createDeploymentStatus api owner repo i e =
     ghCreateDeploymentStatus api owner repo i
       \<lparr>dsState = Deployment_mapState (StateOf e), dsDescription = Description e, dsLogURL = nonempty (TargetURL e),
        dsEnvironmentURL = nonempty (TargetURL e)\<rparr>"

definition findExistingDeployment :: "'w GitHubAPI \<Rightarrow> string \<Rightarrow> string \<Rightarrow> string \<Rightarrow> string \<Rightarrow> (int, 'w) call" where
  "findExistingDeployment api owner repo sha environment w =
     (case ghListDeployments api owner repo sha environment w of
        (Inl er, w1) \<Rightarrow> (Inl (Wrap ''list deployments: '' er), w1)
      | (Inr [], w1) \<Rightarrow> (Inl (Err (''no existing deployment found for ref='' @ sha @ '' environment='' @ environment)), w1)
      | (Inr (i # is), w1) \<Rightarrow> (Inr i, w1))"

definition DeploymentStatus_Handle :: "'w GitHubAPI \<Rightarrow> Event \<Rightarrow> 'w effect" where
  "DeploymentStatus_Handle api e w =
     (if Provider e \<noteq> providerGitHub then (None, w)
      else if CommitSHA e = '''' then (None, w)
      else if Owner (RepoOf e) = '''' \<or> RepoName (RepoOf e) = '''' then (None, w)
      else
        (let owner = Owner (RepoOf e); repo = RepoName (RepoOf e);
             environment = (if Context e = '''' then defaultEnvironment else Context e);
             req = \<lparr>dpRef = CommitSHA e, dpEnvironment = environment, dpAutoMerge = False, dpRequiredContexts = [],
                    dpTransient = False, dpProduction = (environment = defaultEnvironment), dpDescription = ''Pipeline: '' @ RunName e\<rparr>
         in case ghCreateDeployment api owner repo req w of
              (Inl (er, code), w1) \<Rightarrow>
                (if code = Some 409 then
                   (case findExistingDeployment api owner repo (CommitSHA e) environment w1 of
                      (Inl er2, w2) \<Rightarrow> (Some (Wrap ''create deployment conflict, lookup failed: '' er2), w2)
                    | (Inr i, w2) \<Rightarrow> createDeploymentStatus api owner repo i e w2)
                 else (Some (Wrap ''create deployment: '' er), w1))
            | (Inr i, w1) \<Rightarrow> createDeploymentStatus api owner repo i e w1))"

section \<open>The handlers of an instance\<close>

definition plain_handler :: "string \<Rightarrow> string \<Rightarrow> string \<Rightarrow> (Event \<Rightarrow> 'w effect) \<Rightarrow> 'w ActionHandler" where
  "plain_handler name provider type handle =
     \<lparr>hName = name, hProvider = provider, hType = type, hHandle = (\<lambda>ctx. handle), hClose = (\<lambda>w. (None, w))\<rparr>"

definition NewStatusReporter :: "'w GitHubAPI \<Rightarrow> string \<Rightarrow> 'w ActionHandler" where
  "NewStatusReporter api name = plain_handler name providerGitHub ''commit_status'' (GitHub_Status_Handle api)"

type_synonym compiler = "string \<Rightarrow> string \<Rightarrow> template result"

definition NewCommitCommentHandler :: "compiler \<Rightarrow> 'w GitHubAPI \<Rightarrow> string \<Rightarrow> string \<Rightarrow> 'w ActionHandler result" where
  "NewCommitCommentHandler compile api name tmpl =
     (case optional_template compile ''commit_comment'' tmpl of
        Inl er \<Rightarrow> Inl er
      | Inr t \<Rightarrow> Inr (plain_handler name providerGitHub ''commit_comment'' (CommitComment_Handle api t)))"

definition with_mode :: "template option result \<Rightarrow> string \<Rightarrow> (template option \<Rightarrow> string \<Rightarrow> 'w ActionHandler) \<Rightarrow> 'w ActionHandler result" where
  "with_mode tmpl mode new =
     (case tmpl of
        Inl er \<Rightarrow> Inl er
      | Inr t \<Rightarrow> (case NormalizeMode mode of Inl er \<Rightarrow> Inl er | Inr m \<Rightarrow> Inr (new t m)))"

definition NewPRCommentHandler :: "compiler \<Rightarrow> 'w GitHubAPI \<Rightarrow> string \<Rightarrow> string \<Rightarrow> string \<Rightarrow> 'w ActionHandler result" where
  "NewPRCommentHandler compile api name tmpl mode =
     with_mode (optional_template compile ''pr_comment'' tmpl) mode
       (\<lambda>t m. plain_handler name providerGitHub ''pr_comment'' (PRComment_Handle api t m))"

definition NewIssueCommentHandler :: "compiler \<Rightarrow> 'w GitHubAPI \<Rightarrow> string \<Rightarrow> string \<Rightarrow> string \<Rightarrow> 'w ActionHandler result" where
  "NewIssueCommentHandler compile api name tmpl mode =
     with_mode (optional_template compile ''issue_comment'' tmpl) mode
       (\<lambda>t m. plain_handler name providerGitHub ''issue_comment'' (IssueComment_Handle api t m))"

text \<open>The caches of a label handler are a part of the world, reached through \<open>get\<close> and \<open>put\<close>.\<close>

definition NewLabelHandler ::
  "('w \<Rightarrow> LabelCaches) \<Rightarrow> (LabelCaches \<Rightarrow> 'w \<Rightarrow> 'w) \<Rightarrow> (string \<Rightarrow> template result) \<Rightarrow>
     'w GitHubAPI \<Rightarrow> string \<Rightarrow> LabelSet \<Rightarrow> 'w ActionHandler" where
  "NewLabelHandler get put parse api name labels =
     in_world get put (plain_handler name providerGitHub ''label'' (Label_Handle api parse (LabelSet_Validate labels)))"

definition NewCheckRunHandler :: "compiler \<Rightarrow> ('w \<Rightarrow> Time) \<Rightarrow> 'w GitHubAPI \<Rightarrow> string \<Rightarrow> string \<Rightarrow> string \<Rightarrow> 'w ActionHandler result" where
  "NewCheckRunHandler compile clock api inst name tmpl =
     (case optional_template compile ''checkrun'' tmpl of
        Inl er \<Rightarrow> Inl er
      | Inr t \<Rightarrow> Inr (plain_handler inst providerGitHub ''check_run''
          (CheckRun_Handle api clock (if name = '''' then ''Tekton Pipeline'' else name) t)))"

definition NewDeploymentStatusHandler :: "'w GitHubAPI \<Rightarrow> string \<Rightarrow> 'w ActionHandler" where
  "NewDeploymentStatusHandler api name = plain_handler name providerGitHub ''deployment_status'' (DeploymentStatus_Handle api)"

text \<open>
  What the factory is given: the secrets, the check of the credentials of a GitHub App, the client for
  a base URL and a way to authenticate, the compilers, the clock, the token bucket of a rate, and the
  place of a label handler's caches. Discussion comments are built by an argument.
\<close>

datatype credentials = AppCredentials int int string | Token string

record 'w GitHubEnv =
  geRead :: FileReader
  geNewApp :: "int \<Rightarrow> int \<Rightarrow> string \<Rightarrow> string \<Rightarrow> err option"
  geClient :: "credentials \<Rightarrow> string \<Rightarrow> 'w GitHubAPI"
  geCompile :: compiler
  geParse :: "string \<Rightarrow> template result"
  geCEL :: "string \<Rightarrow> cel_program result"
  geLower :: "nat \<Rightarrow> nat"
  geStore :: "'w DedupeStore option"
  geClock :: "'w \<Rightarrow> Time"
  geLimiter :: "OutboundRateLimit \<Rightarrow> Ctx \<Rightarrow> 'w \<Rightarrow> err option \<times> 'w"
  geCaches :: "Action \<Rightarrow> ('w \<Rightarrow> LabelCaches) \<times> (LabelCaches \<Rightarrow> 'w \<Rightarrow> 'w)"
  geDiscussion :: "'w GitHubAPI \<Rightarrow> string \<Rightarrow> string \<Rightarrow> 'w ActionHandler result"

definition built_result :: "'w ActionHandler result \<Rightarrow> 'w built" where
  "built_result r = (case r of Inl er \<Rightarrow> BuildError er | Inr h \<Rightarrow> Built (Some h))"

definition GitHub_buildHandler :: "'w GitHubEnv \<Rightarrow> GitHubInstance \<Rightarrow> 'w GitHubAPI \<Rightarrow> Action \<Rightarrow> 'w built" where
  "GitHub_buildHandler env inst api a =
     (let t = ActionTypeOf a; name = gh_Name inst; tmpl = ActionTemplate a in
      if t = ''commit_status'' then Built (Some (NewStatusReporter api name))
      else if t = ''commit_comment'' then built_result (NewCommitCommentHandler (geCompile env) api name tmpl)
      else if t = ''pr_comment'' then built_result (NewPRCommentHandler (geCompile env) api name tmpl (Mode a))
      else if t = ''issue_comment'' then built_result (NewIssueCommentHandler (geCompile env) api name tmpl (Mode a))
      else if t = ''discussion_comment'' then built_result (geDiscussion env api name tmpl)
      else if t = ''label'' then
        Built (Some (NewLabelHandler (fst (geCaches env a)) (snd (geCaches env a)) (geParse env) api name (labelSet a)))
      else if t = ''check_run'' then built_result (NewCheckRunHandler (geCompile env) (geClock env) api name (ActionName a) tmpl)
      else if t = ''deployment_status'' then Built (Some (NewDeploymentStatusHandler api name))
      else Unsupported)"

definition github_credentials :: "'w GitHubEnv \<Rightarrow> GitHubInstance \<Rightarrow> credentials result" where
  "github_credentials env inst =
     (case gh_Auth inst of
        Some a \<Rightarrow>
          (if ghA_AppID a \<noteq> 0 \<and> ghA_InstallationID a \<noteq> 0 then
             (case geNewApp env (ghA_AppID a) (ghA_InstallationID a) (gh_BaseURL inst) (ghA_PrivateKeyFile a) of
                Some er \<Rightarrow> Inl er
              | None \<Rightarrow> Inr (AppCredentials (ghA_AppID a) (ghA_InstallationID a) (ghA_PrivateKeyFile a)))
           else map_sum id Token (ResolveOrInfer (geRead env) (ghA_SecretFile a) ''github'' (gh_Name inst) ''token'' (ghA_SecretKey a)))
      | None \<Rightarrow> map_sum id Token (ResolveOrInfer (geRead env) '''' ''github'' (gh_Name inst) ''token'' ''''))"

definition GitHubFactory_Build :: "'w GitHubEnv \<Rightarrow> GitHubInstance \<Rightarrow> 'w ActionHandler list result" where
  "GitHubFactory_Build env inst =
     (if \<not> gh_Enabled inst then Inr []
      else case github_credentials env inst of
        Inl er \<Rightarrow> Inl er
      | Inr cred \<Rightarrow>
          (case buildActionsWithMiddleware (geCEL env) (geLower env) (geStore env)
               (GitHub_buildHandler env inst (geClient env cred (gh_BaseURL inst))) (gh_Actions inst) of
             Inl er \<Rightarrow> Inl er
           | Inr hs \<Rightarrow> Inr (case gh_RateLimit inst of
                 None \<Rightarrow> hs
               | Some r \<Rightarrow> map (WrapWithRateLimit (Some (geLimiter env r))) hs)))"

section \<open>Comments of a run\<close>

lemma after_None: "after c k w = (None, w') \<longleftrightarrow> c = None \<and> k w = (None, w')"
  by (auto simp: after_def split: option.split)

text \<open>Looking for the marker and then editing or creating is the shared upsert.\<close>

lemma postIssueComment_upsert:
  assumes "postIssueComment api tmpl ModeUpsert e n action w = (None, w')"
  shows "\<exists>body. RenderTemplate tmpl e = Inr body \<and>
     upsert_comment (ghListComments api (Owner (RepoOf e)) (RepoName (RepoOf e)) n 100) (ghEditComment api (Owner (RepoOf e)) (RepoName (RepoOf e)))
       (ghCreateComment api (Owner (RepoOf e)) (RepoName (RepoOf e)) n) (Marker (RunID e) action)
       (WithMarker (Marker (RunID e) action) body) w = (None, w')"
proof -
  obtain body where b: "RenderTemplate tmpl e = Inr body" using assms
    by (cases "RenderTemplate tmpl e") (auto simp: postIssueComment_def)
  let ?m = "Marker (RunID e) action"
  have "(case findMarkedComment api (Owner (RepoOf e)) (RepoName (RepoOf e)) n ?m w of
      (Some i, w1) \<Rightarrow> ghEditComment api (Owner (RepoOf e)) (RepoName (RepoOf e)) i (WithMarker ?m body) w1
    | (None, w1) \<Rightarrow> ghCreateComment api (Owner (RepoOf e)) (RepoName (RepoOf e)) n (WithMarker ?m body) w1) = (None, w')"
    using assms b by (simp add: postIssueComment_def after_None Let_def)
  with b show ?thesis
    by (auto simp: findMarkedComment_def upsert_comment_def split: prod.splits sum.splits option.splits)
qed

text \<open>Events handled one after the other; None when a call fails.\<close>

fun run_events :: "(Event \<Rightarrow> 'w effect) \<Rightarrow> Event list \<Rightarrow> 'w \<Rightarrow> 'w option" where
  "run_events h [] w = Some w"
| "run_events h (e # es) w = (case h e w of (None, w') \<Rightarrow> run_events h es w' | (Some er, w') \<Rightarrow> None)"

text \<open>What happens to the comments of a thread while a run's events are handled in upsert mode.\<close>

context comment_thread
begin

lemma upserts:
  assumes "\<And>e w w'. e \<in> set es \<Longrightarrow> h e w = (None, w') \<Longrightarrow>
      \<exists>body. render e = Inr body \<and> upsert_comment list edit create m (WithMarker m body) w = (None, w')"
    and "\<And>w. \<exists>cs. fst (list w) = Inr cs" and "run_events h es w = Some w'" and "found m w" and "es \<noteq> []"
  shows "\<exists>i body. render (last es) = Inr body \<and> marked m w' = [(i, WithMarker m body)] \<and> found m w' \<and>
     filter (\<lambda>c. \<not> HasMarker (snd c) m) (comments w') = filter (\<lambda>c. \<not> HasMarker (snd c) m) (comments w)"
  using assms
proof (induction es arbitrary: w)
  case (Cons e es)
  obtain w1 where w1: "h e w = (None, w1)" and rest: "run_events h es w1 = Some w'"
    using Cons.prems(3) by (auto split: prod.splits option.splits)
  obtain body where b: "render e = Inr body" "upsert_comment list edit create m (WithMarker m body) w = (None, w1)"
    using Cons.prems(1) [OF _ w1] by auto
  obtain cs where "fst (list w) = Inr cs" using Cons.prems(2) by blast
  from upsert_step [OF Cons.prems(4) this b(2) HasMarker_WithMarker]
  have step: "found m w1" "\<exists>i. marked m w1 = [(i, WithMarker m body)]"
    "filter (\<lambda>c. \<not> HasMarker (snd c) m) (comments w1) = filter (\<lambda>c. \<not> HasMarker (snd c) m) (comments w)" by auto
  show ?case
  proof (cases "es = []")
    case True
    with rest step b show ?thesis by auto
  next
    case False
    from Cons.IH [of w1] Cons.prems(1,2) rest step False show ?thesis by fastforce
  qed
qed simp

lemma upserts_beyond_page:
  assumes "\<And>e w w'. e \<in> set es \<Longrightarrow> h e w = (None, w') \<Longrightarrow>
      \<exists>body. render e = Inr body \<and> upsert_comment list edit create m (WithMarker m body) w = (None, w')"
    and "run_events h es w = Some w'" and "page \<le> length (comments w)" and "\<forall>c \<in> set (comments w). \<not> HasMarker (snd c) m"
  shows "\<exists>new. comments w' = comments w @ new \<and> length new = length es \<and> (\<forall>c \<in> set new. HasMarker (snd c) m)"
proof -
  have "\<exists>new. comments w' = comments w @ new \<and> length new = length es \<and> (\<forall>c \<in> set new. HasMarker (snd c) m)"
    if "\<And>e w w'. e \<in> set es \<Longrightarrow> h e w = (None, w') \<Longrightarrow>
      \<exists>body. render e = Inr body \<and> upsert_comment list edit create m (WithMarker m body) w = (None, w')"
      and "run_events h es w = Some w'" and "page \<le> length (comments w)"
      and "\<forall>c \<in> set (take page (comments w)). \<not> HasMarker (snd c) m" for es w
    using that
  proof (induction es arbitrary: w)
    case (Cons e es)
    obtain w1 where w1: "h e w = (None, w1)" and rest: "run_events h es w1 = Some w'"
      using Cons.prems(2) by (auto split: prod.splits option.splits)
    obtain body where b: "upsert_comment list edit create m (WithMarker m body) w = (None, w1)"
      using Cons.prems(1) [OF _ w1] by auto
    from upsert_beyond_page [OF Cons.prems(4) b HasMarker_WithMarker]
    obtain i where c: "comments w1 = comments w @ [(i, WithMarker m body)]" by blast
    have "\<exists>new. comments w' = comments w1 @ new \<and> length new = length es \<and> (\<forall>c \<in> set new. HasMarker (snd c) m)"
      using Cons.IH [of w1] Cons.prems(1,3,4) rest c by simp
    then obtain new where "comments w' = comments w1 @ new" "length new = length es" "\<forall>c \<in> set new. HasMarker (snd c) m" by blast
    with c show ?case by (intro exI [of _ "(i, WithMarker m body) # new"]) simp
  qed simp
  from this [OF assms(1,2,3)] assms(4) show ?thesis by (meson in_set_takeD)
qed

end

text \<open>The events of one run on one pull request.\<close>

definition on_pr :: "string \<Rightarrow> string \<Rightarrow> int \<Rightarrow> string \<Rightarrow> Event \<Rightarrow> bool" where
  "on_pr owner repo n run e \<longleftrightarrow> Provider e = providerGitHub \<and> PRNumber e = Some n \<and> Owner (RepoOf e) = owner \<and>
     RepoName (RepoOf e) = repo \<and> owner \<noteq> '''' \<and> repo \<noteq> '''' \<and> RunID e = run"

lemma PRComment_upsert:
  assumes "on_pr owner repo n run e" and "PRComment_Handle api tmpl ModeUpsert e w = (None, w')"
  shows "\<exists>body. RenderTemplate tmpl e = Inr body \<and>
     upsert_comment (ghListComments api owner repo n 100) (ghEditComment api owner repo) (ghCreateComment api owner repo n)
       (Marker run ''pr_comment'') (WithMarker (Marker run ''pr_comment'') body) w = (None, w')"
  using assms postIssueComment_upsert [of api tmpl e n "''pr_comment''" w w'] by (auto simp: on_pr_def PRComment_Handle_def)

text \<open>
  C36 In upsert mode a run has one comment on its pull request: when fewer than 100 comments are there and none has
  the marker of the run, then however many events of the run are handled, as long as the calls succeed,
  exactly one comment has the marker and it shows the last event; the other comments are as before. A
  thread of 100 comments or more without the marker gets a new comment for every event.
\<close>

theorem upsert_one_comment:
  assumes "comment_thread (ghListComments api owner repo n 100) (ghEditComment api owner repo) (ghCreateComment api owner repo n)
      comments 100"
    and "\<forall>w. \<exists>cs. fst (ghListComments api owner repo n 100 w) = Inr cs"
    and "\<forall>e \<in> set es. on_pr owner repo n run e" and "es \<noteq> []"
    and "run_events (PRComment_Handle api tmpl ModeUpsert) es w = Some w'"
    and "m = Marker run ''pr_comment''" and "\<forall>c \<in> set (comments w). \<not> HasMarker (snd c) m"
  shows "if length (comments w) < 100
     then \<exists>i body. RenderTemplate tmpl (last es) = Inr body \<and>
       filter (\<lambda>c. HasMarker (snd c) m) (comments w') = [(i, WithMarker m body)] \<and>
       filter (\<lambda>c. \<not> HasMarker (snd c) m) (comments w') = comments w
     else \<exists>new. comments w' = comments w @ new \<and> length new = length es \<and> (\<forall>c \<in> set new. HasMarker (snd c) m)"
proof -
  have handled: "\<exists>body. RenderTemplate tmpl e = Inr body \<and>
      upsert_comment (ghListComments api owner repo n 100) (ghEditComment api owner repo) (ghCreateComment api owner repo n)
        m (WithMarker m body) w = (None, w')"
    if "e \<in> set es" "PRComment_Handle api tmpl ModeUpsert e w = (None, w')" for e w w'
    using PRComment_upsert [of owner repo n run e api tmpl w w'] that assms(3,6) by simp
  have other: "filter (\<lambda>c. \<not> HasMarker (snd c) m) (comments w) = comments w" using assms(7) by (simp add: filter_id_conv)
  show ?thesis
  proof (cases "length (comments w) < 100")
    case True
    then have "comment_thread.found comments 100 m w"
      using assms(7) comment_thread.found_def [OF assms(1)] comment_thread.marked_def [OF assms(1)] by (simp add: filter_empty_conv)
    from comment_thread.upserts [where h = "PRComment_Handle api tmpl ModeUpsert" and render = "RenderTemplate tmpl" and m = m,
        OF assms(1) handled _ assms(5) this assms(4)] assms(2)
    have "\<exists>i body. RenderTemplate tmpl (last es) = Inr body \<and> comment_thread.marked comments m w' = [(i, WithMarker m body)] \<and>
        comment_thread.found comments 100 m w' \<and>
        filter (\<lambda>c. \<not> HasMarker (snd c) m) (comments w') = filter (\<lambda>c. \<not> HasMarker (snd c) m) (comments w)" by blast
    then show ?thesis unfolding comment_thread.marked_def [OF assms(1)] using True other by auto
  next
    case False
    from comment_thread.upserts_beyond_page [where h = "PRComment_Handle api tmpl ModeUpsert" and render = "RenderTemplate tmpl" and m = m,
        OF assms(1) handled assms(5)] False assms(7) show ?thesis by simp
  qed
qed

text \<open>An API whose calls all succeed and change nothing, and one that keeps the comments of one thread.\<close>

definition idle_api :: "'w GitHubAPI" where
  "idle_api = \<lparr>ghCreateStatus = \<lambda>_ _ _ _ w. (None, w), ghListComments = \<lambda>_ _ _ _ w. (Inr [], w), ghEditComment = \<lambda>_ _ _ _ w. (None, w),
     ghCreateComment = \<lambda>_ _ _ _ w. (None, w), ghCreateCommitComment = \<lambda>_ _ _ _ w. (None, w), ghGetLabel = \<lambda>_ _ _ w. (Inr '''', w),
     ghEditLabel = \<lambda>_ _ _ _ w. (None, w), ghCreateLabel = \<lambda>_ _ _ _ w. (None, w), ghRemoveLabel = \<lambda>_ _ _ _ w. (None, w),
     ghAddLabels = \<lambda>_ _ _ _ w. (None, w), ghCreateCheckRun = \<lambda>_ _ _ w. (None, w), ghCreateDeployment = \<lambda>_ _ _ w. (Inr 1, w),
     ghListDeployments = \<lambda>_ _ _ _ w. (Inr [], w), ghCreateDeploymentStatus = \<lambda>_ _ _ _ w. (None, w)\<rparr>"

definition thread_api :: "demo_thread GitHubAPI" where
  "thread_api = idle_api\<lparr>ghListComments := \<lambda>_ _ _ page. dt_list page, ghEditComment := \<lambda>_ _ i b t. (None, dt_edit i b t),
     ghCreateComment := \<lambda>_ _ _ b t. (None, dt_create b t)\<rparr>"

definition demo_pr_event :: "string \<Rightarrow> Event" where
  "demo_pr_event state = zero_event\<lparr>Provider := ''github'', PRNumber := Some 7, RunID := ''u1'', RunName := ''build'', StateOf := state,
     RepoOf := zero_repo\<lparr>Owner := ''team'', RepoName := ''repo''\<rparr>\<rparr>"

lemma thread_api_comments:
  "comment_thread (ghListComments thread_api ''team'' ''repo'' 7 100) (ghEditComment thread_api ''team'' ''repo'')
     (ghCreateComment thread_api ''team'' ''repo'' 7) dt_comments 100"
  using demo_comments.comment_thread_axioms by (simp add: thread_api_def)

lemma thread_api_handles:
  assumes "length state \<le> 100"
  shows "\<exists>t'. PRComment_Handle thread_api None ModeUpsert (demo_pr_event state) t = (None, t')"
proof -
  have "length (WithMarker (Marker ''u1'' ''pr_comment'') (''Build '' @ state @ '' for build'')) \<le> 65000"
    using assms by (simp add: WithMarker_def Marker_def)
  then have "scm_Validate ''github'' ''comment_body'' (WithMarker (Marker ''u1'' ''pr_comment'') (''Build '' @ state @ '' for build'')) = None"
    by (intro scm_Validate_short) (auto simp: Limits_def field_limit_def)
  then show ?thesis
    by (auto simp: PRComment_Handle_def demo_pr_event_def zero_repo_def postIssueComment_def Let_def RenderTemplate_def after_def
        thread_api_def dt_list_def findMarkedComment_def split: option.split)
qed

lemma thread_api_upserts:
  "\<exists>t. run_events (PRComment_Handle thread_api None ModeUpsert) [demo_pr_event ''running'', demo_pr_event ''success''] dt_empty = Some t"
proof -
  obtain t where "PRComment_Handle thread_api None ModeUpsert (demo_pr_event ''running'') dt_empty = (None, t)"
    using thread_api_handles [of "''running''" dt_empty] by auto
  moreover obtain t' where "PRComment_Handle thread_api None ModeUpsert (demo_pr_event ''success'') t = (None, t')"
    using thread_api_handles [of "''success''" t] by auto
  ultimately show ?thesis by simp
qed

theorem upsert_one_comment_witness:
  "\<exists>t i. run_events (PRComment_Handle thread_api None ModeUpsert) [demo_pr_event ''running'', demo_pr_event ''success''] dt_empty = Some t \<and>
     filter (\<lambda>c. HasMarker (snd c) (Marker ''u1'' ''pr_comment'')) (dt_comments t) =
       [(i, WithMarker (Marker ''u1'' ''pr_comment'') ''Build success for build'')]"
proof -
  obtain t where t: "run_events (PRComment_Handle thread_api None ModeUpsert) [demo_pr_event ''running'', demo_pr_event ''success'']
      dt_empty = Some t" using thread_api_upserts by blast
  have e: "dt_comments dt_empty = []" by transfer simp
  have l: "\<forall>w. \<exists>cs. fst (ghListComments thread_api ''team'' ''repo'' 7 100 w) = Inr cs" by (simp add: thread_api_def dt_list_def)
  have p: "\<forall>e \<in> set [demo_pr_event ''running'', demo_pr_event ''success'']. on_pr ''team'' ''repo'' 7 ''u1'' e"
    by (simp add: on_pr_def demo_pr_event_def zero_repo_def)
  from upsert_one_comment [OF thread_api_comments l p _ t refl] e t show ?thesis
    by (auto simp: RenderTemplate_def demo_pr_event_def)
qed

section \<open>Labels of an issue\<close>

text \<open>
  The interface to the labels of one issue, as a set of names up to \<open>canon\<close>, by which GitHub compares
  names: a removal that succeeds takes a name out, one that is answered 404 says that it was absent,
  an addition puts names in, and the calls for the labels of the repository leave the issue alone.
\<close>

locale issue_labels =
  fixes api :: "'w GitHubAPI" and owner repo :: string and n :: int and canon :: "string \<Rightarrow> string" and labels :: "'w \<Rightarrow> string set"
  assumes removed: "ghRemoveLabel api owner repo n l w = (None, w') \<Longrightarrow> labels w' = labels w - {canon l}"
    and absent: "ghRemoveLabel api owner repo n l w = (Some (er, Some 404), w') \<Longrightarrow> labels w' = labels w \<and> canon l \<notin> labels w"
    and added: "ghAddLabels api owner repo n ls w = (None, w') \<Longrightarrow> labels w' = labels w \<union> canon ` set ls"
    and get_frame: "labels (snd (ghGetLabel api owner repo l w)) = labels w"
    and edit_frame: "labels (snd (ghEditLabel api owner repo l col w)) = labels w"
    and create_frame: "labels (snd (ghCreateLabel api owner repo l col w)) = labels w"
begin

lemma remove_labels_removes:
  "remove_labels api owner repo n ls w = (None, w') \<Longrightarrow> labels w' = labels w - (\<lambda>l. canon (lbName l)) ` set ls"
proof (induction ls arbitrary: w)
  case (Cons l ls)
  obtain r w1 where r: "ghRemoveLabel api owner repo n (lbName l) w = (r, w1)" by fastforce
  have rest: "remove_labels api owner repo n ls w1 = (None, w')" and lab: "labels w1 = labels w - {canon (lbName l)}"
    using Cons.prems r removed [of "lbName l" w w1] absent [of "lbName l" w _ w1] by (auto split: option.splits if_splits)
  from Cons.IH [OF rest] lab show ?case by auto
qed simp

lemma ensureLabelExists_frame: "labels (snd (snd (ensureLabelExists api owner repo l s))) = labels (snd s)"
  using get_frame [of "lbName l" "snd s"] edit_frame [of "lbName l" "lbColor l"] create_frame [of "lbName l" "lbColor l"]
  by (auto simp: ensureLabelExists_def Let_def split: prod.splits sum.splits option.splits) (metis snd_conv)+

lemma ensure_labels_frame: "labels (snd (snd (ensure_labels api owner repo ls s))) = labels (snd s)"
proof (induction ls arbitrary: s)
  case (Cons l ls)
  obtain r s1 where "ensureLabelExists api owner repo l s = (r, s1)" by (cases "ensureLabelExists api owner repo l s")
  with ensureLabelExists_frame [of l s] Cons.IH [of s1] show ?case by (auto split: option.split)
qed simp

end

text \<open>The issue or else the pull request that an event names.\<close>

definition target_issue :: "Event \<Rightarrow> int option" where
  "target_issue e = (case IssueNumber e of Some n \<Rightarrow> Some n | None \<Rightarrow> PRNumber e)"

definition on_issue :: "string \<Rightarrow> string \<Rightarrow> int \<Rightarrow> Event \<Rightarrow> bool" where
  "on_issue owner repo n e \<longleftrightarrow> Provider e = providerGitHub \<and> target_issue e = Some n \<and> Owner (RepoOf e) = owner \<and>
     RepoName (RepoOf e) = repo \<and> owner \<noteq> '''' \<and> repo \<noteq> ''''"

abbreviation label_names :: "(string \<Rightarrow> string) \<Rightarrow> Label list \<Rightarrow> string set" where
  "label_names canon ls \<equiv> (\<lambda>l. canon (lbName l)) ` set ls"

context issue_labels
begin

lemma applyLabelSet_applies:
  assumes "applyLabelSet api parse ls e n (c, w) = (None, c', w')" and "cache_ok parse (lcTemplates c)"
    and "Owner (RepoOf e) = owner" and "RepoName (RepoOf e) = repo"
  shows "\<exists>add remove. rendered parse (lsAdd ls) e = Inr add \<and> rendered parse (lsRemove ls) e = Inr remove \<and>
     labels w' = (labels w - label_names canon remove) \<union> label_names canon add \<and> cache_ok parse (lcTemplates c')"
proof -
  obtain r t where rt: "LabelSet_Render parse ls e (lcTemplates c) = (r, t)" by (cases "LabelSet_Render parse ls e (lcTemplates c)")
  with LabelSet_Render_ok [OF assms(2), of ls e] have t: "cache_ok parse t" and
    r: "r = (case rendered parse (lsAdd ls) e of Inl er \<Rightarrow> Inl (Wrap ''render add labels: '' er)
        | Inr add \<Rightarrow> (case rendered parse (lsRemove ls) e of
            Inl er \<Rightarrow> Inl (Wrap ''render remove labels: '' er) | Inr remove \<Rightarrow> Inr (add, remove)))" by simp_all
  from assms(1) rt obtain add remove where ar: "r = Inr (add, remove)" by (cases r) (auto simp: applyLabelSet_def Let_def)
  with r have ren: "rendered parse (lsAdd ls) e = Inr add" "rendered parse (lsRemove ls) e = Inr remove"
    by (auto split: sum.splits)
  obtain w1 where w1: "remove_labels api owner repo n remove w = (None, w1)"
    using assms(1) rt ar assms(3,4)
    by (cases "remove_labels api owner repo n remove w"; cases "fst (remove_labels api owner repo n remove w)")
      (auto simp: applyLabelSet_def Let_def)
  have l1: "labels w1 = labels w - label_names canon remove" by (rule remove_labels_removes [OF w1])
  show ?thesis
  proof (cases "add = []")
    case True
    with assms(1,3,4) rt ar w1 have "w' = w1" "c' = c\<lparr>lcTemplates := t\<rparr>" by (simp_all add: applyLabelSet_def Let_def)
    with l1 ren True t show ?thesis by simp
  next
    case False
    obtain er s2 where en: "ensure_labels api owner repo add (lcChecked c, w1) = (er, s2)"
      by (cases "ensure_labels api owner repo add (lcChecked c, w1)")
    with ensure_labels_frame [of add "(lcChecked c, w1)"] have l2: "labels (snd s2) = labels w1" by simp
    have "er = None" and fin: "ghAddLabels api owner repo n (map lbName add) (snd s2) = (None, w')"
      and "c' = c\<lparr>lcTemplates := t, lcChecked := fst s2\<rparr>"
      using assms(1,3,4) rt ar w1 en False by (cases s2; auto simp: applyLabelSet_def Let_def split: option.splits prod.splits)+
    with added [OF fin] l1 l2 ren t show ?thesis by (auto simp: image_image)
  qed
qed

lemma Label_Handle_applies:
  assumes "Label_Handle api parse ls e (c, w) = (None, c', w')" and "cache_ok parse (lcTemplates c)" and "on_issue owner repo n e"
    and "rendered parse (lsAdd ls) e = Inr add" and "rendered parse (lsRemove ls) e = Inr remove"
  shows "labels w' = (labels w - label_names canon remove) \<union> label_names canon add \<and> cache_ok parse (lcTemplates c')"
proof (cases "LabelSet_Empty ls")
  case True
  then have "add = []" "remove = []" using assms(4,5) by (simp_all add: LabelSet_Empty_def)
  with True assms(1-3) show ?thesis by (simp add: Label_Handle_def on_issue_def target_issue_def)
next
  case False
  then have "applyLabelSet api parse ls e n (c, w) = (None, c', w')"
    using assms(1,3) by (simp add: Label_Handle_def on_issue_def target_issue_def)
  from applyLabelSet_applies [OF this assms(2)] assms(3-5) show ?thesis by (auto simp: on_issue_def)
qed

end


definition label_api :: "string list GitHubAPI" where
  "label_api = idle_api\<lparr>ghRemoveLabel := \<lambda>_ _ _ l w. if l \<in> set w then (None, removeAll l w) else (Some (Err ''not found'', Some 404), w),
     ghAddLabels := \<lambda>_ _ _ ls w. (None, ls @ w)\<rparr>"

interpretation demo_labels: issue_labels label_api owner repo n id set for owner repo n
  by unfold_locales (auto simp: label_api_def idle_api_def split: if_splits)

definition demo_labels_set :: LabelSet where
  "demo_labels_set = \<lparr>lsAdd = [\<lparr>lbName = ''ci::passed'', lbColor = ''''\<rparr>], lsRemove = [\<lparr>lbName = ''ci::failed'', lbColor = ''''\<rparr>]\<rparr>"


end
