(* ===== verification/Spec2Isabelle.thy ===== *)
theory Spec2Isabelle
  imports Relay_Server Relay_CEL Relay_Mail Relay_Publish Relay_Jira Relay_Monitor Relay_HTTP Relay_Status Relay_Accumulator Relay_RunStore Relay_Batch Relay_Retry Relay_Tekton Relay_Validate Relay_Reload Relay_GitHub
begin

text \<open>
  A model of the program \<^verbatim>\<open>tekton-events-relay\<close>: a service that receives CloudEvents of Tekton over HTTP
  and notifies source code hosts, chat services and other destinations. Go code under \<^verbatim>\<open>src/\<close> is translated
  function by function, under its own names; names that clash carry their type or package in front
  (\<^verbatim>\<open>EventFilter_Handle\<close>, \<^verbatim>\<open>scm_Validate\<close>).

  \<^bold>\<open>The program.\<close> A request is authenticated and rate limited, its CloudEvent decoded by one of four
  decoders into a neutral event, and handed to a chain: validation, filter, deduplication, enrichment,
  dispatch. The dispatcher runs every matching handler of the registry concurrently. The error of the
  chain decides the answer: 503 asks for a repetition, and an event that failed for good is kept in a
  dead letter file, from which it can be listed and replayed. Handlers are built from the configuration
  by a factory per provider and wrapped in decorators; an accumulator is a handler that collects the
  tasks of a run and posts a summary through another. The configuration can be reloaded while events
  are in flight.

  \<^bold>\<open>Theories and sources.\<close>
  \<^item> \<^verbatim>\<open>Relay_Prelude\<close>, \<^verbatim>\<open>Go_Std\<close>, \<^verbatim>\<open>Go_Time\<close>, \<^verbatim>\<open>Go_Json\<close>: rule collections, Go maps and strings, UTF-8, numbers,
    RFC 3339 times and JSON documents as the standard library treats them, as far as the relay uses them.
  \<^item> \<^verbatim>\<open>Relay_Domain\<close> (\<^verbatim>\<open>internal/domain\<close>, \<^verbatim>\<open>internal/errors\<close>, \<^verbatim>\<open>internal/event\<close>): events, envelopes, errors,
    decoder registry. \<^verbatim>\<open>Relay_Codec\<close>: their JSON coding, with the dead letter entries.
  \<^item> \<^verbatim>\<open>Relay_Tekton\<close> (\<^verbatim>\<open>internal/event/tekton\<close>): the four decoders, from the bytes of the payload.
  \<^item> \<^verbatim>\<open>Relay_Cache\<close>, \<^verbatim>\<open>Relay_Store\<close>, \<^verbatim>\<open>Relay_RunStore\<close> (\<^verbatim>\<open>internal/store\<close>): the caches the stores are built on as
    interfaces, deduplication and run buffers over memory, Valkey and Olric.
  \<^item> \<^verbatim>\<open>Relay_Notifier\<close> (\<^verbatim>\<open>internal/notifier\<close>, \<^verbatim>\<open>internal/notifier/middleware\<close>, \<^verbatim>\<open>internal/factory/builder.go\<close>):
    handlers, the registry and the decorators. \<^verbatim>\<open>Relay_Batch\<close> (\<^verbatim>\<open>internal/notifier/batch\<close>): the batching wrapper.
  \<^item> \<^verbatim>\<open>Relay_Status\<close>, \<^verbatim>\<open>Relay_Pipeline\<close> (\<^verbatim>\<open>internal/pipeline\<close>, \<^verbatim>\<open>cmd/receiver/main.go\<close>): the tracker of outcomes and the chain.
  \<^item> \<^verbatim>\<open>Relay_DLQ\<close> (\<^verbatim>\<open>internal/dlq\<close>): the dead letter queue with every failing system call.
  \<^item> \<^verbatim>\<open>Relay_Middleware\<close>, \<^verbatim>\<open>Relay_HTTP\<close>, \<^verbatim>\<open>Relay_Server\<close> (\<^verbatim>\<open>internal/http\<close>, \<^verbatim>\<open>internal/metrics/middleware.go\<close>):
    authentication and rate limiting, the endpoints, the server with the order of its middleware.
  \<^item> \<^verbatim>\<open>Relay_CEL\<close> (\<^verbatim>\<open>internal/cel\<close>): the variables and functions of expressions, the cache of programs.
  \<^item> \<^verbatim>\<open>Relay_Accumulator\<close> (\<^verbatim>\<open>internal/accumulator\<close>): the buffers, single and grouped runs and the summary.
  \<^item> \<^verbatim>\<open>Relay_Retry\<close> (\<^verbatim>\<open>internal/httpx/retry.go\<close>): when an outbound request is repeated and after which delay.
  \<^item> \<^verbatim>\<open>Relay_Config\<close>, \<^verbatim>\<open>Relay_Validate\<close> (\<^verbatim>\<open>internal/config\<close>): the configuration, its defaults and all its checks.
  \<^item> \<^verbatim>\<open>Relay_Factory\<close> (\<^verbatim>\<open>internal/factory\<close>, \<^verbatim>\<open>internal/secrets\<close>): secrets and the building of the registry.
  \<^item> \<^verbatim>\<open>Relay_Reload\<close> (\<^verbatim>\<open>cmd/receiver\<close>): start, reload and shutdown as steps among those of the events.
  \<^item> \<^verbatim>\<open>Relay_SCM\<close>, \<^verbatim>\<open>Relay_GitHub\<close> (\<^verbatim>\<open>internal/notifier/scm\<close>): what the source code hosts share, and the handlers
    of GitHub with their factory.
  \<^item> \<^verbatim>\<open>Relay_Chat\<close> (\<^verbatim>\<open>internal/notifier\<close>: \<^verbatim>\<open>base.go\<close>, \<^verbatim>\<open>msgstore\<close>, \<^verbatim>\<open>slack\<close>, \<^verbatim>\<open>discord\<close>), \<^verbatim>\<open>Relay_Alert\<close>
    (\<^verbatim>\<open>pagerduty\<close>, \<^verbatim>\<open>opsgenie\<close>, \<^verbatim>\<open>incidentio\<close>), \<^verbatim>\<open>Relay_Monitor\<close> (\<^verbatim>\<open>datadog\<close>, \<^verbatim>\<open>newrelic\<close>, \<^verbatim>\<open>honeycomb\<close>, \<^verbatim>\<open>telegram\<close>,
    \<^verbatim>\<open>webhook\<close>, \<^verbatim>\<open>sentry\<close>, \<^verbatim>\<open>grafana\<close>), \<^verbatim>\<open>Relay_Mail\<close> (\<^verbatim>\<open>email\<close>), \<^verbatim>\<open>Relay_Publish\<close> (\<^verbatim>\<open>kafka\<close>, \<^verbatim>\<open>nats\<close>, \<^verbatim>\<open>rabbitmq\<close>,
    \<^verbatim>\<open>redispubsub\<close>), \<^verbatim>\<open>Relay_Jira\<close> (\<^verbatim>\<open>jira\<close>, with \<^verbatim>\<open>scm/httpclient.go\<close> and \<^verbatim>\<open>scm/baseclient.go\<close>): the other notifiers,
    from the event to the requests they send and the answers they get.

  \<^bold>\<open>State and effects.\<close> A handler acts on a world of an arbitrary type, its state is passed explicitly,
  and a Go error is a value of \<^verbatim>\<open>err option\<close> or of a sum. Integers are unbounded where the code cannot
  overflow and wrapped or saturated where it can (durations, retry delays, counters); a panic is
  None. Concurrency is an explicit sequence of steps: the schedules of the dispatcher, the interleavings
  of the batching wrapper and of the reload are inductive step relations or quantified schedules.

  \<^bold>\<open>What is shown.\<close> The lemmas of a theory give the behaviour of each operation on each branch and the
  invariants of its state; laws of third-party code are the assumptions of locales (caches, key value
  servers, retrying client, comment threads, labels, references to posted messages, alerting services, issue
  trackers), each interpreted on a concrete instance. The
  numbered properties follow in the theories, those that span several components in this file: what
  becomes of a received event, deduplication against redelivery and replay, decoded events against the
  chain, the accumulator and the commit status, and an accepted configuration against its consumers.

  \<^bold>\<open>Bounds.\<close> No definition uses fuel: every loop is structural or has a measure, and the loops that wait
  for events are step relations. The default capacities (10000 identifiers, 1000 runs, 100 outcomes, 4 MiB
  lines, 10 MiB files) are those of the code.

  \<^bold>\<open>Not modelled.\<close> Third-party code is an argument: the CloudEvents library, the YAML decoder with the struct
  tag validator, the CEL compiler and evaluator, template, jq and URL parsers, HMAC, the clients of the providers, the
  Valkey and Olric servers, token buckets and metrics collectors. Left out are logging, tracing spans,
  the registration of metrics, TLS and transport settings, timers (the debouncing of file events, the
  retention timer, lock leases), signals and listeners. A floating point number of the configuration
  is a rational, an infinity or not a number; the text of a float in JSON and the raw text of a JSON
  value are arguments; the depth limit of the JSON decoder is not represented. Of the notifiers, Teams,
  Mattermost, the handlers of GitLab, Gitea, Bitbucket, Azure DevOps and SourceHut and the factories of
  all but GitHub are left out, as are the clients of OAuth2 and of the GitHub App and the construction of
  HTTP clients.
\<close>

section \<open>An event from the request to the answer\<close>

lemma CloudEventsHandler_decoded:
  assumes "FromRequest r = Inr ce" and "DecoderFind decoders (RawType ce) = Inr d" and "Decode d ce = Inr env"
  shows "CloudEventsHandler FromRequest decoders chain dl now r s = handleChainResult chain dl now env s"
  using assms by (simp add: CloudEventsHandler_def decodeEvent_def)

lemma preserveInDLQ_queue:
  "DeadLetters (preserveInDLQ (Some ops) now env cause s) = snd (qEnqueue ops now env cause (DeadLetters s))"
  "World (Pipe (preserveInDLQ dl now env cause s)) = World (Pipe s)"
  by (auto simp: preserveInDLQ_def scount_def split: option.split prod.split)

lemma upsert_new: "deID x \<notin> deID ` set es \<Longrightarrow> upsert es x = es @ [x]"
  by (induction es) auto

text \<open>
  C17 No failed event goes unnoticed: when a decoded event has run through the chain, the sender is told
  200 if the chain reported no error and 503 if the error is worth a retry, and in both cases the dead
  letter queue is as before; on any other error the answer is 200 and the event is in the dead letter
  file, as its newest entry when its identifier was not there yet, whatever else had to give way.
\<close>

theorem received_event_accounted:
  assumes "FromRequest r = Inr ce" and "DecoderFind decoders (RawType ce) = Inr d" and "Decode d ce = Inr env"
    and "chain env (Pipe s) = (er, env', p)" and "Coll p \<noteq> None"
    and "holds dead_codec default_queue_config (DeadLetters s) es"
    and "\<forall>e. er = Some e \<longrightarrow> (\<forall>x \<in> set (upsert es (dead_event now env' e)). dlq_entry x)"
    and "CloudEventID env' \<notin> deID ` set es"
  shows "\<exists>s'. CloudEventsHandler FromRequest decoders chain
      (Some (file_queue_ops dead_codec default_queue_config NoFault)) now r s =
        (Some (if IsRetryable er then 503 else 200), s') \<and>
    (case er of
       Some e \<Rightarrow> if IsRetryable er then DeadLetters s' = DeadLetters s
         else \<exists>k \<le> length es. holds dead_codec default_queue_config (DeadLetters s') (drop k es @ [dead_event now env' e])
     | None \<Rightarrow> DeadLetters s' = DeadLetters s)"
proof -
  note H = CloudEventsHandler_decoded [of FromRequest r ce decoders d env, OF assms(1-3)]
  show ?thesis
  proof (cases "er = None \<or> IsRetryable er")
  case True
  then show ?thesis
    using assms(4,5) unfolding H
    by (cases er) (auto simp: handleChainResult_def Let_def)
next
  case False
  then obtain e where e: "er = Some e" "\<not> IsRetryable (Some e)" by auto
  let ?x = "dead_event now env' e"
  let ?us = "upsert es ?x"
  have us: "?us = es @ [?x]" using assms(8) by (intro upsert_new) (simp add: dead_event_def)
  have adm: "\<forall>x \<in> set ?us. dlq_entry x" using assms(7) e(1) by blast
  then have st: "\<forall>x \<in> set ?us. storable dead_codec x" using dlq_entry_storable by blast
  have max: "0 \<le> qcMaxBytes default_queue_config" by (simp add: default_queue_config_def DefaultMaxSizeBytes_def)
  obtain q' where q': "Enqueue dead_codec default_queue_config NoFault now env' e (DeadLetters s) = (None, q')"
    using Enqueue_NoFault [OF assms(6) st] by (metis prod.collapse)
  let ?kept = "compact (entry_size dead_codec) (nat (qcMaxBytes default_queue_config)) ?us"
  note h = Enqueue_holds [OF assms(6) max st q']
  have "entry_size dead_codec ?x \<le> nat (qcMaxBytes default_queue_config)"
    using adm us by (simp add: dlq_entry_def entry_size_def scannerMax_def default_queue_config_def DefaultMaxSizeBytes_def)
  then have ne: "1 \<le> length ?kept"
    using compact_longest [of ?us es "[?x]" "entry_size dead_codec"] us by simp
  obtain k where k: "?kept = drop k ?us" using compact_drop by blast
  then have "k \<le> length es" using ne us by simp
  with k us have "?kept = drop k es @ [?x]" by simp
  with h have "holds dead_codec default_queue_config q' (drop k es @ [?x])" by simp
  then show ?thesis
    using assms(4,5) e q' \<open>k \<le> length es\<close> unfolding H
    by (auto simp: handleChainResult_def Let_def preserveInDLQ_queue file_queue_ops_def)
  qed
qed

text \<open>A receiver with one decoder, and a chain that fails for good.\<close>

definition demo_decoder :: "Envelope \<Rightarrow> Decoder" where
  "demo_decoder env = \<lparr>DecoderName = ''tekton'', CanHandle = \<lambda>t. True, Decode = \<lambda>ce. Inr env\<rparr>"

definition demo_raw :: RawEvent where
  "demo_raw = \<lparr>RawID = ''id-1'', RawType = ''dev.tekton.event.pipelinerun.failed.v1'', RawSource = ''/tekton'', RawData = ''''\<rparr>"

theorem received_event_accounted_witness:
  "let e = Err ''status 422''; q = \<lparr>queueFile = Some [], tmpFile = None\<rparr>; d = dead_event 0 demo_envelope e;
       s = (\<lparr>Pipe = \<lparr>World = (), Coll = Some [], Status = None\<rparr>, DeadLetters = q\<rparr> :: (unit, FileQueue) Server)
   in \<exists>s'. CloudEventsHandler (\<lambda>r. Inr demo_raw) [demo_decoder demo_envelope] (\<lambda>env p. (Some e, env, p))
      (Some (file_queue_ops dead_codec default_queue_config NoFault)) 0 (demo_request '''') s = (Some 200, s') \<and>
    (\<exists>k \<le> 0. holds dead_codec default_queue_config (DeadLetters s') (drop k [] @ [d]))"
proof -
  let ?e = "Err ''status 422''"
  let ?s = "\<lparr>Pipe = \<lparr>World = (), Coll = Some [], Status = None\<rparr>, DeadLetters = \<lparr>queueFile = Some [], tmpFile = None\<rparr>\<rparr>
    :: (unit, FileQueue) Server"
  have h: "holds dead_codec default_queue_config (DeadLetters ?s) []"
    by (simp add: holds_empty default_queue_config_def DefaultMaxSizeBytes_def)
  show ?thesis
    using received_event_accounted [of "\<lambda>r. Inr demo_raw" "demo_request ''''" demo_raw "[demo_decoder demo_envelope]"
        "demo_decoder demo_envelope" demo_envelope "\<lambda>env p. (Some ?e, env, p)" ?s "Some ?e" demo_envelope "Pipe ?s", OF _ _ _ _ _ h]
      demo_entry
    by (simp add: demo_decoder_def)
qed

section \<open>Retransmission and replay meet deduplication\<close>

lemma chain_duplicate:
  assumes "buildChain sched cfg = Some chain" and "validate (Some env) = None" and "filter_keeps (cfgFilter cfg) env"
    and "dedStore (cfgDeduper cfg) (CloudEventID env) (World s) = (Inr False, w')"
  shows "\<exists>p. chain env s = (None, env, p) \<and> World p = w'"
proof -
  obtain e v p where c: "chain env s = (e, v, p)" by (cases "chain env s") auto
  have "outcome (chain env s) = (None, env, w')"
    unfolding chain_refines_spec [OF assms(1)] by (rule chain_spec_duplicate [OF assms(2-4)])
  with c show ?thesis by simp
qed

text \<open>
  C25 A sender that retries after 503 is told 200 and its event is lost: the event's identifier is
  recorded before the dispatch, so when the first delivery of an event failed for a temporary reason and
  was answered 503, a second delivery of the same event, for which the store still remembers the
  identifier, is answered 200 without any handler being run, and nothing is put into the dead letter
  queue.
\<close>

theorem retransmission_after_503_is_dropped:
  assumes "dedupe_store (dedStore (cfgDeduper cfg)) seen"
    and "errgroup_runs_each_once sched" and "fallbacks (cfgDispatcher cfg) = None"
    and "\<forall>h \<in> set (srcAll (registry (cfgDispatcher cfg))). keeps_seen seen h"
    and "buildChain sched cfg = Some chain"
    and "FromRequest r = Inr ce" and "DecoderFind decoders (RawType ce) = Inr d" and "Decode d ce = Inr env"
    and "validate (Some env) = None" and "filter_keeps (cfgFilter cfg) env"
    and "dedStore (cfgDeduper cfg) (CloudEventID env) (World (Pipe s)) = (Inr b, w0)"
    and "CloudEventsHandler FromRequest decoders chain dl now r s = (Some 503, s1)"
    and "dedStore (cfgDeduper cfg) (CloudEventID env) (World (Pipe s1)) = (Inr b', w2)"
  shows "\<exists>s2. CloudEventsHandler FromRequest decoders chain dl now' r s1 = (Some 200, s2) \<and>
    World (Pipe s2) = w2 \<and> DeadLetters s2 = DeadLetters s \<and> b'= False"
proof -
  note H = CloudEventsHandler_decoded [of FromRequest r ce decoders d env, OF assms(6-8)]
  obtain er env1 p where c: "chain env (Pipe s) = (er, env1, p)" by (cases "chain env (Pipe s)") auto
  have s1: "World (Pipe s1) = World p" "DeadLetters s1 = DeadLetters s"
    using assms(12) c unfolding H by (auto simp: handleChainResult_def Let_def split: option.splits if_splits)
  have "chain_spec sched cfg env (World (Pipe s)) = (er, env1, World p)"
    using chain_refines_spec [OF assms(5), of env "Pipe s"] c by simp
  with chain_spec_records [OF assms(1-4,9-11)] have "CloudEventID env \<in> seen (World (Pipe s1))" by (simp add: s1)
  with dedupe_store.answer [OF assms(1,13)] have b': "b' = False" by simp
  obtain p2 where "chain env (Pipe s1) = (None, env, p2)" "World p2 = w2"
    using chain_duplicate [OF assms(5,9,10) assms(13) [unfolded b']] by blast
  with s1 b' show ?thesis unfolding H by (simp add: handleChainResult_def Let_def)
qed

text \<open>The store and the failing handler of the pipeline's demonstration.\<close>

theorem retransmission_after_503_is_dropped_witness:
  "let cfg = demo_chain_config (Some (NewRetryable (Err ''503'') ''''));
       s = \<lparr>Pipe = \<lparr>World = ([], []), Coll = Some [], Status = None\<rparr>, DeadLetters = ()\<rparr>
   in \<exists>chain s1 s2. buildChain in_order cfg = Some chain \<and>
     CloudEventsHandler (\<lambda>r. Inr demo_raw) [demo_decoder demo_env] chain None 0 (demo_request '''') s = (Some 503, s1) \<and>
     CloudEventsHandler (\<lambda>r. Inr demo_raw) [demo_decoder demo_env] chain None 9 (demo_request '''') s1 = (Some 200, s2) \<and>
     World (Pipe s1) = ([''42''], [''status'']) \<and> World (Pipe s2) = ([''42'', ''42''], [''status''])"
proof -
  let ?cfg = "demo_chain_config (Some (NewRetryable (Err ''503'') ''''))"
  let ?s = "\<lparr>Pipe = \<lparr>World = ([], []), Coll = Some [], Status = None\<rparr>, DeadLetters = ()\<rparr> :: (string list \<times> string list, unit) Server"
  obtain chain where c: "buildChain in_order ?cfg = Some chain" using buildChain_Some by blast
  obtain er env1 p where ch: "chain demo_env (Pipe ?s) = (er, env1, p)" by (cases "chain demo_env (Pipe ?s)") auto
  have o1: "outcome (chain demo_env (Pipe ?s)) = (Some (Join [Wrap ''github/status/commit_status: '' (NewRetryable (Err ''503'') '''')]),
      enrich ''https://d'' demo_env, ([''42''], [''status'']))"
    unfolding chain_refines_spec [OF c] demo_chain_spec by simp
  have cp: "Coll p \<noteq> None" 
  proof -
    have "Coll (snd (snd (chain demo_env (Pipe ?s)))) \<noteq> None" using chain_keeps_coll [OF c] by (simp add: keeps_coll_def)
    with ch show ?thesis by simp
  qed
  define s1 where "s1 = scount [''EventsBackpressure''] (?s\<lparr>Pipe := p\<rparr>)"
  have w1: "World (Pipe s1) = ([''42''], [''status''])" using o1 ch by (simp add: s1_def)
  have H: "CloudEventsHandler (\<lambda>r. Inr demo_raw) [demo_decoder demo_env] chain None 0 (demo_request '''') ?s = (Some 503, s1)"
    using o1 ch cp by (simp add: CloudEventsHandler_def decodeEvent_def demo_decoder_def handleChainResult_def Let_def s1_def
        NewRetryable_def)
  have keeps: "\<forall>h \<in> set (srcAll (registry (cfgDispatcher ?cfg))). keeps_seen (\<lambda>w. set (fst w)) h"
    by (simp add: demo_chain_config_def keeps_seen_def demo_logger_def)
  from retransmission_after_503_is_dropped [where cfg = ?cfg and sched = in_order and s = ?s and b' = False and
      d = "demo_decoder demo_env" and env = demo_env and now' = 9, OF _ demo_schedules(1) _ keeps c _ _ _ _ _ _ H]
  have "\<exists>s2. CloudEventsHandler (\<lambda>r. Inr demo_raw) [demo_decoder demo_env] chain None 9 (demo_request '''') s1 = (Some 200, s2) \<and>
      World (Pipe s2) = ([''42'', ''42''], [''status''])"
    by (simp add: demo_chain_config_def demo_env_ok demo_store_def demo.dedupe_store_axioms demo_decoder_def w1)
  with c H w1 show ?thesis unfolding Let_def by blast
qed

text \<open>
  C26 A replay discards what the store remembers: an event that failed for good is kept in the dead letter
  file, but its identifier is already recorded, so replaying it while the store remembers the identifier,
  without a change of its timestamp, runs no handler; the event counts as replayed and is removed from
  the file.
\<close>

theorem replay_discards_remembered_event:
  assumes "dedupe_store (dedStore (cfgDeduper cfg)) seen" and "buildChain sched cfg = Some chain"
    and "holds dead_codec default_queue_config (DeadLetters s) [d]" and "deEnvelope d = Some env"
    and "validate (Some env) = None" and "filter_keeps (cfgFilter cfg) env"
    and "CloudEventID env \<in> seen (World (Pipe s))"
    and "dedStore (cfgDeduper cfg) (CloudEventID env) (World (Pipe s)) = (Inr b, w')"
  shows "\<exists>res s'. dlqReplayHandler (file_queue_ops dead_codec default_queue_config NoFault) chain fl id ''POST'' '''' s =
      (ReplayDone res, s') \<and> Replayed res = 1 \<and> ReplayFailed res = 0 \<and>
    World (Pipe s') = w' \<and> holds dead_codec default_queue_config (DeadLetters s') []"
proof -
  let ?ops = "file_queue_ops dead_codec default_queue_config NoFault"
  have "b = False" using dedupe_store.answer [OF assms(1,8)] assms(7) by simp
  then obtain p where p: "chain env (Pipe s) = (None, env, p)" "World p = w'"
    using chain_duplicate [OF assms(2,5,6)] assms(8) by blast
  obtain q where q: "Remove dead_codec default_queue_config NoFault (deID d) (DeadLetters s) = (None, q)"
    using Remove_NoFault [OF assms(3)] by (metis prod.collapse)
  have "holds dead_codec default_queue_config q []" using Remove_holds [OF assms(3) q] by simp
  then show ?thesis
    using p q assms(4) file_queue_reads(1) [OF assms(3), of 0]
    by (simp add: dlqReplayHandler_def replay_request_def collectReplayEntries_def Let_def replay_entry_def
        recordDlqReplayMetrics_def file_queue_ops_def)
qed

lemma demo_envelope_passes: "validate (Some demo_envelope) = None" "filter_keeps demo_filter demo_envelope"
    "CloudEventID demo_envelope = ''id-1''"
  by (simp_all add: validate_def demo_envelope_def demo_dead_def Let_def filter_keeps_def demo_filter_def namespaceAllowed_def
      zero_event_def HasSuffix_def)

theorem replay_discards_remembered_event_witness:
  "let cfg = demo_chain_config None;
       s = \<lparr>Pipe = \<lparr>World = ([''id-1''], []), Coll = None, Status = None\<rparr>, DeadLetters = demo_queue\<rparr>
   in \<exists>chain res s'. buildChain in_order cfg = Some chain \<and>
      dlqReplayHandler (file_queue_ops dead_codec default_queue_config NoFault) chain id id ''POST'' '''' s =
      (ReplayDone res, s') \<and> Replayed res = 1 \<and> ReplayFailed res = 0 \<and>
    World (Pipe s') = ([''id-1'', ''id-1''], []) \<and> holds dead_codec default_queue_config (DeadLetters s') []"
proof -
  let ?s = "\<lparr>Pipe = \<lparr>World = ([''id-1''], []), Coll = None, Status = None\<rparr>, DeadLetters = demo_queue\<rparr>
    :: (string list \<times> string list, FileQueue) Server"
  obtain chain where c: "buildChain in_order (demo_chain_config None) = Some chain" using buildChain_Some by blast
  have "\<exists>res s'. dlqReplayHandler (file_queue_ops dead_codec default_queue_config NoFault) chain id id ''POST'' '''' ?s =
      (ReplayDone res, s') \<and> Replayed res = 1 \<and> ReplayFailed res = 0 \<and>
      World (Pipe s') = ([''id-1'', ''id-1''], []) \<and> holds dead_codec default_queue_config (DeadLetters s') []"
    by (rule replay_discards_remembered_event [where cfg = "demo_chain_config None" and s = ?s and seen = "\<lambda>w. set (fst w)"
          and d = "dead_event 0 demo_envelope (Err ''status 422'')" and env = demo_envelope and b = False, OF _ c])
      (simp_all add: demo_chain_config_def demo.dedupe_store_axioms demo_envelope_passes demo_queue_holds dead_event_def
        demo_queue_holds [unfolded dead_event_def error_text.simps demo_envelope_passes] demo_store_def)
  with c show ?thesis unfolding Let_def by blast
qed

text \<open>
  Replaying several events with one new timestamp gives them one identity: the override replaces the
  identifier of every selected entry and of its CloudEvent by a text made of the timestamp alone, so any
  two of them get the same one, and the deduplication that follows takes all but the first for repeats.
\<close>

theorem override_timestamp_collides:
  assumes "applyOverride fl d1 ov = Inr o1" and "applyOverride fl d2 ov = Inr o2" and "Timestamp ov \<noteq> ''''"
    and "deEnvelope d1 = Some v1" and "deEnvelope d2 = Some v2"
  shows "deID o1 = deID o2 \<and> FailedAt o1 = FailedAt o2 \<and>
    map_option CloudEventID (deEnvelope o1) = map_option CloudEventID (deEnvelope o2) \<and> deEnvelope o1 \<noteq> None"
  using assms by (auto simp: applyOverride_def Let_def split: option.splits sum.splits)

theorem override_timestamp_collides_witness:
  "let ov = \<lparr>Payload = None, Timestamp = the (format_rfc3339 0)\<rparr>;
       d1 = dead_event 0 demo_envelope (Err ''a''); d2 = dead_event 5 demo_env (Err ''b'') in
   \<exists>o1 o2. applyOverride id d1 ov = Inr o1 \<and> applyOverride id d2 ov = Inr o2 \<and> deID d1 \<noteq> deID d2 \<and> deID o1 = deID o2"
proof -
  let ?ov = "\<lparr>Payload = None, Timestamp = the (format_rfc3339 0)\<rparr>"
  obtain s where s: "format_rfc3339 0 = Some s" using valid_timeI [of 0] by (auto simp: valid_time_def)
  then have p: "parse_rfc3339 s = Some 0" by (rule parse_format_rfc3339)
  have ne: "s \<noteq> ''''" using p by (auto simp: parse_rfc3339_def parse_fields_def take_digits_def)
  obtain o1 o2 where o: "applyOverride id (dead_event 0 demo_envelope (Err ''a'')) ?ov = Inr o1"
      "applyOverride id (dead_event 5 demo_env (Err ''b'')) ?ov = Inr o2"
    using s p ne by (simp add: applyOverride_def Let_def)
  from override_timestamp_collides [OF this, of demo_envelope demo_env] ne s
  have "deID o1 = deID o2" by (simp add: dead_event_def)
  with o show ?thesis unfolding Let_def
    by (intro exI [of _ o1] exI [of _ o2]) (simp add: dead_event_def demo_envelope_passes demo_env_ok)
qed

section \<open>From the payload to the chain\<close>

lemma validate_identified:
  "identifies r res obj env \<Longrightarrow> validate (Some env) = None \<longleftrightarrow> RawID r \<noteq> '''' \<and> RunName (Report env) \<noteq> ''''"
  by (auto simp: identifies_def validate_def Let_def)

lemma validate_listener:
  "EventListener_Decode r = Inr env \<Longrightarrow> validate (Some env) = None \<longleftrightarrow> RawID r \<noteq> '''' \<and> RunName (Report env) \<noteq> ''''"
  using EventListener_decoded [of r env] by (auto simp: validate_def Let_def)

lemma listener_presentable:
  "EventListener_Decode r = Inr env \<Longrightarrow> Context (Report env) \<noteq> '''' \<and> length (Description (Report env)) \<le> 140"
  by (auto simp: EventListener_Decode_def decodeStarted_def decodeLifecycle_def envelope_of_def Let_def
      descriptionForEventListener_def split: if_splits sum.splits prod.splits)

lemma identified_presentable:
  "identifies r res obj env \<Longrightarrow> Context (Report env) \<noteq> '''' \<and> length (Description (Report env)) \<le> 140"
  using descriptionFor_bounded [of obj "RawType r"] by (auto simp: identifies_def core_def)

text \<open>The four decoders of the registry.\<close>

lemma registered_decodes:
  assumes "DecoderFind (buildDecoders raw) t = Inr d" and "Decode d r = Inr env"
  shows "(\<exists>res obj. identifies r res obj env) \<or> EventListener_Decode r = Inr env"
proof -
  have "d \<in> set (buildDecoders raw)" using DecoderFind_Inr_iff [of "buildDecoders raw" t d] assms(1) by auto
  then have "Decode d = TaskRun_Decode raw \<or> Decode d = PipelineRun_Decode raw \<or> Decode d = CustomRun_Decode \<or>
      Decode d = EventListener_Decode"
    by (auto simp: buildDecoders_def DecoderRegister_def NewDecoderRegistry_def TaskRunDecoder_def PipelineRunDecoder_def
        CustomRunDecoder_def EventListenerDecoder_def simp del: DecoderFind.simps)
  then show ?thesis
    using assms(2) TaskRun_decoded [of raw r env] PipelineRun_decoded [of raw r env] CustomRun_decoded [of r env] by fastforce
qed

text \<open>
  C19 What the decoders produce is well formed: an event decoded by the registry of the receiver keeps the
  identifier and the type of its CloudEvent, has a context and a description of at most 140 bytes, and
  passes the validator of the chain exactly when its CloudEvent has an identifier and its run a name.
\<close>

theorem decoded_events_well_formed:
  assumes "DecoderFind (buildDecoders raw) (RawType r) = Inr d" and "Decode d r = Inr env"
  shows "CloudEventID env = RawID r \<and> CloudEventType env = RawType r \<and> Context (Report env) \<noteq> '''' \<and>
    length (Description (Report env)) \<le> 140 \<and>
    (validate (Some env) = None) = (RawID r \<noteq> '''' \<and> RunName (Report env) \<noteq> '''')"
  using registered_decodes [OF assms]
proof
  assume "\<exists>res obj. identifies r res obj env"
  then obtain res obj where i: "identifies r res obj env" by blast
  then have "CloudEventID env = RawID r \<and> CloudEventType env = RawType r" by (simp add: identifies_def)
  with identified_presentable [OF i] validate_identified [OF i] show ?thesis by blast
next
  assume l: "EventListener_Decode r = Inr env"
  with EventListener_decoded [OF l] listener_presentable [OF l] validate_listener [OF l] show ?thesis by blast
qed

text \<open>A payload as Tekton sends it.\<close>

definition run_json :: "string \<Rightarrow> string \<Rightarrow> string \<Rightarrow> json" where
  "run_json kind name uid = JObj [(kind, JObj [(''metadata'', JObj [(''name'', JStr name), (''namespace'', JStr ''ci''),
     (''uid'', JStr uid), (''annotations'', JObj [(AnnoProvider, JStr ''github'')])])])]"

definition run_event_raw :: "string \<Rightarrow> string \<Rightarrow> string \<Rightarrow> string \<Rightarrow> RawEvent" where
  "run_event_raw t kind name uid = \<lparr>RawID = ''ce-'' @ name, RawType = t, RawSource = ''/tekton'', RawData = json_print (run_json kind name uid)\<rparr>"

definition demo_run :: "string \<Rightarrow> string \<Rightarrow> runObject" where
  "demo_run name uid = \<lparr>Metadata = \<lparr>rmName = name, rmNamespace = ''ci'', rmUID = uid, rmAnnotations = Some [(AnnoProvider, ''github'')],
     rmLabels = None\<rparr>, Status = zero_status\<rparr>"

lemma json_parse_run:
  assumes "valid_utf8 kind" "valid_utf8 name" "valid_utf8 uid"
  shows "json_parse (json_print (run_json kind name uid)) = Some (run_json kind name uid)"
  by (rule json_parse_print) (simp add: run_json_def assms ascii_valid_utf8 AnnoProvider_def)

lemma decode_run:
  assumes "valid_utf8 name" "valid_utf8 uid" and "kind = ''taskRun'' \<or> kind = ''pipelineRun''"
  shows "decode_payload kind (run_event_raw t kind name uid) = Inr (demo_run name uid)"
proof -
  have "valid_utf8 kind" using assms(3) by (auto simp: ascii_valid_utf8)
  moreover have "decode_struct (payload_fields kind) (run_json kind name uid) None = Some (Some (demo_run name uid))"
    by (simp add: run_json_def payload_fields_def decode_struct_def run_fields_def meta_fields_def field_defs str_map_field_def
        read_field_def find_field_def zero_run_def zero_meta_def demo_run_def)
  ultimately show ?thesis using assms(1,2)
    by (simp add: decode_payload_def Unmarshal_def run_event_raw_def json_parse_run)
qed

lemma demo_run_annotations [simp]:
  "annotation (demo_run name uid) k = (if k = AnnoProvider then ''github'' else '''')"
  "rmUID (Metadata (demo_run name uid)) = uid" "rmName (Metadata (demo_run name uid)) = name"
  by (simp_all add: annotation_def demo_run_def lookup_str_def gomap_str_def)

lemma decode_demo:
  assumes "valid_utf8 name" "valid_utf8 uid"
  shows "HasPrefix t ''dev.tekton.event.taskrun.'' \<Longrightarrow> \<exists>env. TaskRun_Decode raw (run_event_raw t ''taskRun'' name uid) = Inr env"
    and "HasPrefix t ''dev.tekton.event.pipelinerun.'' \<Longrightarrow>
      \<exists>env. PipelineRun_Decode raw (run_event_raw t ''pipelineRun'' name uid) = Inr env"
  using decode_run [OF assms, of "''taskRun''" t] decode_run [OF assms, of "''pipelineRun''" t]
  by (simp_all add: TaskRun_Decode_def PipelineRun_Decode_def baseEventFromRun_def Let_def)
    (simp_all add: run_event_raw_def)

theorem decoded_events_well_formed_witness:
  "let r = run_event_raw ''dev.tekton.event.taskrun.failed.v1'' ''taskRun'' ''build-1'' ''uid-1''
   in \<exists>env. Decode (TaskRunDecoder json_print) r = Inr env \<and> CloudEventID env = ''ce-build-1'' \<and> validate (Some env) = None"
proof -
  let ?t = "''dev.tekton.event.taskrun.failed.v1''"
  let ?r = "run_event_raw ?t ''taskRun'' ''build-1'' ''uid-1''"
  have v: "valid_utf8 ''build-1''" "valid_utf8 ''uid-1''" by (simp_all add: ascii_valid_utf8)
  obtain env where e: "TaskRun_Decode json_print ?r = Inr env" using decode_demo(1) [OF v, of ?t] by auto
  have "RunName (Report env) = ''build-1''"
    using TaskRun_decoded [OF e] decode_run [OF v, of "''taskRun''" ?t] by (auto simp: identifies_def core_def)
  moreover have "DecoderFind (buildDecoders json_print) (RawType ?r) = Inr (TaskRunDecoder json_print)"
    by (simp add: buildDecoders_def DecoderRegister_def NewDecoderRegistry_def TaskRunDecoder_def run_event_raw_def)
  ultimately show ?thesis
    using decoded_events_well_formed [of json_print ?r "TaskRunDecoder json_print" env] e
    by (simp add: TaskRunDecoder_def run_event_raw_def)
qed

text \<open>
  C29 A pipeline's summary has no tasks and is not posted: when the TaskRun events a receiver accumulates
  were decoded from payloads whose TaskRuns have uids of their own (none has the uid of the PipelineRun)
  and no group is set, then the end of the PipelineRun, decoded from its payload, posts nothing, however
  many tasks were collected.
\<close>

theorem decoded_runs_post_no_summary:
  assumes "expirable_cache ops live cap ttl" and "acBuffer a = lru_buffer iter ops"
    and "\<forall>t. lru_tasks live t b u = []"
    and "\<forall>x \<in> set xs. \<exists>r env obj. TaskRun_Decode raw r = Inr env \<and> snd x = Report env \<and> decode_payload ''taskRun'' r = Inr obj \<and>
      rmUID (Metadata obj) \<noteq> u \<and> annotation obj AnnoAccumulatorGroupID = ''''"
    and "PipelineRun_Decode raw p = Inr fin" and "decode_payload ''pipelineRun'' p = Inr pobj"
    and "rmUID (Metadata pobj) = u" and "annotation pobj AnnoAccumulatorGroupID = ''''"
    and "handle_events a ctx xs (b, w) = (b', w')"
  shows "fst (Accumulator_Handle a t ctx (Report fin) (b', w')) = None \<and>
    snd (snd (Accumulator_Handle a t ctx (Report fin) (b', w'))) = w'"
proof -
  have xs: "AccumulatorGroupID (snd x) = '''' \<and> (ResourceOf (snd x) = ResourceTaskRun \<longrightarrow> RunID (snd x) \<noteq> u)" if "x \<in> set xs" for x
    using assms(4) that TaskRun_decoded by (fastforce simp: identifies_def core_def)
  have "identifies p ResourcePipelineRun pobj fin" using PipelineRun_decoded [OF assms(5)] assms(6) by auto
  then have fin: "RunID (Report fin) = u" "AccumulatorGroupID (Report fin) = ''''" "ResourceOf (Report fin) = ResourcePipelineRun"
    using assms(7,8) by (auto simp: identifies_def core_def)
  show ?thesis
    using lru_summary.lru_no_summary [OF lru_summary.intro [OF assms(1)] assms(2) assms(3) [folded no_tasks_def] _ fin assms(9)] xs
    by blast
qed

theorem decoded_runs_post_no_summary_witness:
  "let ctx = \<lparr>CloudEventIDKey = None, CtxTimeout = None\<rparr>; b = \<lparr>bufCache = [], bufGroups = []\<rparr>;
       task = run_event_raw ''dev.tekton.event.taskrun.successful.v1'' ''taskRun'' ''build'' ''uid-t'';
       run = run_event_raw ''dev.tekton.event.pipelinerun.successful.v1'' ''pipelineRun'' ''run'' ''uid-p''
   in \<exists>e fin b' w'. TaskRun_Decode json_print task = Inr e \<and> PipelineRun_Decode json_print run = Inr fin \<and>
     handle_events demo_accumulator ctx [(1, Report e)] (b, []) = (b', w') \<and>
     snd (snd (Accumulator_Handle demo_accumulator 3 ctx (Report fin) (b', w'))) = w'"
proof -
  let ?ctx = "\<lparr>CloudEventIDKey = None, CtxTimeout = None\<rparr>"
  let ?b = "\<lparr>bufCache = [], bufGroups = []\<rparr> :: (string, RunState \<times> Time) gomap LRUBuffer"
  let ?t = "''dev.tekton.event.taskrun.successful.v1''" let ?p = "''dev.tekton.event.pipelinerun.successful.v1''"
  have v: "valid_utf8 ''build''" "valid_utf8 ''uid-t''" "valid_utf8 ''run''" "valid_utf8 ''uid-p''"
    by (simp_all add: ascii_valid_utf8)
  obtain e where e: "TaskRun_Decode json_print (run_event_raw ?t ''taskRun'' ''build'' ''uid-t'') = Inr e"
    using decode_demo(1) [OF v(1,2), of ?t] by auto
  obtain fin where f: "PipelineRun_Decode json_print (run_event_raw ?p ''pipelineRun'' ''run'' ''uid-p'') = Inr fin"
    using decode_demo(2) [OF v(3,4), of ?p] by auto
  obtain b' w' where h: "handle_events demo_accumulator ?ctx [(1, Report e)] (?b, []) = (b', w')" by fastforce
  have law: "expirable_cache (list_xlru 10 (30 * nsPerSec)) list_live 10 (30 * nsPerSec)" by (rule list_xlru_laws) simp
  have "snd (snd (Accumulator_Handle demo_accumulator 3 ?ctx (Report fin) (b', w'))) = w'"
  proof (rule decoded_runs_post_no_summary [OF law _ _ _ f _ _ _ h, THEN conjunct2])
    show "\<forall>x \<in> set [(1 :: Time, Report e)]. \<exists>r env obj. TaskRun_Decode json_print r = Inr env \<and> snd x = Report env \<and>
        decode_payload ''taskRun'' r = Inr obj \<and> rmUID (Metadata obj) \<noteq> ''uid-p'' \<and> annotation obj AnnoAccumulatorGroupID = ''''"
      using e decode_run [OF v(1,2), of "''taskRun''" ?t] by (auto simp: AnnoProvider_def AnnoAccumulatorGroupID_def intro!: exI)
    show "decode_payload ''pipelineRun'' (run_event_raw ?p ''pipelineRun'' ''run'' ''uid-p'') = Inr (demo_run ''run'' ''uid-p'')"
      using decode_run [OF v(3,4)] by simp
  qed (simp_all add: demo_accumulator_def lru_tasks_def list_live_def AnnoProvider_def AnnoAccumulatorGroupID_def)
  with e f h show ?thesis unfolding Let_def by blast
qed

section \<open>A loaded configuration starts\<close>

text \<open>What the process takes from the configuration for the retries and the authentication.\<close>

definition retry_policy_of :: "Config \<Rightarrow> RetryPolicy" where
  "retry_policy_of c = \<lparr>MaxAttempts = rt_MaxAttempts (cf_Retry c), InitialBackoff = rt_InitialBackoff (cf_Retry c),
     MaxBackoff = rt_MaxBackoff (cf_Retry c)\<rparr>"

definition auth_config_of :: "string \<Rightarrow> Config \<Rightarrow> AuthConfig" where
  "auth_config_of secret c =
     (let a = srv_Auth (cf_Server c)
      in \<lparr>AuthTypeOf = sa_Type a, Secret = secret, ValidateTimestamp = sa_ValidateTimestamp a,
          TimestampTolerance = sa_TimestampTolerance a\<rparr>)"

lemma Load_accepted:
  assumes "Load ck yaml file = Inr c"
  shows "\<exists>c0. c = applyDefaults c0" and "sections_ok ck c"
  using assms by (auto simp: Load_def Let_def Validate_None split: sum.splits option.splits)

lemma defaulted_fields:
  "cf_MaxConcurrency (applyDefaults c) \<noteq> 0" "rt_MaxAttempts (cf_Retry (applyDefaults c)) \<noteq> 0"
  "rt_InitialBackoff (cf_Retry (applyDefaults c)) \<noteq> 0" "rt_MaxBackoff (cf_Retry (applyDefaults c)) \<noteq> 0"
  "ef_AllowTaskRun (cf_Filter (applyDefaults c)) \<or> ef_AllowPipelineRun (cf_Filter (applyDefaults c))"
  by (auto simp: defaults_defs or_default_def nsPerSec_def defaults_filter_def)



section \<open>From the payload to the commit status\<close>

text \<open>
  C38 A decoded event is never refused by GitHub's limit on descriptions: the status action of a GitHub instance
  passes over events that are for another host or name no commit or repository, refuses those whose
  context is longer than 255 characters, and for every other decoded event makes exactly one call, which
  sets a state that GitHub knows, with the event's context and description.
\<close>

theorem decoded_status_posted:
  assumes "DecoderFind (buildDecoders raw) (RawType r) = Inr d" and "Decode d r = Inr env" and "e = Report env"
  shows "\<exists>st \<in> {''pending'', ''success'', ''failure'', ''error''}.
     GitHub_Status_Handle api e w =
       (if Provider e \<noteq> ''github'' \<or> CommitSHA e = '''' \<or> Owner (RepoOf e) = '''' \<or> RepoName (RepoOf e) = '''' then (None, w)
        else if 255 < RuneCount (Context e) then (scm_Validate ''github'' ''status_context'' (Context e), w)
        else ghCreateStatus api (Owner (RepoOf e)) (RepoName (RepoOf e)) (CommitSHA e)
          \<lparr>gsState = st, gsContext = Context e, gsDescription = nonempty (Description e), gsTargetURL = nonempty (TargetURL e)\<rparr> w) \<and>
     (255 < RuneCount (Context e) \<longrightarrow> scm_Validate ''github'' ''status_context'' (Context e) \<noteq> None)"
proof -
  have "length (Description e) \<le> 140"
    using registered_decodes [OF assms(1,2)] identified_presentable listener_presentable unfolding assms(3) by blast
  then have d: "scm_Validate ''github'' ''status_description'' (Description e) = None"
    by (intro scm_Validate_short) (auto simp: Limits_def field_limit_def)
  have c: "scm_Validate ''github'' ''status_context'' (Context e) = None \<longleftrightarrow> \<not> 255 < RuneCount (Context e)"
    by (simp add: scm_Validate_def Limits_def field_limit_def)
  have "StateMap_Map githubStateMap (StateOf e) ''error'' \<in> {''pending'', ''success'', ''failure'', ''error''}"
    by (simp add: StateMap_Map_def githubStateMap_def)
  with c d show ?thesis
    by (intro bexI [of _ "StateMap_Map githubStateMap (StateOf e) ''error''"])
      (auto simp: GitHub_Status_Handle_def after_def split: option.split)
qed

text \<open>A TaskRun whose annotations name a commit, and an API that lists the states it was given.\<close>

definition commit_json :: json where
  "commit_json = JObj [(''taskRun'', JObj [(''metadata'', JObj [(''name'', JStr ''build-1''), (''uid'', JStr ''uid-1''),
     (''annotations'', JObj [(AnnoProvider, JStr ''github''), (anno ''scm.commit-sha'', JStr ''abc123''),
       (anno ''scm.repo-owner'', JStr ''team''), (anno ''scm.repo-name'', JStr ''repo'')])])])]"

definition commit_run :: runObject where
  "commit_run = \<lparr>Metadata = zero_meta\<lparr>rmName := ''build-1'', rmUID := ''uid-1'',
     rmAnnotations := Some [(AnnoProvider, ''github''), (anno ''scm.commit-sha'', ''abc123''), (anno ''scm.repo-owner'', ''team''),
       (anno ''scm.repo-name'', ''repo'')]\<rparr>, Status = zero_status\<rparr>"

definition commit_raw :: RawEvent where
  "commit_raw = \<lparr>RawID = ''ce-1'', RawType = ''dev.tekton.event.taskrun.failed.v1'', RawSource = ''/tekton'', RawData = json_print commit_json\<rparr>"

definition status_api :: "(string \<times> string) list GitHubAPI" where
  "status_api = idle_api\<lparr>ghCreateStatus := \<lambda>_ _ sha st w. (None, (sha, gsState st) # w)\<rparr>"

lemma commit_decoded:
  "\<exists>env. TaskRun_Decode json_print commit_raw = Inr env \<and> Provider (Report env) = ''github'' \<and> CommitSHA (Report env) = ''abc123'' \<and>
     Owner (RepoOf (Report env)) = ''team'' \<and> RepoName (RepoOf (Report env)) = ''repo'' \<and> length (Context (Report env)) \<le> 255"
proof -
  have parse: "json_parse (json_print commit_json) = Some commit_json"
    by (rule json_parse_print) (simp add: commit_json_def ascii_valid_utf8 AnnoProvider_def)
  have "decode_struct (payload_fields ''taskRun'') commit_json None = Some (Some commit_run)"
    by (simp add: commit_json_def payload_fields_def decode_struct_def run_fields_def meta_fields_def field_defs str_map_field_def
        read_field_def find_field_def zero_run_def zero_meta_def commit_run_def AnnoProvider_def)
  with parse have dec: "decode_payload ''taskRun'' commit_raw = Inr commit_run"
    by (simp add: decode_payload_def Unmarshal_def commit_raw_def)
  have ann: "annotation commit_run AnnoProvider = ''github''" "annotation commit_run (anno ''scm.commit-sha'') = ''abc123''"
    "annotation commit_run (anno ''scm.repo-owner'') = ''team''" "annotation commit_run (anno ''scm.repo-name'') = ''repo''"
    "annotation commit_run AnnoContext = ''''"
    by (simp_all add: annotation_def commit_run_def lookup_str_def gomap_str_def AnnoProvider_def AnnoContext_def)
  have run: "label commit_run k = ''''" "Status commit_run = zero_status" "rmName (Metadata commit_run) = ''build-1''" for k
    by (simp_all add: label_def commit_run_def zero_meta_def lookup_str_def)
  have raw_type: "RawType commit_raw = ''dev.tekton.event.taskrun.failed.v1''" by (simp add: commit_raw_def)
  have status: "rsStartTime zero_status = None" "rsCompletionTime zero_status = None" "rsTaskResults zero_status = []" "rsTaskSpec zero_status = None"
    by (simp_all add: zero_status_def)
  obtain e where e: "baseEventFromRun commit_run ResourceTaskRun (RawType commit_raw) = Inr e" "Provider e = ''github''" "CommitSHA e = ''abc123''"
      "Owner (RepoOf e) = ''team''" "RepoName (RepoOf e) = ''repo''"
    using ann by (simp add: baseEventFromRun_def)
  have "Provider (taskrun_report json_print commit_run e) = ''github'' \<and> CommitSHA (taskrun_report json_print commit_run e) = ''abc123'' \<and>
      RepoOf (taskrun_report json_print commit_run e) = RepoOf e \<and> Context (taskrun_report json_print commit_run e) = ''tekton/task/build-1''"
    using e ann run status
    by (simp add: taskrun_report_def contextOfTaskRun_def applyTimestamps_def applyOptionalNumbers_def Let_def spec_name_def prefix_tekton_def first_nonempty_def)
  moreover have "TaskRun_Decode json_print commit_raw = Inr (envelope_of commit_raw (taskrun_report json_print commit_run e))"
    using dec e(1) raw_type by (simp add: TaskRun_Decode_def)
  ultimately show ?thesis using e by (simp add: envelope_of_def)
qed

theorem decoded_status_posted_witness:
  "\<exists>env. \<exists>st \<in> {''pending'', ''success'', ''failure'', ''error''}. Decode (TaskRunDecoder json_print) commit_raw = Inr env \<and>
     GitHub_Status_Handle status_api (Report env) [] = (None, [(''abc123'', st)])"
proof -
  obtain env where e: "TaskRun_Decode json_print commit_raw = Inr env" "Provider (Report env) = ''github''" "CommitSHA (Report env) = ''abc123''"
      "Owner (RepoOf (Report env)) = ''team''" "RepoName (RepoOf (Report env)) = ''repo''" "length (Context (Report env)) \<le> 255"
    using commit_decoded by blast
  have "\<not> 255 < RuneCount (Context (Report env))" using e(6) RuneCount_le_length [of "Context (Report env)"] by linarith
  moreover have f: "DecoderFind (buildDecoders json_print) (RawType commit_raw) = Inr (TaskRunDecoder json_print)"
    by (simp add: buildDecoders_def DecoderRegister_def NewDecoderRegistry_def TaskRunDecoder_def commit_raw_def)
  moreover have dec: "Decode (TaskRunDecoder json_print) commit_raw = Inr env" using e(1) by (simp add: TaskRunDecoder_def)
  ultimately show ?thesis using decoded_status_posted [OF f dec refl, of status_api "[]"] e
    by (intro exI [of _ env]) (auto simp: status_api_def)
qed

end
